(* ===== verification/Prelude.thy ===== *)
theory Prelude
  imports Main "HOL-Library.Word" "HOL-Library.AList"
begin

text \<open>
  Shared vocabulary of the development: the Go values every package of the program uses (UUIDs,
  byte strings, \<^verbatim>\<open>time.Time\<close>, 64-bit integers, maps with iteration), the small part of the
  \<^verbatim>\<open>strings\<close> package the sources call, and the lemma collections the component theories
  work with.

  A Go string is a list of bytes (\<open>string\<close>, 8-bit characters). A UUID is its 128 bits. A time is the
  number of nanoseconds since Go's zero time, so that \<^verbatim>\<open>IsZero\<close> is equality with 0. A Go map is
  an association list: \<open>map_of\<close> reads it, \<open>AList.update\<close> writes it, \<open>AList.delete\<close> removes a
  key, and its order stands for one of the iteration orders Go may choose.
\<close>

named_theorems go_simps \<open>evaluation of Go library operations\<close>
named_theorems view_simps \<open>restriction of a table to the rows of one tenant\<close>
named_theorems inv_intros \<open>preservation of component invariants\<close>

section \<open>UUIDs, time and machine integers\<close>

type_synonym uuid = "128 word"
type_synonym bytes = string
type_synonym gotime = int

abbreviation uuid_Nil :: uuid where
  "uuid_Nil \<equiv> 0"

definition IsZero :: "gotime \<Rightarrow> bool" where
  [go_simps]: "IsZero t \<longleftrightarrow> t = 0"

text \<open>Nanoseconds between Go's zero time (year 1) and the Unix epoch.\<close>

definition unix_epoch :: gotime where
  "unix_epoch = 62135596800000000000"

definition UnixMicro :: "gotime \<Rightarrow> int" where
  "UnixMicro t = (t - unix_epoch) div 1000"

definition time_UnixMicro :: "int \<Rightarrow> gotime" where
  "time_UnixMicro us = unix_epoch + us * 1000"

definition Unix :: "gotime \<Rightarrow> int" where
  "Unix t = (t - unix_epoch) div 1000000000"

definition int64 :: "int \<Rightarrow> int" where
  "int64 n = sint (word_of_int n :: 64 word)"

definition Millisecond :: int where "Millisecond = 1000000"
definition Second :: int where "Second = 1000000000"

section \<open>The strings package\<close>

definition HasPrefix :: "bytes \<Rightarrow> bytes \<Rightarrow> bool" where
  "HasPrefix s p \<longleftrightarrow> take (length p) s = p"

definition TrimPrefix :: "bytes \<Rightarrow> bytes \<Rightarrow> bytes" where
  "TrimPrefix s p = (if HasPrefix s p then drop (length p) s else s)"

text \<open>\<^verbatim>\<open>strings.Split\<close> with a one-byte separator: always at least one part.\<close>

fun Split :: "bytes \<Rightarrow> char \<Rightarrow> bytes list" where
  "Split [] sep = [[]]"
| "Split (c # cs) sep =
     (if c = sep then [] # Split cs sep
      else (case Split cs sep of [] \<Rightarrow> [[c]] | p # ps \<Rightarrow> (c # p) # ps))"

text \<open>\<^verbatim>\<open>strings.IndexByte\<close>, with \<open>None\<close> for -1.\<close>

fun IndexByte :: "bytes \<Rightarrow> char \<Rightarrow> nat option" where
  "IndexByte [] c = None"
| "IndexByte (x # xs) c = (if x = c then Some 0 else map_option Suc (IndexByte xs c))"

definition is_space :: "char \<Rightarrow> bool" where
  "is_space c \<longleftrightarrow> c \<in> {CHR '' '', CHR 0x09, CHR 0x0A, CHR 0x0B, CHR 0x0C, CHR 0x0D}"

text \<open>\<^verbatim>\<open>strings.TrimSpace\<close> on the ASCII white space.\<close>

definition TrimSpace :: "bytes \<Rightarrow> bytes" where
  "TrimSpace s = rev (dropWhile is_space (rev (dropWhile is_space s)))"

definition lower_char :: "char \<Rightarrow> char" where
  "lower_char c = (if 65 \<le> (of_char c :: nat) \<and> (of_char c :: nat) \<le> 90
                   then char_of ((of_char c :: nat) + 32) else c)"

text \<open>\<^verbatim>\<open>strings.ToLower\<close> on ASCII.\<close>

definition ToLower :: "bytes \<Rightarrow> bytes" where
  "ToLower s = map lower_char s"

text \<open>\<open>needle\<close> occurs in \<open>haystack\<close>: the meaning of \<^verbatim>\<open>strings.Contains\<close>.\<close>

fun Contains :: "bytes \<Rightarrow> bytes \<Rightarrow> bool" where
  "Contains [] needle = (needle = [])"
| "Contains (c # cs) needle = (HasPrefix (c # cs) needle \<or> Contains cs needle)"

text \<open>Go's \<^verbatim>\<open><\<close> on strings and SQLite's BINARY collation: lexicographic order of the bytes.\<close>

fun str_less :: "string \<Rightarrow> string \<Rightarrow> bool" where
  "str_less _ [] = False"
| "str_less [] (_ # _) = True"
| "str_less (a # as) (b # bs) =
     ((of_char a :: nat) < of_char b \<or> ((of_char a :: nat) = of_char b \<and> str_less as bs))"

section \<open>Decimal digits (strconv)\<close>

definition is_digit :: "char \<Rightarrow> bool" where
  "is_digit c \<longleftrightarrow> 48 \<le> (of_char c :: nat) \<and> (of_char c :: nat) \<le> 57"

definition digit_val :: "char \<Rightarrow> nat" where
  "digit_val c = of_char c - 48"

definition digit_char :: "nat \<Rightarrow> char" where
  "digit_char d = char_of (d + 48)"

fun digits :: "nat \<Rightarrow> bytes" where
  "digits n = (if n < 10 then [digit_char n] else digits (n div 10) @ [digit_char (n mod 10)])"

declare digits.simps [simp del]

definition digits_val :: "bytes \<Rightarrow> nat" where
  "digits_val s = foldl (\<lambda>n c. n * 10 + digit_val c) 0 s"

text \<open>\<^verbatim>\<open>strconv.ParseUint(s, 10, bits)\<close>.\<close>

definition ParseUint :: "nat \<Rightarrow> bytes \<Rightarrow> nat option" where
  "ParseUint w s = (if s \<noteq> [] \<and> list_all is_digit s \<and> digits_val s < 2 ^ w
                    then Some (digits_val s) else None)"

text \<open>\<^verbatim>\<open>strconv.ParseInt(s, 10, 64)\<close>: an optional sign, then digits, within the 64-bit range.\<close>

definition ParseInt64 :: "bytes \<Rightarrow> int option" where
  "ParseInt64 s =
     (let neg = (take 1 s = ''-'');
          body = (if take 1 s = ''-'' \<or> take 1 s = ''+'' then drop 1 s else s);
          v = (if neg then - int (digits_val body) else int (digits_val body))
      in if body \<noteq> [] \<and> list_all is_digit body \<and> - (2 ^ 63) \<le> v \<and> v < 2 ^ 63 then Some v else None)"

definition FormatInt :: "int \<Rightarrow> bytes" where
  "FormatInt n = (if n < 0 then ''-'' @ digits (nat (- n)) else digits (nat n))"

section \<open>The last entries of a list\<close>

definition lastn :: "nat \<Rightarrow> 'a list \<Rightarrow> 'a list" where
  "lastn n xs = drop (length xs - n) xs"

section \<open>Lemmas\<close>

lemma UnixMicro_time_UnixMicro [simp]: "UnixMicro (time_UnixMicro us) = us"
  by (simp add: UnixMicro_def time_UnixMicro_def)

lemma UnixMicro_mono: "t \<le> u \<Longrightarrow> UnixMicro t \<le> UnixMicro u"
  by (simp add: UnixMicro_def zdiv_mono1)

lemma time_UnixMicro_less_iff [simp]: "time_UnixMicro a < time_UnixMicro b \<longleftrightarrow> a < b"
  by (simp add: time_UnixMicro_def)

lemma time_UnixMicro_UnixMicro:
  "time_UnixMicro (UnixMicro t) \<le> t \<and> t < time_UnixMicro (UnixMicro t) + 1000"
proof -
  define d where "d = t - unix_epoch"
  have "d div 1000 * 1000 \<le> d" and "d < d div 1000 * 1000 + 1000"
    by presburger+
  then show ?thesis by (simp add: UnixMicro_def time_UnixMicro_def d_def)
qed

lemma int64_id: "- (2 ^ 63) \<le> n \<Longrightarrow> n < 2 ^ 63 \<Longrightarrow> int64 n = n"
  by (simp add: int64_def int_word_sint)

lemma HasPrefix_append [simp]: "HasPrefix (p @ s) p"
  by (simp add: HasPrefix_def)

lemma HasPrefix_iff: "HasPrefix s p \<longleftrightarrow> (\<exists>t. s = p @ t)"
  by (metis HasPrefix_append HasPrefix_def append_take_drop_id)

lemma TrimPrefix_append [simp]: "TrimPrefix (p @ s) p = s"
  by (simp add: TrimPrefix_def)

lemma Contains_iff: "Contains h n \<longleftrightarrow> (\<exists>a b. h = a @ n @ b)"
proof (induction h)
  case Nil
  then show ?case by auto
next
  case (Cons c cs)
  show ?case
  proof
    assume "Contains (c # cs) n"
    then consider "HasPrefix (c # cs) n" | "Contains cs n" by auto
    then show "\<exists>a b. c # cs = a @ n @ b"
    proof cases
      case 1
      then obtain t where "c # cs = [] @ n @ t" by (auto simp: HasPrefix_iff)
      then show ?thesis by blast
    next
      case 2
      then obtain a b where "c # cs = (c # a) @ n @ b" using Cons.IH by auto
      then show ?thesis by blast
    qed
  next
    assume "\<exists>a b. c # cs = a @ n @ b"
    then obtain a b where ab: "c # cs = a @ n @ b" by blast
    show "Contains (c # cs) n"
    proof (cases a)
      case Nil
      with ab have "HasPrefix (c # cs) n" by (auto simp: HasPrefix_iff)
      then show ?thesis by simp
    next
      case (Cons x xs)
      with ab have "cs = xs @ n @ b" by simp
      with Cons.IH show ?thesis by auto
    qed
  qed
qed

lemma str_less_irrefl [simp]: "\<not> str_less s s"
  by (induction s) auto

lemma str_less_asym: "str_less s t \<Longrightarrow> \<not> str_less t s"
  by (induction s t rule: str_less.induct) auto

lemma str_less_linear: "str_less s t \<or> s = t \<or> str_less t s"
proof (induction s t rule: str_less.induct)
  case (1 s)
  then show ?case by (cases s) auto
next
  case (2 b bs)
  then show ?case by simp
next
  case (3 a as b bs)
  then show ?case using of_char_eq_iff [where 'a = nat] by (auto simp: not_less_iff_gr_or_eq)
qed

lemma str_less_trans: "str_less s t \<Longrightarrow> str_less t u \<Longrightarrow> str_less s u"
proof (induction s u arbitrary: t rule: str_less.induct)
  case (1 s)
  then show ?case by (cases t) auto
next
  case (2 b bs)
  then show ?case by simp
next
  case (3 a as b bs)
  then show ?case by (cases t) auto
qed

lemma Split_not_Nil [simp]: "Split s sep \<noteq> []"
  by (induction s) (auto split: list.splits)

lemma Split_no_sep: "sep \<notin> set s \<Longrightarrow> Split s sep = [s]"
  by (induction s) auto

lemma Split_append_sep: "sep \<notin> set s \<Longrightarrow> Split (s @ sep # t) sep = s # Split t sep"
  by (induction s) auto

lemma is_digit_digit_char: "d < 10 \<Longrightarrow> is_digit (digit_char d)"
  by (simp add: is_digit_def digit_char_def)

lemma digit_val_digit_char: "d < 10 \<Longrightarrow> digit_val (digit_char d) = d"
  by (simp add: digit_val_def digit_char_def)

lemma digits_not_Nil [simp]: "digits n \<noteq> []"
  by (subst digits.simps) simp

lemma digits_are_digits: "list_all is_digit (digits n)"
proof (induction n rule: digits.induct)
  case (1 n)
  then show ?case
    by (subst digits.simps) (auto simp: is_digit_digit_char)
qed

lemma digits_val_append: "digits_val (s @ [c]) = digits_val s * 10 + digit_val c"
  by (simp add: digits_val_def)

lemma digits_val_digits [simp]: "digits_val (digits n) = n"
proof (induction n rule: digits.induct)
  case (1 n)
  show ?case
  proof (cases "n < 10")
    case True
    then show ?thesis
      by (subst digits.simps) (simp add: digits_val_def digit_val_digit_char)
  next
    case False
    with 1 have "digits_val (digits (n div 10)) = n div 10" by simp
    moreover have "digits n = digits (n div 10) @ [digit_char (n mod 10)]"
      using False by (subst digits.simps) simp
    ultimately show ?thesis
      by (simp add: digits_val_append digit_val_digit_char)
  qed
qed

lemma ParseUint_digits: "n < 2 ^ w \<Longrightarrow> ParseUint w (digits n) = Some n"
  by (simp add: ParseUint_def digits_are_digits)

lemma digits_hd: "is_digit (hd (digits n))"
  using digits_are_digits [of n] by (cases "digits n") auto

lemma ParseInt64_FormatInt:
  assumes "- (2 ^ 63) \<le> n" and "n < 2 ^ 63"
  shows "ParseInt64 (FormatInt n) = Some n"
proof (cases "n < 0")
  case True
  with assms show ?thesis
    by (simp add: ParseInt64_def FormatInt_def Let_def digits_are_digits)
next
  case False
  obtain c cs where c: "digits (nat n) = c # cs" and d: "is_digit c"
    using digits_hd [of "nat n"] by (cases "digits (nat n)") auto
  have "c \<noteq> CHR ''-''" and "c \<noteq> CHR ''+''"
    using d by (auto simp: is_digit_def)
  with False assms c show ?thesis
    using digits_are_digits [of "nat n"] digits_val_digits [of "nat n"]
    by (simp add: ParseInt64_def FormatInt_def Let_def)
qed

subsection \<open>Suffixes\<close>

lemma rev_take_rev: "rev (take n (rev xs)) = lastn n xs"
  by (simp add: lastn_def take_rev)

lemma lastn_map: "lastn n (map f xs) = map f (lastn n xs)"
  by (simp add: lastn_def drop_map)

lemma length_lastn [simp]: "length (lastn n xs) = min n (length xs)"
  by (simp add: lastn_def)

lemma lastn_all: "length xs \<le> n \<Longrightarrow> lastn n xs = xs"
  by (simp add: lastn_def)

lemma lastn_split: "xs = take (length xs - n) xs @ lastn n xs"
  by (simp add: lastn_def)

lemma lastn_append_one: "0 < n \<Longrightarrow> lastn n (xs @ [x]) = lastn (n - 1) xs @ [x]"
  by (cases "n - 1 \<le> length xs") (auto simp: lastn_def Suc_diff_le)

lemma lastn_0 [simp]: "lastn 0 xs = []"
  by (simp add: lastn_def)

lemma lastn_Suc:
  assumes "n < length xs"
  shows "lastn (Suc n) xs = xs ! (length xs - Suc n) # lastn n xs"
  using assms unfolding lastn_def by (metis Suc_diff_Suc Cons_nth_drop_Suc diff_less zero_less_Suc le_eq_less_or_eq length_greater_0_conv list.size(3) not_less_zero)

subsection \<open>Restricting tables to a tenant\<close>

lemma filter_filter_disjoint:
  "(\<And>x. P x \<Longrightarrow> \<not> Q x) \<Longrightarrow> filter P (filter (\<lambda>x. \<not> Q x) xs) = filter P xs"
  by (induction xs) auto

lemma filter_map_disjoint:
  assumes "\<And>x. Q x \<Longrightarrow> \<not> P x" and "\<And>x. Q x \<Longrightarrow> \<not> P (f x)"
  shows "filter P (map (\<lambda>x. if Q x then f x else x) xs) = filter P xs"
  by (induction xs) (use assms in auto)

lemma find_scoped [view_simps]:
  "find (\<lambda>r. t r = T \<and> P r) (filter (\<lambda>r. t r = T) rows) = find (\<lambda>r. t r = T \<and> P r) rows"
  by (induction rows) auto

lemma filter_scoped [view_simps]:
  "filter (\<lambda>r. t r = T \<and> P r) (filter (\<lambda>r. t r = T) rows) = filter (\<lambda>r. t r = T \<and> P r) rows"
  by (induction rows) auto

subsection \<open>Keys of association lists and tables\<close>

lemma distinct_map_append_fresh:
  "distinct (map k rows) \<Longrightarrow> (\<forall>r \<in> set rows. k r \<noteq> k x) \<Longrightarrow> distinct (map k (rows @ [x]))"
  by (auto simp: image_iff)

lemma distinct_map_keyed_update:
  assumes "distinct (map k rows)" and "\<And>r. k (f r) = k r"
  shows "distinct (map k (map (\<lambda>r. if P r then f r else r) rows))"
proof -
  have "map k (map (\<lambda>r. if P r then f r else r) rows) = map k rows"
    using assms(2) by (induction rows) auto
  with assms(1) show ?thesis by (simp only:)
qed

lemma find_key_unique:
  assumes "distinct (map k rows)" and "r \<in> set rows" and "P r"
    and "\<And>x. x \<in> set rows \<Longrightarrow> P x \<Longrightarrow> k x = k r"
  shows "find P rows = Some r"
proof -
  have "x = r" if "x \<in> set rows" and "P x" for x
    using assms that by (metis distinct_map inj_on_def)
  moreover have "find P rows \<noteq> None"
    using assms(2,3) by (auto simp: find_None_iff)
  ultimately show ?thesis
    using find_Some_iff [of P rows] by (metis not_None_eq nth_mem)
qed

end
