(* ===== verification/Storage.thy ===== *)
theory Storage
  imports Prelude
begin

text \<open>
  The durable model (\<^verbatim>\<open>internal/storage/storage.go\<close>): the row types of the store, the
  error vocabulary, the channel roles and what they permit. Go's string types (roles, visibilities,
  statuses) stay strings, because the store accepts any text in those columns. JSON blobs that the
  storage layer never reads (\<^verbatim>\<open>MatchJSON\<close>, \<^verbatim>\<open>BudgetJSON\<close>,
  \<^verbatim>\<open>SettingsJSON\<close>, the tenant's settings) stay byte strings.
\<close>

section \<open>Error vocabulary\<close>

text \<open>The three sentinels, and every other failure (driver errors, a broken id generator).\<close>

datatype store_error = ErrNotFound | ErrAlreadyExists | ErrInvalid | ErrOther

section \<open>Tenants and accounts\<close>

record Tenant =
  ten_ID :: uuid
  ten_Slug :: string
  ten_DisplayName :: string
  ten_Settings :: bytes
  ten_Status :: string
  ten_CreatedAt :: gotime

definition TenantActive :: string where "TenantActive = ''active''"
definition TenantSuspended :: string where "TenantSuspended = ''suspended''"

definition AccountHuman :: string where "AccountHuman = ''human''"
definition AccountBot :: string where "AccountBot = ''bot''"

record Account =
  acc_ID :: uuid
  acc_TenantID :: uuid
  acc_Username :: string
  acc_DisplayName :: string
  acc_Type :: string
  acc_PasswordHash :: bytes
  acc_PasswordSalt :: bytes
  acc_PasswordParams :: string
  acc_RecoveryEmail :: string
  acc_CreatedAt :: gotime

section \<open>Channels and their access lists\<close>

definition ChannelPrivate :: string where "ChannelPrivate = ''private''"
definition ChannelPublic :: string where "ChannelPublic = ''public''"

record ChannelRow =
  chn_ID :: uuid
  chn_TenantID :: uuid
  chn_Name :: string
  chn_OwnerID :: uuid
  chn_Visibility :: string
  chn_CreatedAt :: gotime

type_synonym ChannelRole = string

definition RoleOwner :: ChannelRole where "RoleOwner = ''owner''"
definition RoleAdmin :: ChannelRole where "RoleAdmin = ''admin''"
definition RoleMember :: ChannelRole where "RoleMember = ''member''"
definition RoleBanned :: ChannelRole where "RoleBanned = ''banned''"
definition RoleChannelOp :: ChannelRole where "RoleChannelOp = ''channel_op''"

lemmas role_defs [go_simps] =
  RoleOwner_def RoleAdmin_def RoleMember_def RoleBanned_def RoleChannelOp_def

definition CanJoin :: "ChannelRole \<Rightarrow> bool" where
  "CanJoin r \<longleftrightarrow> r = RoleOwner \<or> r = RoleAdmin \<or> r = RoleMember \<or> r = RoleChannelOp"

definition CanModerate :: "ChannelRole \<Rightarrow> bool" where
  "CanModerate r \<longleftrightarrow> r = RoleOwner \<or> r = RoleAdmin \<or> r = RoleChannelOp"

record ChannelACLEntry =
  acl_TenantID :: uuid
  acl_ChannelID :: uuid
  acl_AccountID :: uuid
  acl_Role :: ChannelRole
  acl_GrantedAt :: gotime
  acl_GrantedBy :: uuid

section \<open>Messages, subscriptions, fires, integrations\<close>

record StoredMessage =
  msg_ID :: uuid
  msg_TenantID :: uuid
  msg_ChannelID :: uuid
  msg_FromAccountID :: uuid
  msg_Body :: string
  msg_TS :: gotime
  msg_CreatedAt :: gotime

record Subscription =
  sub_ID :: uuid
  sub_TenantID :: uuid
  sub_AccountID :: uuid
  sub_ChannelID :: uuid
  sub_URL :: string
  sub_Secret :: bytes
  sub_MatchJSON :: bytes
  sub_Events :: "string list"
  sub_ContextLines :: int
  sub_DebounceMs :: int
  sub_CooldownMs :: int
  sub_BudgetJSON :: bytes
  sub_DisabledAt :: gotime
  sub_CreatedAt :: gotime

record SubscriptionFire =
  fire_ID :: uuid
  fire_TenantID :: uuid
  fire_SubscriptionID :: uuid
  fire_FiredAt :: gotime
  fire_Status :: string
  fire_Attempts :: int
  fire_LastError :: string

record Integration =
  int_ID :: uuid
  int_TenantID :: uuid
  int_ChannelID :: uuid
  int_AccountID :: uuid
  int_Adapter :: string
  int_TokenHash :: bytes
  int_SettingsJSON :: bytes
  int_DisabledAt :: gotime
  int_CreatedAt :: gotime

section \<open>Channel-operator state\<close>

record ChannelBotPause =
  pau_TenantID :: uuid
  pau_ChannelID :: uuid
  pau_BotAccountID :: uuid
  pau_PausedBy :: uuid
  pau_PausedAt :: gotime
  pau_Reason :: string

definition ModActionPauseBot :: string where "ModActionPauseBot = ''pause_bot''"
definition ModActionResumeBot :: string where "ModActionResumeBot = ''resume_bot''"

record ModerationEvent =
  mod_ID :: uuid
  mod_TenantID :: uuid
  mod_ChannelID :: uuid
  mod_ActorID :: uuid
  mod_TargetID :: uuid
  mod_Action :: string
  mod_Reason :: string
  mod_At :: gotime

record Token =
  tok_ID :: uuid
  tok_TenantID :: uuid
  tok_AccountID :: uuid
  tok_Hash :: bytes
  tok_Label :: string
  tok_CreatedAt :: gotime
  tok_LastUsedAt :: gotime
  tok_RevokedAt :: gotime

section \<open>Properties of the roles\<close>

lemma CanModerate_CanJoin: "CanModerate r \<Longrightarrow> CanJoin r"
  by (auto simp: CanModerate_def CanJoin_def)

lemma banned_cannot_join: "\<not> CanJoin RoleBanned"
  by (simp add: CanJoin_def go_simps)

end
