(* ===== verification/Sqlite.thy ===== *)
theory Sqlite
  imports Storage
begin

text \<open>
  The SQLite backend (\<^verbatim>\<open>internal/storage/sqlite/sqlite.go\<close>): one table per row type, the
  statements of every \<^verbatim>\<open>Store\<close> method and the way driver errors become the storage errors.

  A table is the list of its rows in insertion order. A row reuses the record of its model type;
  its time fields hold the INTEGER column, that is microseconds since the Unix epoch (0 in a nullable
  column means unset), and the scan functions turn a row back into a model value. The schema's
  constraints are part of the statements: PRIMARY KEY and UNIQUE columns are checked before the
  row's tenant (the foreign key). \<open>st_down\<close> stands for a failing driver: every statement then
  returns an error. The clock and the generated UUID (\<open>None\<close> when the generator fails) are arguments.
  Ties of an ORDER BY come in insertion order (and in reverse for a descending scan of an index).
\<close>

section \<open>Tables\<close>

record store =
  st_tenants :: "Tenant list"
  st_accounts :: "Account list"
  st_channels :: "ChannelRow list"
  st_acl :: "ChannelACLEntry list"
  st_tokens :: "Token list"
  st_subs :: "Subscription list"
  st_fires :: "SubscriptionFire list"
  st_integs :: "Integration list"
  st_msgs :: "StoredMessage list"
  st_pauses :: "ChannelBotPause list"
  st_mods :: "ModerationEvent list"
  st_down :: bool

definition Migrate :: store where
  "Migrate = \<lparr>st_tenants = [], st_accounts = [], st_channels = [], st_acl = [], st_tokens = [],
     st_subs = [], st_fires = [], st_integs = [], st_msgs = [], st_pauses = [], st_mods = [],
     st_down = False\<rparr>"

text \<open>An INSERT: driver failure, then uniqueness, then the tenant foreign key.\<close>

definition exec_insert :: "store \<Rightarrow> uuid \<Rightarrow> bool \<Rightarrow> store_error + unit" where
  "exec_insert s tenantID dup =
     (if st_down s then Inl ErrOther
      else if dup then Inl ErrAlreadyExists
      else if tenantID \<notin> ten_ID ` set (st_tenants s) then Inl ErrOther
      else Inr ())"

text \<open>Methods that do not look for the UNIQUE error report every failure as a driver error.\<close>

definition any_error :: "store_error + 'a \<Rightarrow> store_error + 'a" where
  "any_error r = (case r of Inl _ \<Rightarrow> Inl ErrOther | Inr x \<Rightarrow> Inr x)"

definition query_row :: "store \<Rightarrow> ('r \<Rightarrow> bool) \<Rightarrow> ('r \<Rightarrow> 'a) \<Rightarrow> 'r list \<Rightarrow> store_error + 'a" where
  "query_row s P scan rows =
     (if st_down s then Inl ErrOther
      else case find P rows of None \<Rightarrow> Inl ErrNotFound | Some r \<Rightarrow> Inr (scan r))"

definition query_rows :: "store \<Rightarrow> ('r \<Rightarrow> bool) \<Rightarrow> ('r \<Rightarrow> 'k::linorder) \<Rightarrow> ('r \<Rightarrow> 'a) \<Rightarrow> 'r list
    \<Rightarrow> store_error + 'a list" where
  "query_rows s P k scan rows =
     (if st_down s then Inl ErrOther else Inr (map scan (sort_key k (filter P rows))))"

definition or_new :: "uuid \<Rightarrow> uuid option \<Rightarrow> uuid option" where
  "or_new i newV7 = (if i = uuid_Nil then newV7 else Some i)"

definition or_now :: "gotime \<Rightarrow> gotime \<Rightarrow> gotime" where
  "or_now t now = (if IsZero t then now else t)"

definition nullable_micro :: "gotime \<Rightarrow> int" where
  "nullable_micro t = (if IsZero t then 0 else UnixMicro t)"

definition scan_nullable :: "int \<Rightarrow> gotime" where
  "scan_nullable us = (if us > 0 then time_UnixMicro us else 0)"

definition or_default :: "bytes \<Rightarrow> bytes" where
  "or_default b = (if b = [] then ''{}'' else b)"

section \<open>Tenants\<close>

definition tenant_row :: "Tenant \<Rightarrow> Tenant" where
  "tenant_row t = t\<lparr>ten_Settings := or_default (ten_Settings t), ten_CreatedAt := UnixMicro (ten_CreatedAt t)\<rparr>"

definition scanTenant :: "Tenant \<Rightarrow> Tenant" where
  "scanTenant r = r\<lparr>ten_CreatedAt := time_UnixMicro (ten_CreatedAt r)\<rparr>"

definition CreateTenant :: "gotime \<Rightarrow> uuid option \<Rightarrow> Tenant \<Rightarrow> store \<Rightarrow> store_error + store \<times> Tenant" where
  "CreateTenant now newV7 t0 s =
     (case or_new (ten_ID t0) newV7 of
        None \<Rightarrow> Inl ErrOther
      | Some i \<Rightarrow>
          let t = t0\<lparr>ten_ID := i, ten_CreatedAt := or_now (ten_CreatedAt t0) now,
                     ten_Status := (if ten_Status t0 = '''' then TenantActive else ten_Status t0)\<rparr>
          in if ten_Slug t = '''' \<or> ten_DisplayName t = '''' then Inl ErrInvalid
             else if st_down s then Inl ErrOther
             else if \<exists>r \<in> set (st_tenants s). ten_ID r = i \<or> ten_Slug r = ten_Slug t
             then Inl ErrAlreadyExists
             else Inr (s\<lparr>st_tenants := st_tenants s @ [tenant_row t]\<rparr>, t))"

definition GetTenantByID :: "uuid \<Rightarrow> store \<Rightarrow> store_error + Tenant" where
  "GetTenantByID i s = query_row s (\<lambda>r. ten_ID r = i) scanTenant (st_tenants s)"

definition GetTenantBySlug :: "string \<Rightarrow> store \<Rightarrow> store_error + Tenant" where
  "GetTenantBySlug slug s = query_row s (\<lambda>r. ten_Slug r = slug) scanTenant (st_tenants s)"

definition ListTenants :: "store \<Rightarrow> store_error + Tenant list" where
  "ListTenants s = query_rows s (\<lambda>_. True) ten_CreatedAt scanTenant (st_tenants s)"

section \<open>Accounts\<close>

definition scanAccount :: "Account \<Rightarrow> Account" where
  "scanAccount r = r\<lparr>acc_CreatedAt := time_UnixMicro (acc_CreatedAt r)\<rparr>"

definition CreateAccount :: "gotime \<Rightarrow> uuid option \<Rightarrow> uuid \<Rightarrow> Account \<Rightarrow> store
    \<Rightarrow> store_error + store \<times> Account" where
  "CreateAccount now newV7 tenantID a0 s =
     (if tenantID = uuid_Nil then Inl ErrInvalid
      else if acc_TenantID a0 \<noteq> uuid_Nil \<and> acc_TenantID a0 \<noteq> tenantID then Inl ErrInvalid
      else case or_new (acc_ID a0) newV7 of
        None \<Rightarrow> Inl ErrOther
      | Some i \<Rightarrow>
          if acc_Username a0 = '''' then Inl ErrInvalid
          else
            let a = a0\<lparr>acc_TenantID := tenantID, acc_ID := i,
                       acc_CreatedAt := or_now (acc_CreatedAt a0) now,
                       acc_DisplayName := (if acc_DisplayName a0 = '''' then acc_Username a0 else acc_DisplayName a0),
                       acc_Type := (if acc_Type a0 = '''' then AccountHuman else acc_Type a0)\<rparr>
            in if acc_PasswordHash a = [] \<or> acc_PasswordSalt a = [] \<or> acc_PasswordParams a = '''' then Inl ErrInvalid
               else case exec_insert s tenantID (\<exists>r \<in> set (st_accounts s). acc_ID r = i \<or>
                       (acc_TenantID r = tenantID \<and> acc_Username r = acc_Username a)) of
                 Inl e \<Rightarrow> Inl e
               | Inr _ \<Rightarrow> Inr (s\<lparr>st_accounts := st_accounts s @ [a\<lparr>acc_CreatedAt := UnixMicro (acc_CreatedAt a)\<rparr>]\<rparr>, a))"

definition GetAccountByID :: "uuid \<Rightarrow> uuid \<Rightarrow> store \<Rightarrow> store_error + Account" where
  "GetAccountByID tenantID i s =
     query_row s (\<lambda>r. acc_TenantID r = tenantID \<and> acc_ID r = i) scanAccount (st_accounts s)"

definition GetAccountByUsername :: "uuid \<Rightarrow> string \<Rightarrow> store \<Rightarrow> store_error + Account" where
  "GetAccountByUsername tenantID username s =
     query_row s (\<lambda>r. acc_TenantID r = tenantID \<and> acc_Username r = username) scanAccount (st_accounts s)"

section \<open>Channels and access lists\<close>

definition scanChannel :: "ChannelRow \<Rightarrow> ChannelRow" where
  "scanChannel r = r\<lparr>chn_CreatedAt := time_UnixMicro (chn_CreatedAt r)\<rparr>"

definition CreateChannel :: "gotime \<Rightarrow> uuid option \<Rightarrow> uuid \<Rightarrow> ChannelRow \<Rightarrow> store
    \<Rightarrow> store_error + store \<times> ChannelRow" where
  "CreateChannel now newV7 tenantID c0 s =
     (if tenantID = uuid_Nil then Inl ErrInvalid
      else if chn_TenantID c0 \<noteq> uuid_Nil \<and> chn_TenantID c0 \<noteq> tenantID then Inl ErrInvalid
      else case or_new (chn_ID c0) newV7 of
        None \<Rightarrow> Inl ErrOther
      | Some i \<Rightarrow>
          if chn_Name c0 = '''' then Inl ErrInvalid
          else if chn_OwnerID c0 = uuid_Nil then Inl ErrInvalid
          else
            let c = c0\<lparr>chn_TenantID := tenantID, chn_ID := i,
                       chn_CreatedAt := or_now (chn_CreatedAt c0) now,
                       chn_Visibility := (if chn_Visibility c0 = '''' then ChannelPrivate else chn_Visibility c0)\<rparr>
            in case exec_insert s tenantID (\<exists>r \<in> set (st_channels s). chn_ID r = i \<or>
                       (chn_TenantID r = tenantID \<and> chn_Name r = chn_Name c)) of
                 Inl e \<Rightarrow> Inl e
               | Inr _ \<Rightarrow> Inr (s\<lparr>st_channels := st_channels s @ [c\<lparr>chn_CreatedAt := UnixMicro (chn_CreatedAt c)\<rparr>]\<rparr>, c))"

definition GetChannelByID :: "uuid \<Rightarrow> uuid \<Rightarrow> store \<Rightarrow> store_error + ChannelRow" where
  "GetChannelByID tenantID i s =
     query_row s (\<lambda>r. chn_TenantID r = tenantID \<and> chn_ID r = i) scanChannel (st_channels s)"

definition GetChannelByName :: "uuid \<Rightarrow> string \<Rightarrow> store \<Rightarrow> store_error + ChannelRow" where
  "GetChannelByName tenantID name s =
     query_row s (\<lambda>r. chn_TenantID r = tenantID \<and> chn_Name r = name) scanChannel (st_channels s)"

fun insort_by_name :: "ChannelRow \<Rightarrow> ChannelRow list \<Rightarrow> ChannelRow list" where
  "insort_by_name c [] = [c]"
| "insort_by_name c (d # ds) =
     (if str_less (chn_Name d) (chn_Name c) then d # insort_by_name c ds else c # d # ds)"

definition ListChannels :: "uuid \<Rightarrow> store \<Rightarrow> store_error + ChannelRow list" where
  "ListChannels tenantID s =
     (if st_down s then Inl ErrOther
      else Inr (map scanChannel
        (foldr insort_by_name (filter (\<lambda>r. chn_TenantID r = tenantID) (st_channels s)) [])))"

definition scanChannelACL :: "ChannelACLEntry \<Rightarrow> ChannelACLEntry" where
  "scanChannelACL r = r\<lparr>acl_GrantedAt := time_UnixMicro (acl_GrantedAt r)\<rparr>"

definition acl_key :: "ChannelACLEntry \<Rightarrow> uuid \<times> uuid \<times> uuid" where
  "acl_key r = (acl_TenantID r, acl_ChannelID r, acl_AccountID r)"

definition SetChannelACL :: "gotime \<Rightarrow> uuid \<Rightarrow> uuid \<Rightarrow> uuid \<Rightarrow> ChannelRole \<Rightarrow> uuid \<Rightarrow> store
    \<Rightarrow> store_error + store" where
  "SetChannelACL now tenantID channelID accountID role grantedBy s =
     (if tenantID = uuid_Nil \<or> channelID = uuid_Nil \<or> accountID = uuid_Nil then Inl ErrInvalid
      else if role = '''' then Inl ErrInvalid
      else if st_down s then Inl ErrOther
      else let k = (tenantID, channelID, accountID) in
        if \<exists>r \<in> set (st_acl s). acl_key r = k
        then Inr (s\<lparr>st_acl := map (\<lambda>r. if acl_key r = k
               then r\<lparr>acl_Role := role, acl_GrantedAt := UnixMicro now, acl_GrantedBy := grantedBy\<rparr>
               else r) (st_acl s)\<rparr>)
        else if tenantID \<notin> ten_ID ` set (st_tenants s) then Inl ErrOther
        else Inr (s\<lparr>st_acl := st_acl s @ [\<lparr>acl_TenantID = tenantID, acl_ChannelID = channelID,
               acl_AccountID = accountID, acl_Role = role, acl_GrantedAt = UnixMicro now,
               acl_GrantedBy = grantedBy\<rparr>]\<rparr>))"

definition GetChannelACL :: "uuid \<Rightarrow> uuid \<Rightarrow> uuid \<Rightarrow> store \<Rightarrow> store_error + ChannelACLEntry" where
  "GetChannelACL tenantID channelID accountID s =
     query_row s (\<lambda>r. acl_TenantID r = tenantID \<and> acl_ChannelID r = channelID \<and> acl_AccountID r = accountID)
       scanChannelACL (st_acl s)"

definition ListChannelACL :: "uuid \<Rightarrow> uuid \<Rightarrow> store \<Rightarrow> store_error + ChannelACLEntry list" where
  "ListChannelACL tenantID channelID s =
     query_rows s (\<lambda>r. acl_TenantID r = tenantID \<and> acl_ChannelID r = channelID) acl_GrantedAt
       scanChannelACL (st_acl s)"

definition RemoveChannelACL :: "uuid \<Rightarrow> uuid \<Rightarrow> uuid \<Rightarrow> store \<Rightarrow> store_error + store" where
  "RemoveChannelACL tenantID channelID accountID s =
     (if st_down s then Inl ErrOther
      else Inr (s\<lparr>st_acl := filter (\<lambda>r. \<not> acl_key r = (tenantID, channelID, accountID)) (st_acl s)\<rparr>))"

section \<open>API tokens\<close>

definition scanToken :: "Token \<Rightarrow> Token" where
  "scanToken r = r\<lparr>tok_CreatedAt := time_UnixMicro (tok_CreatedAt r),
     tok_LastUsedAt := scan_nullable (tok_LastUsedAt r), tok_RevokedAt := scan_nullable (tok_RevokedAt r)\<rparr>"

definition CreateToken :: "gotime \<Rightarrow> uuid option \<Rightarrow> uuid \<Rightarrow> uuid \<Rightarrow> bytes \<Rightarrow> string \<Rightarrow> store
    \<Rightarrow> store_error + store \<times> Token" where
  "CreateToken now newV7 tenantID accountID hash label s =
     (if tenantID = uuid_Nil \<or> accountID = uuid_Nil then Inl ErrInvalid
      else if hash = [] then Inl ErrInvalid
      else case newV7 of
        None \<Rightarrow> Inl ErrOther
      | Some i \<Rightarrow>
          let t = \<lparr>tok_ID = i, tok_TenantID = tenantID, tok_AccountID = accountID, tok_Hash = hash,
                   tok_Label = label, tok_CreatedAt = now, tok_LastUsedAt = 0, tok_RevokedAt = 0\<rparr>
          in case exec_insert s tenantID (\<exists>r \<in> set (st_tokens s). tok_ID r = i \<or> tok_Hash r = hash) of
               Inl e \<Rightarrow> Inl e
             | Inr _ \<Rightarrow> Inr (s\<lparr>st_tokens := st_tokens s @ [t\<lparr>tok_CreatedAt := UnixMicro now\<rparr>]\<rparr>, t))"

definition GetTokenByHash :: "bytes \<Rightarrow> store \<Rightarrow> store_error + Token" where
  "GetTokenByHash hash s =
     query_row s (\<lambda>r. tok_Hash r = hash \<and> tok_RevokedAt r = 0) scanToken (st_tokens s)"

definition ListTokens :: "uuid \<Rightarrow> uuid \<Rightarrow> store \<Rightarrow> store_error + Token list" where
  "ListTokens tenantID accountID s =
     query_rows s (\<lambda>r. tok_TenantID r = tenantID \<and> tok_AccountID r = accountID) tok_CreatedAt
       scanToken (st_tokens s)"

definition RevokeToken :: "gotime \<Rightarrow> uuid \<Rightarrow> uuid \<Rightarrow> store \<Rightarrow> store_error + store" where
  "RevokeToken now tenantID tokenID s =
     (if st_down s then Inl ErrOther
      else let P = (\<lambda>r. tok_TenantID r = tenantID \<and> tok_ID r = tokenID \<and> tok_RevokedAt r = 0) in
        if \<exists>r \<in> set (st_tokens s). P r
        then Inr (s\<lparr>st_tokens := map (\<lambda>r. if P r then r\<lparr>tok_RevokedAt := UnixMicro now\<rparr> else r) (st_tokens s)\<rparr>)
        else Inl ErrNotFound)"

definition TouchTokenLastUsed :: "gotime \<Rightarrow> uuid \<Rightarrow> store \<Rightarrow> store_error + store" where
  "TouchTokenLastUsed now tokenID s =
     (if st_down s then Inl ErrOther
      else Inr (s\<lparr>st_tokens := map (\<lambda>r. if tok_ID r = tokenID then r\<lparr>tok_LastUsedAt := UnixMicro now\<rparr> else r)
                   (st_tokens s)\<rparr>))"

section \<open>Subscriptions and fires\<close>

definition sub_row :: "Subscription \<Rightarrow> Subscription" where
  "sub_row b = b\<lparr>sub_BudgetJSON := or_default (sub_BudgetJSON b),
     sub_DisabledAt := nullable_micro (sub_DisabledAt b), sub_CreatedAt := UnixMicro (sub_CreatedAt b)\<rparr>"

definition scanSubscription :: "Subscription \<Rightarrow> Subscription" where
  "scanSubscription r = r\<lparr>sub_DisabledAt := scan_nullable (sub_DisabledAt r),
     sub_CreatedAt := time_UnixMicro (sub_CreatedAt r)\<rparr>"

definition CreateSubscription :: "gotime \<Rightarrow> uuid option \<Rightarrow> uuid \<Rightarrow> Subscription \<Rightarrow> store
    \<Rightarrow> store_error + store \<times> Subscription" where
  "CreateSubscription now newV7 tenantID b0 s =
     (if tenantID = uuid_Nil then Inl ErrInvalid
      else if sub_TenantID b0 \<noteq> uuid_Nil \<and> sub_TenantID b0 \<noteq> tenantID then Inl ErrInvalid
      else case or_new (sub_ID b0) newV7 of
        None \<Rightarrow> Inl ErrOther
      | Some i \<Rightarrow>
          if sub_URL b0 = '''' then Inl ErrInvalid
          else if sub_MatchJSON b0 = [] then Inl ErrInvalid
          else
            let b = b0\<lparr>sub_TenantID := tenantID, sub_ID := i,
                       sub_CreatedAt := or_now (sub_CreatedAt b0) now,
                       sub_Events := (if sub_Events b0 = [] then [''message''] else sub_Events b0)\<rparr>
            in case any_error (exec_insert s tenantID (\<exists>r \<in> set (st_subs s). sub_ID r = i)) of
                 Inl e \<Rightarrow> Inl e
               | Inr _ \<Rightarrow> Inr (s\<lparr>st_subs := st_subs s @ [sub_row b]\<rparr>, b))"

definition GetSubscriptionByID :: "uuid \<Rightarrow> uuid \<Rightarrow> store \<Rightarrow> store_error + Subscription" where
  "GetSubscriptionByID tenantID i s =
     query_row s (\<lambda>r. sub_TenantID r = tenantID \<and> sub_ID r = i) scanSubscription (st_subs s)"

definition ListSubscriptionsByAccount :: "uuid \<Rightarrow> uuid \<Rightarrow> store \<Rightarrow> store_error + Subscription list" where
  "ListSubscriptionsByAccount tenantID accountID s =
     query_rows s (\<lambda>r. sub_TenantID r = tenantID \<and> sub_AccountID r = accountID) sub_CreatedAt
       scanSubscription (st_subs s)"

definition ListSubscriptionsByChannel :: "uuid \<Rightarrow> uuid \<Rightarrow> store \<Rightarrow> store_error + Subscription list" where
  "ListSubscriptionsByChannel tenantID channelID s =
     query_rows s (\<lambda>r. sub_TenantID r = tenantID \<and> sub_ChannelID r = channelID \<and> sub_DisabledAt r = 0)
       sub_CreatedAt scanSubscription (st_subs s)"

definition UpdateSubscription :: "uuid \<Rightarrow> Subscription \<Rightarrow> store \<Rightarrow> store_error + store" where
  "UpdateSubscription tenantID b s =
     (if tenantID = uuid_Nil \<or> sub_ID b = uuid_Nil then Inl ErrInvalid
      else if st_down s then Inl ErrOther
      else let P = (\<lambda>r. sub_TenantID r = tenantID \<and> sub_ID r = sub_ID b) in
        if \<exists>r \<in> set (st_subs s). P r
        then Inr (s\<lparr>st_subs := map (\<lambda>r. if P r
               then r\<lparr>sub_URL := sub_URL b, sub_MatchJSON := sub_MatchJSON b, sub_Events := sub_Events b,
                      sub_ContextLines := sub_ContextLines b, sub_DebounceMs := sub_DebounceMs b,
                      sub_CooldownMs := sub_CooldownMs b, sub_BudgetJSON := or_default (sub_BudgetJSON b),
                      sub_DisabledAt := nullable_micro (sub_DisabledAt b)\<rparr>
               else r) (st_subs s)\<rparr>)
        else Inl ErrNotFound)"

definition DeleteSubscription :: "uuid \<Rightarrow> uuid \<Rightarrow> store \<Rightarrow> store_error + store" where
  "DeleteSubscription tenantID i s =
     (if st_down s then Inl ErrOther
      else let P = (\<lambda>r. sub_TenantID r = tenantID \<and> sub_ID r = i) in
        if \<exists>r \<in> set (st_subs s). P r
        then Inr (s\<lparr>st_subs := filter (\<lambda>r. \<not> P r) (st_subs s)\<rparr>)
        else Inl ErrNotFound)"

definition RecordSubscriptionFire :: "gotime \<Rightarrow> uuid option \<Rightarrow> SubscriptionFire \<Rightarrow> store
    \<Rightarrow> store_error + store" where
  "RecordSubscriptionFire now newV7 f s =
     (case or_new (fire_ID f) newV7 of
        None \<Rightarrow> Inl ErrOther
      | Some i \<Rightarrow>
          case any_error (exec_insert s (fire_TenantID f) (\<exists>r \<in> set (st_fires s). fire_ID r = i)) of
            Inl e \<Rightarrow> Inl e
          | Inr _ \<Rightarrow> Inr (s\<lparr>st_fires := st_fires s @
              [f\<lparr>fire_ID := i, fire_FiredAt := UnixMicro (or_now (fire_FiredAt f) now)\<rparr>]\<rparr>))"

definition CountSubscriptionFiresSince :: "uuid \<Rightarrow> uuid \<Rightarrow> gotime \<Rightarrow> store \<Rightarrow> store_error + nat" where
  "CountSubscriptionFiresSince tenantID subID since s =
     (if st_down s then Inl ErrOther
      else Inr (length (filter (\<lambda>r. fire_TenantID r = tenantID \<and> fire_SubscriptionID r = subID
             \<and> fire_FiredAt r \<ge> UnixMicro since \<and> fire_Status r \<in> {''ok'', ''retrying''}) (st_fires s))))"

section \<open>Integrations\<close>

definition int_row :: "Integration \<Rightarrow> Integration" where
  "int_row g = g\<lparr>int_SettingsJSON := or_default (int_SettingsJSON g),
     int_DisabledAt := nullable_micro (int_DisabledAt g), int_CreatedAt := UnixMicro (int_CreatedAt g)\<rparr>"

definition scanIntegration :: "Integration \<Rightarrow> Integration" where
  "scanIntegration r = r\<lparr>int_DisabledAt := scan_nullable (int_DisabledAt r),
     int_CreatedAt := time_UnixMicro (int_CreatedAt r)\<rparr>"

definition CreateIntegration :: "gotime \<Rightarrow> uuid option \<Rightarrow> uuid \<Rightarrow> Integration \<Rightarrow> store
    \<Rightarrow> store_error + store \<times> Integration" where
  "CreateIntegration now newV7 tenantID g0 s =
     (if tenantID = uuid_Nil then Inl ErrInvalid
      else if int_TenantID g0 \<noteq> uuid_Nil \<and> int_TenantID g0 \<noteq> tenantID then Inl ErrInvalid
      else case or_new (int_ID g0) newV7 of
        None \<Rightarrow> Inl ErrOther
      | Some i \<Rightarrow>
          if int_Adapter g0 = '''' then Inl ErrInvalid
          else if int_TokenHash g0 = [] then Inl ErrInvalid
          else if int_ChannelID g0 = uuid_Nil \<or> int_AccountID g0 = uuid_Nil then Inl ErrInvalid
          else
            let g = g0\<lparr>int_TenantID := tenantID, int_ID := i, int_CreatedAt := or_now (int_CreatedAt g0) now\<rparr>
            in case exec_insert s tenantID (\<exists>r \<in> set (st_integs s). int_ID r = i \<or> int_TokenHash r = int_TokenHash g) of
                 Inl e \<Rightarrow> Inl e
               | Inr _ \<Rightarrow> Inr (s\<lparr>st_integs := st_integs s @ [int_row g]\<rparr>, g))"

definition GetIntegrationByID :: "uuid \<Rightarrow> uuid \<Rightarrow> store \<Rightarrow> store_error + Integration" where
  "GetIntegrationByID tenantID i s =
     query_row s (\<lambda>r. int_TenantID r = tenantID \<and> int_ID r = i) scanIntegration (st_integs s)"

definition GetIntegrationByTokenHash :: "bytes \<Rightarrow> store \<Rightarrow> store_error + Integration" where
  "GetIntegrationByTokenHash hash s =
     query_row s (\<lambda>r. int_TokenHash r = hash \<and> int_DisabledAt r = 0) scanIntegration (st_integs s)"

definition ListIntegrationsByTenant :: "uuid \<Rightarrow> store \<Rightarrow> store_error + Integration list" where
  "ListIntegrationsByTenant tenantID s =
     query_rows s (\<lambda>r. int_TenantID r = tenantID) int_CreatedAt scanIntegration (st_integs s)"

definition UpdateIntegration :: "uuid \<Rightarrow> Integration \<Rightarrow> store \<Rightarrow> store_error + store" where
  "UpdateIntegration tenantID g s =
     (if tenantID = uuid_Nil \<or> int_ID g = uuid_Nil then Inl ErrInvalid
      else if st_down s then Inl ErrOther
      else let P = (\<lambda>r. int_TenantID r = tenantID \<and> int_ID r = int_ID g) in
        if \<exists>r \<in> set (st_integs s). P r
        then Inr (s\<lparr>st_integs := map (\<lambda>r. if P r
               then r\<lparr>int_ChannelID := int_ChannelID g, int_AccountID := int_AccountID g,
                      int_Adapter := int_Adapter g, int_SettingsJSON := or_default (int_SettingsJSON g),
                      int_DisabledAt := nullable_micro (int_DisabledAt g)\<rparr>
               else r) (st_integs s)\<rparr>)
        else Inl ErrNotFound)"

definition DeleteIntegration :: "uuid \<Rightarrow> uuid \<Rightarrow> store \<Rightarrow> store_error + store" where
  "DeleteIntegration tenantID i s =
     (if st_down s then Inl ErrOther
      else let P = (\<lambda>r. int_TenantID r = tenantID \<and> int_ID r = i) in
        if \<exists>r \<in> set (st_integs s). P r
        then Inr (s\<lparr>st_integs := filter (\<lambda>r. \<not> P r) (st_integs s)\<rparr>)
        else Inl ErrNotFound)"

section \<open>Chat history\<close>

definition RecordMessage :: "gotime \<Rightarrow> uuid option \<Rightarrow> StoredMessage \<Rightarrow> store \<Rightarrow> store_error + store" where
  "RecordMessage now newV7 m s =
     (case or_new (msg_ID m) newV7 of
        None \<Rightarrow> Inl ErrOther
      | Some i \<Rightarrow>
          let created = or_now (msg_CreatedAt m) now; ts = (if IsZero (msg_TS m) then created else msg_TS m)
          in case any_error (exec_insert s (msg_TenantID m) (\<exists>r \<in> set (st_msgs s). msg_ID r = i)) of
               Inl e \<Rightarrow> Inl e
             | Inr _ \<Rightarrow> Inr (s\<lparr>st_msgs := st_msgs s @
                 [m\<lparr>msg_ID := i, msg_TS := UnixMicro ts, msg_CreatedAt := UnixMicro created\<rparr>]\<rparr>))"

definition scanMessage :: "StoredMessage \<Rightarrow> StoredMessage" where
  "scanMessage r = r\<lparr>msg_TS := time_UnixMicro (msg_TS r), msg_CreatedAt := time_UnixMicro (msg_CreatedAt r)\<rparr>"

definition clamp_limit :: "int \<Rightarrow> nat" where
  "clamp_limit limit = (let l = (if limit \<le> 0 then 50 else limit) in nat (if l > 500 then 500 else l))"

definition ListMessages :: "uuid \<Rightarrow> uuid \<Rightarrow> int \<Rightarrow> gotime \<Rightarrow> store \<Rightarrow> store_error + StoredMessage list" where
  "ListMessages tenantID channelID limit beforeTS s =
     (if st_down s then Inl ErrOther
      else let P = (\<lambda>r. msg_TenantID r = tenantID \<and> msg_ChannelID r = channelID
                     \<and> (IsZero beforeTS \<or> msg_TS r < UnixMicro beforeTS));
               newestFirst = take (clamp_limit limit) (rev (sort_key msg_TS (filter P (st_msgs s))))
           in Inr (rev (map scanMessage newestFirst)))"

definition PurgeMessagesOlderThan :: "gotime \<Rightarrow> int \<Rightarrow> store \<Rightarrow> store_error + store \<times> nat" where
  "PurgeMessagesOlderThan now retention s =
     (if st_down s then Inl ErrOther
      else let P = (\<lambda>r. msg_TS r < UnixMicro (now - retention))
           in Inr (s\<lparr>st_msgs := filter (\<lambda>r. \<not> P r) (st_msgs s)\<rparr>, length (filter P (st_msgs s))))"

section \<open>Channel-operator moderation\<close>

definition pause_key :: "ChannelBotPause \<Rightarrow> uuid \<times> uuid \<times> uuid" where
  "pause_key p = (pau_TenantID p, pau_ChannelID p, pau_BotAccountID p)"

definition SetChannelBotPause :: "gotime \<Rightarrow> ChannelBotPause \<Rightarrow> store \<Rightarrow> store_error + store" where
  "SetChannelBotPause now p s =
     (if pau_TenantID p = uuid_Nil \<or> pau_ChannelID p = uuid_Nil \<or> pau_BotAccountID p = uuid_Nil
         \<or> pau_PausedBy p = uuid_Nil then Inl ErrInvalid
      else if st_down s then Inl ErrOther
      else let at = UnixMicro (or_now (pau_PausedAt p) now) in
        if \<exists>r \<in> set (st_pauses s). pause_key r = pause_key p
        then Inr (s\<lparr>st_pauses := map (\<lambda>r. if pause_key r = pause_key p
               then r\<lparr>pau_PausedBy := pau_PausedBy p, pau_PausedAt := at, pau_Reason := pau_Reason p\<rparr>
               else r) (st_pauses s)\<rparr>)
        else if pau_TenantID p \<notin> ten_ID ` set (st_tenants s) then Inl ErrOther
        else Inr (s\<lparr>st_pauses := st_pauses s @ [p\<lparr>pau_PausedAt := at\<rparr>]\<rparr>))"

definition RemoveChannelBotPause :: "uuid \<Rightarrow> uuid \<Rightarrow> uuid \<Rightarrow> store \<Rightarrow> store_error + store" where
  "RemoveChannelBotPause tenantID channelID botAccountID s =
     (if st_down s then Inl ErrOther
      else let k = (tenantID, channelID, botAccountID) in
        if \<exists>r \<in> set (st_pauses s). pause_key r = k
        then Inr (s\<lparr>st_pauses := filter (\<lambda>r. \<not> pause_key r = k) (st_pauses s)\<rparr>)
        else Inl ErrNotFound)"

definition scanPause :: "ChannelBotPause \<Rightarrow> ChannelBotPause" where
  "scanPause r = r\<lparr>pau_PausedAt := time_UnixMicro (pau_PausedAt r)\<rparr>"

definition ListChannelBotPauses :: "uuid \<Rightarrow> store \<Rightarrow> store_error + ChannelBotPause list" where
  "ListChannelBotPauses tenantID s =
     query_rows s (\<lambda>r. pau_TenantID r = tenantID) pau_PausedAt scanPause (st_pauses s)"

definition RecordModerationEvent :: "gotime \<Rightarrow> uuid option \<Rightarrow> ModerationEvent \<Rightarrow> store
    \<Rightarrow> store_error + store" where
  "RecordModerationEvent now newV7 ev s =
     (if mod_TenantID ev = uuid_Nil \<or> mod_ChannelID ev = uuid_Nil \<or> mod_ActorID ev = uuid_Nil
         \<or> mod_Action ev = '''' then Inl ErrInvalid
      else case or_new (mod_ID ev) newV7 of
        None \<Rightarrow> Inl ErrOther
      | Some i \<Rightarrow>
          case any_error (exec_insert s (mod_TenantID ev) (\<exists>r \<in> set (st_mods s). mod_ID r = i)) of
            Inl e \<Rightarrow> Inl e
          | Inr _ \<Rightarrow> Inr (s\<lparr>st_mods := st_mods s @
              [ev\<lparr>mod_ID := i, mod_At := UnixMicro (or_now (mod_At ev) now)\<rparr>]\<rparr>))"

definition scanModerationEvent :: "ModerationEvent \<Rightarrow> ModerationEvent" where
  "scanModerationEvent r = r\<lparr>mod_At := time_UnixMicro (mod_At r)\<rparr>"

definition ListModerationEvents :: "uuid \<Rightarrow> uuid \<Rightarrow> int \<Rightarrow> store \<Rightarrow> store_error + ModerationEvent list" where
  "ListModerationEvents tenantID channelID limit s =
     (if st_down s then Inl ErrOther
      else Inr (map scanModerationEvent (take (clamp_limit limit)
             (rev (sort_key mod_At (filter (\<lambda>r. mod_TenantID r = tenantID \<and> mod_ChannelID r = channelID)
                (st_mods s)))))))"

section \<open>Error detection\<close>

text \<open>\<^verbatim>\<open>containsAny\<close>: a hand-written substring search over several needles.\<close>

fun contains_at :: "bytes \<Rightarrow> bytes \<Rightarrow> nat \<Rightarrow> nat \<Rightarrow> bool" where
  "contains_at s n i 0 = (take (length n) (drop i s) = n)"
| "contains_at s n i (Suc k) = (take (length n) (drop i s) = n \<or> contains_at s n (Suc i) k)"

definition containsAny :: "bytes \<Rightarrow> bytes list \<Rightarrow> bool" where
  "containsAny s needles =
     list_ex (\<lambda>n. length n \<le> length s \<and> contains_at s n 0 (length s - length n)) needles"

definition isUniqueViolation :: "bytes option \<Rightarrow> bool" where
  "isUniqueViolation err = (case err of None \<Rightarrow> False
     | Some msg \<Rightarrow> containsAny msg [''UNIQUE constraint failed'', ''constraint failed: UNIQUE''])"

section \<open>Reading one row\<close>

lemma query_row_Inr: "query_row s P scan rows = Inr x \<longleftrightarrow> \<not> st_down s \<and> (\<exists>r. find P rows = Some r \<and> x = scan r)"
  by (auto simp: query_row_def split: option.splits)

end
