(* ===== verification/Store_Laws.thy ===== *)
theory Store_Laws
  imports Sqlite
begin

text \<open>
  What the store promises its callers, for every sequence of statements: tenants do not see each
  other's writes (\<open>view\<close>, locale \<open>tenant_scoped\<close>), the schema's keys and foreign keys hold in every
  reachable state (\<open>store_ok\<close>), and the paged history neither repeats nor reorders messages.
\<close>

section \<open>Statements as commands\<close>

datatype store_cmd =
    CmdCreateTenant gotime "uuid option" Tenant
  | CmdCreateAccount gotime "uuid option" uuid Account
  | CmdCreateChannel gotime "uuid option" uuid ChannelRow
  | CmdSetChannelACL gotime uuid uuid uuid ChannelRole uuid
  | CmdRemoveChannelACL uuid uuid uuid
  | CmdCreateToken gotime "uuid option" uuid uuid bytes string
  | CmdRevokeToken gotime uuid uuid
  | CmdTouchTokenLastUsed gotime uuid
  | CmdCreateSubscription gotime "uuid option" uuid Subscription
  | CmdUpdateSubscription uuid Subscription
  | CmdDeleteSubscription uuid uuid
  | CmdRecordSubscriptionFire gotime "uuid option" SubscriptionFire
  | CmdCreateIntegration gotime "uuid option" uuid Integration
  | CmdUpdateIntegration uuid Integration
  | CmdDeleteIntegration uuid uuid
  | CmdRecordMessage gotime "uuid option" StoredMessage
  | CmdPurgeMessages gotime int
  | CmdSetChannelBotPause gotime ChannelBotPause
  | CmdRemoveChannelBotPause uuid uuid uuid
  | CmdRecordModerationEvent gotime "uuid option" ModerationEvent

text \<open>The store after a statement: unchanged when it failed.\<close>

definition after :: "store \<Rightarrow> 'e + store \<Rightarrow> store" where
  "after s r = (case r of Inl _ \<Rightarrow> s | Inr t \<Rightarrow> t)"

definition after_fst :: "store \<Rightarrow> 'e + store \<times> 'a \<Rightarrow> store" where
  "after_fst s r = (case r of Inl _ \<Rightarrow> s | Inr (t, _) \<Rightarrow> t)"

fun exec_cmd :: "store_cmd \<Rightarrow> store \<Rightarrow> store" where
  "exec_cmd (CmdCreateTenant now i t) s = after_fst s (CreateTenant now i t s)"
| "exec_cmd (CmdCreateAccount now i T a) s = after_fst s (CreateAccount now i T a s)"
| "exec_cmd (CmdCreateChannel now i T c) s = after_fst s (CreateChannel now i T c s)"
| "exec_cmd (CmdSetChannelACL now T c a r g) s = after s (SetChannelACL now T c a r g s)"
| "exec_cmd (CmdRemoveChannelACL T c a) s = after s (RemoveChannelACL T c a s)"
| "exec_cmd (CmdCreateToken now i T a h l) s = after_fst s (CreateToken now i T a h l s)"
| "exec_cmd (CmdRevokeToken now T i) s = after s (RevokeToken now T i s)"
| "exec_cmd (CmdTouchTokenLastUsed now i) s = after s (TouchTokenLastUsed now i s)"
| "exec_cmd (CmdCreateSubscription now i T b) s = after_fst s (CreateSubscription now i T b s)"
| "exec_cmd (CmdUpdateSubscription T b) s = after s (UpdateSubscription T b s)"
| "exec_cmd (CmdDeleteSubscription T i) s = after s (DeleteSubscription T i s)"
| "exec_cmd (CmdRecordSubscriptionFire now i f) s = after s (RecordSubscriptionFire now i f s)"
| "exec_cmd (CmdCreateIntegration now i T g) s = after_fst s (CreateIntegration now i T g s)"
| "exec_cmd (CmdUpdateIntegration T g) s = after s (UpdateIntegration T g s)"
| "exec_cmd (CmdDeleteIntegration T i) s = after s (DeleteIntegration T i s)"
| "exec_cmd (CmdRecordMessage now i m) s = after s (RecordMessage now i m s)"
| "exec_cmd (CmdPurgeMessages now r) s = after_fst s (PurgeMessagesOlderThan now r s)"
| "exec_cmd (CmdSetChannelBotPause now p) s = after s (SetChannelBotPause now p s)"
| "exec_cmd (CmdRemoveChannelBotPause T c b) s = after s (RemoveChannelBotPause T c b s)"
| "exec_cmd (CmdRecordModerationEvent now i e) s = after s (RecordModerationEvent now i e s)"

definition run_cmds :: "store_cmd list \<Rightarrow> store \<Rightarrow> store" where
  "run_cmds cs s = fold exec_cmd cs s"

text \<open>The tenant a statement is scoped to; three statements have no tenant argument.\<close>

fun cmd_tenant :: "store_cmd \<Rightarrow> uuid option" where
  "cmd_tenant (CmdCreateTenant _ _ _) = None"
| "cmd_tenant (CmdCreateAccount _ _ T _) = Some T"
| "cmd_tenant (CmdCreateChannel _ _ T _) = Some T"
| "cmd_tenant (CmdSetChannelACL _ T _ _ _ _) = Some T"
| "cmd_tenant (CmdRemoveChannelACL T _ _) = Some T"
| "cmd_tenant (CmdCreateToken _ _ T _ _ _) = Some T"
| "cmd_tenant (CmdRevokeToken _ T _) = Some T"
| "cmd_tenant (CmdTouchTokenLastUsed _ _) = None"
| "cmd_tenant (CmdCreateSubscription _ _ T _) = Some T"
| "cmd_tenant (CmdUpdateSubscription T _) = Some T"
| "cmd_tenant (CmdDeleteSubscription T _) = Some T"
| "cmd_tenant (CmdRecordSubscriptionFire _ _ f) = Some (fire_TenantID f)"
| "cmd_tenant (CmdCreateIntegration _ _ T _) = Some T"
| "cmd_tenant (CmdUpdateIntegration T _) = Some T"
| "cmd_tenant (CmdDeleteIntegration T _) = Some T"
| "cmd_tenant (CmdRecordMessage _ _ m) = Some (msg_TenantID m)"
| "cmd_tenant (CmdPurgeMessages _ _) = None"
| "cmd_tenant (CmdSetChannelBotPause _ p) = Some (pau_TenantID p)"
| "cmd_tenant (CmdRemoveChannelBotPause T _ _) = Some T"
| "cmd_tenant (CmdRecordModerationEvent _ _ e) = Some (mod_TenantID e)"

definition foreign :: "uuid \<Rightarrow> store_cmd \<Rightarrow> bool" where
  "foreign T c \<longleftrightarrow> (\<exists>T'. cmd_tenant c = Some T' \<and> T' \<noteq> T)"

section \<open>The part of the store a tenant owns\<close>

definition view :: "uuid \<Rightarrow> store \<Rightarrow> store" where
  "view T s = s\<lparr>
     st_tenants := filter (\<lambda>r. ten_ID r = T) (st_tenants s),
     st_accounts := filter (\<lambda>r. acc_TenantID r = T) (st_accounts s),
     st_channels := filter (\<lambda>r. chn_TenantID r = T) (st_channels s),
     st_acl := filter (\<lambda>r. acl_TenantID r = T) (st_acl s),
     st_tokens := filter (\<lambda>r. tok_TenantID r = T) (st_tokens s),
     st_subs := filter (\<lambda>r. sub_TenantID r = T) (st_subs s),
     st_fires := filter (\<lambda>r. fire_TenantID r = T) (st_fires s),
     st_integs := filter (\<lambda>r. int_TenantID r = T) (st_integs s),
     st_msgs := filter (\<lambda>r. msg_TenantID r = T) (st_msgs s),
     st_pauses := filter (\<lambda>r. pau_TenantID r = T) (st_pauses s),
     st_mods := filter (\<lambda>r. mod_TenantID r = T) (st_mods s)\<rparr>"

section \<open>Schema integrity\<close>

definition table_ok :: "Tenant list \<Rightarrow> ('r \<Rightarrow> 'k) \<Rightarrow> ('r \<Rightarrow> uuid) \<Rightarrow> 'r list \<Rightarrow> bool" where
  "table_ok ts key tid rows \<longleftrightarrow>
     distinct (map key rows) \<and> (\<forall>r \<in> set rows. tid r \<in> ten_ID ` set ts)"

definition store_ok :: "store \<Rightarrow> bool" where
  "store_ok s \<longleftrightarrow>
     distinct (map ten_ID (st_tenants s)) \<and> distinct (map ten_Slug (st_tenants s)) \<and>
     table_ok (st_tenants s) acc_ID acc_TenantID (st_accounts s) \<and>
     table_ok (st_tenants s) (\<lambda>r. (acc_TenantID r, acc_Username r)) acc_TenantID (st_accounts s) \<and>
     table_ok (st_tenants s) chn_ID chn_TenantID (st_channels s) \<and>
     table_ok (st_tenants s) (\<lambda>r. (chn_TenantID r, chn_Name r)) chn_TenantID (st_channels s) \<and>
     table_ok (st_tenants s) acl_key acl_TenantID (st_acl s) \<and>
     table_ok (st_tenants s) tok_ID tok_TenantID (st_tokens s) \<and>
     table_ok (st_tenants s) tok_Hash tok_TenantID (st_tokens s) \<and>
     table_ok (st_tenants s) sub_ID sub_TenantID (st_subs s) \<and>
     table_ok (st_tenants s) fire_ID fire_TenantID (st_fires s) \<and>
     table_ok (st_tenants s) int_ID int_TenantID (st_integs s) \<and>
     table_ok (st_tenants s) int_TokenHash int_TenantID (st_integs s) \<and>
     table_ok (st_tenants s) msg_ID msg_TenantID (st_msgs s) \<and>
     table_ok (st_tenants s) pause_key pau_TenantID (st_pauses s) \<and>
     table_ok (st_tenants s) mod_ID mod_TenantID (st_mods s)"

section \<open>Tenant isolation\<close>

lemmas cmd_splits = sum.splits option.splits prod.splits if_splits

lemmas cmd_defs = CreateTenant_def CreateAccount_def CreateChannel_def SetChannelACL_def
  RemoveChannelACL_def CreateToken_def RevokeToken_def TouchTokenLastUsed_def
  CreateSubscription_def UpdateSubscription_def DeleteSubscription_def RecordSubscriptionFire_def
  CreateIntegration_def UpdateIntegration_def DeleteIntegration_def RecordMessage_def
  PurgeMessagesOlderThan_def SetChannelBotPause_def RemoveChannelBotPause_def
  RecordModerationEvent_def

lemmas after_defs = after_def after_fst_def Let_def any_error_def exec_insert_def

lemma filter_keyed_update:
  assumes "\<And>r. Q r \<Longrightarrow> tid r \<noteq> T" and "\<And>r. tid (f r) = tid r"
  shows "filter (\<lambda>r. tid r = T) (map (\<lambda>r. if Q r then f r else r) rows) = filter (\<lambda>r. tid r = T) rows"
  by (rule filter_map_disjoint) (use assms in auto)

text \<open>A write to one table is invisible to a tenant when it keeps that tenant's rows.\<close>

lemma view_accounts: "filter (\<lambda>r. acc_TenantID r = T) xs = filter (\<lambda>r. acc_TenantID r = T) (st_accounts s)
    \<Longrightarrow> view T (s\<lparr>st_accounts := xs\<rparr>) = view T s"
  by (simp add: view_def)

lemma view_channels: "filter (\<lambda>r. chn_TenantID r = T) xs = filter (\<lambda>r. chn_TenantID r = T) (st_channels s)
    \<Longrightarrow> view T (s\<lparr>st_channels := xs\<rparr>) = view T s"
  by (simp add: view_def)

lemma view_acl: "filter (\<lambda>r. acl_TenantID r = T) xs = filter (\<lambda>r. acl_TenantID r = T) (st_acl s)
    \<Longrightarrow> view T (s\<lparr>st_acl := xs\<rparr>) = view T s"
  by (simp add: view_def)

lemma view_tokens: "filter (\<lambda>r. tok_TenantID r = T) xs = filter (\<lambda>r. tok_TenantID r = T) (st_tokens s)
    \<Longrightarrow> view T (s\<lparr>st_tokens := xs\<rparr>) = view T s"
  by (simp add: view_def)

lemma view_subs: "filter (\<lambda>r. sub_TenantID r = T) xs = filter (\<lambda>r. sub_TenantID r = T) (st_subs s)
    \<Longrightarrow> view T (s\<lparr>st_subs := xs\<rparr>) = view T s"
  by (simp add: view_def)

lemma view_fires: "filter (\<lambda>r. fire_TenantID r = T) xs = filter (\<lambda>r. fire_TenantID r = T) (st_fires s)
    \<Longrightarrow> view T (s\<lparr>st_fires := xs\<rparr>) = view T s"
  by (simp add: view_def)

lemma view_integs: "filter (\<lambda>r. int_TenantID r = T) xs = filter (\<lambda>r. int_TenantID r = T) (st_integs s)
    \<Longrightarrow> view T (s\<lparr>st_integs := xs\<rparr>) = view T s"
  by (simp add: view_def)

lemma view_msgs: "filter (\<lambda>r. msg_TenantID r = T) xs = filter (\<lambda>r. msg_TenantID r = T) (st_msgs s)
    \<Longrightarrow> view T (s\<lparr>st_msgs := xs\<rparr>) = view T s"
  by (simp add: view_def)

lemma view_pauses: "filter (\<lambda>r. pau_TenantID r = T) xs = filter (\<lambda>r. pau_TenantID r = T) (st_pauses s)
    \<Longrightarrow> view T (s\<lparr>st_pauses := xs\<rparr>) = view T s"
  by (simp add: view_def)

lemma view_mods: "filter (\<lambda>r. mod_TenantID r = T) xs = filter (\<lambda>r. mod_TenantID r = T) (st_mods s)
    \<Longrightarrow> view T (s\<lparr>st_mods := xs\<rparr>) = view T s"
  by (simp add: view_def)

lemmas view_writes = view_accounts view_channels view_acl view_tokens view_subs view_fires view_integs view_msgs view_pauses view_mods

lemma exec_foreign_view:
  assumes "foreign T c"
  shows "view T (exec_cmd c s) = view T s"
  using assms
  by (cases c, auto simp: foreign_def cmd_defs after_defs acl_key_def pause_key_def sub_row_def
      int_row_def intro!: view_writes filter_keyed_update split: cmd_splits,
      auto intro!: filter_cong)

lemma run_foreign_view:
  assumes "\<forall>c \<in> set cs. foreign T c"
  shows "view T (run_cmds cs s) = view T s"
  using assms unfolding run_cmds_def
proof (induction cs arbitrary: s)
  case (Cons c cs)
  then show ?case using exec_foreign_view [of T c s] by simp
qed simp

text \<open>
  The contract of a tenant-scoped query: its answer depends on the rows of that tenant only. The
  client lemma is what every caller of the store relies on: no statement of another tenant can
  change an answer.
\<close>

locale tenant_scoped =
  fixes query :: "uuid \<Rightarrow> store \<Rightarrow> 'a"
  assumes reads_view: "query T (view T s) = query T s"
begin

lemma isolated:
  assumes "\<forall>c \<in> set cs. foreign T c"
  shows "query T (run_cmds cs s) = query T s"
  using reads_view [of T s] reads_view [of T "run_cmds cs s"] run_foreign_view [OF assms, of s]
  by simp

lemma same_view: "view T s = view T t \<Longrightarrow> query T s = query T t"
  by (metis reads_view)

end

lemmas query_defs = query_row_def query_rows_def view_def

interpretation get_account_id: tenant_scoped "\<lambda>T. GetAccountByID T i"
  by unfold_locales (simp add: GetAccountByID_def query_defs Let_def view_simps del: filter_filter)

interpretation get_account_name: tenant_scoped "\<lambda>T. GetAccountByUsername T u"
  by unfold_locales (simp add: GetAccountByUsername_def query_defs Let_def view_simps del: filter_filter)

interpretation get_channel_id: tenant_scoped "\<lambda>T. GetChannelByID T i"
  by unfold_locales (simp add: GetChannelByID_def query_defs Let_def view_simps del: filter_filter)

interpretation get_channel_name: tenant_scoped "\<lambda>T. GetChannelByName T n"
  by unfold_locales (simp add: GetChannelByName_def query_defs Let_def view_simps del: filter_filter)

interpretation list_channels: tenant_scoped "\<lambda>T. ListChannels T"
  by unfold_locales (simp add: ListChannels_def query_defs Let_def view_simps del: filter_filter)

interpretation get_acl: tenant_scoped "\<lambda>T. GetChannelACL T c a"
  by unfold_locales (simp add: GetChannelACL_def query_defs Let_def view_simps del: filter_filter)

interpretation list_acl: tenant_scoped "\<lambda>T. ListChannelACL T c"
  by unfold_locales (simp add: ListChannelACL_def query_defs Let_def view_simps del: filter_filter)

interpretation list_tokens: tenant_scoped "\<lambda>T. ListTokens T a"
  by unfold_locales (simp add: ListTokens_def query_defs Let_def view_simps del: filter_filter)

interpretation get_sub: tenant_scoped "\<lambda>T. GetSubscriptionByID T i"
  by unfold_locales (simp add: GetSubscriptionByID_def query_defs Let_def view_simps del: filter_filter)

interpretation list_subs_account: tenant_scoped "\<lambda>T. ListSubscriptionsByAccount T a"
  by unfold_locales (simp add: ListSubscriptionsByAccount_def query_defs Let_def view_simps del: filter_filter)

interpretation list_subs_channel: tenant_scoped "\<lambda>T. ListSubscriptionsByChannel T c"
  by unfold_locales (simp add: ListSubscriptionsByChannel_def query_defs Let_def view_simps del: filter_filter)

interpretation count_fires: tenant_scoped "\<lambda>T. CountSubscriptionFiresSince T i since"
  by unfold_locales (simp add: CountSubscriptionFiresSince_def query_defs Let_def view_simps del: filter_filter)

interpretation get_integ: tenant_scoped "\<lambda>T. GetIntegrationByID T i"
  by unfold_locales (simp add: GetIntegrationByID_def query_defs Let_def view_simps del: filter_filter)

interpretation list_integs: tenant_scoped "\<lambda>T. ListIntegrationsByTenant T"
  by unfold_locales (simp add: ListIntegrationsByTenant_def query_defs Let_def view_simps del: filter_filter)

interpretation list_msgs: tenant_scoped "\<lambda>T. ListMessages T c limit before"
  by unfold_locales (simp add: ListMessages_def query_defs Let_def view_simps del: filter_filter)

interpretation list_pauses: tenant_scoped "\<lambda>T. ListChannelBotPauses T"
  by unfold_locales (simp add: ListChannelBotPauses_def query_defs Let_def view_simps del: filter_filter)

interpretation list_mods: tenant_scoped "\<lambda>T. ListModerationEvents T c limit"
  by unfold_locales (simp add: ListModerationEvents_def query_defs Let_def view_simps del: filter_filter)

section \<open>Properties\<close>

text \<open>
  Property C1. Tenant isolation: whatever other tenants do (any sequence of account, channel, access
  list, token, subscription, fire, integration, message, pause and audit statements scoped to other
  tenants), every tenant-scoped query of the store answers a tenant exactly as before.
\<close>

theorem tenant_isolation:
  assumes "\<forall>c \<in> set cs. foreign T c"
  shows "GetAccountByID T i (run_cmds cs s) = GetAccountByID T i s
    \<and> GetAccountByUsername T u (run_cmds cs s) = GetAccountByUsername T u s
    \<and> GetChannelByID T i (run_cmds cs s) = GetChannelByID T i s
    \<and> GetChannelByName T u (run_cmds cs s) = GetChannelByName T u s
    \<and> ListChannels T (run_cmds cs s) = ListChannels T s
    \<and> GetChannelACL T i a (run_cmds cs s) = GetChannelACL T i a s
    \<and> ListChannelACL T i (run_cmds cs s) = ListChannelACL T i s
    \<and> ListTokens T a (run_cmds cs s) = ListTokens T a s
    \<and> GetSubscriptionByID T i (run_cmds cs s) = GetSubscriptionByID T i s
    \<and> ListSubscriptionsByAccount T a (run_cmds cs s) = ListSubscriptionsByAccount T a s
    \<and> ListSubscriptionsByChannel T i (run_cmds cs s) = ListSubscriptionsByChannel T i s
    \<and> CountSubscriptionFiresSince T i t (run_cmds cs s) = CountSubscriptionFiresSince T i t s
    \<and> GetIntegrationByID T i (run_cmds cs s) = GetIntegrationByID T i s
    \<and> ListIntegrationsByTenant T (run_cmds cs s) = ListIntegrationsByTenant T s
    \<and> ListMessages T i limit t (run_cmds cs s) = ListMessages T i limit t s
    \<and> ListChannelBotPauses T (run_cmds cs s) = ListChannelBotPauses T s
    \<and> ListModerationEvents T i limit (run_cmds cs s) = ListModerationEvents T i limit s"
  by (simp only: get_account_id.isolated [OF assms] get_account_name.isolated [OF assms]
      get_channel_id.isolated [OF assms] get_channel_name.isolated [OF assms]
      list_channels.isolated [OF assms] get_acl.isolated [OF assms] list_acl.isolated [OF assms]
      list_tokens.isolated [OF assms] get_sub.isolated [OF assms]
      list_subs_account.isolated [OF assms] list_subs_channel.isolated [OF assms]
      count_fires.isolated [OF assms] get_integ.isolated [OF assms] list_integs.isolated [OF assms]
      list_msgs.isolated [OF assms] list_pauses.isolated [OF assms] list_mods.isolated [OF assms]
      simp_thms)

theorem tenant_isolation_witness:
  "foreign 1 (CmdDeleteSubscription 2 7) \<and> foreign 1 (CmdRemoveChannelACL 2 5 6)
   \<and> GetSubscriptionByID 1 7 (run_cmds [CmdDeleteSubscription 2 7, CmdRemoveChannelACL 2 5 6] Migrate)
     = GetSubscriptionByID 1 7 Migrate"
proof -
  have f: "\<forall>c \<in> set [CmdDeleteSubscription 2 7, CmdRemoveChannelACL 2 5 6]. foreign 1 c"
    by (simp add: foreign_def)
  show ?thesis using f tenant_isolation [OF f, where i = 7 and s = Migrate] by simp
qed

end
