(* ===== verification/Store_Integrity.thy ===== *)
theory Store_Integrity
  imports Store_Laws
begin

text \<open>
  The schema's promises: in every store reachable from an empty database by any sequence of
  statements, ids are unique, a slug names one tenant, a username and a channel name are unique
  within their tenant, a token hash identifies one token, every access-list and pause key has at
  most one row, and every row belongs to an existing tenant.
\<close>

section \<open>Reachable stores\<close>

inductive store_reachable :: "store \<Rightarrow> bool" where
  empty: "store_reachable Migrate"
| exec: "store_reachable s \<Longrightarrow> store_reachable (exec_cmd c s)"
| outage: "store_reachable s \<Longrightarrow> store_reachable (s\<lparr>st_down := b\<rparr>)"

section \<open>Preservation\<close>

lemma table_ok_append [inv_intros]:
  "table_ok ts k t rows \<Longrightarrow> (\<forall>r \<in> set rows. k r \<noteq> k x) \<Longrightarrow> t x \<in> ten_ID ` set ts
    \<Longrightarrow> table_ok ts k t (rows @ [x])"
  by (auto simp: table_ok_def image_iff)

lemma table_ok_update [inv_intros]:
  "table_ok ts k t rows \<Longrightarrow> (\<And>r. k (f r) = k r) \<Longrightarrow> (\<And>r. t (f r) = t r)
    \<Longrightarrow> table_ok ts k t (map (\<lambda>r. if P r then f r else r) rows)"
  unfolding table_ok_def by (auto simp del: map_map intro!: distinct_map_keyed_update)

lemma table_ok_filter [inv_intros]:
  "table_ok ts k t rows \<Longrightarrow> table_ok ts k t (filter P rows)"
  by (auto simp: table_ok_def distinct_map_filter)

lemma table_ok_tenants [inv_intros]:
  "table_ok ts k t rows \<Longrightarrow> table_ok (ts @ [x]) k t rows"
  by (auto simp: table_ok_def)

lemma store_ok_Migrate: "store_ok Migrate"
  by (simp add: store_ok_def table_ok_def Migrate_def)

lemma store_ok_down [simp]: "store_ok (s\<lparr>st_down := b\<rparr>) = store_ok s"
  by (simp add: store_ok_def)

lemma ok_CreateTenant:
  assumes "store_ok s" shows "store_ok (after_fst s (CreateTenant now i t s))"
  using assms
  by (auto simp: CreateTenant_def after_defs store_ok_def tenant_row_def image_iff
      intro!: table_ok_tenants split: cmd_splits)

lemma ok_CreateAccount:
  assumes "store_ok s" shows "store_ok (after_fst s (CreateAccount now i T a s))"
  using assms
  by (auto simp: CreateAccount_def after_defs store_ok_def
      intro!: table_ok_append split: cmd_splits)

lemma ok_CreateChannel:
  assumes "store_ok s" shows "store_ok (after_fst s (CreateChannel now i T c s))"
  using assms
  by (auto simp: CreateChannel_def after_defs store_ok_def
      intro!: table_ok_append split: cmd_splits)

lemma ok_SetChannelACL:
  assumes "store_ok s" shows "store_ok (after s (SetChannelACL now T c a r g s))"
  using assms
  by (auto simp: SetChannelACL_def after_defs store_ok_def acl_key_def
      intro!: table_ok_append table_ok_update split: cmd_splits)

lemma ok_CreateToken:
  assumes "store_ok s" shows "store_ok (after_fst s (CreateToken now i T a h l s))"
  using assms
  by (auto simp: CreateToken_def after_defs store_ok_def
      intro!: table_ok_append split: cmd_splits)

lemma ok_CreateSubscription:
  assumes "store_ok s" shows "store_ok (after_fst s (CreateSubscription now i T b s))"
  using assms
  by (auto simp: CreateSubscription_def after_defs store_ok_def sub_row_def
      intro!: table_ok_append split: cmd_splits)

lemma ok_CreateIntegration:
  assumes "store_ok s" shows "store_ok (after_fst s (CreateIntegration now i T g s))"
  using assms
  by (auto simp: CreateIntegration_def after_defs store_ok_def int_row_def
      intro!: table_ok_append split: cmd_splits)

lemma ok_SetChannelBotPause:
  assumes "store_ok s" shows "store_ok (after s (SetChannelBotPause now p s))"
  using assms
  by (auto simp: SetChannelBotPause_def after_defs store_ok_def pause_key_def
      intro!: table_ok_append table_ok_update split: cmd_splits)

lemma ok_token_writes:
  assumes "store_ok s"
  shows "store_ok (after s (RevokeToken now T i s))" and "store_ok (after s (TouchTokenLastUsed now i s))"
  using assms
  by (auto simp: RevokeToken_def TouchTokenLastUsed_def after_defs store_ok_def
      intro!: table_ok_update split: cmd_splits)

lemma ok_records:
  assumes "store_ok s"
  shows "store_ok (after s (RecordSubscriptionFire now i f s))"
    and "store_ok (after s (RecordMessage now i m s))"
    and "store_ok (after s (RecordModerationEvent now i e s))"
  using assms
  by (auto simp: RecordSubscriptionFire_def RecordMessage_def RecordModerationEvent_def after_defs
      store_ok_def intro!: table_ok_append split: cmd_splits)

lemma ok_updates:
  assumes "store_ok s"
  shows "store_ok (after s (UpdateSubscription T b s))"
    and "store_ok (after s (UpdateIntegration T g s))"
  using assms
  by (auto simp: UpdateSubscription_def UpdateIntegration_def after_defs store_ok_def
      intro!: table_ok_update split: cmd_splits)

lemma ok_deletes:
  assumes "store_ok s"
  shows "store_ok (after s (RemoveChannelACL T c a s))"
    and "store_ok (after s (DeleteSubscription T i s))"
    and "store_ok (after s (DeleteIntegration T i s))"
    and "store_ok (after s (RemoveChannelBotPause T c a s))"
    and "store_ok (after_fst s (PurgeMessagesOlderThan now r s))"
  using assms
  by (auto simp: RemoveChannelACL_def DeleteSubscription_def DeleteIntegration_def
      RemoveChannelBotPause_def PurgeMessagesOlderThan_def after_defs store_ok_def
      intro!: table_ok_filter split: cmd_splits)

lemmas exec_ok = ok_CreateTenant ok_CreateAccount ok_CreateChannel ok_SetChannelACL ok_CreateToken
  ok_CreateSubscription ok_CreateIntegration ok_SetChannelBotPause ok_token_writes ok_records
  ok_updates ok_deletes

lemma exec_cmd_ok: "store_ok s \<Longrightarrow> store_ok (exec_cmd c s)"
  by (cases c) (simp_all add: exec_ok)

lemma reachable_ok: "store_reachable s \<Longrightarrow> store_ok s"
  by (induction rule: store_reachable.induct)
    (simp_all add: store_ok_Migrate exec_cmd_ok)

lemma run_cmds_reachable: "store_reachable s \<Longrightarrow> store_reachable (run_cmds cs s)"
  unfolding run_cmds_def
  by (induction cs arbitrary: s) (auto intro: store_reachable.exec)

text \<open>A row found by its key is the only row with that key.\<close>

lemma table_ok_key_inj:
  "table_ok ts k t rows \<Longrightarrow> r \<in> set rows \<Longrightarrow> r' \<in> set rows \<Longrightarrow> k r = k r' \<Longrightarrow> r = r'"
  by (auto simp: table_ok_def distinct_map inj_on_def)

lemma store_ok_tokD:
  "store_ok s \<Longrightarrow> table_ok (st_tenants s) tok_Hash tok_TenantID (st_tokens s)
     \<and> table_ok (st_tenants s) tok_ID tok_TenantID (st_tokens s)"
  by (simp add: store_ok_def)

lemma store_ok_subD: "store_ok s \<Longrightarrow> table_ok (st_tenants s) sub_ID sub_TenantID (st_subs s)"
  by (simp add: store_ok_def)

section \<open>Insert and look up\<close>

lemma query_row_append_new:
  assumes "\<not> st_down s" and "P x" and "\<forall>r \<in> set rows. \<not> P r"
  shows "query_row s P scan (rows @ [x]) = Inr (scan x)"
proof -
  have "find P rows = None" using assms(3) by (simp add: find_None_iff)
  then have "find P (rows @ [x]) = Some x"
    using assms(2) by (induction rows) (auto split: if_splits)
  with assms(1) show ?thesis by (simp add: query_row_def)
qed

lemma exec_cmd_mods: "\<exists>new. st_mods (exec_cmd c s) = st_mods s @ new"
  by (cases c) (auto simp: cmd_defs after_defs split: cmd_splits)

section \<open>Properties\<close>

text \<open>
  Property C23. Schema integrity: every store reachable from a freshly migrated database by any
  sequence of statements (and driver outages) satisfies the invariant \<open>store_ok\<close>: unique ids, slugs,
  per-tenant usernames and channel names, token hashes, access-list and pause keys, and no row
  without its tenant.
\<close>

theorem reachable_store_ok:
  assumes "store_reachable s"
  shows "store_ok s"
  using assms by (rule reachable_ok)

theorem reachable_store_ok_witness:
  "store_ok (exec_cmd (CmdCreateTenant unix_epoch (Some 1) \<lparr>ten_ID = 0, ten_Slug = ''acme'',
     ten_DisplayName = ''Acme'', ten_Settings = [], ten_Status = [], ten_CreatedAt = 0\<rparr>) Migrate)"
  by (rule reachable_store_ok) (intro store_reachable.intros)

text \<open>
  The moderation audit log is append-only: no sequence of statements removes, changes
  or reorders a recorded event.
\<close>

theorem audit_log_append_only:
  "\<exists>new. st_mods (run_cmds cs s) = st_mods s @ new"
  unfolding run_cmds_def
proof (induction cs arbitrary: s)
  case Nil
  then show ?case by simp
next
  case (Cons c cs)
  obtain a where "st_mods (exec_cmd c s) = st_mods s @ a"
    using exec_cmd_mods by blast
  moreover obtain b where "st_mods (fold exec_cmd cs (exec_cmd c s)) = st_mods (exec_cmd c s) @ b"
    using Cons.IH by blast
  ultimately show ?case by simp
qed

text \<open>
  A token is good until it is revoked, and never again afterwards: in a reachable store,
  once \<open>RevokeToken\<close> succeeds (with the clock past 1970), looking the token up by its hash fails, and
  keeps failing whatever statements run later.
\<close>

definition hash_dead :: "bytes \<Rightarrow> store \<Rightarrow> bool" where
  "hash_dead h s \<longleftrightarrow> (\<exists>r \<in> set (st_tokens s). tok_Hash r = h)
     \<and> (\<forall>r \<in> set (st_tokens s). tok_Hash r = h \<longrightarrow> tok_RevokedAt r \<noteq> 0)"

lemma hash_dead_map:
  assumes "hash_dead h s" and "\<And>r. tok_Hash (f r) = tok_Hash r"
    and "\<And>r. tok_RevokedAt r \<noteq> 0 \<Longrightarrow> tok_RevokedAt (f r) \<noteq> 0"
  shows "hash_dead h (s\<lparr>st_tokens := map f (st_tokens s)\<rparr>)"
  using assms by (auto simp: hash_dead_def)

lemma hash_dead_exec:
  assumes "hash_dead h s" shows "hash_dead h (exec_cmd c s)"
proof (cases c)
  case (CmdRevokeToken now T i)
  then show ?thesis using assms
    by (auto simp: RevokeToken_def after_defs intro!: hash_dead_map split: cmd_splits)
next
  case (CmdTouchTokenLastUsed now i)
  then show ?thesis using assms
    by (auto simp: TouchTokenLastUsed_def after_defs intro!: hash_dead_map split: cmd_splits)
next
  case (CmdCreateToken now i T a h' l)
  then show ?thesis using assms
    by (auto simp: CreateToken_def after_defs hash_dead_def split: cmd_splits)
qed (use assms in \<open>auto simp: cmd_defs after_defs hash_dead_def split: cmd_splits\<close>)

lemma hash_dead_run: "hash_dead h s \<Longrightarrow> hash_dead h (run_cmds cs s)"
  unfolding run_cmds_def by (induction cs arbitrary: s) (auto intro: hash_dead_exec)

lemma hash_dead_lookup: "hash_dead h s \<Longrightarrow> \<not> st_down s \<Longrightarrow> GetTokenByHash h s = Inl ErrNotFound"
  by (auto simp: GetTokenByHash_def query_row_def hash_dead_def find_None_iff split: option.splits
      dest!: find_Some_iff [THEN iffD1])

lemma RevokeToken_dead:
  assumes ok: "store_ok s" and rev: "RevokeToken now T i s = Inr s'" and now: "UnixMicro now \<noteq> 0"
    and tok: "r \<in> set (st_tokens s)" "tok_ID r = i" "tok_Hash r = h"
  shows "hash_dead h s'"
proof -
  let ?P = "\<lambda>r. tok_TenantID r = T \<and> tok_ID r = i \<and> tok_RevokedAt r = 0"
  have s': "s' = s\<lparr>st_tokens := map (\<lambda>r. if ?P r then r\<lparr>tok_RevokedAt := UnixMicro now\<rparr> else r) (st_tokens s)\<rparr>"
    and ex: "\<exists>r \<in> set (st_tokens s). ?P r"
    using rev by (auto simp: RevokeToken_def Let_def split: if_splits)
  have uniq: "x = r" if "x \<in> set (st_tokens s)" "tok_ID x = i \<or> tok_Hash x = h" for x
    using table_ok_key_inj [of _ tok_ID tok_TenantID "st_tokens s" x r]
      table_ok_key_inj [of _ tok_Hash tok_TenantID "st_tokens s" x r]
      store_ok_tokD [OF ok] that tok by metis
  then have P: "?P r" using ex by metis
  let ?f = "\<lambda>r. if ?P r then r\<lparr>tok_RevokedAt := UnixMicro now\<rparr> else r"
  have hash: "tok_Hash (?f x) = tok_Hash x" for x by simp
  have dead: "tok_RevokedAt (?f x) \<noteq> 0" if "x \<in> set (st_tokens s)" "tok_Hash x = h" for x
  proof -
    have "x = r" using uniq that by blast
    with P now show ?thesis by simp
  qed
  have "?f r \<in> set (st_tokens s')" and "tok_Hash (?f r) = h"
    using tok hash [of r] by (auto simp: s')
  moreover have "tok_RevokedAt y \<noteq> 0" if y: "y \<in> set (st_tokens s')" "tok_Hash y = h" for y
  proof -
    obtain x where x: "x \<in> set (st_tokens s)" "y = ?f x"
      using y(1) unfolding s' by auto
    with y(2) hash [of x] have "tok_Hash x = h" by simp
    with x dead [of x] show ?thesis by blast
  qed
  ultimately show ?thesis unfolding hash_dead_def by blast
qed

theorem revoked_token_stays_dead:
  assumes "store_reachable s" and "r \<in> set (st_tokens s)"
    and "RevokeToken now T (tok_ID r) s = Inr s'" and "UnixMicro now \<noteq> 0"
    and "\<not> st_down (run_cmds cs s')"
  shows "GetTokenByHash (tok_Hash r) (run_cmds cs s') = Inl ErrNotFound"
  using RevokeToken_dead [OF reachable_ok [OF assms(1)] assms(3,4,2)] hash_dead_run hash_dead_lookup
    assms(5) by blast

definition token_example :: store where
  "token_example = run_cmds
     [CmdCreateTenant (unix_epoch + 1000000) (Some 1) \<lparr>ten_ID = 0, ten_Slug = ''acme'',
        ten_DisplayName = ''Acme'', ten_Settings = [], ten_Status = [], ten_CreatedAt = 0\<rparr>,
      CmdCreateToken (unix_epoch + 2000000) (Some 40) 1 20 ''h1'' ''primary'',
      CmdCreateToken (unix_epoch + 2000000) (Some 41) 1 20 ''h2'' ''spare''] Migrate"

lemmas eval_tokens = run_cmds_def Migrate_def cmd_defs after_defs or_new_def or_now_def IsZero_def
  UnixMicro_def tenant_row_def or_default_def TenantActive_def unix_epoch_def

lemma token_example_rows:
  "st_tokens token_example =
     [\<lparr>tok_ID = 40, tok_TenantID = 1, tok_AccountID = 20, tok_Hash = ''h1'', tok_Label = ''primary'',
       tok_CreatedAt = 2000, tok_LastUsedAt = 0, tok_RevokedAt = 0\<rparr>,
      \<lparr>tok_ID = 41, tok_TenantID = 1, tok_AccountID = 20, tok_Hash = ''h2'', tok_Label = ''spare'',
       tok_CreatedAt = 2000, tok_LastUsedAt = 0, tok_RevokedAt = 0\<rparr>]
   \<and> \<not> st_down token_example"
  by (simp add: token_example_def eval_tokens)

theorem revoked_token_stays_dead_witness:
  "\<exists>s'. RevokeToken (unix_epoch + 3000000) 1 40 token_example = Inr s'
     \<and> GetTokenByHash ''h1'' (run_cmds [CmdTouchTokenLastUsed (unix_epoch + 4000000) 40] s') = Inl ErrNotFound"
proof -
  let ?r = "\<lparr>tok_ID = 40, tok_TenantID = 1, tok_AccountID = 20, tok_Hash = ''h1'', tok_Label = ''primary'',
     tok_CreatedAt = 2000, tok_LastUsedAt = 0, tok_RevokedAt = 0\<rparr> :: Token"
  have reach: "store_reachable token_example"
    unfolding token_example_def by (intro run_cmds_reachable store_reachable.empty)
  have tok: "?r \<in> set (st_tokens token_example)"
    using token_example_rows by simp
  obtain s' where rev: "RevokeToken (unix_epoch + 3000000) 1 (tok_ID ?r) token_example = Inr s'"
    and up: "\<not> st_down s'"
    using token_example_rows by (simp add: RevokeToken_def)
  have up': "\<not> st_down (run_cmds [CmdTouchTokenLastUsed (unix_epoch + 4000000) 40] s')"
    using up by (simp add: run_cmds_def TouchTokenLastUsed_def after_def)
  show ?thesis
    using revoked_token_stays_dead [OF reach tok rev _ up'] rev by (simp add: UnixMicro_def)
qed

end
