(* ===== verification/Store_History.thy ===== *)
theory Store_History
  imports Store_Integrity
begin

text \<open>
  The chat history a channel keeps (\<^verbatim>\<open>ListMessages\<close>,
  \<^verbatim>\<open>PurgeMessagesOlderThan\<close>). The abstract view of a channel is its log: the messages of
  the channel, oldest first. A page is a suffix of the log, and a client that pages backwards by
  feeding the oldest timestamp of a page to the next request (as the protocol describes) is modelled
  by \<open>page_back\<close>.
\<close>

section \<open>The log of a channel and the paging client\<close>

definition in_channel :: "uuid \<Rightarrow> uuid \<Rightarrow> StoredMessage \<Rightarrow> bool" where
  "in_channel T c r \<longleftrightarrow> msg_TenantID r = T \<and> msg_ChannelID r = c"

definition channel_log :: "uuid \<Rightarrow> uuid \<Rightarrow> store \<Rightarrow> StoredMessage list" where
  "channel_log T c s = map scanMessage (sort_key msg_TS (filter (in_channel T c) (st_msgs s)))"

text \<open>
  The loop of a backfilling client: ask for the page before \<open>before\<close>, prepend it, go on with
  the timestamp of its oldest message until a page is empty. The first argument bounds the number
  of requests.
\<close>

fun page_back :: "nat \<Rightarrow> uuid \<Rightarrow> uuid \<Rightarrow> int \<Rightarrow> gotime \<Rightarrow> store \<Rightarrow> StoredMessage list" where
  "page_back 0 T c limit before s = []"
| "page_back (Suc k) T c limit before s =
     (case ListMessages T c limit before s of
        Inl _ \<Rightarrow> []
      | Inr [] \<Rightarrow> []
      | Inr (m # p) \<Rightarrow> page_back k T c limit (msg_TS m) s @ (m # p))"

section \<open>Pages are suffixes of the log\<close>

lemma filter_sort_key: "filter P (sort_key k xs) = sort_key k (filter P xs)"
  by (rule filter_sort)

lemma scanMessage_TS [simp]: "msg_TS (scanMessage r) = time_UnixMicro (msg_TS r)"
  by (simp add: scanMessage_def)

lemma ListMessages_log:
  assumes "\<not> st_down s"
  shows "ListMessages T c limit before s = Inr (lastn (clamp_limit limit)
    (filter (\<lambda>m. IsZero before \<or> UnixMicro (msg_TS m) < UnixMicro before) (channel_log T c s)))"
proof -
  let ?P = "\<lambda>r. msg_TenantID r = T \<and> msg_ChannelID r = c \<and> (IsZero before \<or> msg_TS r < UnixMicro before)"
  let ?Q = "\<lambda>r. IsZero before \<or> msg_TS r < UnixMicro before"
  have split: "filter ?P (st_msgs s) = filter ?Q (filter (in_channel T c) (st_msgs s))"
    by (auto simp: in_channel_def intro: filter_cong)
  have "filter (\<lambda>m. IsZero before \<or> UnixMicro (msg_TS m) < UnixMicro before) (channel_log T c s)
      = map scanMessage (filter ?Q (sort_key msg_TS (filter (in_channel T c) (st_msgs s))))"
    by (simp add: channel_log_def filter_map comp_def)
  also have "\<dots> = map scanMessage (sort_key msg_TS (filter ?P (st_msgs s)))"
    by (simp only: filter_sort_key split)
  finally show ?thesis
    using assms by (simp add: ListMessages_def Let_def rev_map rev_take_rev lastn_map)
qed

lemma channel_log_sorted: "sorted (map msg_TS (channel_log T c s))"
proof -
  let ?rows = "sort_key msg_TS (filter (in_channel T c) (st_msgs s))"
  have "sorted (map msg_TS ?rows)" by simp
  then have "sorted (map time_UnixMicro (map msg_TS ?rows))"
    by (auto simp: sorted_wrt_map time_UnixMicro_def elim: sorted_wrt_mono_rel [rotated])
  then show ?thesis by (simp add: channel_log_def comp_def)
qed

lemma clamp_limit_bounds: "1 \<le> clamp_limit limit \<and> clamp_limit limit \<le> 500"
  by (auto simp: clamp_limit_def Let_def)

section \<open>Paging backwards recovers the log\<close>

lemma filter_before_strict:
  assumes "sorted (map f (xs @ m # ys))" and "distinct (map f (xs @ m # ys))"
  shows "filter (\<lambda>x. f x < (f m :: int)) (xs @ m # ys) = xs"
proof -
  have "\<forall>x \<in> set xs. f x < f m"
    using assms by (force simp: sorted_append image_iff less_le)
  moreover have "\<forall>y \<in> set ys. \<not> f y < f m"
    using assms by (auto simp: sorted_append)
  ultimately show ?thesis by (simp add: filter_id_conv filter_empty_conv)
qed

lemma time_micro_order:
  "m \<in> set (channel_log T c s) \<Longrightarrow> time_UnixMicro (UnixMicro (msg_TS m)) = msg_TS m"
  by (auto simp: channel_log_def)

lemma log_before:
  assumes log: "channel_log T c s = xs @ m # ys" and d: "distinct (map msg_TS (channel_log T c s))"
  shows "filter (\<lambda>x. UnixMicro (msg_TS x) < UnixMicro (msg_TS m)) (channel_log T c s) = xs"
proof -
  have "UnixMicro (msg_TS x) < UnixMicro (msg_TS m) \<longleftrightarrow> msg_TS x < msg_TS m"
    if "x \<in> set (channel_log T c s)" for x
    using time_micro_order [OF that] time_micro_order [of m T c s] log
    by (metis in_set_conv_decomp time_UnixMicro_less_iff)
  then have "filter (\<lambda>x. UnixMicro (msg_TS x) < UnixMicro (msg_TS m)) (channel_log T c s)
      = filter (\<lambda>x. msg_TS x < msg_TS m) (channel_log T c s)"
    by (auto intro: filter_cong)
  then show ?thesis
    using filter_before_strict [of msg_TS xs m ys] channel_log_sorted [of T c s] d log by simp
qed

text \<open>The state of the client's loop: everything from some position of the log on is fetched.\<close>

lemma page_back_prefix:
  assumes up: "\<not> st_down s" and d: "distinct (map msg_TS (channel_log T c s))"
    and nz: "\<forall>m \<in> set (channel_log T c s). msg_TS m \<noteq> 0"
    and log: "channel_log T c s = xs @ ys"
    and bef: "ys = [] \<and> before = 0 \<or> ys \<noteq> [] \<and> before = msg_TS (hd ys)"
    and k: "length xs \<le> k * clamp_limit limit"
  shows "page_back k T c limit before s = xs"
  using log bef k
proof (induction k arbitrary: xs ys before)
  case 0
  then show ?case by simp
next
  case (Suc k)
  let ?n = "clamp_limit limit"
  have page: "ListMessages T c limit before s = Inr (lastn ?n xs)"
  proof (cases "ys = []")
    case True
    with Suc.prems show ?thesis by (simp add: ListMessages_log up IsZero_def)
  next
    case False
    then obtain m zs where ys: "ys = m # zs" by (cases ys) auto
    then have "before = msg_TS m" and "m \<in> set (channel_log T c s)"
      using Suc.prems by auto
    then have "\<not> IsZero before" using nz by (simp add: IsZero_def)
    with ys Suc.prems \<open>before = msg_TS m\<close> show ?thesis
      using log_before [of T c s xs m zs] d by (simp add: ListMessages_log up)
  qed
  show ?case
  proof (cases "lastn ?n xs")
    case Nil
    then have "min ?n (length xs) = 0" by (metis length_lastn list.size(3))
    then have "xs = []" using clamp_limit_bounds [of limit] by (simp add: min_def split: if_splits)
    with page Nil show ?thesis by simp
  next
    case (Cons m p)
    let ?rest = "take (length xs - ?n) xs"
    have xs: "xs = ?rest @ m # p" using lastn_split [of xs ?n] Cons by simp
    have len: "length ?rest \<le> k * ?n"
      using Suc.prems(3) by simp
    have "page_back k T c limit (msg_TS m) s = ?rest"
      by (rule Suc.IH [where ys = "m # p @ ys"]) (use Suc.prems(1) xs len in auto)
    with page Cons xs show ?thesis by simp
  qed
qed

section \<open>Properties\<close>

text \<open>
  A history request returns, oldest first, the newest \<open>limit\<close> messages (1 to 500,
  default 50) of exactly the requested channel of exactly the requested tenant that are older than
  \<open>before\<close>: the answer is the suffix of that length of the channel's time-ordered log.
\<close>

theorem ListMessages_is_log_suffix:
  assumes "\<not> st_down s"
  shows "\<exists>page. ListMessages T c limit before s = Inr page
    \<and> page = lastn (clamp_limit limit)
        (filter (\<lambda>m. IsZero before \<or> UnixMicro (msg_TS m) < UnixMicro before) (channel_log T c s))
    \<and> length page \<le> 500 \<and> sorted (map msg_TS page)
    \<and> (\<forall>m \<in> set page. msg_TenantID m = T \<and> msg_ChannelID m = c)"
proof -
  let ?log = "filter (\<lambda>m. IsZero before \<or> UnixMicro (msg_TS m) < UnixMicro before) (channel_log T c s)"
  have "sorted (map msg_TS ?log)"
    using channel_log_sorted [of T c s] by (simp add: sorted_filter)
  then have "sorted (map msg_TS (lastn (clamp_limit limit) ?log))"
    by (simp add: lastn_def drop_map [symmetric] sorted_wrt_drop)
  moreover have "\<forall>m \<in> set (lastn (clamp_limit limit) ?log). msg_TenantID m = T \<and> msg_ChannelID m = c"
    by (auto simp: lastn_def channel_log_def in_channel_def scanMessage_def dest!: in_set_dropD)
  ultimately show ?thesis
    using ListMessages_log [OF assms] clamp_limit_bounds [of limit] by auto
qed

definition paging_example :: store where
  "paging_example = run_cmds
     [CmdCreateTenant unix_epoch (Some 1) \<lparr>ten_ID = 0, ten_Slug = ''acme'', ten_DisplayName = ''Acme'',
        ten_Settings = [], ten_Status = [], ten_CreatedAt = 0\<rparr>,
      CmdRecordMessage unix_epoch (Some 11) \<lparr>msg_ID = 0, msg_TenantID = 1, msg_ChannelID = 5,
        msg_FromAccountID = 7, msg_Body = ''a'', msg_TS = unix_epoch + 3000, msg_CreatedAt = 0\<rparr>,
      CmdRecordMessage unix_epoch (Some 12) \<lparr>msg_ID = 0, msg_TenantID = 1, msg_ChannelID = 5,
        msg_FromAccountID = 7, msg_Body = ''b'', msg_TS = unix_epoch + 3000, msg_CreatedAt = 0\<rparr>,
      CmdRecordMessage unix_epoch (Some 13) \<lparr>msg_ID = 0, msg_TenantID = 1, msg_ChannelID = 6,
        msg_FromAccountID = 7, msg_Body = ''c'', msg_TS = unix_epoch + 4000, msg_CreatedAt = 0\<rparr>,
      CmdRecordMessage unix_epoch (Some 14) \<lparr>msg_ID = 0, msg_TenantID = 1, msg_ChannelID = 6,
        msg_FromAccountID = 7, msg_Body = ''d'', msg_TS = unix_epoch + 2000, msg_CreatedAt = 0\<rparr>] Migrate"

lemmas eval_store = run_cmds_def Migrate_def cmd_defs after_defs or_new_def or_now_def IsZero_def
  UnixMicro_def time_UnixMicro_def tenant_row_def or_default_def TenantActive_def unix_epoch_def

lemma paging_example_rows:
  "st_msgs paging_example =
    [\<lparr>msg_ID = 11, msg_TenantID = 1, msg_ChannelID = 5, msg_FromAccountID = 7, msg_Body = ''a'', msg_TS = 3, msg_CreatedAt = 0\<rparr>,
     \<lparr>msg_ID = 12, msg_TenantID = 1, msg_ChannelID = 5, msg_FromAccountID = 7, msg_Body = ''b'', msg_TS = 3, msg_CreatedAt = 0\<rparr>,
     \<lparr>msg_ID = 13, msg_TenantID = 1, msg_ChannelID = 6, msg_FromAccountID = 7, msg_Body = ''c'', msg_TS = 4, msg_CreatedAt = 0\<rparr>,
     \<lparr>msg_ID = 14, msg_TenantID = 1, msg_ChannelID = 6, msg_FromAccountID = 7, msg_Body = ''d'', msg_TS = 2, msg_CreatedAt = 0\<rparr>]
   \<and> \<not> st_down paging_example"
  by (simp add: paging_example_def eval_store)

lemma paging_example_log:
  "map msg_Body (channel_log 1 6 paging_example) = [''d'', ''c'']
   \<and> map msg_TS (channel_log 1 6 paging_example) = [unix_epoch + 2000, unix_epoch + 4000]"
  using paging_example_rows
  by (simp add: channel_log_def in_channel_def scanMessage_def time_UnixMicro_def)

theorem ListMessages_is_log_suffix_witness:
  "\<not> st_down paging_example \<and> (\<exists>page. ListMessages 1 6 1 0 paging_example = Inr page \<and> length page \<le> 500)"
proof -
  have up: "\<not> st_down paging_example" using paging_example_rows by simp
  show ?thesis using up ListMessages_is_log_suffix [OF up, of 1 6 1 0] by blast
qed

text \<open>
  Property C24. A client that pages backwards (each request asks for messages before the oldest
  timestamp of the previous page) recovers the whole log of a channel, in order, with no message
  repeated or missing, after at most \<open>\<lceil>length / limit\<rceil>\<close> requests, provided no two messages of the
  channel carry the same microsecond timestamp.
\<close>

theorem paging_recovers_log:
  assumes "\<not> st_down s" and "distinct (map msg_TS (channel_log T c s))"
    and "\<forall>m \<in> set (channel_log T c s). msg_TS m \<noteq> 0"
    and "length (channel_log T c s) \<le> k * clamp_limit limit"
  shows "page_back k T c limit 0 s = channel_log T c s"
  by (rule page_back_prefix [where ys = "[]"]) (use assms in auto)

theorem paging_recovers_log_witness:
  "map msg_Body (page_back 2 1 6 1 0 paging_example) = [''d'', ''c'']"
proof -
  have ts: "map msg_TS (channel_log 1 6 paging_example) = [unix_epoch + 2000, unix_epoch + 4000]"
    using paging_example_log by simp
  then have len: "length (channel_log 1 6 paging_example) = 2"
    by (metis length_map list.size(3,4) numeral_2_eq_2 One_nat_def add.commute plus_1_eq_Suc)
  have nz: "\<forall>m \<in> set (channel_log 1 6 paging_example). msg_TS m \<noteq> 0"
  proof
    fix m assume "m \<in> set (channel_log 1 6 paging_example)"
    then have "msg_TS m \<in> set [unix_epoch + 2000, unix_epoch + 4000]"
      unfolding ts [symmetric] by simp
    then show "msg_TS m \<noteq> 0" by (auto simp: unix_epoch_def)
  qed
  have "page_back 2 1 6 1 0 paging_example = channel_log 1 6 paging_example"
    by (rule paging_recovers_log) (use ts len nz paging_example_rows in \<open>auto simp: clamp_limit_def\<close>)
  then show ?thesis using paging_example_log by simp
qed

text \<open>
  Two messages of a channel stored with the same microsecond timestamp can straddle a
  page boundary, and then the documented paging loses one of them for every number of requests: the
  client of the example never receives the message \<open>a\<close>.
\<close>

theorem paging_loses_ties:
  "map msg_Body (channel_log 1 5 paging_example) = [''a'', ''b'']
   \<and> (\<forall>k. map msg_Body (page_back (Suc k) 1 5 1 0 paging_example) = [''b''])"
proof -
  have up: "\<not> st_down paging_example" using paging_example_rows by simp
  have log: "map msg_Body (channel_log 1 5 paging_example) = [''a'', ''b'']"
    using paging_example_rows by (simp add: channel_log_def in_channel_def scanMessage_def)
  obtain m where p1: "ListMessages 1 5 1 0 paging_example = Inr [m]"
    and m: "msg_Body m = ''b''" "msg_TS m = unix_epoch + 3000"
    using paging_example_rows
    by (simp add: ListMessages_def Let_def IsZero_def clamp_limit_def scanMessage_def time_UnixMicro_def)
  have p2: "ListMessages 1 5 1 (msg_TS m) paging_example = Inr []"
    using paging_example_rows m
    by (simp add: ListMessages_def Let_def IsZero_def UnixMicro_def unix_epoch_def)
  have "page_back k 1 5 1 (msg_TS m) paging_example = []" for k
    by (cases k) (simp_all add: p2)
  then show ?thesis using log p1 m by simp
qed

end
