(* ===== verification/Channels.thy ===== *)
theory Channels
  imports Prelude
begin

text \<open>
  The in-memory channels (\<^verbatim>\<open>internal/channels/channels.go\<close>): the member set of a channel,
  its history ring buffer, and the sharded registry. A member is a connection, named by its
  connection id; what a member does with a broadcast frame is the argument \<open>enqueue\<close> of
  \<open>Broadcast\<close>, the one method of the \<^verbatim>\<open>Member\<close> interface that has an effect. Every method
  runs under the channel's or the shard's lock, so one method is one atomic step of the model.
\<close>

unbundle bit_operations_syntax

section \<open>Channels\<close>

record HistoryEntry =
  he_From :: uuid
  he_DisplayName :: string
  he_TS :: gotime
  he_Body :: string

definition zeroEntry :: HistoryEntry where
  "zeroEntry = \<lparr>he_From = 0, he_DisplayName = '''', he_TS = 0, he_Body = ''''\<rparr>"

definition defaultHistorySize :: nat where
  "defaultHistorySize = 32"

record Channel =
  ch_TenantID :: uuid
  ch_ID :: uuid
  ch_Name :: string
  ch_members :: "uuid list"
  ch_hist :: "HistoryEntry list"
  ch_histPos :: nat

definition newChannel :: "uuid \<Rightarrow> uuid \<Rightarrow> string \<Rightarrow> Channel" where
  "newChannel tenantID i name = \<lparr>ch_TenantID = tenantID, ch_ID = i, ch_Name = name, ch_members = [],
     ch_hist = replicate defaultHistorySize zeroEntry, ch_histPos = 0\<rparr>"

definition AddMember :: "uuid \<Rightarrow> Channel \<Rightarrow> Channel \<times> bool" where
  "AddMember m c = (let existed = m \<in> set (ch_members c)
     in (c\<lparr>ch_members := (if existed then ch_members c else ch_members c @ [m])\<rparr>, \<not> existed))"

definition RemoveMember :: "uuid \<Rightarrow> Channel \<Rightarrow> Channel \<times> bool" where
  "RemoveMember connID c = (let existed = connID \<in> set (ch_members c)
     in (c\<lparr>ch_members := removeAll connID (ch_members c)\<rparr>, existed))"

definition Broadcast :: "(uuid \<Rightarrow> bytes \<Rightarrow> 'h \<Rightarrow> 'h) \<Rightarrow> bytes \<Rightarrow> Channel \<Rightarrow> 'h \<Rightarrow> 'h" where
  "Broadcast enqueue b c h = fold (\<lambda>m. enqueue m b) (ch_members c) h"

definition BroadcastExcept :: "(uuid \<Rightarrow> bytes \<Rightarrow> 'h \<Rightarrow> 'h) \<Rightarrow> bytes \<Rightarrow> uuid \<Rightarrow> Channel \<Rightarrow> 'h \<Rightarrow> 'h" where
  "BroadcastExcept enqueue b skipConn c h =
     fold (\<lambda>m h. if m = skipConn then h else enqueue m b h) (ch_members c) h"

definition AppendHistory :: "HistoryEntry \<Rightarrow> Channel \<Rightarrow> Channel" where
  "AppendHistory e c = c\<lparr>ch_hist := (ch_hist c)[ch_histPos c := e],
     ch_histPos := (ch_histPos c + 1) mod length (ch_hist c)\<rparr>"

text \<open>The backwards walk of \<^verbatim>\<open>RecentMessages\<close>: \<open>k\<close> slots from the \<open>i\<close>-th most recent on.\<close>

fun walk_back :: "HistoryEntry list \<Rightarrow> nat \<Rightarrow> nat \<Rightarrow> nat \<Rightarrow> HistoryEntry list" where
  "walk_back hist pos i 0 = []"
| "walk_back hist pos i (Suc k) =
     (let depth = int (length hist);
          idx = nat ((int pos - 1 - int i + depth) mod depth);
          e = hist ! idx
      in if IsZero (he_TS e) \<and> he_Body e = '''' then [] else e # walk_back hist pos (Suc i) k)"

definition RecentMessages :: "int \<Rightarrow> Channel \<Rightarrow> HistoryEntry list" where
  "RecentMessages n c =
     (if n \<le> 0 then []
      else let depth = length (ch_hist c); n' = (if n > int depth then depth else nat n)
           in rev (walk_back (ch_hist c) (ch_histPos c) 0 n'))"

definition MemberCount :: "Channel \<Rightarrow> nat" where
  "MemberCount c = length (ch_members c)"

definition Members :: "Channel \<Rightarrow> uuid list" where
  "Members c = ch_members c"

section \<open>The sharded registry\<close>

definition numShards :: nat where
  "numShards = 64"

type_synonym key = "uuid \<times> uuid"
type_synonym shard = "(key \<times> Channel) list"

record Registry =
  reg_shards :: "shard list"

definition NewRegistry :: Registry where
  "NewRegistry = \<lparr>reg_shards = replicate numShards []\<rparr>"

definition uuid_bytes :: "uuid \<Rightarrow> 64 word list" where
  "uuid_bytes u = map (\<lambda>i. ucast (drop_bit (8 * (15 - i)) u AND 255)) [0..<16]"

definition fnv64a :: "64 word list \<Rightarrow> 64 word" where
  "fnv64a bs = foldl (\<lambda>h b. (h XOR b) * 1099511628211) 14695981039346656037 bs"

definition shardFor :: "key \<Rightarrow> nat" where
  "shardFor k = unat (fnv64a (uuid_bytes (fst k) @ uuid_bytes (snd k)) AND 63)"

definition Get :: "uuid \<Rightarrow> uuid \<Rightarrow> Registry \<Rightarrow> Channel option" where
  "Get tenantID chanID r = map_of (reg_shards r ! shardFor (tenantID, chanID)) (tenantID, chanID)"

definition put_shard :: "key \<Rightarrow> (shard \<Rightarrow> shard) \<Rightarrow> Registry \<Rightarrow> Registry" where
  "put_shard k f r = r\<lparr>reg_shards := (reg_shards r)[shardFor k := f (reg_shards r ! shardFor k)]\<rparr>"

text \<open>The slow path repeats the lookup under the write lock; run alone, both lookups agree.\<close>

definition GetOrCreate :: "uuid \<Rightarrow> uuid \<Rightarrow> string \<Rightarrow> Registry \<Rightarrow> Registry \<times> Channel" where
  "GetOrCreate tenantID chanID name r =
     (case Get tenantID chanID r of
        Some c \<Rightarrow> (r, c)
      | None \<Rightarrow> let c = newChannel tenantID chanID name
                in (put_shard (tenantID, chanID) (AList.update (tenantID, chanID) c) r, c))"

definition Remove :: "uuid \<Rightarrow> uuid \<Rightarrow> Registry \<Rightarrow> Registry" where
  "Remove tenantID chanID r = put_shard (tenantID, chanID) (AList.delete (tenantID, chanID)) r"

definition Count :: "Registry \<Rightarrow> nat" where
  "Count r = sum_list (map length (reg_shards r))"

definition RemoveMemberFromAll :: "uuid \<Rightarrow> Registry \<Rightarrow> Registry" where
  "RemoveMemberFromAll connID r =
     r\<lparr>reg_shards := map (map (\<lambda>(k, c). (k, fst (RemoveMember connID c)))) (reg_shards r)\<rparr>"

text \<open>A method called through a channel pointer changes the channel the registry holds.\<close>

definition on_channel :: "uuid \<Rightarrow> uuid \<Rightarrow> (Channel \<Rightarrow> Channel) \<Rightarrow> Registry \<Rightarrow> Registry" where
  "on_channel tenantID chanID f r =
     (case Get tenantID chanID r of
        None \<Rightarrow> r
      | Some c \<Rightarrow> put_shard (tenantID, chanID) (AList.update (tenantID, chanID) (f c)) r)"

section \<open>Invariants\<close>

definition channel_ok :: "Channel \<Rightarrow> bool" where
  "channel_ok c \<longleftrightarrow> distinct (ch_members c) \<and> length (ch_hist c) = defaultHistorySize
     \<and> ch_histPos c < defaultHistorySize"

definition reg_ok :: "Registry \<Rightarrow> bool" where
  "reg_ok r \<longleftrightarrow> length (reg_shards r) = numShards \<and>
     (\<forall>i < numShards. distinct (map fst (reg_shards r ! i)) \<and>
        (\<forall>(k, c) \<in> set (reg_shards r ! i). shardFor k = i \<and> channel_ok c \<and> k = (ch_TenantID c, ch_ID c)))"

section \<open>The history ring\<close>

text \<open>\<open>ring c es\<close>: the ring of \<open>c\<close> is what appending \<open>es\<close> to a new channel leaves.\<close>

definition ring :: "Channel \<Rightarrow> HistoryEntry list \<Rightarrow> bool" where
  "ring c es \<longleftrightarrow> length (ch_hist c) = defaultHistorySize
     \<and> ch_histPos c = length es mod defaultHistorySize
     \<and> (\<forall>j < length es. length es \<le> j + defaultHistorySize \<longrightarrow> ch_hist c ! (j mod defaultHistorySize) = es ! j)
     \<and> (\<forall>j. length es \<le> j \<longrightarrow> j < defaultHistorySize \<longrightarrow> ch_hist c ! j = zeroEntry)"

definition visible :: "HistoryEntry \<Rightarrow> bool" where
  "visible e \<longleftrightarrow> \<not> (IsZero (he_TS e) \<and> he_Body e = '''')"

lemma ring_newChannel: "ring (newChannel t i n) []"
  by (simp add: ring_def newChannel_def defaultHistorySize_def)

lemma mod_eq_close:
  assumes "(a::nat) mod n = b mod n" and "a < b" and "b < a + n"
  shows False
proof -
  have "n dvd b - a" using assms(1,2) by (metis mod_eq_dvd_iff_nat less_imp_le)
  then show False using assms(2,3) by (auto dest: dvd_imp_le)
qed

lemma ring_AppendHistory:
  assumes "ring c es"
  shows "ring (AppendHistory e c) (es @ [e])"
proof -
  let ?n = "defaultHistorySize"
  have n: "0 < ?n" by (simp add: defaultHistorySize_def)
  have len: "length (ch_hist c) = ?n" and pos: "ch_histPos c = length es mod ?n"
    and old: "\<And>j. j < length es \<Longrightarrow> length es \<le> j + ?n \<Longrightarrow> ch_hist c ! (j mod ?n) = es ! j"
    and zero: "\<And>j. length es \<le> j \<Longrightarrow> j < ?n \<Longrightarrow> ch_hist c ! j = zeroEntry"
    using assms by (auto simp: ring_def)
  have *: "(ch_hist c)[length es mod ?n := e] ! (j mod ?n) = (es @ [e]) ! j"
    if "j < Suc (length es)" "Suc (length es) \<le> j + ?n" for j
  proof (cases "j = length es")
    case True
    then show ?thesis using len n by simp
  next
    case False
    then have "j mod ?n \<noteq> length es mod ?n"
      using mod_eq_close [of j ?n "length es"] that by auto
    with False that old [of j] show ?thesis by (simp add: nth_append)
  qed
  have "ch_hist c ! j = zeroEntry \<and> j \<noteq> length es mod ?n" if "Suc (length es) \<le> j" "j < ?n" for j
    using zero [of j] that by simp
  with * len pos n show ?thesis
    by (simp add: ring_def AppendHistory_def mod_Suc_eq)
qed

text \<open>The \<open>i\<close>-th most recent slot of the ring.\<close>

definition slot :: "Channel \<Rightarrow> nat \<Rightarrow> HistoryEntry" where
  "slot c i = ch_hist c ! nat ((int (ch_histPos c) - 1 - int i + int (length (ch_hist c)))
     mod int (length (ch_hist c)))"

lemma slot_ring:
  assumes "ring c es" and "i < defaultHistorySize"
  shows "slot c i = (if i < length es then es ! (length es - 1 - i) else zeroEntry)"
proof -
  let ?n = "defaultHistorySize" and ?m = "length es"
  have len: "length (ch_hist c) = ?n" and pos: "ch_histPos c = ?m mod ?n"
    and old: "\<And>j. j < ?m \<Longrightarrow> ?m \<le> j + ?n \<Longrightarrow> ch_hist c ! (j mod ?n) = es ! j"
    and zero: "\<And>j. ?m \<le> j \<Longrightarrow> j < ?n \<Longrightarrow> ch_hist c ! j = zeroEntry"
    using assms(1) by (auto simp: ring_def)
  show ?thesis
  proof (cases "i < ?m")
    case True
    have "(int (?m mod ?n) - 1 - int i + int ?n) mod int ?n = (int ?m - 1 - int i) mod int ?n"
      using mod_diff_left_eq [of "int ?m" "int ?n" "1 + int i"] by (simp add: zmod_int diff_diff_eq)
    also have "\<dots> = int ((?m - 1 - i) mod ?n)"
      using True by (simp add: zmod_int of_nat_diff diff_diff_eq)
    finally show ?thesis
      using True assms(2) old [of "?m - 1 - i"] by (simp add: slot_def len pos)
  next
    case False
    then have m: "?m mod ?n = ?m" using assms(2) by simp
    have "int ?m - 1 - int i + int ?n = int (?m + ?n - 1 - i)" and "?m + ?n - 1 - i < ?n"
      using False assms(2) by linarith+
    then have "(int ?m - 1 - int i + int ?n) mod int ?n = int (?m + ?n - 1 - i)"
      by (simp only: zmod_int [symmetric] mod_less)
    then have "slot c i = ch_hist c ! (?m + ?n - 1 - i)"
      unfolding slot_def len pos m by (simp only: nat_int)
    then show ?thesis
      using False assms(2) zero [of "?m + ?n - 1 - i"] by simp
  qed
qed

lemma zeroEntry_not_visible: "\<not> visible zeroEntry"
  by (simp add: visible_def zeroEntry_def IsZero_def)

lemma walk_back_ring:
  assumes "ring c es" and "list_all visible es" and "i + k \<le> defaultHistorySize"
  shows "walk_back (ch_hist c) (ch_histPos c) i k
       = map (\<lambda>j. es ! (length es - 1 - j)) [i ..< min (i + k) (length es)]"
  using assms(3)
proof (induction k arbitrary: i)
  case (Suc k)
  have step: "walk_back (ch_hist c) (ch_histPos c) i (Suc k)
      = (if visible (slot c i) then slot c i # walk_back (ch_hist c) (ch_histPos c) (Suc i) k else [])"
    by (simp add: slot_def visible_def Let_def)
  have s: "slot c i = (if i < length es then es ! (length es - 1 - i) else zeroEntry)"
    by (rule slot_ring [OF assms(1)]) (use Suc.prems in simp)
  show ?case
  proof (cases "i < length es")
    case True
    then have "visible (es ! (length es - 1 - i))"
      using assms(2) by (auto simp: list_all_length)
    with True s step Suc show ?thesis by (simp add: upt_conv_Cons)
  next
    case False
    with s step show ?thesis by (simp add: zeroEntry_not_visible)
  qed
qed simp

lemma rev_recent:
  "k \<le> length es \<Longrightarrow> rev (map (\<lambda>j. es ! (length es - Suc j)) [0..<k]) = lastn k es"
  by (induction k) (simp_all add: lastn_Suc)

lemma RecentMessages_ring:
  assumes "ring c es" and "list_all visible es"
  shows "RecentMessages n c = lastn (min (nat n) defaultHistorySize) es"
proof (cases "n \<le> 0")
  case True
  then show ?thesis by (simp add: RecentMessages_def)
next
  case False
  define k where "k = min (nat n) defaultHistorySize"
  have len: "length (ch_hist c) = defaultHistorySize" using assms(1) by (simp add: ring_def)
  have "RecentMessages n c = rev (walk_back (ch_hist c) (ch_histPos c) 0 k)"
    using False by (auto simp: RecentMessages_def len k_def min_def)
  also have "\<dots> = lastn (min k (length es)) es"
    by (simp add: walk_back_ring [OF assms] k_def rev_recent)
  also have "\<dots> = lastn k es"
    by (simp add: lastn_def min_def)
  finally show ?thesis by (simp add: k_def)
qed

lemma ring_fold: "ring c es \<Longrightarrow> ring (fold AppendHistory new c) (es @ new)"
proof (induction new arbitrary: c es)
  case (Cons e new)
  then show ?case using Cons.IH [OF ring_AppendHistory [OF Cons.prems, of e]] by simp
qed simp

section \<open>Members and broadcast\<close>

lemma AddMember_ok: "channel_ok c \<Longrightarrow> channel_ok (fst (AddMember m c))"
  by (auto simp: channel_ok_def AddMember_def Let_def)

lemma RemoveMember_ok: "channel_ok c \<Longrightarrow> channel_ok (fst (RemoveMember m c))"
  by (auto simp: channel_ok_def RemoveMember_def Let_def distinct_removeAll)

lemma AppendHistory_ok: "channel_ok c \<Longrightarrow> channel_ok (AppendHistory e c)"
  by (auto simp: channel_ok_def AppendHistory_def defaultHistorySize_def)

lemma newChannel_ok: "channel_ok (newChannel t i n)"
  by (simp add: channel_ok_def newChannel_def defaultHistorySize_def)

lemmas channel_oks [inv_intros] = AddMember_ok RemoveMember_ok AppendHistory_ok newChannel_ok

lemma AddMember_set [simp]: "set (ch_members (fst (AddMember m c))) = insert m (set (ch_members c))"
  by (auto simp: AddMember_def Let_def)

lemma RemoveMember_set [simp]: "set (ch_members (fst (RemoveMember m c))) = set (ch_members c) - {m}"
  by (auto simp: RemoveMember_def Let_def)

text \<open>
  The contract of the \<^verbatim>\<open>Member\<close> interface that fan-out relies on: a member's \<open>enqueue\<close>
  touches that member's queue only. Then the order in which Go iterates over the member map
  cannot be observed, and every member gets the frame exactly once.
\<close>

locale member =
  fixes enqueue :: "uuid \<Rightarrow> bytes \<Rightarrow> 'h \<Rightarrow> 'h"
    and queue :: "uuid \<Rightarrow> 'h \<Rightarrow> 'q"
    and push :: "bytes \<Rightarrow> 'q \<Rightarrow> 'q"
  assumes enqueue_self: "queue m (enqueue m b h) = push b (queue m h)"
    and enqueue_other: "m' \<noteq> m \<Longrightarrow> queue m' (enqueue m b h) = queue m' h"
begin

lemma fold_queue:
  "distinct ms \<Longrightarrow> queue m (fold (\<lambda>m. enqueue m b) ms h)
     = (if m \<in> set ms then push b (queue m h) else queue m h)"
proof (induction ms arbitrary: h)
  case (Cons x ms)
  then show ?case
    using enqueue_self [of x b h] enqueue_other [of m x b h] by (cases "m = x") auto
qed simp

lemma broadcast_queue:
  assumes "channel_ok c"
  shows "queue m (Broadcast enqueue b c h)
       = (if m \<in> set (ch_members c) then push b (queue m h) else queue m h)"
  using assms fold_queue by (simp add: Broadcast_def channel_ok_def)

lemma broadcast_order_irrelevant:
  assumes "channel_ok c" and "channel_ok c'" and "set (ch_members c) = set (ch_members c')"
  shows "queue m (Broadcast enqueue b c h) = queue m (Broadcast enqueue b c' h)"
  using assms by (simp add: broadcast_queue)

end

section \<open>The registry refines one flat map\<close>

lemma shardFor_bound: "shardFor k < numShards"
proof -
  have "fnv64a (uuid_bytes (fst k) @ uuid_bytes (snd k)) AND 63 \<le> 63"
    by (rule word_and_le1)
  then show ?thesis
    unfolding shardFor_def numShards_def by (simp add: word_le_nat_alt)
qed

lemma reg_okD:
  assumes "reg_ok r"
  shows "length (reg_shards r) = numShards"
    and "i < numShards \<Longrightarrow> distinct (map fst (reg_shards r ! i))"
    and "i < numShards \<Longrightarrow> (k, c) \<in> set (reg_shards r ! i) \<Longrightarrow>
           shardFor k = i \<and> channel_ok c \<and> k = (ch_TenantID c, ch_ID c)"
proof -
  note ok = assms [unfolded reg_ok_def]
  show "length (reg_shards r) = numShards" by (rule ok [THEN conjunct1])
  show "distinct (map fst (reg_shards r ! i))" if "i < numShards"
    by (rule ok [THEN conjunct2, rule_format, OF that, THEN conjunct1])
  show "shardFor k = i \<and> channel_ok c \<and> k = (ch_TenantID c, ch_ID c)"
    if "i < numShards" "(k, c) \<in> set (reg_shards r ! i)"
    using bspec [OF ok [THEN conjunct2, rule_format, OF that(1), THEN conjunct2] that(2)]
    unfolding prod.case .
qed

lemma shard_in_range [simp]: "reg_ok r \<Longrightarrow> shardFor k < length (reg_shards r)"
  using shardFor_bound [of k] reg_okD(1) [of r] by simp

text \<open>The abstract value of a registry: the channel of a key, wherever it is sharded.\<close>

definition flat :: "Registry \<Rightarrow> key \<Rightarrow> Channel option" where
  "flat r k = map_of (reg_shards r ! shardFor k) k"

lemma Get_flat: "Get t c r = flat r (t, c)"
  by (simp add: Get_def flat_def)

lemma flat_NewRegistry: "flat NewRegistry k = None"
  using shardFor_bound [of k] by (simp add: flat_def NewRegistry_def)

lemma reg_ok_NewRegistry: "reg_ok NewRegistry"
  by (simp add: reg_ok_def NewRegistry_def)

lemma flat_put_update:
  assumes "reg_ok r"
  shows "flat (put_shard k (AList.update k c) r) = (flat r)(k \<mapsto> c)"
  using assms by (auto simp: fun_eq_iff flat_def put_shard_def nth_list_update update_conv')

lemma flat_put_delete:
  assumes "reg_ok r"
  shows "flat (put_shard k (AList.delete k) r) = (flat r)(k := None)"
  using assms by (auto simp: fun_eq_iff flat_def put_shard_def nth_list_update delete_conv')

lemma put_shard_nth:
  assumes "reg_ok r" and "i < numShards"
  shows "reg_shards (put_shard k f r) ! i
       = (if i = shardFor k then f (reg_shards r ! i) else reg_shards r ! i)"
  using assms(2) reg_okD(1) [OF assms(1)] by (simp add: put_shard_def nth_list_update)

lemma reg_ok_put:
  assumes "reg_ok r" and "distinct (map fst (f (reg_shards r ! shardFor k)))"
    and new: "\<And>k' c. (k', c) \<in> set (f (reg_shards r ! shardFor k)) \<Longrightarrow>
           (k', c) \<in> set (reg_shards r ! shardFor k) \<or> (k' = k \<and> channel_ok c \<and> k = (ch_TenantID c, ch_ID c))"
  shows "reg_ok (put_shard k f r)"
  unfolding reg_ok_def
proof (intro conjI allI impI ballI)
  show "length (reg_shards (put_shard k f r)) = numShards"
    using reg_okD(1) [OF assms(1)] by (simp add: put_shard_def)
next
  fix i assume i: "i < numShards"
  show "distinct (map fst (reg_shards (put_shard k f r) ! i))"
    using assms(2) reg_okD(2) [OF assms(1) i] by (simp add: put_shard_nth [OF assms(1) i])
next
  fix i p assume i: "i < numShards" and p: "p \<in> set (reg_shards (put_shard k f r) ! i)"
  obtain k' c where kc: "p = (k', c)" by (cases p)
  have "shardFor k' = i \<and> channel_ok c \<and> k' = (ch_TenantID c, ch_ID c)"
  proof (cases "i = shardFor k")
    case True
    with p kc have "(k', c) \<in> set (f (reg_shards r ! shardFor k))"
      by (simp add: put_shard_nth [OF assms(1) shardFor_bound])
    from new [OF this] show ?thesis
      using True reg_okD(3) [OF assms(1) i, of k' c] by auto
  next
    case False
    with p kc have "(k', c) \<in> set (reg_shards r ! i)"
      by (simp add: put_shard_nth [OF assms(1) i])
    then show ?thesis by (rule reg_okD(3) [OF assms(1) i])
  qed
  then show "case p of (k', c) \<Rightarrow> shardFor k' = i \<and> channel_ok c \<and> k' = (ch_TenantID c, ch_ID c)"
    unfolding kc prod.case .
qed

lemma AList_update_entries: "(k', c') \<in> set (AList.update k c al) \<Longrightarrow> (k', c') \<in> set al \<or> (k' = k \<and> c' = c)"
  by (induction al) (auto split: if_splits)

lemma reg_ok_shard: "reg_ok r \<Longrightarrow> distinct (map fst (reg_shards r ! shardFor k))"
  by (rule reg_okD(2) [OF _ shardFor_bound])

lemma reg_ok_update:
  assumes "reg_ok r" and "channel_ok c" and "k = (ch_TenantID c, ch_ID c)"
  shows "reg_ok (put_shard k (AList.update k c) r)"
proof (rule reg_ok_put [OF assms(1)])
  show "distinct (map fst (AList.update k c (reg_shards r ! shardFor k)))"
    by (rule distinct_update [OF reg_ok_shard [OF assms(1)]])
qed (use assms in \<open>auto dest: AList_update_entries\<close>)

lemma reg_ok_delete:
  assumes "reg_ok r" shows "reg_ok (put_shard k (AList.delete k) r)"
proof (rule reg_ok_put [OF assms])
  show "distinct (map fst (AList.delete k (reg_shards r ! shardFor k)))"
    by (rule distinct_delete [OF reg_ok_shard [OF assms]])
qed (auto simp: AList.delete_eq)

lemma flat_ok: "reg_ok r \<Longrightarrow> flat r k = Some c \<Longrightarrow> channel_ok c \<and> k = (ch_TenantID c, ch_ID c)"
  using reg_okD(3) [of r "shardFor k" k c] shardFor_bound [of k] by (auto simp: flat_def dest!: map_of_SomeD)


lemma flat_on_channel:
  "reg_ok r \<Longrightarrow> flat (on_channel t i f r) = (flat r)((t, i) := map_option f (flat r (t, i)))"
  by (auto simp: on_channel_def Get_flat flat_put_update fun_eq_iff split: option.split)

lemma flat_GetOrCreate:
  assumes "reg_ok r"
  shows "flat (fst (GetOrCreate t i n r)) =
           (if flat r (t, i) = None then (flat r)((t, i) \<mapsto> newChannel t i n) else flat r)"
    and "flat (fst (GetOrCreate t i n r)) (t, i) = Some (snd (GetOrCreate t i n r))"
  using assms by (auto simp: GetOrCreate_def Get_flat flat_put_update Let_def split: option.split)

lemma flat_Remove: "reg_ok r \<Longrightarrow> flat (Remove t i r) = (flat r)((t, i) := None)"
  by (simp add: Remove_def flat_put_delete)

lemma map_of_map_values: "map_of (map (\<lambda>(k, c). (k, f c)) al) k = map_option f (map_of al k)"
  by (induction al) auto

lemma flat_RemoveMemberFromAll:
  "reg_ok r \<Longrightarrow> flat (RemoveMemberFromAll m r) = (\<lambda>k. map_option (\<lambda>c. fst (RemoveMember m c)) (flat r k))"
  by (simp add: fun_eq_iff flat_def RemoveMemberFromAll_def map_of_map_values)

lemma newChannel_id [simp]: "ch_TenantID (newChannel t i n) = t" "ch_ID (newChannel t i n) = i"
  by (simp_all add: newChannel_def)

lemma reg_ok_GetOrCreate [inv_intros]: "reg_ok r \<Longrightarrow> reg_ok (fst (GetOrCreate t i n r))"
  by (auto simp: GetOrCreate_def Let_def newChannel_ok intro!: reg_ok_update split: option.split)

lemma reg_ok_Remove [inv_intros]: "reg_ok r \<Longrightarrow> reg_ok (Remove t i r)"
  by (simp add: Remove_def reg_ok_delete)

lemma RemoveMember_id [simp]:
  "ch_TenantID (fst (RemoveMember m c)) = ch_TenantID c" "ch_ID (fst (RemoveMember m c)) = ch_ID c"
  by (simp_all add: RemoveMember_def Let_def)

lemma AddMember_id [simp]:
  "ch_TenantID (fst (AddMember m c)) = ch_TenantID c" "ch_ID (fst (AddMember m c)) = ch_ID c"
  by (simp_all add: AddMember_def Let_def)

lemma AppendHistory_id [simp]:
  "ch_TenantID (AppendHistory e c) = ch_TenantID c" "ch_ID (AppendHistory e c) = ch_ID c"
  "ch_members (AppendHistory e c) = ch_members c"
  by (simp_all add: AppendHistory_def)

lemma reg_ok_on_channel:
  assumes "reg_ok r"
    and "\<And>c. channel_ok c \<Longrightarrow> channel_ok (f c) \<and> ch_TenantID (f c) = ch_TenantID c \<and> ch_ID (f c) = ch_ID c"
  shows "reg_ok (on_channel t i f r)"
proof (cases "flat r (t, i)")
  case (Some c)
  then have "channel_ok c" "(t, i) = (ch_TenantID c, ch_ID c)" using flat_ok [OF assms(1)] by blast+
  with Some assms show ?thesis
    by (auto simp: on_channel_def Get_flat intro!: reg_ok_update)
qed (use assms in \<open>simp add: on_channel_def Get_flat\<close>)

lemma reg_ok_RemoveMemberFromAll [inv_intros]:
  assumes "reg_ok r" shows "reg_ok (RemoveMemberFromAll m r)"
  unfolding reg_ok_def
proof (intro conjI allI impI ballI)
  show "length (reg_shards (RemoveMemberFromAll m r)) = numShards"
    using reg_okD(1) [OF assms] by (simp add: RemoveMemberFromAll_def)
next
  fix i assume i: "i < numShards"
  have *: "reg_shards (RemoveMemberFromAll m r) ! i
      = map (\<lambda>(k, c). (k, fst (RemoveMember m c))) (reg_shards r ! i)"
    using reg_okD(1) [OF assms] i by (simp add: RemoveMemberFromAll_def)
  have "map fst (map (\<lambda>(k, c). (k, fst (RemoveMember m c))) al) = map fst al" for al :: shard
    by (induction al) auto
  then show "distinct (map fst (reg_shards (RemoveMemberFromAll m r) ! i))"
    unfolding * using reg_okD(2) [OF assms i] by (simp only:)
  fix p assume "p \<in> set (reg_shards (RemoveMemberFromAll m r) ! i)"
  then obtain k c where p: "p = (k, fst (RemoveMember m c))" and "(k, c) \<in> set (reg_shards r ! i)"
    unfolding * by auto
  note kc = reg_okD(3) [OF assms i this(2)]
  from kc have "channel_ok (fst (RemoveMember m c))" by (simp add: RemoveMember_ok)
  with kc show "case p of (k, c) \<Rightarrow> shardFor k = i \<and> channel_ok c \<and> k = (ch_TenantID c, ch_ID c)"
    unfolding p prod.case by (simp only: RemoveMember_id) blast
qed

lemma length_update_new: "k \<notin> fst ` set al \<Longrightarrow> length (AList.update k v al) = Suc (length al)"
  by (induction al) auto

lemma sum_list_length_update:
  "j < length S \<Longrightarrow> sum_list (map length (S[j := xs])) + length (S ! j) = sum_list (map length S) + length xs"
  by (induction S arbitrary: j) (auto simp: nth_Cons split: nat.split)

lemma Count_GetOrCreate:
  assumes "reg_ok r"
  shows "Count (fst (GetOrCreate t i n r)) = Count r + (if flat r (t, i) = None then 1 else 0)"
proof (cases "flat r (t, i)")
  case None
  let ?S = "reg_shards r" and ?j = "shardFor (t, i)" and ?c = "newChannel t i n"
  have j: "?j < length ?S" using assms by simp
  have "length (AList.update (t, i) ?c (?S ! ?j)) = Suc (length (?S ! ?j))"
    using None by (intro length_update_new) (simp add: flat_def map_of_eq_None_iff)
  with sum_list_length_update [OF j, of "AList.update (t, i) ?c (?S ! ?j)"] None show ?thesis
    by (simp add: Count_def GetOrCreate_def Get_flat put_shard_def Let_def)
qed (use assms in \<open>simp add: GetOrCreate_def Get_flat\<close>)


section \<open>Commands and the abstract registry\<close>

text \<open>
  What the rest of the server does with the registry, as commands, and the specification they
  implement: a map from (tenant, channel) to the set of members and the whole message log.
  The specification has no shards, no ring and no member order.
\<close>

datatype reg_cmd = Open uuid uuid string | Enter uuid uuid uuid | Leave uuid uuid uuid
  | Say uuid uuid HistoryEntry | Close uuid uuid | Disconnect uuid

fun exec_reg :: "reg_cmd \<Rightarrow> Registry \<Rightarrow> Registry" where
  "exec_reg (Open t i n) r = fst (GetOrCreate t i n r)"
| "exec_reg (Enter t i m) r = on_channel t i (\<lambda>c. fst (AddMember m c)) r"
| "exec_reg (Leave t i m) r = on_channel t i (\<lambda>c. fst (RemoveMember m c)) r"
| "exec_reg (Say t i e) r = on_channel t i (AppendHistory e) r"
| "exec_reg (Close t i) r = Remove t i r"
| "exec_reg (Disconnect m) r = RemoveMemberFromAll m r"

type_synonym spec_registry = "key \<rightharpoonup> uuid set \<times> HistoryEntry list"

fun spec_reg :: "reg_cmd \<Rightarrow> spec_registry \<Rightarrow> spec_registry" where
  "spec_reg (Open t i n) A = (if A (t, i) = None then A((t, i) \<mapsto> ({}, [])) else A)"
| "spec_reg (Enter t i m) A = A((t, i) := map_option (\<lambda>(M, L). (insert m M, L)) (A (t, i)))"
| "spec_reg (Leave t i m) A = A((t, i) := map_option (\<lambda>(M, L). (M - {m}, L)) (A (t, i)))"
| "spec_reg (Say t i e) A = A((t, i) := map_option (\<lambda>(M, L). (M, L @ [e])) (A (t, i)))"
| "spec_reg (Close t i) A = A((t, i) := None)"
| "spec_reg (Disconnect m) A = (\<lambda>k. map_option (\<lambda>(M, L). (M - {m}, L)) (A k))"

fun says_visible :: "reg_cmd \<Rightarrow> bool" where
  "says_visible (Say t i e) = visible e"
| "says_visible _ = True"

text \<open>The simulation relation, channel by channel and for the whole registry.\<close>

definition chan_sim :: "Channel \<Rightarrow> uuid set \<times> HistoryEntry list \<Rightarrow> bool" where
  "chan_sim c p \<longleftrightarrow> set (ch_members c) = fst p \<and> ring c (snd p) \<and> list_all visible (snd p)"

definition reg_sim :: "Registry \<Rightarrow> spec_registry \<Rightarrow> bool" where
  "reg_sim r A \<longleftrightarrow> reg_ok r \<and> (\<forall>k. rel_option chan_sim (flat r k) (A k))"

lemma reg_simD: "reg_sim r A \<Longrightarrow> reg_ok r" "reg_sim r A \<Longrightarrow> rel_option chan_sim (flat r k) (A k)"
  unfolding reg_sim_def by blast+

lemma ring_members [simp]:
  "ring (fst (AddMember m c)) L = ring c L" "ring (fst (RemoveMember m c)) L = ring c L"
  by (simp_all add: ring_def AddMember_def RemoveMember_def Let_def)

lemma chan_sim_steps:
  assumes "chan_sim c p"
  shows "chan_sim (fst (AddMember m c)) (insert m (fst p), snd p)"
    and "chan_sim (fst (RemoveMember m c)) (fst p - {m}, snd p)"
    and "visible e \<Longrightarrow> chan_sim (AppendHistory e c) (fst p, snd p @ [e])"
  using assms by (simp_all add: chan_sim_def ring_AppendHistory)

lemma chan_sim_new: "chan_sim (newChannel t i n) ({}, [])"
  by (simp add: chan_sim_def ring_newChannel) (simp add: newChannel_def)

lemma reg_sim_on_channel:
  assumes "reg_sim r A"
    and "\<And>c. channel_ok c \<Longrightarrow> channel_ok (f c) \<and> ch_TenantID (f c) = ch_TenantID c \<and> ch_ID (f c) = ch_ID c"
    and "\<And>c p. chan_sim c p \<Longrightarrow> chan_sim (f c) (g p)"
  shows "reg_sim (on_channel t i f r) (A((t, i) := map_option g (A (t, i))))"
proof -
  note sim = reg_simD [OF assms(1)]
  have "rel_option chan_sim (map_option f (flat r k)) (map_option g (A k))" for k
    unfolding option.rel_map by (rule option.rel_mono_strong [OF sim(2)]) (rule assms(3))
  then show ?thesis
    using sim reg_ok_on_channel [OF sim(1) assms(2)] by (simp add: reg_sim_def flat_on_channel)
qed

lemma exec_reg_sim:
  assumes "reg_sim r A" and "says_visible cmd"
  shows "reg_sim (exec_reg cmd r) (spec_reg cmd A)"
proof (cases cmd)
  case (Open t i n)
  have "flat r (t, i) = None \<longleftrightarrow> A (t, i) = None"
    using reg_simD(2) [OF assms(1), of "(t, i)"] by (auto elim: option.rel_cases)
  then show ?thesis
    using Open assms(1) reg_ok_GetOrCreate chan_sim_new by (auto simp: reg_sim_def flat_GetOrCreate)
next
  case Enter
  with reg_sim_on_channel [OF assms(1)] show ?thesis
    by (simp add: AddMember_ok chan_sim_steps case_prod_unfold)
next
  case Leave
  with reg_sim_on_channel [OF assms(1)] show ?thesis
    by (simp add: RemoveMember_ok chan_sim_steps case_prod_unfold)
next
  case Say
  with reg_sim_on_channel [OF assms(1)] assms(2) show ?thesis
    by (simp add: AppendHistory_ok chan_sim_steps case_prod_unfold)
next
  case Close
  then show ?thesis using assms(1) by (simp add: reg_sim_def reg_ok_Remove flat_Remove)
next
  case (Disconnect m)
  note sim = reg_simD [OF assms(1)]
  have "rel_option chan_sim (map_option (\<lambda>c. fst (RemoveMember m c)) (flat r k))
     (map_option (\<lambda>p. (fst p - {m}, snd p)) (A k))" for k
    unfolding option.rel_map by (rule option.rel_mono_strong [OF sim(2)]) (rule chan_sim_steps(2))
  with Disconnect sim(1) show ?thesis
    by (simp add: reg_sim_def reg_ok_RemoveMemberFromAll flat_RemoveMemberFromAll case_prod_unfold)
qed

lemma exec_regs_sim:
  assumes "reg_sim r A" and "list_all says_visible cmds"
  shows "reg_sim (fold exec_reg cmds r) (fold spec_reg cmds A)"
  using assms by (induction cmds arbitrary: r A) (auto intro: exec_reg_sim)

lemma reg_sim_New: "reg_sim NewRegistry Map.empty"
  by (simp add: reg_sim_def reg_ok_NewRegistry flat_NewRegistry)

lemma reg_sim_Get:
  assumes "reg_sim r A" and "A (t, i) = Some (M, L)"
  obtains c where "Get t i r = Some c" "channel_ok c" "set (Members c) = M" "MemberCount c = card M"
    "\<And>n. RecentMessages n c = lastn (min (nat n) defaultHistorySize) L"
proof -
  obtain c where c: "flat r (t, i) = Some c" "chan_sim c (M, L)"
    using reg_simD(2) [OF assms(1), of "(t, i)"] assms(2) by (auto elim: option.rel_cases)
  with flat_ok [OF reg_simD(1) [OF assms(1)]] have ok: "channel_ok c" by blast
  have "RecentMessages n c = lastn (min (nat n) defaultHistorySize) L" for n
    using c(2) by (intro RecentMessages_ring) (simp_all add: chan_sim_def)
  with c ok that [of c] show thesis
    by (auto simp: Get_flat chan_sim_def Members_def MemberCount_def channel_ok_def distinct_card)
qed

text \<open>
  Property C11. The channel registry implements its specification: after any sequence of opens,
  joins, parts, messages, removals and disconnects on a new registry, \<^verbatim>\<open>Get\<close> finds exactly the
  channels the specification has; the member set is the one the joins, parts and disconnects
  leave, with \<^verbatim>\<open>MemberCount\<close> its size; and \<^verbatim>\<open>RecentMessages(n)\<close> is the last
  \<open>min n 32\<close> messages of the channel's whole log, oldest first. Messages with a zero time
  and an empty body are excluded: the ring reads such a slot as unused.
\<close>

theorem registry_implements_spec:
  assumes "list_all says_visible cmds"
  shows "case fold spec_reg cmds Map.empty (t, i) of
      None \<Rightarrow> Get t i (fold exec_reg cmds NewRegistry) = None
    | Some (M, L) \<Rightarrow> \<exists>c. Get t i (fold exec_reg cmds NewRegistry) = Some c
        \<and> set (Members c) = M \<and> MemberCount c = card M
        \<and> (\<forall>n. RecentMessages n c = lastn (min (nat n) 32) L)"
proof -
  have sim: "reg_sim (fold exec_reg cmds NewRegistry) (fold spec_reg cmds Map.empty)"
    by (rule exec_regs_sim [OF reg_sim_New assms])
  show ?thesis
  proof (cases "fold spec_reg cmds Map.empty (t, i)")
    case None
    then show ?thesis using reg_simD(2) [OF sim, of "(t, i)"] by (simp add: Get_flat)
  next
    case (Some p)
    obtain M L where "p = (M, L)" by (cases p)
    with Some show ?thesis
      by (auto simp: defaultHistorySize_def elim!: reg_sim_Get [OF sim])
  qed
qed

theorem registry_implements_spec_witness:
  "\<exists>c. Get 7 9 (fold exec_reg [Open 7 9 ''ops'', Enter 7 9 1, Enter 7 9 2,
          Say 7 9 \<lparr>he_From = 1, he_DisplayName = ''a'', he_TS = 5, he_Body = ''hi''\<rparr>, Disconnect 1] NewRegistry)
        = Some c
     \<and> set (Members c) = {2} \<and> MemberCount c = 1
     \<and> RecentMessages 50 c = [\<lparr>he_From = 1, he_DisplayName = ''a'', he_TS = 5, he_Body = ''hi''\<rparr>]"
  using registry_implements_spec [of "[Open 7 9 ''ops'', Enter 7 9 1, Enter 7 9 2,
          Say 7 9 \<lparr>he_From = 1, he_DisplayName = ''a'', he_TS = 5, he_Body = ''hi''\<rparr>, Disconnect 1]" 7 9]
  by (auto simp: visible_def IsZero_def lastn_def)

text \<open>
  \<^verbatim>\<open>GetOrCreate\<close> is stable: a second call for the same key returns the channel
  the registry holds and changes nothing; \<^verbatim>\<open>Count\<close> grows by one exactly when the key was new.
\<close>

theorem GetOrCreate_once:
  assumes "reg_ok r"
  shows "GetOrCreate t i n' (fst (GetOrCreate t i n r)) = GetOrCreate t i n r
    \<and> Count (fst (GetOrCreate t i n r)) = Count r + (if Get t i r = None then 1 else 0)"
proof -
  have "Get t i (fst (GetOrCreate t i n r)) = Some (snd (GetOrCreate t i n r))"
    unfolding Get_flat by (rule flat_GetOrCreate(2) [OF assms])
  then have "GetOrCreate t i n' (fst (GetOrCreate t i n r)) = GetOrCreate t i n r"
    by (simp add: GetOrCreate_def [of t i n'])
  then show ?thesis using Count_GetOrCreate [OF assms] by (simp add: Get_flat)
qed

theorem GetOrCreate_once_witness:
  "GetOrCreate 7 9 ''other'' (fst (GetOrCreate 7 9 ''ops'' NewRegistry)) = GetOrCreate 7 9 ''ops'' NewRegistry"
  using GetOrCreate_once [OF reg_ok_NewRegistry, of 7 9 "''other''" "''ops''"] by blast

end
