(* ===== verification/Json.thy ===== *)
theory Json
  imports Prelude
begin

text \<open>
  JSON as \<^verbatim>\<open>encoding/json\<close> reads and writes it, for the parts of the program that do: match
  rules, budgets, frames and the inbound adapters. A number keeps its literal; a string is its
  decoded bytes. Strings are taken to be valid UTF-8, so that bytes above 127 are copied; the
  decoder turns escapes, surrogate pairs included, into UTF-8 and the encoder escapes what
  \<^verbatim>\<open>json.Marshal\<close> escapes (control characters, quotes, \<^verbatim>\<open><\<close>, \<^verbatim>\<open>>\<close>, \<^verbatim>\<open>&\<close>,
  U+2028 and U+2029). The parser takes fuel; \<open>2 * length s + 2\<close> is enough (\<open>parse_fuel\<close>).
\<close>

datatype json = JNull | JBool bool | JNum bytes | JStr bytes | JArr "json list"
  | JObj "(bytes \<times> json) list"

section \<open>Strings\<close>

definition code :: "char \<Rightarrow> nat" where
  "code c = of_char c"

definition hex_val :: "char \<Rightarrow> nat option" where
  "hex_val c = (let n = code c in
     if 48 \<le> n \<and> n \<le> 57 then Some (n - 48)
     else if 97 \<le> n \<and> n \<le> 102 then Some (n - 87)
     else if 65 \<le> n \<and> n \<le> 70 then Some (n - 55)
     else None)"

definition hex_char :: "nat \<Rightarrow> char" where
  "hex_char n = (if n < 10 then char_of (n + 48) else char_of (n + 87))"

definition hex4 :: "bytes \<Rightarrow> nat option" where
  "hex4 s = (case s of
       a # b # c # d # r \<Rightarrow>
         (case (hex_val a, hex_val b, hex_val c, hex_val d) of
            (Some w, Some x, Some y, Some z) \<Rightarrow> Some (((w * 16 + x) * 16 + y) * 16 + z)
          | _ \<Rightarrow> None)
     | _ \<Rightarrow> None)"

definition utf8 :: "nat \<Rightarrow> bytes" where
  "utf8 r = (if r < 128 then [char_of r]
     else if r < 2048 then [char_of (192 + r div 64), char_of (128 + r mod 64)]
     else if r < 65536 then [char_of (224 + r div 4096), char_of (128 + r div 64 mod 64), char_of (128 + r mod 64)]
     else [char_of (240 + r div 262144), char_of (128 + r div 4096 mod 64), char_of (128 + r div 64 mod 64),
           char_of (128 + r mod 64)])"

definition surrogate :: "nat \<Rightarrow> bool" where
  "surrogate r \<longleftrightarrow> 55296 \<le> r \<and> r < 57344"

text \<open>
  The rune of \<^verbatim>\<open>\uXXXX\<close> and how many further input bytes it takes: a high surrogate
  followed by an escaped low one is one rune, any other surrogate is U+FFFD.
\<close>

definition rune_of :: "nat \<Rightarrow> bytes \<Rightarrow> nat \<times> nat" where
  "rune_of r rest =
     (if \<not> surrogate r then (r, 0)
      else case (if take 2 rest = [CHR 0x5C, CHR ''u''] then hex4 (drop 2 rest) else None) of
        Some r' \<Rightarrow> if r < 56320 \<and> 56320 \<le> r' \<and> r' < 57344
                   then ((r - 55296) * 1024 + (r' - 56320) + 65536, 6) else (65533, 0)
      | None \<Rightarrow> (65533, 0))"

text \<open>What follows a backslash: the decoded bytes and the rest of the input.\<close>

definition unescape :: "bytes \<Rightarrow> (bytes \<times> bytes) option" where
  "unescape s = (case s of
       [] \<Rightarrow> None
     | e # r \<Rightarrow>
         if e = CHR 0x22 \<or> e = CHR 0x5C \<or> e = CHR ''/'' then Some ([e], r)
         else if e = CHR ''b'' then Some ([CHR 0x08], r)
         else if e = CHR ''f'' then Some ([CHR 0x0C], r)
         else if e = CHR ''n'' then Some ([CHR 0x0A], r)
         else if e = CHR ''r'' then Some ([CHR 0x0D], r)
         else if e = CHR ''t'' then Some ([CHR 0x09], r)
         else if e = CHR ''u'' then
           (case hex4 r of
              None \<Rightarrow> None
            | Some n \<Rightarrow> let (rune, k) = rune_of n (drop 4 r) in Some (utf8 rune, drop k (drop 4 r)))
         else None)"

lemma unescape_shorter: "unescape s = Some (d, r) \<Longrightarrow> length r < length s"
  by (auto simp: unescape_def Let_def split: list.splits if_splits option.splits prod.splits)

text \<open>The rest of a string literal, after its opening quote.\<close>

function scan_str :: "bytes \<Rightarrow> (bytes \<times> bytes) option" where
  "scan_str s = (case s of
       [] \<Rightarrow> None
     | c # r \<Rightarrow>
         if c = CHR 0x22 then Some ([], r)
         else if c = CHR 0x5C then
           (case unescape r of
              None \<Rightarrow> None
            | Some (d, r') \<Rightarrow> map_option (\<lambda>(t, q). (d @ t, q)) (scan_str r'))
         else if code c < 32 then None
         else map_option (\<lambda>(t, q). (c # t, q)) (scan_str r))"
  by pat_completeness auto
termination
  by (relation "measure length") (auto dest: unescape_shorter)

declare scan_str.simps [simp del]

fun esc_str :: "bytes \<Rightarrow> bytes" where
  "esc_str [] = []"
| "esc_str (c # s) =
     (if c = CHR 0x22 \<or> c = CHR 0x5C then CHR 0x5C # c # esc_str s
      else if c = CHR 0x08 then CHR 0x5C # CHR ''b'' # esc_str s
      else if c = CHR 0x0C then CHR 0x5C # CHR ''f'' # esc_str s
      else if c = CHR 0x0A then CHR 0x5C # CHR ''n'' # esc_str s
      else if c = CHR 0x0D then CHR 0x5C # CHR ''r'' # esc_str s
      else if c = CHR 0x09 then CHR 0x5C # CHR ''t'' # esc_str s
      else if code c < 32 \<or> c = CHR ''<'' \<or> c = CHR ''>'' \<or> c = CHR ''&''
      then CHR 0x5C # ''u00'' @ [hex_char (code c div 16), hex_char (code c mod 16)] @ esc_str s
      else if c = CHR 0xE2 \<and> take 2 s = [CHR 0x80, CHR 0xA8]
      then CHR 0x5C # ''u2028'' @ esc_str (drop 2 s)
      else if c = CHR 0xE2 \<and> take 2 s = [CHR 0x80, CHR 0xA9]
      then CHR 0x5C # ''u2029'' @ esc_str (drop 2 s)
      else c # esc_str s)"

definition print_str :: "bytes \<Rightarrow> bytes" where
  "print_str s = CHR 0x22 # esc_str s @ [CHR 0x22]"

section \<open>Numbers\<close>

definition scan_digits :: "bytes \<Rightarrow> (bytes \<times> bytes) option" where
  "scan_digits s = (if takeWhile is_digit s = [] then None else Some (takeWhile is_digit s, dropWhile is_digit s))"

definition scan_int :: "bytes \<Rightarrow> (bytes \<times> bytes) option" where
  "scan_int s = (case s of
       [] \<Rightarrow> None
     | c # r \<Rightarrow> if c = CHR ''0'' then Some ([c], r) else scan_digits s)"

definition scan_frac :: "bytes \<Rightarrow> (bytes \<times> bytes) option" where
  "scan_frac s = (case s of
       c # r \<Rightarrow> if c = CHR ''.'' then map_option (\<lambda>(d, q). (c # d, q)) (scan_digits r) else Some ([], s)
     | [] \<Rightarrow> Some ([], s))"

definition scan_exp :: "bytes \<Rightarrow> (bytes \<times> bytes) option" where
  "scan_exp s = (case s of
       c # r \<Rightarrow>
         if c = CHR ''e'' \<or> c = CHR ''E'' then
           let sign = (if take 1 r = ''+'' \<or> take 1 r = ''-'' then take 1 r else [])
           in map_option (\<lambda>(d, q). (c # sign @ d, q)) (scan_digits (drop (length sign) r))
         else Some ([], s)
     | [] \<Rightarrow> Some ([], s))"

definition scan_num :: "bytes \<Rightarrow> (bytes \<times> bytes) option" where
  "scan_num s =
     (let sign = (if take 1 s = ''-'' then ''-'' else [])
      in Option.bind (scan_int (drop (length sign) s)) (\<lambda>(i, r1).
         Option.bind (scan_frac r1) (\<lambda>(f, r2).
         Option.bind (scan_exp r2) (\<lambda>(e, r3). Some (sign @ i @ f @ e, r3)))))"

section \<open>Values\<close>

definition is_ws :: "char \<Rightarrow> bool" where
  "is_ws c \<longleftrightarrow> c \<in> {CHR '' '', CHR 0x09, CHR 0x0A, CHR 0x0D}"

definition skip_ws :: "bytes \<Rightarrow> bytes" where
  "skip_ws s = dropWhile is_ws s"

definition max_depth :: nat where
  "max_depth = 10000"

text \<open>
  \<open>parse_val n d s\<close>: fuel \<open>n\<close>, \<open>d\<close> further levels of nesting. \<open>parse_elems\<close> and
  \<open>parse_members\<close> read the rest of a non-empty array or object.
\<close>

fun parse_val :: "nat \<Rightarrow> nat \<Rightarrow> bytes \<Rightarrow> (json \<times> bytes) option"
and parse_elems :: "nat \<Rightarrow> nat \<Rightarrow> bytes \<Rightarrow> (json list \<times> bytes) option"
and parse_members :: "nat \<Rightarrow> nat \<Rightarrow> bytes \<Rightarrow> ((bytes \<times> json) list \<times> bytes) option" where
  "parse_val 0 d s = None"
| "parse_val (Suc n) d s = (case skip_ws s of
       [] \<Rightarrow> None
     | c # r \<Rightarrow>
         if c = CHR 0x22 then map_option (\<lambda>(t, q). (JStr t, q)) (scan_str r)
         else if c = CHR ''{'' then
           (if d = 0 then None
            else if take 1 (skip_ws r) = ''}'' then Some (JObj [], drop 1 (skip_ws r))
            else map_option (\<lambda>(m, q). (JObj m, q)) (parse_members n (d - 1) r))
         else if c = CHR ''['' then
           (if d = 0 then None
            else if take 1 (skip_ws r) = '']'' then Some (JArr [], drop 1 (skip_ws r))
            else map_option (\<lambda>(m, q). (JArr m, q)) (parse_elems n (d - 1) r))
         else if HasPrefix (c # r) ''null'' then Some (JNull, drop 4 (c # r))
         else if HasPrefix (c # r) ''true'' then Some (JBool True, drop 4 (c # r))
         else if HasPrefix (c # r) ''false'' then Some (JBool False, drop 5 (c # r))
         else map_option (\<lambda>(t, q). (JNum t, q)) (scan_num (c # r)))"
| "parse_elems 0 d s = None"
| "parse_elems (Suc n) d s = (case parse_val n d s of
       None \<Rightarrow> None
     | Some (v, r) \<Rightarrow>
         (case skip_ws r of
            [] \<Rightarrow> None
          | c # q \<Rightarrow> if c = CHR '','' then map_option (\<lambda>(vs, p). (v # vs, p)) (parse_elems n d q)
                     else if c = CHR '']'' then Some ([v], q) else None))"
| "parse_members 0 d s = None"
| "parse_members (Suc n) d s = (case skip_ws s of
       [] \<Rightarrow> None
     | c # r \<Rightarrow>
         if c \<noteq> CHR 0x22 then None
         else (case scan_str r of
            None \<Rightarrow> None
          | Some (k, r1) \<Rightarrow>
              if take 1 (skip_ws r1) \<noteq> '':'' then None
              else (case parse_val n d (drop 1 (skip_ws r1)) of
                 None \<Rightarrow> None
               | Some (v, r2) \<Rightarrow>
                   (case skip_ws r2 of
                      [] \<Rightarrow> None
                    | e # q \<Rightarrow> if e = CHR '','' then map_option (\<lambda>(m, p). ((k, v) # m, p)) (parse_members n d q)
                               else if e = CHR ''}'' then Some ([(k, v)], q) else None))))"

text \<open>\<open>parse_json\<close> is the whole of \<^verbatim>\<open>json.Unmarshal\<close>'s syntax check: one value, then only white space.\<close>

definition parse_json :: "bytes \<Rightarrow> json option" where
  "parse_json s = (case parse_val (2 * length s + 2) max_depth s of
       None \<Rightarrow> None
     | Some (v, r) \<Rightarrow> if skip_ws r = [] then Some v else None)"

fun join :: "bytes list \<Rightarrow> bytes" where
  "join [] = []"
| "join [x] = x"
| "join (x # y # xs) = x @ '','' @ join (y # xs)"

fun print_json :: "json \<Rightarrow> bytes" where
  "print_json JNull = ''null''"
| "print_json (JBool b) = (if b then ''true'' else ''false'')"
| "print_json (JNum n) = n"
| "print_json (JStr s) = print_str s"
| "print_json (JArr vs) = ''['' @ join (map print_json vs) @ '']''"
| "print_json (JObj ms) = ''{'' @ join (map (\<lambda>(k, v). print_str k @ '':'' @ print_json v) ms) @ ''}''"

section \<open>Decoding into Go values\<close>

text \<open>
  Decoding an object into a struct: a member sets the field its key names, letter case ignored
  (\<open>EqualFold\<close> on ASCII); \<^verbatim>\<open>null\<close> leaves the field alone, a later member overrides an
  earlier one. Every decoder below has a default, the field's value before decoding, and
  \<open>None\<close> for a value of the wrong type.
\<close>

definition EqualFold :: "bytes \<Rightarrow> bytes \<Rightarrow> bool" where
  "EqualFold a b \<longleftrightarrow> ToLower a = ToLower b"

definition field_values :: "bytes \<Rightarrow> (bytes \<times> json) list \<Rightarrow> json list" where
  "field_values k ms = map snd (filter (\<lambda>(k', v). EqualFold k' k \<and> v \<noteq> JNull) ms)"

definition get_field :: "(json \<Rightarrow> 'a option) \<Rightarrow> 'a \<Rightarrow> bytes \<Rightarrow> (bytes \<times> json) list \<Rightarrow> 'a option" where
  "get_field dec dflt k ms =
     (let vs = map dec (field_values k ms)
      in if None \<in> set vs then None else if vs = [] then Some dflt else last vs)"

definition as_str :: "json \<Rightarrow> bytes option" where
  "as_str v = (case v of JStr s \<Rightarrow> Some s | _ \<Rightarrow> None)"

definition as_bool :: "json \<Rightarrow> bool option" where
  "as_bool v = (case v of JBool b \<Rightarrow> Some b | _ \<Rightarrow> None)"

definition as_int :: "json \<Rightarrow> int option" where
  "as_int v = (case v of JNum n \<Rightarrow> ParseInt64 n | _ \<Rightarrow> None)"

definition as_num :: "json \<Rightarrow> bytes option" where
  "as_num v = (case v of JNum n \<Rightarrow> Some n | _ \<Rightarrow> None)"

definition as_list :: "(json \<Rightarrow> 'a option) \<Rightarrow> 'a \<Rightarrow> json \<Rightarrow> 'a list option" where
  "as_list dec dflt v = (case v of
       JArr vs \<Rightarrow> those (map (\<lambda>v. if v = JNull then Some dflt else dec v) vs)
     | _ \<Rightarrow> None)"

definition as_obj :: "json \<Rightarrow> (bytes \<times> json) list option" where
  "as_obj v = (case v of JObj ms \<Rightarrow> Some ms | _ \<Rightarrow> None)"

section \<open>The parser consumes its input, and its fuel is enough\<close>

lemma scan_str_shorter: "scan_str s = Some (t, r) \<Longrightarrow> length r < length s"
proof (induction s arbitrary: t r rule: measure_induct_rule [of length])
  case (less s)
  note step = less.prems [unfolded scan_str.simps [of s]]
  from step obtain c q where s: "s = c # q" by (cases s) auto
  show ?case
  proof (cases "c = CHR 0x5C")
    case True
    with step s obtain d q' t' where q: "unescape q = Some (d, q')" "scan_str q' = Some (t', r)"
      by (auto split: option.splits)
    with unescape_shorter [OF q(1)] less.IH [of q' t' r] s show ?thesis by simp
  next
    case False
    with step s less.IH [of q _ r] show ?thesis by (auto split: if_splits)
  qed
qed

lemma scan_digits_shorter: "scan_digits s = Some (t, r) \<Longrightarrow> length r < length s"
proof -
  assume *: "scan_digits s = Some (t, r)"
  then have "r = dropWhile is_digit s" "takeWhile is_digit s \<noteq> []"
    by (auto simp: scan_digits_def split: if_splits)
  then show ?thesis
    using arg_cong [OF takeWhile_dropWhile_id [of is_digit s], of length] by (cases "takeWhile is_digit s") auto
qed

lemma scan_num_shorter: "scan_num s = Some (t, r) \<Longrightarrow> length r < length s"
proof -
  have i: "scan_int s = Some (t, r) \<Longrightarrow> length r < length s" for s t r
    by (auto simp: scan_int_def split: list.splits if_splits dest: scan_digits_shorter)
  have f: "scan_frac s = Some (t, r) \<Longrightarrow> length r \<le> length s" for s t r
    by (fastforce simp: scan_frac_def split: list.splits if_splits dest: scan_digits_shorter)
  have e: "scan_exp s = Some (t, r) \<Longrightarrow> length r \<le> length s" for s t r
    by (fastforce simp: scan_exp_def Let_def split: list.splits if_splits dest: scan_digits_shorter)
  assume "scan_num s = Some (t, r)"
  then show ?thesis
    by (auto simp: scan_num_def Let_def bind_eq_Some_conv dest!: i f e split: if_splits)
qed

lemma skip_ws_le: "length (skip_ws s) \<le> length s"
  by (simp add: skip_ws_def length_dropWhile_le)

lemma skip_ws_ConsD: "skip_ws s = c # r \<Longrightarrow> length r < length s"
  using skip_ws_le [of s] by simp

lemma drop_skip_ws: "take 1 (skip_ws r) = [c] \<Longrightarrow> length (drop 1 (skip_ws r)) < length r"
  using skip_ws_le [of r] by (cases "skip_ws r") auto

lemmas shorter = scan_str_shorter scan_num_shorter skip_ws_ConsD drop_skip_ws

lemma parse_shorter:
  "parse_val n d s = Some (v, r) \<Longrightarrow> length r < length s"
  "parse_elems n d s = Some (vs, r) \<Longrightarrow> length r < length s"
  "parse_members n d s = Some (ms, r) \<Longrightarrow> length r < length s"
proof (induction n d s and n d s and n d s arbitrary: v r and vs r and ms r
    rule: parse_val_parse_elems_parse_members.induct)
  case (2 n d s)
  then obtain c q where cq: "skip_ws s = c # q" by (cases "skip_ws s") auto
  note q = skip_ws_ConsD [OF cq]
  show ?case
    using 2 cq q skip_ws_le [of q]
    by (auto split: if_splits dest!: scan_str_shorter scan_num_shorter intro: less_trans [OF _ q])
next
  case (4 n d s)
  then obtain v q c p where vq: "parse_val n d s = Some (v, q)" and cp: "skip_ws q = c # p"
    by (auto split: option.splits list.splits)
  with 4 skip_ws_ConsD [OF cp] show ?case by (fastforce split: if_splits)
next
  case (6 n d s)
  then obtain c q k q1 where cq: "skip_ws s = c # q" and k: "scan_str q = Some (k, q1)"
    and colon: "take 1 (skip_ws q1) = '':''"
    by (auto split: option.splits list.splits if_splits)
  with 6 obtain v q2 e p where vq: "parse_val n d (drop 1 (skip_ws q1)) = Some (v, q2)" and ep: "skip_ws q2 = e # p"
    by (auto split: option.splits list.splits if_splits)
  note len = skip_ws_ConsD [OF cq] scan_str_shorter [OF k] drop_skip_ws [OF colon] skip_ws_ConsD [OF ep]
  show ?case using 6 cq k colon vq ep len by (fastforce split: if_splits)
qed auto

text \<open>With one step of fuel per byte for a value and one per list entry, more fuel changes nothing.\<close>

lemma parse_more_fuel:
  "2 * length s < n \<Longrightarrow> parse_val (Suc n) d s = parse_val n d s"
  "2 * length s + 1 < n \<Longrightarrow> parse_elems (Suc n) d s = parse_elems n d s"
  "2 * length s + 1 < n \<Longrightarrow> parse_members (Suc n) d s = parse_members n d s"
proof (induction n d s and n d s and n d s rule: parse_val_parse_elems_parse_members.induct)
  case (2 n d s)
  show ?case
  proof (cases "skip_ws s")
    case (Cons c r)
    note r = skip_ws_ConsD [OF Cons]
    have "parse_members (Suc n) (d - 1) r = parse_members n (d - 1) r"
      if "c = CHR ''{''" "d \<noteq> 0" "take 1 (skip_ws r) \<noteq> ''}''"
      using 2(1) [OF Cons] that 2(3) r by simp
    moreover have "parse_elems (Suc n) (d - 1) r = parse_elems n (d - 1) r"
      if "c = CHR ''[''" "d \<noteq> 0" "take 1 (skip_ws r) \<noteq> '']''"
      using 2(2) [OF Cons] that 2(3) r by simp
    ultimately show ?thesis using Cons by (simp del: parse_elems.simps parse_members.simps)
  qed simp
next
  case (4 n d s)
  then have v: "parse_val (Suc n) d s = parse_val n d s" by simp
  have "parse_elems (Suc n) d q = parse_elems n d q"
    if "parse_val n d s = Some (v, r)" "skip_ws r = c # q" "c = CHR '',''" for v r c q
    using 4(2) [OF that(1) refl that(2,3)] 4(3) parse_shorter(1) [OF that(1)] skip_ws_ConsD [OF that(2)] by simp
  with v show ?case by (auto simp del: parse_val.simps split: option.splits list.splits)
next
  case (6 n d s)
  have v: "parse_val (Suc n) d (drop 1 (skip_ws r1)) = parse_val n d (drop 1 (skip_ws r1))"
    if "skip_ws s = c # r" "\<not> c \<noteq> CHR 0x22" "scan_str r = Some (k, r1)" "\<not> take 1 (skip_ws r1) \<noteq> '':''" for c r k r1
    using 6(1) [OF that(1,2,3) refl that(4)] 6(3) skip_ws_ConsD [OF that(1)] scan_str_shorter [OF that(3)]
      drop_skip_ws [of r1 "CHR '':''"] that(4) by simp
  have m: "parse_members (Suc n) d q = parse_members n d q"
    if "skip_ws s = c # r" "\<not> c \<noteq> CHR 0x22" "scan_str r = Some (k, r1)" "\<not> take 1 (skip_ws r1) \<noteq> '':''"
      "parse_val n d (drop 1 (skip_ws r1)) = Some (v, r2)" "skip_ws r2 = e # q" "e = CHR '',''" for c r k r1 v r2 e q
    using 6(2) [OF that(1,2,3) refl that(4,5) refl that(6,7)] 6(3) skip_ws_ConsD [OF that(1)]
      scan_str_shorter [OF that(3)] drop_skip_ws [of r1 "CHR '':''"] that(4) parse_shorter(1) [OF that(5)]
      skip_ws_ConsD [OF that(6)] by simp
  show ?case
    using v m by (auto simp del: parse_val.simps split: option.splits list.splits)
qed auto

lemma parse_fuel:
  assumes "2 * length s < n" and "n \<le> m"
  shows "parse_val m d s = parse_val n d s"
  using assms(2,1)
proof (induction m rule: dec_induct)
  case (step m)
  then show ?case using parse_more_fuel(1) [of s m d] by simp
qed simp

section \<open>What the printer writes, the parser reads back\<close>

lemma code_char_of [simp]: "n < 256 \<Longrightarrow> code (char_of n) = n"
  by (simp add: code_def)

lemma code_bound: "code c < 256"
  using of_char_mod_256 [of c, where 'a = nat] by (metis code_def mod_less_divisor zero_less_numeral)

lemma char_of_code [simp]: "char_of (code c) = c"
  by (simp add: code_def)

lemma hex_val_hex_char [simp]: "n < 16 \<Longrightarrow> hex_val (hex_char n) = Some n"
  by (auto simp: hex_val_def hex_char_def Let_def)

lemma unescape_u00:
  assumes "code c < 128"
  shows "unescape (CHR ''u'' # CHR ''0'' # CHR ''0'' # hex_char (code c div 16) # hex_char (code c mod 16) # r)
       = Some ([c], r)"
proof -
  have "hex_val CHR ''0'' = Some 0" by (simp add: hex_val_def code_def)
  moreover have "code c div 16 * 16 + code c mod 16 = code c" "code c div 16 < 16" using assms by auto
  ultimately have "hex4 (CHR ''0'' # CHR ''0'' # hex_char (code c div 16) # hex_char (code c mod 16) # r) = Some (code c)"
    by (simp add: hex4_def)
  then show ?thesis using assms by (simp add: unescape_def rune_of_def surrogate_def utf8_def)
qed

lemma char_of_E2:
  "char_of (226::nat) = CHR 0xE2" "char_of (128::nat) = CHR 0x80"
  "char_of (168::nat) = CHR 0xA8" "char_of (169::nat) = CHR 0xA9"
  by code_simp+

lemma unescape_2028:
  "unescape (''u2028'' @ r) = Some ([CHR 0xE2, CHR 0x80, CHR 0xA8], r)"
  "unescape (''u2029'' @ r) = Some ([CHR 0xE2, CHR 0x80, CHR 0xA9], r)"
  by (simp_all add: unescape_def hex4_def hex_val_def code_def rune_of_def surrogate_def utf8_def char_of_E2)

lemma unescape_short:
  "e = CHR 0x22 \<or> e = CHR 0x5C \<Longrightarrow> unescape (e # r) = Some ([e], r)"
  "unescape (CHR ''b'' # r) = Some ([CHR 0x08], r)"
  "unescape (CHR ''f'' # r) = Some ([CHR 0x0C], r)"
  "unescape (CHR ''n'' # r) = Some ([CHR 0x0A], r)"
  "unescape (CHR ''r'' # r) = Some ([CHR 0x0D], r)"
  "unescape (CHR ''t'' # r) = Some ([CHR 0x09], r)"
  by (auto simp: unescape_def)

lemma scan_str_esc:
  "unescape q = Some (d, r) \<Longrightarrow> scan_str (CHR 0x5C # q) = map_option (\<lambda>(t, p). (d @ t, p)) (scan_str r)"
  by (subst scan_str.simps) simp

lemma scan_str_plain:
  "c \<noteq> CHR 0x22 \<Longrightarrow> c \<noteq> CHR 0x5C \<Longrightarrow> \<not> code c < 32 \<Longrightarrow>
     scan_str (c # r) = map_option (\<lambda>(t, p). (c # t, p)) (scan_str r)"
  by (subst scan_str.simps) simp

lemma scan_str_esc_str: "scan_str (esc_str s @ CHR 0x22 # r) = Some (s, r)"
proof (induction s rule: measure_induct_rule [of length])
  case (less u)
  show ?case
  proof (cases u)
  case Nil
  then show ?thesis by (simp add: scan_str.simps [of "CHR 0x22 # r"])
next
  case (Cons c s)
  have ih: "scan_str (esc_str s @ CHR 0x22 # r) = Some (s, r)"
    "scan_str (esc_str (drop 2 s) @ CHR 0x22 # r) = Some (drop 2 s, r)"
    using less.IH Cons by simp_all
  define A where "A \<longleftrightarrow> c \<in> {CHR 0x22, CHR 0x5C, CHR 0x08, CHR 0x0C, CHR 0x0A, CHR 0x0D, CHR 0x09}"
  define B where "B \<longleftrightarrow> code c < 32 \<or> c \<in> {CHR ''<'', CHR ''>'', CHR ''&''}"
  define C where "C x \<longleftrightarrow> c = CHR 0xE2 \<and> take 2 s = [CHR 0x80, x]" for x
  consider (a) A | (b) "\<not> A" B | (c) "\<not> A" "\<not> B" "C CHR 0xA8" | (d) "\<not> A" "\<not> B" "C CHR 0xA9"
    | (e) "\<not> A" "\<not> B" "\<not> C CHR 0xA8" "\<not> C CHR 0xA9"
    by blast
  then have "scan_str (esc_str (c # s) @ CHR 0x22 # r) = Some (c # s, r)"
  proof cases
    case a
    with ih(1) show ?thesis by (auto simp: A_def scan_str_esc unescape_short)
  next
    case b
    then have "code c < 128" by (auto simp: B_def code_def)
    moreover have "esc_str (c # s) = CHR 0x5C # ''u00'' @ [hex_char (code c div 16), hex_char (code c mod 16)] @ esc_str s"
      using b by (auto simp: A_def B_def)
    ultimately show ?thesis using ih(1) by (simp add: scan_str_esc unescape_u00)
  next
    case c
    then have "c = CHR 0xE2" and t: "take 2 s = [CHR 0x80, CHR 0xA8]" by (simp_all add: C_def)
    moreover from t have "s = CHR 0x80 # CHR 0xA8 # drop 2 s" using append_take_drop_id [of 2 s] by simp
    ultimately show ?thesis using ih(2) by (simp add: scan_str_esc unescape_2028 [simplified] code_def)
  next
    case d
    then have "c = CHR 0xE2" and t: "take 2 s = [CHR 0x80, CHR 0xA9]" by (simp_all add: C_def)
    moreover from t have "s = CHR 0x80 # CHR 0xA9 # drop 2 s" using append_take_drop_id [of 2 s] by simp
    ultimately show ?thesis using ih(2) by (simp add: scan_str_esc unescape_2028 [simplified] code_def)
  next
    case e
    then have "esc_str (c # s) = c # esc_str s" by (simp add: A_def B_def C_def)
    with e ih(1) show ?thesis by (simp add: scan_str_plain A_def B_def)
  qed
  with Cons show ?thesis by simp
  qed
qed

section \<open>Numbers and values\<close>

text \<open>What may follow a value in printed JSON.\<close>

definition stop :: "bytes \<Rightarrow> bool" where
  "stop r \<longleftrightarrow> r = [] \<or> hd r \<in> {CHR '','', CHR '']'', CHR ''}''}"

lemma stopD: "stop (c # r) \<Longrightarrow> \<not> is_digit c \<and> c \<noteq> CHR ''.'' \<and> c \<noteq> CHR ''e'' \<and> c \<noteq> CHR ''E''"
  by (auto simp: stop_def is_digit_def)

lemma takeWhile_all: "\<forall>x \<in> set s. P x \<Longrightarrow> takeWhile P s = s" "\<forall>x \<in> set s. P x \<Longrightarrow> dropWhile P s = []"
  by (induction s) auto

lemma scan_digits_stop: "scan_digits s = Some (t, q) \<Longrightarrow> stop r \<Longrightarrow> scan_digits (s @ r) = Some (t, q @ r)"
  by (cases r; cases "\<forall>x \<in> set s. is_digit x")
    (auto simp: scan_digits_def takeWhile_append dropWhile_append takeWhile_all dest: stopD
      split: if_splits)

lemma scan_int_stop: "scan_int s = Some (t, q) \<Longrightarrow> stop r \<Longrightarrow> scan_int (s @ r) = Some (t, q @ r)"
  using scan_digits_stop [of s t q r] by (auto simp: scan_int_def split: list.splits if_splits)

lemma scan_frac_stop: "scan_frac s = Some (t, q) \<Longrightarrow> stop r \<Longrightarrow> scan_frac (s @ r) = Some (t, q @ r)"
  by (cases s; cases r) (auto simp: scan_frac_def scan_digits_stop dest: stopD split: if_splits)

lemma scan_exp_stop:
  assumes "scan_exp s = Some (t, q)" and "stop r"
  shows "scan_exp (s @ r) = Some (t, q @ r)"
proof (cases s)
  case Nil
  with assms show ?thesis by (cases r) (auto simp: scan_exp_def dest: stopD)
next
  case (Cons c u)
  show ?thesis
  proof (cases u)
    case Nil
    with Cons assms show ?thesis by (auto simp: scan_exp_def scan_digits_def Let_def split: if_splits)
  next
    case (Cons e w)
    with \<open>s = c # u\<close> assms scan_digits_stop show ?thesis
      by (fastforce simp: scan_exp_def Let_def split: if_splits)
  qed
qed

lemma scan_num_stop:
  assumes "scan_num s = Some (t, q)" and "stop r"
  shows "scan_num (s @ r) = Some (t, q @ r)"
proof -
  have "s \<noteq> []" using scan_num_shorter [OF assms(1)] by auto
  then have sign: "take 1 (s @ r) = take 1 s" "drop (length (if take 1 s = ''-'' then ''-'' else [])) (s @ r)
      = drop (length (if take 1 s = ''-'' then ''-'' else [])) s @ r"
    by (cases s; simp)+
  obtain i r1 f r2 e where parts:
    "scan_int (drop (length (if take 1 s = ''-'' then ''-'' else [])) s) = Some (i, r1)"
    "scan_frac r1 = Some (f, r2)" "scan_exp r2 = Some (e, q)"
    and t: "t = (if take 1 s = ''-'' then ''-'' else []) @ i @ f @ e"
    using assms(1) unfolding scan_num_def Let_def
    by (auto simp only: bind_eq_Some_conv prod.case split_paired_Ex option.inject prod.inject)
  note parts' = scan_int_stop [OF parts(1) assms(2)] scan_frac_stop [OF parts(2) assms(2)] scan_exp_stop [OF parts(3) assms(2)]
  show ?thesis unfolding scan_num_def Let_def sign t parts' by (simp add: parts')
qed

fun json_wf :: "json \<Rightarrow> bool" where
  "json_wf (JNum n) = (scan_num n = Some (n, []))"
| "json_wf (JArr vs) = list_all json_wf vs"
| "json_wf (JObj ms) = list_all (\<lambda>(k, v). json_wf v) ms"
| "json_wf _ = True"

fun json_depth :: "json \<Rightarrow> nat" where
  "json_depth (JArr vs) = Suc (foldr max (map json_depth vs) 0)"
| "json_depth (JObj ms) = Suc (foldr max (map (\<lambda>(k, v). json_depth v) ms) 0)"
| "json_depth _ = 0"

lemma foldr_max_le: "foldr max xs (0::nat) \<le> d \<longleftrightarrow> (\<forall>x \<in> set xs. x \<le> d)"
  by (induction xs) auto

definition starts_value :: "char \<Rightarrow> bool" where
  "starts_value c \<longleftrightarrow> \<not> is_ws c \<and> c \<noteq> CHR '']'' \<and> c \<noteq> CHR ''}''"

lemma scan_num_hd: "scan_num s = Some (t, q) \<Longrightarrow> \<exists>c r. s = c # r \<and> (c = CHR ''-'' \<or> is_digit c)"
  by (cases s) (auto simp: scan_num_def scan_int_def scan_digits_def Let_def is_digit_def split: if_splits)

lemma print_starts: "json_wf j \<Longrightarrow> \<exists>c r. print_json j = c # r \<and> starts_value c"
  by (cases j) (auto simp: starts_value_def is_ws_def print_str_def is_digit_def dest!: scan_num_hd)

lemma skip_ws_value [simp]: "starts_value c \<Longrightarrow> skip_ws (c # r) = c # r"
  by (simp add: skip_ws_def starts_value_def)

lemma skip_ws_punct [simp]:
  "skip_ws (CHR '','' # r) = CHR '','' # r" "skip_ws (CHR '']'' # r) = CHR '']'' # r"
  "skip_ws (CHR ''}'' # r) = CHR ''}'' # r" "skip_ws (CHR '':'' # r) = CHR '':'' # r"
  "skip_ws (CHR 0x22 # r) = CHR 0x22 # r" "skip_ws [] = []"
  by (simp_all add: skip_ws_def is_ws_def)

lemma stop_punct [simp]: "stop (CHR '','' # r)" "stop (CHR '']'' # r)" "stop (CHR ''}'' # r)" "stop []"
  by (simp_all add: stop_def)

definition reads_back :: "json \<Rightarrow> bool" where
  "reads_back v \<longleftrightarrow> (\<forall>n d r. json_depth v \<le> d \<longrightarrow> stop r \<longrightarrow> 2 * length (print_json v @ r) < n \<longrightarrow>
     parse_val n d (print_json v @ r) = Some (v, r))"

lemma reads_backD: "reads_back v \<Longrightarrow> json_depth v \<le> d \<Longrightarrow> stop r \<Longrightarrow> 2 * length (print_json v @ r) < n \<Longrightarrow>
     parse_val n d (print_json v @ r) = Some (v, r)"
  by (simp add: reads_back_def)

lemma elems_read_back:
  assumes "list_all reads_back vs" and "list_all (\<lambda>v. json_depth v \<le> d) vs" and "vs \<noteq> []"
    and "2 * length (join (map print_json vs) @ CHR '']'' # r) + 1 < n"
  shows "parse_elems n d (join (map print_json vs) @ CHR '']'' # r) = Some (vs, r)"
  using assms
proof (induction vs arbitrary: n)
  case (Cons v vs)
  obtain m where n: "n = Suc m" using Cons.prems by (cases n) auto
  show ?case
  proof (cases vs)
    case Nil
    then show ?thesis using Cons.prems n reads_backD [of v d "CHR '']'' # r" m] by simp
  next
    case (Cons w ws)
    define q where "q = join (map print_json vs) @ CHR '']'' # r"
    have s: "join (map print_json (v # vs)) @ CHR '']'' # r = print_json v @ CHR '','' # q"
      by (simp add: q_def Cons)
    have "parse_val m d (print_json v @ CHR '','' # q) = Some (v, CHR '','' # q)"
      using Cons.prems n reads_backD [of v d "CHR '','' # q" m] unfolding s by simp
    moreover have "parse_elems m d q = Some (vs, r)"
      unfolding q_def using Cons.IH [of m] Cons.prems n unfolding s by (simp add: Cons q_def)
    ultimately show ?thesis unfolding s n by simp
  qed
qed simp

lemma members_read_back:
  assumes "list_all (\<lambda>(k, v). reads_back v) ms" and "list_all (\<lambda>(k, v). json_depth v \<le> d) ms" and "ms \<noteq> []"
    and "list_all (\<lambda>(k, v). json_wf v) ms"
    and "2 * length (join (map (\<lambda>(k, v). print_str k @ '':'' @ print_json v) ms) @ CHR ''}'' # r) + 1 < n"
  shows "parse_members n d (join (map (\<lambda>(k, v). print_str k @ '':'' @ print_json v) ms) @ CHR ''}'' # r) = Some (ms, r)"
  using assms
proof (induction ms arbitrary: n)
  case (Cons p ms)
  obtain m where n: "n = Suc m" using Cons.prems by (cases n) auto
  obtain k v where p: "p = (k, v)" by (cases p)
  have v: "reads_back v" "json_depth v \<le> d" using Cons.prems p by auto
  show ?case
  proof (cases ms)
    case Nil
    then show ?thesis
      using Cons.prems n p reads_backD [OF v, of "CHR ''}'' # r" m]
      by (simp add: print_str_def scan_str_esc_str)
  next
    case (Cons w ws)
    define q where "q = join (map (\<lambda>(k, v). print_str k @ '':'' @ print_json v) ms) @ CHR ''}'' # r"
    have s: "join (map (\<lambda>(k, v). print_str k @ '':'' @ print_json v) (p # ms)) @ CHR ''}'' # r
        = CHR 0x22 # esc_str k @ CHR 0x22 # CHR '':'' # print_json v @ CHR '','' # q"
      by (simp add: q_def Cons p print_str_def split: prod.split)
    have "parse_val m d (print_json v @ CHR '','' # q) = Some (v, CHR '','' # q)"
      using Cons.prems(5) n reads_backD [OF v, of "CHR '','' # q" m] unfolding s by simp
    moreover have "parse_members m d q = Some (ms, r)"
      unfolding q_def using Cons.IH [of m] Cons.prems n p unfolding s by (simp add: Cons q_def)
    ultimately show ?thesis unfolding s n by (simp add: scan_str_esc_str p)
  qed
qed simp

lemma join_starts:
  assumes "list_all (\<lambda>x. \<exists>c r. x = c # r \<and> starts_value c) xs" and "xs \<noteq> []"
  shows "\<exists>c q. join xs @ r = c # q \<and> starts_value c"
  using assms by (cases xs rule: join.cases) auto

lemma print_str_starts: "\<exists>c r. print_str k @ q = c # r \<and> starts_value c"
  by (simp add: print_str_def starts_value_def is_ws_def)

lemma reads_back_leaf:
  "reads_back JNull" "reads_back (JBool b)" "reads_back (JStr s)"
  "scan_num n = Some (n, []) \<Longrightarrow> reads_back (JNum n)"
proof -
  have *: "skip_ws (c # r) = c # r" if "c \<in> set ''ntf''" for c r
    using that by (intro skip_ws_value) (auto simp: starts_value_def is_ws_def)
  show "reads_back JNull"
    unfolding reads_back_def by (auto simp: * HasPrefix_def dest!: less_imp_Suc_add)
  show "reads_back (JBool b)"
    unfolding reads_back_def
  proof (intro allI impI)
    fix m d r assume "2 * length (print_json (JBool b) @ r) < m"
    then obtain k where "m = Suc k" by (cases m) auto
    then show "parse_val m d (print_json (JBool b) @ r) = Some (JBool b, r)"
      by (simp add: * HasPrefix_def)
  qed
  show "reads_back (JStr s)"
    unfolding reads_back_def by (auto simp: print_str_def scan_str_esc_str dest!: less_imp_Suc_add)
  show "reads_back (JNum n)" if n: "scan_num n = Some (n, [])"
    unfolding reads_back_def
  proof (intro allI impI)
    fix m d r assume "stop r" and "2 * length (print_json (JNum n) @ r) < m"
    then obtain k where k: "m = Suc k" by (cases m) auto
    obtain c u where c: "n = c # u" "c = CHR ''-'' \<or> is_digit c" using scan_num_hd [OF n] by blast
    then have "starts_value c" "c \<noteq> CHR 0x22" "c \<noteq> CHR ''{''" "c \<noteq> CHR ''[''" "c \<noteq> CHR ''n''" "c \<noteq> CHR ''t''" "c \<noteq> CHR ''f''"
      by (auto simp: starts_value_def is_ws_def is_digit_def)
    with c scan_num_stop [OF n \<open>stop r\<close>] show "parse_val m d (print_json (JNum n) @ r) = Some (JNum n, r)"
      unfolding k by (simp add: HasPrefix_def)
  qed
qed

lemma json_reads_back: "json_wf v \<Longrightarrow> reads_back v"
proof (induction v)
  case (JArr vs)
  then have vs: "list_all reads_back vs" and wf: "list_all json_wf vs" by (auto simp: list_all_iff)
  show ?case
    unfolding reads_back_def
  proof (intro allI impI)
    fix n d r assume d: "json_depth (JArr vs) \<le> d" and "stop r" and n: "2 * length (print_json (JArr vs) @ r) < n"
    then obtain m k where mk: "n = Suc m" "d = Suc k" by (cases n; cases d) auto
    have dep: "list_all (\<lambda>v. json_depth v \<le> k) vs" using d mk by (auto simp: foldr_max_le list_all_iff)
    have b: "skip_ws (CHR ''['' # q) = CHR ''['' # q" for q
      by (intro skip_ws_value) (simp add: starts_value_def is_ws_def)
    show "parse_val n d (print_json (JArr vs) @ r) = Some (JArr vs, r)"
    proof (cases "vs = []")
      case False
      have "list_all (\<lambda>x. \<exists>c r. x = c # r \<and> starts_value c) (map print_json vs)"
        using wf print_starts by (auto simp: list_all_iff)
      then obtain c q where c: "join (map print_json vs) @ CHR '']'' # r = c # q" "starts_value c"
        using False join_starts [of "map print_json vs" "CHR '']'' # r"] by blast
      have "parse_elems m k (join (map print_json vs) @ CHR '']'' # r) = Some (vs, r)"
        by (rule elems_read_back [OF vs dep False]) (use n mk in simp)
      with c mk b show ?thesis by (simp add: starts_value_def)
    qed (simp add: mk b)
  qed
next
  case (JObj ms)
  then have ms: "list_all (\<lambda>(k, v). reads_back v) ms" and wf: "list_all (\<lambda>(k, v). json_wf v) ms"
    by (fastforce simp: list_all_iff)+
  let ?p = "\<lambda>(k, v). print_str k @ '':'' @ print_json v"
  show ?case
    unfolding reads_back_def
  proof (intro allI impI)
    fix n d r assume d: "json_depth (JObj ms) \<le> d" and "stop r" and n: "2 * length (print_json (JObj ms) @ r) < n"
    then obtain m k where mk: "n = Suc m" "d = Suc k" by (cases n; cases d) auto
    have dep: "list_all (\<lambda>(j, v). json_depth v \<le> k) ms" using d mk by (auto simp: foldr_max_le list_all_iff)
    have b: "skip_ws (CHR ''{'' # q) = CHR ''{'' # q" for q
      by (intro skip_ws_value) (simp add: starts_value_def is_ws_def)
    show "parse_val n d (print_json (JObj ms) @ r) = Some (JObj ms, r)"
    proof (cases "ms = []")
      case False
      have "list_all (\<lambda>x. \<exists>c r. x = c # r \<and> starts_value c) (map ?p ms)"
        using print_str_starts by (fastforce simp: list_all_iff)
      then obtain c q where c: "join (map ?p ms) @ CHR ''}'' # r = c # q" "starts_value c"
        using False join_starts [of "map ?p ms" "CHR ''}'' # r"] by blast
      have "parse_members m k (join (map ?p ms) @ CHR ''}'' # r) = Some (ms, r)"
        by (rule members_read_back [OF ms dep False wf]) (use n mk in simp)
      with c mk b show ?thesis by (simp add: starts_value_def)
    qed (simp add: mk b)
  qed
qed (simp_all add: reads_back_leaf)

lemma parse_print_json:
  assumes "json_wf v" and "json_depth v \<le> max_depth"
  shows "parse_json (print_json v) = Some v"
  using reads_backD [OF json_reads_back [OF assms(1)] assms(2), of "[]" "2 * length (print_json v) + 2"]
  by (simp add: parse_json_def)

end
