(* ===== verification/Matcher.thy ===== *)
theory Matcher
  imports Json
begin

text \<open>
  Match rules (\<^verbatim>\<open>internal/matcher/matcher.go\<close>): the rules document, its compilation and its
  evaluation, with \<^verbatim>\<open>path.Match\<close> written out because the compiler probes it and the evaluator
  throws its error away. The regular expression engine is the argument \<open>regexp\<close>: what
  \<^verbatim>\<open>regexp.Compile\<close> makes of a pattern, a predicate on the body or nothing; \<open>uuid_Parse\<close> is
  the UUID package's parser.
\<close>

section \<open>path.Match\<close>

definition cont :: "bytes \<Rightarrow> nat \<Rightarrow> bool" where
  "cont s i \<longleftrightarrow> i < length s \<and> 128 \<le> code (s ! i) \<and> code (s ! i) < 192"

text \<open>\<^verbatim>\<open>utf8.DecodeRuneInString\<close>: the rune and its width; U+FFFD of width 1 on bad input, 0 at the end.\<close>

definition decode_rune :: "bytes \<Rightarrow> nat \<times> nat" where
  "decode_rune s =
     (if s = [] then (65533, 0)
      else let b = code (s ! 0); b1 = code (s ! 1); b2 = code (s ! 2); b3 = code (s ! 3)
      in if b < 128 then (b, 1)
         else if 194 \<le> b \<and> b < 224 \<and> cont s 1 then ((b - 192) * 64 + (b1 - 128), 2)
         else if 224 \<le> b \<and> b < 240 \<and> cont s 1 \<and> cont s 2 \<and> (b = 224 \<longrightarrow> 160 \<le> b1) \<and> (b = 237 \<longrightarrow> b1 < 160)
         then ((b - 224) * 4096 + (b1 - 128) * 64 + (b2 - 128), 3)
         else if 240 \<le> b \<and> b < 245 \<and> cont s 1 \<and> cont s 2 \<and> cont s 3 \<and> (b = 240 \<longrightarrow> 144 \<le> b1) \<and> (b = 244 \<longrightarrow> b1 < 144)
         then ((b - 240) * 262144 + (b1 - 128) * 4096 + (b2 - 128) * 64 + (b3 - 128), 4)
         else (65533, 1))"

text \<open>One end of a character range; \<open>None\<close> is \<^verbatim>\<open>ErrBadPattern\<close>.\<close>

definition getEsc :: "bytes \<Rightarrow> (nat \<times> bytes) option" where
  "getEsc chunk =
     (if chunk = [] \<or> hd chunk = CHR ''-'' \<or> hd chunk = CHR '']'' then None
      else let c = (if hd chunk = CHR 0x5C then tl chunk else chunk)
           in if c = [] then None
              else let (r, n) = decode_rune c
                   in if (r = 65533 \<and> n = 1) \<or> drop n c = [] then None else Some (r, drop n c))"

lemma decode_rune_pos: "s \<noteq> [] \<Longrightarrow> 0 < snd (decode_rune s)"
  by (simp add: decode_rune_def Let_def)

lemma getEsc_shorter: "getEsc c = Some (r, q) \<Longrightarrow> length q < length c \<and> q \<noteq> []"
  using decode_rune_pos [of c] decode_rune_pos [of "tl c"]
  by (cases c) (auto simp: getEsc_def Let_def split: if_splits prod.splits)

text \<open>The ranges of a character class up to its closing bracket: did one match the rune, and the rest.\<close>

function match_class :: "nat \<Rightarrow> bool \<Rightarrow> bool \<Rightarrow> bytes \<Rightarrow> (bool \<times> bytes) option" where
  "match_class r some m chunk =
     (if some \<and> take 1 chunk = '']'' then Some (m, drop 1 chunk)
      else case getEsc chunk of
        None \<Rightarrow> None
      | Some (lo, c1) \<Rightarrow>
          if hd c1 = CHR ''-''
          then (case getEsc (tl c1) of
                  None \<Rightarrow> None
                | Some (hi, c2) \<Rightarrow> match_class r True (m \<or> (lo \<le> r \<and> r \<le> hi)) c2)
          else match_class r True (m \<or> lo = r) c1)"
  by pat_completeness auto
termination
  by (relation "measure (\<lambda>(r, some, m, c). length c)") (auto dest!: getEsc_shorter)

declare match_class.simps [simp del]

lemma match_class_shorter: "match_class r some m c = Some (b, q) \<Longrightarrow> length q < length c"
proof (induction r some m c rule: match_class.induct)
  case (1 r some m c)
  show ?case
  proof (cases "some \<and> take 1 c = '']''")
    case True
    with "1.prems" show ?thesis by (subst (asm) match_class.simps) (cases c; auto)
  next
    case False
    with "1.prems" obtain lo c1 where c1: "getEsc c = Some (lo, c1)"
      by (subst (asm) match_class.simps) (auto split: option.splits)
    show ?thesis
    proof (cases "hd c1 = CHR ''-''")
      case True
      with "1.prems" False c1 obtain hi c2 where c2: "getEsc (tl c1) = Some (hi, c2)"
        by (subst (asm) match_class.simps) (auto split: option.splits)
      have "length q < length c2"
        using "1.IH"(1) [OF False c1 refl True c2 refl] "1.prems" [unfolded match_class.simps [of r some m c]]
          False True c1 c2 by auto
      then show ?thesis using getEsc_shorter [OF c1] getEsc_shorter [OF c2] by auto
    next
      case F: False
      have "length q < length c1"
        using "1.IH"(2) [OF False c1 refl F] "1.prems" [unfolded match_class.simps [of r some m c]]
          False F c1 by auto
      then show ?thesis using getEsc_shorter [OF c1] by auto
    qed
  qed
qed

text \<open>
  \<^verbatim>\<open>matchChunk\<close> with its \<^verbatim>\<open>failed\<close> flag: after a mismatch the chunk is still read, to check
  its syntax. \<open>None\<close> is \<^verbatim>\<open>ErrBadPattern\<close>, \<open>Some None\<close> no match, \<open>Some (Some t)\<close> a match leaving \<open>t\<close>.
\<close>

function match_chunk :: "bool \<Rightarrow> bytes \<Rightarrow> bytes \<Rightarrow> bytes option option" where
  "match_chunk failed0 chunk s =
     (case chunk of
        [] \<Rightarrow> Some (if failed0 then None else Some s)
      | c # rest \<Rightarrow>
          let failed = (failed0 \<or> s = [])
          in if c = CHR ''['' then
               (let (r, n) = (if failed then (0, 0) else decode_rune s);
                    negated = (take 1 rest = ''^'')
                in case match_class r False False (if negated then drop 1 rest else rest) of
                     None \<Rightarrow> None
                   | Some (m, c1) \<Rightarrow> match_chunk (failed \<or> m = negated) c1 (drop n s))
             else if c = CHR ''?'' then
               (if failed then match_chunk True rest s
                else match_chunk (hd s = CHR ''/'') rest (drop (snd (decode_rune s)) s))
             else if c = CHR 0x5C then
               (case rest of
                  [] \<Rightarrow> None
                | e # rest' \<Rightarrow> if failed then match_chunk True rest' s else match_chunk (e \<noteq> hd s) rest' (tl s))
             else if failed then match_chunk True rest s
             else match_chunk (c \<noteq> hd s) rest (tl s))"
  by pat_completeness auto
termination
  by (relation "measure (\<lambda>(failed, chunk, s). length chunk)") (auto dest!: match_class_shorter split: if_splits)

declare match_chunk.simps [simp del]

fun chunk_len :: "bool \<Rightarrow> bytes \<Rightarrow> nat" where
  "chunk_len inrange [] = 0"
| "chunk_len inrange (c # r) =
     (if c = CHR 0x5C then (case r of [] \<Rightarrow> 1 | e # r' \<Rightarrow> 2 + chunk_len inrange r')
      else if c = CHR ''['' then Suc (chunk_len True r)
      else if c = CHR '']'' then Suc (chunk_len False r)
      else if c = CHR ''*'' \<and> \<not> inrange then 0
      else Suc (chunk_len inrange r))"

definition scanChunk :: "bytes \<Rightarrow> bool \<times> bytes \<times> bytes" where
  "scanChunk pattern =
     (let p = dropWhile (\<lambda>c. c = CHR ''*'') pattern; i = chunk_len False p
      in (take 1 pattern = ''*'', take i p, drop i p))"

lemma scanChunk_shorter:
  assumes "p \<noteq> []" and "scanChunk p = (star, chunk, rest)"
  shows "length rest < length p"
proof -
  let ?q = "dropWhile (\<lambda>c. c = CHR ''*'') p"
  have rest: "rest = drop (chunk_len False ?q) ?q" using assms(2) by (simp add: scanChunk_def Let_def)
  show ?thesis
  proof (cases "hd p = CHR ''*''")
    case True
    with assms(1) have "length ?q < length p"
      by (cases p) (auto simp: le_imp_less_Suc length_dropWhile_le)
    with rest show ?thesis by simp
  next
    case False
    with assms(1) have "?q = p" "0 < chunk_len False p" by (cases p; auto split: list.split)+
    with rest assms(1) show ?thesis by simp
  qed
qed

fun star_match :: "bytes \<Rightarrow> bool \<Rightarrow> bytes \<Rightarrow> bytes option option" where
  "star_match chunk lst [] = Some None"
| "star_match chunk lst (c # name) =
     (if c = CHR ''/'' then Some None
      else case match_chunk False chunk name of
        None \<Rightarrow> None
      | Some (Some t) \<Rightarrow> if lst \<and> t \<noteq> [] then star_match chunk lst name else Some (Some t)
      | Some None \<Rightarrow> star_match chunk lst name)"

function check_rest :: "bytes \<Rightarrow> bool option" where
  "check_rest pattern =
     (if pattern = [] then Some False
      else let (star, chunk, rest) = scanChunk pattern
           in if match_chunk False chunk [] = None then None else check_rest rest)"
  by pat_completeness auto
termination
  by (relation "measure length") (metis (no_types, lifting) in_measure scanChunk_shorter wf_measure)+

declare check_rest.simps [simp del]

text \<open>\<^verbatim>\<open>path.Match\<close>; \<open>None\<close> is an error.\<close>

function path_Match :: "bytes \<Rightarrow> bytes \<Rightarrow> bool option" where
  "path_Match pattern name =
     (if pattern = [] then Some (name = [])
      else let (star, chunk, rest) = scanChunk pattern
           in if star \<and> chunk = [] then Some (CHR ''/'' \<notin> set name)
              else case match_chunk False chunk name of
                None \<Rightarrow> None
              | Some r \<Rightarrow>
                  if r \<noteq> None \<and> (r = Some [] \<or> rest \<noteq> []) then path_Match rest (the r)
                  else case (if star then star_match chunk (rest = []) name else Some None) of
                    None \<Rightarrow> None
                  | Some (Some t) \<Rightarrow> path_Match rest t
                  | Some None \<Rightarrow> check_rest rest)"
  by pat_completeness auto
termination
  by (relation "measure (\<lambda>(p, n). length p)") (auto dest: scanChunk_shorter [OF _ sym])

declare path_Match.simps [simp del]

section \<open>Rules\<close>

record Rule =
  ru_Type :: string
  ru_Pattern :: string
  ru_AccountID :: uuid

record Rules =
  rs_AnyOf :: "Rule list"
  rs_AllOf :: "Rule list"

record compiledRule =
  cr_kind :: string
  cr_re :: "(string \<Rightarrow> bool) option"
  cr_pattern :: string
  cr_accountID :: uuid

record Matcher =
  mt_anyOf :: "compiledRule list"
  mt_allOf :: "compiledRule list"

record MatchEvent =
  me_Body :: string
  me_FromAccountID :: uuid
  me_Mentions :: "uuid list"

datatype match_error = ErrInvalidRule

definition compileOne :: "(string \<Rightarrow> (string \<Rightarrow> bool) option) \<Rightarrow> Rule \<Rightarrow> match_error + compiledRule" where
  "compileOne regexp r =
     (if ru_Type r = ''mention'' then
        (if ru_AccountID r = uuid_Nil then Inl ErrInvalidRule
         else Inr \<lparr>cr_kind = ''mention'', cr_re = None, cr_pattern = '''', cr_accountID = ru_AccountID r\<rparr>)
      else if ru_Type r = ''regex'' then
        (if ru_Pattern r = '''' then Inl ErrInvalidRule
         else case regexp (ru_Pattern r) of
           None \<Rightarrow> Inl ErrInvalidRule
         | Some re \<Rightarrow> Inr \<lparr>cr_kind = ''regex'', cr_re = Some re, cr_pattern = ru_Pattern r, cr_accountID = uuid_Nil\<rparr>)
      else if ru_Type r = ''glob'' then
        (if ru_Pattern r = '''' then Inl ErrInvalidRule
         else if path_Match (ru_Pattern r) '''' = None then Inl ErrInvalidRule
         else Inr \<lparr>cr_kind = ''glob'', cr_re = None, cr_pattern = ru_Pattern r, cr_accountID = uuid_Nil\<rparr>)
      else Inl ErrInvalidRule)"

fun compile_list :: "(string \<Rightarrow> (string \<Rightarrow> bool) option) \<Rightarrow> Rule list \<Rightarrow> match_error + compiledRule list" where
  "compile_list regexp [] = Inr []"
| "compile_list regexp (r # rs) =
     (case compileOne regexp r of
        Inl e \<Rightarrow> Inl e
      | Inr c \<Rightarrow> (case compile_list regexp rs of Inl e \<Rightarrow> Inl e | Inr cs \<Rightarrow> Inr (c # cs)))"

definition CompileRules :: "(string \<Rightarrow> (string \<Rightarrow> bool) option) \<Rightarrow> Rules \<Rightarrow> match_error + Matcher" where
  "CompileRules regexp rs =
     (case compile_list regexp (rs_AnyOf rs) of
        Inl e \<Rightarrow> Inl e
      | Inr any \<Rightarrow>
          (case compile_list regexp (rs_AllOf rs) of
             Inl e \<Rightarrow> Inl e
           | Inr all \<Rightarrow> Inr \<lparr>mt_anyOf = any, mt_allOf = all\<rparr>))"

text \<open>Decoding the rules document.\<close>

definition zeroRule :: Rule where
  "zeroRule = \<lparr>ru_Type = '''', ru_Pattern = '''', ru_AccountID = uuid_Nil\<rparr>"

definition as_uuid :: "(string \<Rightarrow> uuid option) \<Rightarrow> json \<Rightarrow> uuid option" where
  "as_uuid uuid_Parse v = Option.bind (as_str v) uuid_Parse"

definition rule_of_json :: "(string \<Rightarrow> uuid option) \<Rightarrow> json \<Rightarrow> Rule option" where
  "rule_of_json uuid_Parse v =
     Option.bind (as_obj v) (\<lambda>ms.
     Option.bind (get_field as_str '''' ''type'' ms) (\<lambda>t.
     Option.bind (get_field as_str '''' ''pattern'' ms) (\<lambda>p.
     Option.bind (get_field (as_uuid uuid_Parse) uuid_Nil ''account_id'' ms) (\<lambda>a.
       Some \<lparr>ru_Type = t, ru_Pattern = p, ru_AccountID = a\<rparr>))))"

definition rules_of_json :: "(string \<Rightarrow> uuid option) \<Rightarrow> json \<Rightarrow> Rules option" where
  "rules_of_json uuid_Parse v =
     (if v = JNull then Some \<lparr>rs_AnyOf = [], rs_AllOf = []\<rparr>
      else Option.bind (as_obj v) (\<lambda>ms.
        let rules = as_list (rule_of_json uuid_Parse) zeroRule
        in Option.bind (get_field rules [] ''any_of'' ms) (\<lambda>any.
           Option.bind (get_field rules [] ''all_of'' ms) (\<lambda>all.
             Some \<lparr>rs_AnyOf = any, rs_AllOf = all\<rparr>))))"

definition Compile :: "(string \<Rightarrow> uuid option) \<Rightarrow> (string \<Rightarrow> (string \<Rightarrow> bool) option) \<Rightarrow> bytes \<Rightarrow> match_error + Matcher" where
  "Compile uuid_Parse regexp rulesJSON =
     (if rulesJSON = [] then Inr \<lparr>mt_anyOf = [], mt_allOf = []\<rparr>
      else case Option.bind (parse_json rulesJSON) (rules_of_json uuid_Parse) of
        None \<Rightarrow> Inl ErrInvalidRule
      | Some rs \<Rightarrow> CompileRules regexp rs)"

definition evalRule :: "compiledRule \<Rightarrow> MatchEvent \<Rightarrow> bool" where
  "evalRule r ev =
     (if cr_kind r = ''mention'' then cr_accountID r \<in> set (me_Mentions ev)
      else if cr_kind r = ''regex'' then (case cr_re r of None \<Rightarrow> False | Some re \<Rightarrow> re (me_Body ev))
      else if cr_kind r = ''glob''
      then (case path_Match (cr_pattern r) (TrimSpace (me_Body ev)) of None \<Rightarrow> False | Some b \<Rightarrow> b)
      else False)"

definition Match :: "Matcher \<Rightarrow> MatchEvent \<Rightarrow> bool" where
  "Match m ev =
     (if mt_anyOf m = [] \<and> mt_allOf m = [] then True
      else if \<not> list_all (\<lambda>r. evalRule r ev) (mt_allOf m) then False
      else if mt_anyOf m = [] then True
      else list_ex (\<lambda>r. evalRule r ev) (mt_anyOf m))"

section \<open>The compile-time probe is enough\<close>

lemma class_rest: "map_option snd (match_class r some m c) = map_option snd (match_class r' some m' c)"
proof (induction r some m c arbitrary: r' m' rule: match_class.induct)
  case (1 r some m c)
  show ?case
  proof (cases "\<not> (some \<and> take 1 c = '']'') \<and> getEsc c \<noteq> None")
    case True
    then obtain lo c1 where c1: "getEsc c = Some (lo, c1)" and ns: "\<not> (some \<and> take 1 c = '']'')" by auto
    have ih1: "map_option snd (match_class r True (m \<or> lo \<le> r \<and> r \<le> hi) c2)
        = map_option snd (match_class r' True (m' \<or> lo \<le> r' \<and> r' \<le> hi) c2)"
      if "hd c1 = CHR ''-''" "getEsc (tl c1) = Some (hi, c2)" for hi c2
      using "1.IH"(1) [OF ns c1 refl that refl] .
    have ih2: "map_option snd (match_class r True (m \<or> lo = r) c1) = map_option snd (match_class r' True (m' \<or> lo = r') c1)"
      if "hd c1 \<noteq> CHR ''-''"
      using "1.IH"(2) [OF ns c1 refl that] .
    have unf: "match_class x some y c = (if hd c1 = CHR ''-''
          then (case getEsc (tl c1) of None \<Rightarrow> None | Some (hi, c2) \<Rightarrow> match_class x True (y \<or> (lo \<le> x \<and> x \<le> hi)) c2)
          else match_class x True (y \<or> lo = x) c1)" for x y
      using ns c1 by (simp only: match_class.simps [of x some y c] if_False option.case prod.case)
    show ?thesis
      unfolding unf using ih1 ih2 by (cases "getEsc (tl c1)") auto
  next
    case False
    then have "match_class x some y c = (if some \<and> take 1 c = '']'' then Some (y, drop 1 c) else None)" for x y
      by (subst match_class.simps) (cases "getEsc c"; simp)
    then show ?thesis by simp
  qed
qed

lemma class_some:
  "match_class r some m c = Some (b, q) \<Longrightarrow> \<exists>b'. match_class r' some m' c = Some (b', q)"
proof -
  assume "match_class r some m c = Some (b, q)"
  then have "map_option snd (match_class r some m c) = Some q" by (simp only: option.map prod.sel)
  then have "map_option snd (match_class r' some m' c) = Some q" by (simp only: class_rest [of r' some m' c r m])
  then show ?thesis by (cases "match_class r' some m' c") (simp_all only: option.map option.distinct option.inject prod.collapse prod.sel, metis prod.collapse)
qed

lemma class_error: "match_class r some m c = None \<longleftrightarrow> match_class r' some m' c = None"
  by (metis class_some not_None_eq old.prod.exhaust)

text \<open>Whether a chunk is well formed depends on the chunk alone.\<close>

lemma chunk_error: "match_chunk f c s = None \<longleftrightarrow> match_chunk f' c s' = None"
proof (induction "length c" arbitrary: f c s f' s' rule: less_induct)
  case less
  show ?case
  proof (cases c)
    case (Cons x rest)
    let ?cls = "if take 1 rest = ''^'' then drop 1 rest else rest"
    have ih: "(match_chunk f1 q s1 = None) = (match_chunk f2 q s2 = None)" if "length q < length c" for f1 q s1 f2 s2
      using less that by blast
    have rest: "(match_chunk f1 rest s1 = None) = (match_chunk f2 rest s2 = None)" for f1 s1 f2 s2
      by (rule ih) (simp add: Cons)
    show ?thesis
    proof (cases "x = CHR ''[''")
      case True
      have cls: "(case match_class r1 False False ?cls of None \<Rightarrow> None | Some (m, c1) \<Rightarrow> match_chunk (F1 m) c1 s1) = None
         \<longleftrightarrow> (case match_class r2 False False ?cls of None \<Rightarrow> None | Some (m, c1) \<Rightarrow> match_chunk (F2 m) c1 s2) = None"
        for r1 r2 F1 F2 s1 s2
      proof (cases "match_class r1 False False ?cls")
        case (Some p)
        then obtain m q where p: "match_class r1 False False ?cls = Some (m, q)" by (cases p) auto
        then obtain m' where p': "match_class r2 False False ?cls = Some (m', q)"
          using class_some by blast
        have "length q < length c" using match_class_shorter [OF p] Cons by (auto split: if_splits)
        from ih [OF this] show ?thesis unfolding p p' by simp
      next
        case None
        moreover have "match_class r2 False False ?cls = None" using None class_error by blast
        ultimately show ?thesis by simp
      qed
      show ?thesis
        unfolding Cons match_chunk.simps [of f] match_chunk.simps [of f']
          Let_def list.case if_P [OF True] prod.case_distrib [symmetric] case_prod_unfold
        by (rule cls [unfolded case_prod_unfold])
    next
      case False
      show ?thesis
      proof (cases "x = CHR 0x5C")
        case True
        have "(match_chunk f1 q s1 = None) = (match_chunk f2 q s2 = None)" if "rest = e # q" for f1 q s1 f2 s2 e
          by (rule ih) (simp add: Cons that)
        then show ?thesis
          using True unfolding Cons match_chunk.simps [of f] match_chunk.simps [of f']
          by (auto simp: Let_def split: list.splits)
      next
        case B: False
        then show ?thesis
          using False rest unfolding Cons match_chunk.simps [of f] match_chunk.simps [of f']
          by (auto simp: Let_def)
      qed
    qed
  qed (simp add: match_chunk.simps)
qed

lemma failed_chunk: "match_chunk True c s \<noteq> Some (Some t)"
proof (induction "length c" arbitrary: c s rule: less_induct)
  case less
  have ih: "match_chunk True q s \<noteq> Some (Some t)" if "length q < length c" for q s
    using less that by blast
  show ?case
  proof (cases c)
    case (Cons x rest)
    have rest: "match_chunk True rest s \<noteq> Some (Some t)" for s by (rule ih) (simp add: Cons)
    show ?thesis
    proof (cases "x = CHR ''[''")
      case True
      then show ?thesis
        unfolding Cons match_chunk.simps [of True "x # rest"]
        using ih match_class_shorter Cons
        by (fastforce simp: Let_def split: option.splits if_splits)
    next
      case False
      with rest ih Cons show ?thesis
        unfolding Cons match_chunk.simps [of True "x # rest"] by (auto simp: Let_def split: list.splits)
    qed
  qed (simp add: match_chunk.simps)
qed

lemma chunk_on_empty: "c \<noteq> [] \<Longrightarrow> match_chunk False c [] \<noteq> Some (Some t)"
proof -
  assume "c \<noteq> []"
  then have "match_chunk False c [] = match_chunk True c []"
    by (cases c) (simp_all add: match_chunk.simps [of False] match_chunk.simps [of True] Let_def)
  then show ?thesis using failed_chunk by simp
qed

lemma scanChunk_no_chunk: "p \<noteq> [] \<Longrightarrow> scanChunk p = (star, [], rest) \<Longrightarrow> star \<and> rest = []"
proof -
  let ?q = "dropWhile (\<lambda>c. c = CHR ''*'') p"
  assume p: "p \<noteq> []" and "scanChunk p = (star, [], rest)"
  then have star: "star \<longleftrightarrow> take 1 p = ''*''" and i: "take (chunk_len False ?q) ?q = []"
    and rest: "rest = drop (chunk_len False ?q) ?q"
    by (auto simp: scanChunk_def Let_def)
  have "hd ?q \<noteq> CHR ''*''" if "?q \<noteq> []" using hd_dropWhile [OF that] by simp
  then have "0 < chunk_len False ?q" if "?q \<noteq> []"
    using that by (cases ?q) (auto split: list.split)
  with i have q: "?q = []" unfolding take_eq_Nil by (metis less_irrefl)
  with p rest star show ?thesis by (cases p) (auto split: if_splits)
qed

lemma star_match_error: "star_match chunk lst name = None \<Longrightarrow> match_chunk False chunk [] = None"
  using chunk_error [of False chunk _ False "[]"]
  by (induction name) (auto split: if_splits option.splits)

lemma path_Match_error: "path_Match p s = None \<Longrightarrow> check_rest p = None"
proof (induction p s rule: path_Match.induct)
  case (1 p s)
  obtain star chunk rest where sc: "scanChunk p = (star, chunk, rest)" by (cases "scanChunk p") auto
  from "1.prems" have p: "p \<noteq> []" by (subst (asm) path_Match.simps) (auto split: if_splits)
  from "1.prems" p sc have ne: "\<not> (star \<and> chunk = [])"
    by (subst (asm) path_Match.simps) (auto split: if_splits)
  have unf: "check_rest p = (if match_chunk False chunk [] = None then None else check_rest rest)"
    using p sc by (subst check_rest.simps) simp
  show ?case
  proof (cases "match_chunk False chunk s = None \<or> match_chunk False chunk [] = None")
    case True
    then show ?thesis using chunk_error [of False chunk s False "[]"] unf by simp
  next
    case False
    then obtain r where r: "match_chunk False chunk s = Some r" by auto
    define st where "st = (if star then star_match chunk (rest = []) s else Some None)"
    have st: "st \<noteq> None"
      using star_match_error [of chunk "rest = []" s] False unfolding st_def by (metis option.distinct(1))
    have m: "path_Match p s = (if r \<noteq> None \<and> (r = Some [] \<or> rest \<noteq> []) then path_Match rest (the r)
         else case st of None \<Rightarrow> None | Some (Some t) \<Rightarrow> path_Match rest t | Some None \<Rightarrow> check_rest rest)"
      using p sc ne r by (subst path_Match.simps) (auto simp: st_def)
    show ?thesis
    proof (cases "r \<noteq> None \<and> (r = Some [] \<or> rest \<noteq> [])")
      case True
      with "1.IH"(1) [OF p sc [symmetric] refl refl ne r True] m "1.prems" unf show ?thesis by simp
    next
      case nr: False
      show ?thesis
      proof (cases st)
        case (Some w)
        have "check_rest rest = None"
        proof (cases w)
          case None
          with "1.prems" [unfolded m if_not_P [OF nr]] Some show ?thesis by simp
        next
          case (Some t)
          with "1.prems" [unfolded m if_not_P [OF nr]] \<open>st = Some w\<close> have "path_Match rest t = None" by simp
          then show ?thesis
            using "1.IH"(2) [OF p sc [symmetric] refl refl ne r nr _ Some] \<open>st = Some w\<close> unfolding st_def by blast
        qed
        with unf show ?thesis by simp
      qed (use st in simp)
    qed
  qed
qed

lemma path_Match_probe: "check_rest p = None \<Longrightarrow> path_Match p [] = None"
proof -
  assume bad: "check_rest p = None"
  then have p: "p \<noteq> []" by (subst (asm) check_rest.simps) (auto split: if_splits)
  obtain star chunk rest where sc: "scanChunk p = (star, chunk, rest)" by (cases "scanChunk p") auto
  have unf: "check_rest p = (if match_chunk False chunk [] = None then None else check_rest rest)"
    using p sc by (subst check_rest.simps) simp
  have ne: "chunk \<noteq> []"
  proof
    assume "chunk = []"
    with scanChunk_no_chunk [OF p] sc have "rest = []" by blast
    with unf bad \<open>chunk = []\<close> show False by (simp add: match_chunk.simps check_rest.simps)
  qed
  show ?thesis
  proof (cases "match_chunk False chunk []")
    case None
    with p sc ne show ?thesis by (subst path_Match.simps) simp
  next
    case (Some r)
    with chunk_on_empty [OF ne] have "r = None" by (cases r) auto
    with Some p sc ne unf bad show ?thesis by (subst path_Match.simps) simp
  qed
qed

text \<open>
  The syntax probe at compile time is complete: once \<^verbatim>\<open>compileOne\<close> has accepted
  a glob rule (it matches the pattern against the empty string only), \<^verbatim>\<open>path.Match\<close> on that
  pattern succeeds for every message body, so the error that \<^verbatim>\<open>evalRule\<close> drops never occurs.
\<close>

theorem glob_probe_complete:
  assumes "compileOne regexp r = Inr c" and "cr_kind c = ''glob''"
  shows "\<exists>b. path_Match (cr_pattern c) (TrimSpace body) = Some b
     \<and> evalRule c \<lparr>me_Body = body, me_FromAccountID = from, me_Mentions = ms\<rparr> = b"
proof -
  have c: "cr_pattern c = ru_Pattern r" "path_Match (ru_Pattern r) [] \<noteq> None"
    using assms by (auto simp: compileOne_def split: if_splits option.splits)
  then have "path_Match (cr_pattern c) (TrimSpace body) \<noteq> None"
    using path_Match_error path_Match_probe by fastforce
  with assms(2) show ?thesis by (auto simp: evalRule_def)
qed

theorem glob_probe_complete_witness:
  "\<exists>b. path_Match ''build #*'' (TrimSpace ''build #42 failed'') = Some b
     \<and> evalRule \<lparr>cr_kind = ''glob'', cr_re = None, cr_pattern = ''build #*'', cr_accountID = 0\<rparr>
         \<lparr>me_Body = ''build #42 failed'', me_FromAccountID = 1, me_Mentions = []\<rparr> = b"
proof -
  have "path_Match ''build #*'' [] \<noteq> None" by code_simp
  then have "compileOne (\<lambda>_. None) \<lparr>ru_Type = ''glob'', ru_Pattern = ''build #*'', ru_AccountID = 0\<rparr>
      = Inr \<lparr>cr_kind = ''glob'', cr_re = None, cr_pattern = ''build #*'', cr_accountID = 0\<rparr>"
    by (simp add: compileOne_def)
  from glob_probe_complete [OF this, of "''build #42 failed''" 1 "[]"] show ?thesis by simp
qed

definition rule_holds :: "(string \<Rightarrow> (string \<Rightarrow> bool) option) \<Rightarrow> MatchEvent \<Rightarrow> Rule \<Rightarrow> bool" where
  "rule_holds regexp ev r \<longleftrightarrow>
     (ru_Type r = ''mention'' \<and> ru_AccountID r \<in> set (me_Mentions ev))
     \<or> (ru_Type r = ''regex'' \<and> (\<exists>re. regexp (ru_Pattern r) = Some re \<and> re (me_Body ev)))
     \<or> (ru_Type r = ''glob'' \<and> path_Match (ru_Pattern r) (TrimSpace (me_Body ev)) = Some True)"

lemma compileOne_eval: "compileOne regexp r = Inr c \<Longrightarrow> evalRule c ev = rule_holds regexp ev r"
  by (auto simp: compileOne_def evalRule_def rule_holds_def split: if_splits option.splits)

lemma compile_list_eval:
  "compile_list regexp rs = Inr cs \<Longrightarrow> map (\<lambda>c. evalRule c ev) cs = map (rule_holds regexp ev) rs"
  by (induction rs arbitrary: cs) (auto split: sum.splits simp: compileOne_eval)

lemma bools_of_map: "list_all f xs \<longleftrightarrow> False \<notin> set (map f xs)" "list_ex f xs \<longleftrightarrow> True \<in> set (map f xs)"
  by (auto simp: list_all_iff list_ex_iff image_iff)

text \<open>
  Property C27. What a compiled rules document means: \<^verbatim>\<open>Match\<close> holds exactly when every rule of
  \<^verbatim>\<open>all_of\<close> holds and, unless \<^verbatim>\<open>any_of\<close> is empty, some rule of \<^verbatim>\<open>any_of\<close> holds, where a
  mention rule holds when its account is among the mentions, a regex rule when the compiled
  expression accepts the body, and a glob rule when \<^verbatim>\<open>path.Match\<close> accepts the trimmed body.
\<close>

theorem Match_meaning:
  assumes "CompileRules regexp rs = Inr m"
  shows "Match m ev \<longleftrightarrow> list_all (rule_holds regexp ev) (rs_AllOf rs)
     \<and> (rs_AnyOf rs = [] \<or> list_ex (rule_holds regexp ev) (rs_AnyOf rs))"
proof -
  have any: "map (\<lambda>c. evalRule c ev) (mt_anyOf m) = map (rule_holds regexp ev) (rs_AnyOf rs)"
    and all: "map (\<lambda>c. evalRule c ev) (mt_allOf m) = map (rule_holds regexp ev) (rs_AllOf rs)"
    using assms by (auto simp: CompileRules_def compile_list_eval split: sum.splits)
  have "mt_anyOf m = [] \<longleftrightarrow> rs_AnyOf rs = []" using any by (metis map_is_Nil_conv)
  then show ?thesis
    unfolding Match_def bools_of_map any all using all by auto
qed

theorem Match_meaning_witness:
  "Match \<lparr>mt_anyOf = [\<lparr>cr_kind = ''mention'', cr_re = None, cr_pattern = '''', cr_accountID = 5\<rparr>], mt_allOf = []\<rparr>
     \<lparr>me_Body = ''hi @bot'', me_FromAccountID = 1, me_Mentions = [5]\<rparr>"
proof -
  have "CompileRules (\<lambda>_. None) \<lparr>rs_AnyOf = [\<lparr>ru_Type = ''mention'', ru_Pattern = '''', ru_AccountID = 5\<rparr>], rs_AllOf = []\<rparr>
     = Inr \<lparr>mt_anyOf = [\<lparr>cr_kind = ''mention'', cr_re = None, cr_pattern = '''', cr_accountID = 5\<rparr>], mt_allOf = []\<rparr>"
    by (simp add: CompileRules_def compileOne_def)
  from Match_meaning [OF this] show ?thesis by (simp add: rule_holds_def)
qed

end
