(* ===== verification/Mention.thy ===== *)
theory Mention
  imports Sqlite
begin

text \<open>
  @-mentions (\<^verbatim>\<open>internal/mention/mention.go\<close>). The package's one regular expression is
  written out as a scanner: an \<^verbatim>\<open>@\<close> at the start of the body or after a boundary character,
  then the longest run of 1 to 36 name characters; matches are found left to right and do not overlap.
\<close>

definition is_boundary :: "char \<Rightarrow> bool" where
  "is_boundary c \<longleftrightarrow> c \<in> {CHR 0x09, CHR 0x0A, CHR 0x0C, CHR 0x0D, CHR '' ''} \<or> c \<in> set '',;:!?()[]{}<>/''
     \<or> c = CHR 0x22 \<or> c = CHR 0x27"

definition is_name_char :: "char \<Rightarrow> bool" where
  "is_name_char c \<longleftrightarrow> is_digit c \<or> (97 \<le> (of_char (lower_char c) :: nat) \<and> (of_char (lower_char c) :: nat) \<le> 122)
     \<or> c = CHR ''_'' \<or> c = CHR ''-''"

definition mention_token :: "bytes \<Rightarrow> bytes" where
  "mention_token s = take 36 (takeWhile is_name_char s)"

function mentionPattern :: "bool \<Rightarrow> bytes \<Rightarrow> bytes list" where
  "mentionPattern at_start s =
     (case s of
        [] \<Rightarrow> []
      | c # r \<Rightarrow>
          if at_start \<and> c = CHR ''@'' \<and> mention_token r \<noteq> []
          then mention_token r # mentionPattern False (drop (length (mention_token r)) r)
          else if is_boundary c \<and> take 1 r = ''@'' \<and> mention_token (drop 1 r) \<noteq> []
          then mention_token (drop 1 r) # mentionPattern False (drop (length (mention_token (drop 1 r))) (drop 1 r))
          else mentionPattern False r)"
  by pat_completeness auto
termination
  by (relation "measure (\<lambda>(b, s). length s)") (auto simp: less_Suc_eq_le)

declare mentionPattern.simps [simp del]

text \<open>The account a token stands for: a UUID as it is, otherwise the tenant's account of that name.\<close>

definition resolve_token :: "(string \<Rightarrow> uuid option) \<Rightarrow> uuid \<Rightarrow> store \<Rightarrow> string \<Rightarrow> uuid option" where
  "resolve_token uuid_Parse tenantID st token =
     (case uuid_Parse token of
        Some i \<Rightarrow> Some i
      | None \<Rightarrow> (case GetAccountByUsername tenantID token st of Inl _ \<Rightarrow> None | Inr acc \<Rightarrow> Some (acc_ID acc)))"

fun resolve_loop :: "(string \<Rightarrow> uuid option) \<Rightarrow> uuid \<Rightarrow> store \<Rightarrow> bytes list \<Rightarrow> uuid list \<Rightarrow> uuid list" where
  "resolve_loop uuid_Parse tenantID st [] out = out"
| "resolve_loop uuid_Parse tenantID st (token # ms) out =
     (case resolve_token uuid_Parse tenantID st token of
        None \<Rightarrow> resolve_loop uuid_Parse tenantID st ms out
      | Some i \<Rightarrow> resolve_loop uuid_Parse tenantID st ms (if i \<in> set out then out else out @ [i]))"

definition Resolve :: "(string \<Rightarrow> uuid option) \<Rightarrow> uuid \<Rightarrow> string \<Rightarrow> store \<Rightarrow> uuid list" where
  "Resolve uuid_Parse tenantID body st =
     (if \<not> Contains body ''@'' then []
      else let matches = mentionPattern True body
           in if matches = [] then [] else resolve_loop uuid_Parse tenantID st matches [])"

section \<open>What is resolved\<close>

text \<open>The first occurrences of a list, in order.\<close>

definition firsts :: "'a list \<Rightarrow> 'a list" where
  "firsts xs = rev (remdups (rev xs))"

lemma firsts_snoc: "firsts (xs @ [x]) = (if x \<in> set xs then firsts xs else firsts xs @ [x])"
  by (simp add: firsts_def)

lemma set_firsts [simp]: "set (firsts xs) = set xs"
  by (simp add: firsts_def)

lemma distinct_firsts [simp]: "distinct (firsts xs)"
  by (simp add: firsts_def)

lemma resolve_loop_firsts:
  "resolve_loop up t st ms (firsts xs) = firsts (xs @ List.map_filter (resolve_token up t st) ms)"
proof (induction ms arbitrary: xs)
  case (Cons m ms)
  show ?case
  proof (cases "resolve_token up t st m")
    case (Some i)
    with Cons [of "xs @ [i]"] show ?thesis by (simp add: firsts_snoc List.map_filter_def)
  qed (use Cons in \<open>simp add: List.map_filter_def\<close>)
qed (simp add: List.map_filter_def)

lemma no_at_no_mention: "CHR ''@'' \<notin> set s \<Longrightarrow> mentionPattern b s = []"
proof (induction b s rule: mentionPattern.induct)
  case (1 b s)
  show ?case
  proof (cases s)
    case (Cons c r)
    with "1.prems" have "c \<noteq> CHR ''@''" "take 1 r \<noteq> ''@''" "CHR ''@'' \<notin> set r" by (cases r; auto)+
    with Cons "1.IH"(3) [OF Cons] show ?thesis by (subst mentionPattern.simps) simp
  qed (simp add: mentionPattern.simps)
qed

lemma Contains_at: "Contains s ''@'' \<longleftrightarrow> CHR ''@'' \<in> set s"
  by (auto simp: Contains_iff in_set_conv_decomp)

text \<open>The account a token means: the UUID it spells, or else the tenant's account of that user name, when the store answers.\<close>

definition account_of :: "(string \<Rightarrow> uuid option) \<Rightarrow> uuid \<Rightarrow> store \<Rightarrow> string \<Rightarrow> uuid option" where
  "account_of uuid_Parse tenantID st m =
     (if uuid_Parse m \<noteq> None then uuid_Parse m
      else if st_down st then None
      else map_option acc_ID (find (\<lambda>a. acc_TenantID a = tenantID \<and> acc_Username a = m) (st_accounts st)))"

lemma resolve_token_account: "resolve_token up t st m = account_of up t st m"
  by (auto simp: resolve_token_def account_of_def GetAccountByUsername_def query_row_def scanAccount_def split: option.splits sum.splits)

text \<open>
  Property C28. \<^verbatim>\<open>Resolve\<close> returns each mentioned account once, in the order of first mention: the
  result is the list of the accounts that the mention tokens of the body stand for, from left to right, with every
  repetition after the first removed. A token that spells a UUID stands for that account; any other token stands for the account
  of the given tenant with that user name, and for none when there is no such account or the store does not answer. The
  shortcut for bodies without \<^verbatim>\<open>@\<close> loses nothing.
\<close>

theorem Resolve_exact:
  "Resolve uuid_Parse tenantID body st
     = rev (remdups (rev (List.map_filter (account_of uuid_Parse tenantID st) (mentionPattern True body))))
   \<and> distinct (Resolve uuid_Parse tenantID body st)"
proof -
  have "resolve_token uuid_Parse tenantID st = account_of uuid_Parse tenantID st"
    by (simp add: fun_eq_iff resolve_token_account)
  then have loop: "resolve_loop uuid_Parse tenantID st ms [] = firsts (List.map_filter (account_of uuid_Parse tenantID st) ms)" for ms
    using resolve_loop_firsts [of uuid_Parse tenantID st ms "[]"] by (simp add: firsts_def)
  have "mentionPattern True body = []" if "\<not> Contains body ''@''"
    using that no_at_no_mention by (simp add: Contains_at)
  then have "Resolve uuid_Parse tenantID body st = firsts (List.map_filter (account_of uuid_Parse tenantID st) (mentionPattern True body))"
    by (auto simp: Resolve_def Let_def loop) (simp_all add: firsts_def List.map_filter_def)
  then show ?thesis by (simp add: firsts_def)
qed

end
