(* ===== verification/Payload.thy ===== *)
theory Payload
  imports Channels Json
begin

text \<open>
  The webhook payload and its signature (\<^verbatim>\<open>internal/webhook/payload.go\<close>). HMAC-SHA256 is the
  argument \<open>hmac\<close> (key, message), \<open>uuid_String\<close> the UUID package's printer and
  \<open>fmt_time\<close> gives the text \<^verbatim>\<open>time.Time\<close> marshals to, or the error of a time that cannot be marshalled.
\<close>

record Message =
  wm_From :: string
  wm_DisplayName :: string
  wm_TS :: gotime
  wm_Body :: string

record Payload =
  pl_EventID :: string
  pl_SubscriptionID :: string
  pl_TenantID :: string
  pl_ChannelID :: string
  pl_ChannelName :: string
  pl_TS :: gotime
  pl_Matches :: "Message list"
  pl_Context :: "Message list option"

definition MessageFromHistory :: "(uuid \<Rightarrow> string) \<Rightarrow> HistoryEntry \<Rightarrow> Message" where
  "MessageFromHistory uuid_String e = \<lparr>wm_From = uuid_String (he_From e), wm_DisplayName = he_DisplayName e,
     wm_TS = he_TS e, wm_Body = he_Body e\<rparr>"

definition json_message :: "(gotime \<Rightarrow> string + string) \<Rightarrow> Message \<Rightarrow> string + json" where
  "json_message fmt_time m = (case fmt_time (wm_TS m) of
       Inl e \<Rightarrow> Inl e
     | Inr ts \<Rightarrow> Inr (JObj ([(''from'', JStr (wm_From m))]
         @ (if wm_DisplayName m = '''' then [] else [(''display_name'', JStr (wm_DisplayName m))])
         @ [(''ts'', JStr ts), (''body'', JStr (wm_Body m))])))"

fun json_messages :: "(gotime \<Rightarrow> string + string) \<Rightarrow> Message list \<Rightarrow> string + json list" where
  "json_messages fmt_time [] = Inr []"
| "json_messages fmt_time (m # ms) = (case json_message fmt_time m of
       Inl e \<Rightarrow> Inl e
     | Inr j \<Rightarrow> (case json_messages fmt_time ms of Inl e \<Rightarrow> Inl e | Inr js \<Rightarrow> Inr (j # js)))"

text \<open>A nil slice marshals to \<^verbatim>\<open>null\<close>: the context of a fire may be nil, its matches never are.\<close>

definition json_context :: "(gotime \<Rightarrow> string + string) \<Rightarrow> Message list option \<Rightarrow> string + json" where
  "json_context fmt_time c = (case c of
       None \<Rightarrow> Inr JNull
     | Some ms \<Rightarrow> (case json_messages fmt_time ms of Inl e \<Rightarrow> Inl e | Inr js \<Rightarrow> Inr (JArr js)))"

text \<open>Fields are marshalled in order; the first one that fails gives the error.\<close>

definition Marshal :: "(gotime \<Rightarrow> string + string) \<Rightarrow> Payload \<Rightarrow> string + bytes" where
  "Marshal fmt_time p = (case fmt_time (pl_TS p) of
       Inl e \<Rightarrow> Inl e
     | Inr ts \<Rightarrow> (case json_messages fmt_time (pl_Matches p) of
           Inl e \<Rightarrow> Inl e
         | Inr ms \<Rightarrow> (case json_context fmt_time (pl_Context p) of
               Inl e \<Rightarrow> Inl e
             | Inr c \<Rightarrow> Inr (print_json (JObj [
                 (''event_id'', JStr (pl_EventID p)), (''subscription_id'', JStr (pl_SubscriptionID p)),
                 (''tenant_id'', JStr (pl_TenantID p)), (''channel_id'', JStr (pl_ChannelID p)),
                 (''channel_name'', JStr (pl_ChannelName p)), (''ts'', JStr ts),
                 (''matches'', JArr ms), (''context'', c)])))))"

record Signature =
  sg_T :: int
  sg_V :: string

definition hex_EncodeToString :: "bytes \<Rightarrow> string" where
  "hex_EncodeToString bs = concat (map (\<lambda>c. [hex_char (code c div 16), hex_char (code c mod 16)]) bs)"

definition sign_input :: "int \<Rightarrow> bytes \<Rightarrow> bytes" where
  "sign_input ts body = FormatInt ts @ ''.'' @ body"

definition Sign :: "(bytes \<Rightarrow> bytes \<Rightarrow> bytes) \<Rightarrow> bytes \<Rightarrow> bytes \<Rightarrow> int \<Rightarrow> Signature" where
  "Sign hmac body secret ts = \<lparr>sg_T = ts, sg_V = hex_EncodeToString (hmac secret (sign_input ts body))\<rparr>"

definition Header :: "Signature \<Rightarrow> string" where
  "Header s = ''t='' @ FormatInt (sg_T s) @ '',v1='' @ sg_V s"

text \<open>The loop over the parts of the header: a later part of the same kind overrides an earlier one.\<close>

definition header_part :: "string \<Rightarrow> string \<times> string \<Rightarrow> string \<times> string" where
  "header_part part0 tv =
     (let part = TrimSpace part0
      in if HasPrefix part ''t='' then (TrimPrefix part ''t='', snd tv)
         else if HasPrefix part ''v1='' then (fst tv, TrimPrefix part ''v1='')
         else tv)"

definition parseSignatureHeader :: "string \<Rightarrow> (int \<times> string) option" where
  "parseSignatureHeader h =
     (let (tStr, v) = fold header_part (Split h CHR '','') ('''', '''')
      in if tStr = '''' \<or> v = '''' then None
         else map_option (\<lambda>t. (t, v)) (ParseInt64 tStr))"

definition Verify :: "(bytes \<Rightarrow> bytes \<Rightarrow> bytes) \<Rightarrow> string \<Rightarrow> bytes \<Rightarrow> bytes \<Rightarrow> bool" where
  "Verify hmac header body secret =
     (case parseSignatureHeader header of
        None \<Rightarrow> False
      | Some (t, v) \<Rightarrow> sg_V (Sign hmac body secret t) = v)"

definition NewEventID :: "(uuid \<Rightarrow> string) \<Rightarrow> uuid option \<Rightarrow> string" where
  "NewEventID uuid_String newV7 = (case newV7 of None \<Rightarrow> '''' | Some i \<Rightarrow> uuid_String i)"

section \<open>Signing and verifying\<close>

lemma TrimSpace_id: "s \<noteq> [] \<Longrightarrow> \<not> is_space (hd s) \<Longrightarrow> \<not> is_space (last s) \<Longrightarrow> TrimSpace s = s"
proof -
  assume s: "s \<noteq> []" "\<not> is_space (hd s)" "\<not> is_space (last s)"
  have "dropWhile is_space s = s" using s by (cases s) auto
  moreover have "dropWhile is_space (rev s) = rev s" using s by (cases s rule: rev_cases) auto
  ultimately show ?thesis by (simp add: TrimSpace_def)
qed

lemma FormatInt_chars: "c \<in> set (FormatInt n) \<Longrightarrow> is_digit c \<or> c = CHR ''-''"
  using digits_are_digits by (auto simp: FormatInt_def list_all_iff split: if_splits)

lemma FormatInt_nonempty [simp]: "FormatInt n \<noteq> []"
  by (simp add: FormatInt_def)

lemma FormatInt_no: "c \<notin> set (FormatInt n)" if "c \<in> {CHR '','', CHR ''.'', CHR '' ''}"
  using that FormatInt_chars [of c n] by (auto simp: is_digit_def)

lemma not_space_num: "is_digit c \<or> c = CHR ''-'' \<Longrightarrow> \<not> is_space c"
  by (auto simp: is_digit_def is_space_def)

definition is_hex :: "char \<Rightarrow> bool" where
  "is_hex c \<longleftrightarrow> (48 \<le> code c \<and> code c \<le> 57) \<or> (97 \<le> code c \<and> code c \<le> 102)"

lemma is_hex_hex_char: "n < 16 \<Longrightarrow> is_hex (hex_char n)"
  by (simp add: is_hex_def hex_char_def)

lemma is_hex_not: "is_hex c \<Longrightarrow> \<not> is_space c \<and> c \<noteq> CHR '',''"
  by (auto simp: is_hex_def is_space_def code_def)

lemma hex_chars: "list_all is_hex (hex_EncodeToString bs)"
proof (induction bs)
  case (Cons c bs)
  have "code c div 16 < 16" using code_bound [of c] by simp
  with Cons show ?case by (simp add: hex_EncodeToString_def is_hex_hex_char)
qed (simp add: hex_EncodeToString_def)

lemma hex_nonempty: "bs \<noteq> [] \<Longrightarrow> hex_EncodeToString bs \<noteq> []"
  by (cases bs) (simp_all add: hex_EncodeToString_def)

lemma parse_Header:
  assumes "- (2 ^ 63) \<le> sg_T s" and "sg_T s < 2 ^ 63" and "sg_V s \<noteq> []"
    and "list_all is_hex (sg_V s)"
  shows "parseSignatureHeader (Header s) = Some (sg_T s, sg_V s)"
proof -
  let ?t = "''t='' @ FormatInt (sg_T s)" and ?v = "''v1='' @ sg_V s"
  have "CHR '','' \<notin> set ?t" "CHR '','' \<notin> set ?v"
    using FormatInt_no [of "CHR '',''"] is_hex_not assms(4) by (auto simp: list_all_iff)
  then have split: "Split (Header s) CHR '','' = [?t, ?v]"
    using Split_append_sep [of "CHR '',''" ?t ?v] Split_no_sep [of "CHR '',''" ?v] by (simp add: Header_def)
  have "last (FormatInt (sg_T s)) \<in> set (FormatInt (sg_T s))" by (rule last_in_set) simp
  then have "\<not> is_space (last (FormatInt (sg_T s)))" by (rule not_space_num [OF FormatInt_chars])
  then have t: "TrimSpace ?t = ?t"
    by (intro TrimSpace_id) (simp_all, simp add: is_space_def)
  have "is_hex (last (sg_V s))" using assms(3,4) last_in_set by (auto simp: list_all_iff)
  then have v: "TrimSpace ?v = ?v"
    using assms(3) is_hex_not by (intro TrimSpace_id) (simp_all, simp add: is_space_def)
  have hp: "header_part ?t ('''', '''') = (FormatInt (sg_T s), '''')"
    "header_part ?v (FormatInt (sg_T s), '''') = (FormatInt (sg_T s), sg_V s)"
    unfolding header_part_def t v Let_def by (simp_all add: HasPrefix_def TrimPrefix_def)
  show ?thesis
    using assms(1-3) by (simp add: parseSignatureHeader_def split hp [simplified] ParseInt64_FormatInt)
qed

lemma sign_input_inj: "sign_input t b = sign_input t' b' \<Longrightarrow>
    - (2 ^ 63) \<le> t \<Longrightarrow> t < 2 ^ 63 \<Longrightarrow> - (2 ^ 63) \<le> t' \<Longrightarrow> t' < 2 ^ 63 \<Longrightarrow> t = t' \<and> b = b'"
proof -
  assume eq: "sign_input t b = sign_input t' b'"
    and r: "- (2 ^ 63) \<le> t" "t < 2 ^ 63" "- (2 ^ 63) \<le> t'" "t' < 2 ^ 63"
  have dot: "takeWhile (\<lambda>c. c \<noteq> CHR ''.'') (sign_input u x) = FormatInt u" for u x
    using FormatInt_no [of "CHR ''.''" u] unfolding sign_input_def by (subst takeWhile_append2) auto
  have "FormatInt t = FormatInt t'" using dot [of t b] dot [of t' b'] eq by simp
  moreover from this have "t = t'" using ParseInt64_FormatInt r by (metis option.inject)
  ultimately show ?thesis using eq by (simp add: sign_input_def)
qed

lemma hex_inj: "hex_EncodeToString a = hex_EncodeToString b \<Longrightarrow> a = b"
proof (induction a arbitrary: b)
  case Nil
  then show ?case by (cases b) (simp_all add: hex_EncodeToString_def)
next
  case (Cons x a)
  then obtain y b' where b: "b = y # b'" by (cases b) (simp_all add: hex_EncodeToString_def)
  have lt: "code x div 16 < 16" "code y div 16 < 16" using code_bound [of x] code_bound [of y] by simp_all
  have "hex_char (code x div 16) = hex_char (code y div 16)" "hex_char (code x mod 16) = hex_char (code y mod 16)"
    "hex_EncodeToString a = hex_EncodeToString b'"
    using Cons.prems b by (simp_all add: hex_EncodeToString_def)
  moreover have inj: "m = n" if "hex_char m = hex_char n" "m < 16" "n < 16" for m n
    using arg_cong [OF that(1), of hex_val] that(2,3) by simp
  ultimately have "code x div 16 = code y div 16" "code x mod 16 = code y mod 16" "a = b'"
    using inj [OF _ lt] inj [of "code x mod 16" "code y mod 16"] Cons.IH by simp_all
  then show ?case using b by (metis char_of_code div_mult_mod_eq)
qed

text \<open>
  A receiver that runs \<^verbatim>\<open>Verify\<close> accepts every header the server sends: for any
  body, secret and 64-bit timestamp, the \<^verbatim>\<open>PRM-Signature\<close> header of the signature verifies.
  The MAC function is only assumed to return at least one byte.
\<close>

theorem Verify_accepts_Sign:
  assumes "hmac secret (sign_input ts body) \<noteq> []" and "- (2 ^ 63) \<le> ts" and "ts < 2 ^ 63"
  shows "Verify hmac (Header (Sign hmac body secret ts)) body secret"
proof -
  let ?s = "Sign hmac body secret ts"
  have "parseSignatureHeader (Header ?s) = Some (sg_T ?s, sg_V ?s)"
    using assms hex_chars by (intro parse_Header) (simp_all add: Sign_def hex_nonempty)
  then show ?thesis by (simp add: Verify_def) (simp add: Sign_def)
qed

theorem Verify_accepts_Sign_witness:
  "Verify (\<lambda>k m. k @ m) (Header (Sign (\<lambda>k m. k @ m) ''{}'' ''key'' 1700000000)) ''{}'' ''key''"
  by (rule Verify_accepts_Sign) simp_all

text \<open>
  What an accepted header proves: the header carries a 64-bit timestamp \<open>t\<close> and the
  hex MAC of \<open>t.body\<close> under the secret; and a header that verifies for two bodies makes the MAC
  collide on two different inputs, because timestamp and body can be read back from the signed text.
\<close>

theorem Verify_sound:
  assumes "Verify hmac h body secret"
  shows "\<exists>t v. parseSignatureHeader h = Some (t, v) \<and> - (2 ^ 63) \<le> t \<and> t < 2 ^ 63
     \<and> v = hex_EncodeToString (hmac secret (sign_input t body))
     \<and> (\<forall>body'. body' \<noteq> body \<longrightarrow> Verify hmac h body' secret \<longrightarrow>
          sign_input t body' \<noteq> sign_input t body \<and> hmac secret (sign_input t body') = hmac secret (sign_input t body))"
proof -
  obtain t v where p: "parseSignatureHeader h = Some (t, v)" and v: "v = hex_EncodeToString (hmac secret (sign_input t body))"
    using assms by (auto simp: Verify_def Sign_def split: option.splits)
  then have t: "- (2 ^ 63) \<le> t \<and> t < 2 ^ 63"
    by (auto simp: parseSignatureHeader_def ParseInt64_def Let_def split: prod.splits if_splits)
  have "sign_input t body' \<noteq> sign_input t body \<and> hmac secret (sign_input t body') = hmac secret (sign_input t body)"
    if "body' \<noteq> body" "Verify hmac h body' secret" for body'
    using that p v by (auto simp: Verify_def Sign_def sign_input_def intro: hex_inj)
  with p v t show ?thesis by blast
qed

theorem Verify_sound_witness:
  "\<exists>t v. parseSignatureHeader ''t=5,v1=6b352e61'' = Some (t, v) \<and> v = hex_EncodeToString (''k'' @ sign_input t ''a'')"
proof -
  have "Verify (\<lambda>k m. k @ m) ''t=5,v1=6b352e61'' ''a'' ''k''" by code_simp
  from Verify_sound [OF this] show ?thesis by blast
qed

text \<open>
  Property C22. A header is worth exactly the signed text it was made for. Take the header the server sends for a body, a
  64-bit timestamp and a secret. A receiver that runs \<^verbatim>\<open>Verify\<close> on it with any body and any secret accepts exactly when the
  MAC of the same timestamp, a dot and that body under that secret is the MAC that was sent; so with the body and secret of the
  sender it accepts. Two signed texts are the same only for the same timestamp and the same body, so a receiver whose
  secret is the sender's accepts another body, or a timestamp altered in the header, only where the MAC takes the same
  value on two different texts. The MAC function is only assumed to return at least one byte.
\<close>

theorem signature_binds:
  assumes "hmac secret (sign_input ts body) \<noteq> []" and "- (2 ^ 63) \<le> ts" and "ts < 2 ^ 63"
    and "- (2 ^ 63) \<le> ts'" and "ts' < 2 ^ 63"
  shows "Verify hmac (Header (Sign hmac body secret ts)) body secret
    \<and> (Verify hmac (Header (Sign hmac body secret ts)) body' secret' \<longleftrightarrow>
         hmac secret' (sign_input ts body') = hmac secret (sign_input ts body))
    \<and> (Verify hmac (Header ((Sign hmac body secret ts)\<lparr>sg_T := ts'\<rparr>)) body' secret' \<longleftrightarrow>
         hmac secret' (sign_input ts' body') = hmac secret (sign_input ts body))
    \<and> (sign_input ts' body' = sign_input ts body \<longleftrightarrow> ts' = ts \<and> body' = body)"
proof -
  have parse: "parseSignatureHeader (Header ((Sign hmac body secret ts)\<lparr>sg_T := t\<rparr>))
      = Some (t, hex_EncodeToString (hmac secret (sign_input ts body)))"
    if "- (2 ^ 63) \<le> t" "t < 2 ^ 63" for t
    using parse_Header [of "(Sign hmac body secret ts)\<lparr>sg_T := t\<rparr>"] that assms(1) hex_chars
    by (simp add: Sign_def hex_nonempty)
  have verify: "Verify hmac (Header ((Sign hmac body secret ts)\<lparr>sg_T := t\<rparr>)) b k \<longleftrightarrow>
      hmac k (sign_input t b) = hmac secret (sign_input ts body)" if "- (2 ^ 63) \<le> t" "t < 2 ^ 63" for t b k
    using hex_inj by (auto simp: Verify_def parse [OF that]) (auto simp: Sign_def)
  have same: "(Sign hmac body secret ts)\<lparr>sg_T := ts\<rparr> = Sign hmac body secret ts" by (simp add: Sign_def)
  have "sign_input ts' body' = sign_input ts body \<longleftrightarrow> ts' = ts \<and> body' = body"
    using sign_input_inj [of ts' body' ts body] assms(2-5) by auto
  with verify [OF assms(2,3)] verify [OF assms(4,5)] show ?thesis unfolding same by simp
qed

theorem signature_binds_witness:
  "Verify (\<lambda>k m. k @ m) (Header (Sign (\<lambda>k m. k @ m) ''{}'' ''key'' 5)) ''{}'' ''key''
   \<and> \<not> Verify (\<lambda>k m. k @ m) (Header (Sign (\<lambda>k m. k @ m) ''{}'' ''key'' 5)) ''[]'' ''key''
   \<and> \<not> Verify (\<lambda>k m. k @ m) (Header ((Sign (\<lambda>k m. k @ m) ''{}'' ''key'' 5)\<lparr>sg_T := 6\<rparr>)) ''{}'' ''key''"
proof -
  let ?h = "\<lambda>k m. k @ m :: bytes"
  have r: "?h ''key'' (sign_input 5 ''{}'') \<noteq> []" "- (2 ^ 63) \<le> (5::int)" "(5::int) < 2 ^ 63" "- (2 ^ 63) \<le> (6::int)" "(6::int) < 2 ^ 63"
    by simp_all
  note b = signature_binds [where hmac = ?h, OF r, of "''[]''" "''key''"]
    and t = signature_binds [where hmac = ?h, OF r, of "''{}''" "''key''"]
  have d: "sign_input 5 ''[]'' \<noteq> sign_input 5 ''{}''" "sign_input 6 ''{}'' \<noteq> sign_input 5 ''{}''" by code_simp+
  show ?thesis using b t d by (simp only: same_append_eq) blast
qed

end
