(* ===== verification/Transport.thy ===== *)
theory Transport
  imports Payload
begin

text \<open>
  Delivery transports (\<^verbatim>\<open>internal/webhook/transport.go\<close>, \<^verbatim>\<open>transport_http.go\<close>,
  \<^verbatim>\<open>transport_amqp.go\<close>, \<^verbatim>\<open>transport_mqtt.go\<close>): URL validation, the registry by scheme,
  one \<^verbatim>\<open>Send\<close> per transport with the very message it hands to the network, and closing. \<open>url_Parse\<close> is the
  URL parser and \<open>b64\<close> the base64 encoder; what a broker or a web server answers is the argument \<open>env\<close> of
  \<^verbatim>\<open>Send\<close>, a function of what it is given. The connection pools are the keys they hold.
\<close>

record URL =
  u_Scheme :: string
  u_User :: "string option"
  u_Password :: "string option"
  u_Host :: string
  u_Path :: string
  u_Query :: "(string \<times> string) list"

definition query_Get :: "URL \<Rightarrow> string \<Rightarrow> string" where
  "query_Get u k = (case map_of (u_Query u) k of None \<Rightarrow> '''' | Some v \<Rightarrow> v)"

definition user_name :: "URL \<Rightarrow> string" where
  "user_name u = (case u_User u of None \<Rightarrow> '''' | Some n \<Rightarrow> n)"

text \<open>\<^verbatim>\<open>Hostname\<close>: the host without a port of digits and without the brackets of an IPv6 address.\<close>

definition url_Hostname :: "string \<Rightarrow> string" where
  "url_Hostname h =
     (let port = rev (takeWhile (\<lambda>c. c \<noteq> CHR '':'') (rev h));
          host = (if CHR '':'' \<in> set h \<and> list_all is_digit port then take (length h - length port - 1) h else h)
      in if host \<noteq> [] \<and> hd host = CHR ''['' \<and> last host = CHR '']'' then butlast (tl host) else host)"

definition transportDialTimeout :: int where "transportDialTimeout = 10 * Second"

datatype DeliveryKind = DeliveryOK | DeliveryTransient | DeliveryPermanent

record DeliveryResult =
  dr_Kind :: DeliveryKind
  dr_StatusDetail :: string
  dr_Err :: "string option"

record Target =
  tg_URL :: string
  tg_SubscriptionID :: string

section \<open>URLs\<close>

definition schemeOf :: "(string \<Rightarrow> URL option) \<Rightarrow> string \<Rightarrow> string" where
  "schemeOf url_Parse rawURL = (case url_Parse rawURL of None \<Rightarrow> '''' | Some u \<Rightarrow> ToLower (u_Scheme u))"

datatype url_error = UrlRequired | UrlMalformed | HttpNoHost | AmqpNoHost | AmqpNoRoutingKey
  | MqttNoHost | MqttNoTopic | MqttBadQos | UnsupportedScheme

definition ValidateURL :: "(string \<Rightarrow> URL option) \<Rightarrow> string \<Rightarrow> url_error option" where
  "ValidateURL url_Parse rawURL =
     (if rawURL = '''' then Some UrlRequired
      else case url_Parse rawURL of
        None \<Rightarrow> Some UrlMalformed
      | Some u \<Rightarrow>
          let scheme = ToLower (u_Scheme u)
          in if scheme = ''https'' \<or> scheme = ''http'' then (if u_Host u = '''' then Some HttpNoHost else None)
             else if scheme = ''amqp'' \<or> scheme = ''amqps'' then
               (if u_Host u = '''' then Some AmqpNoHost
                else if query_Get u ''routing_key'' = '''' then Some AmqpNoRoutingKey
                else None)
             else if scheme = ''mqtt'' \<or> scheme = ''mqtts'' then
               (if u_Host u = '''' then Some MqttNoHost
                else if TrimPrefix (u_Path u) ''/'' = '''' then Some MqttNoTopic
                else if query_Get u ''qos'' \<noteq> '''' \<and> query_Get u ''qos'' \<notin> {''0'', ''1'', ''2''} then Some MqttBadQos
                else None)
             else Some UnsupportedScheme)"

section \<open>HTTP\<close>

record http_request =
  hr_Method :: string
  hr_URL :: string
  hr_Header :: "(string \<times> string) list"
  hr_Body :: bytes

definition http_message :: "Target \<Rightarrow> bytes \<Rightarrow> Signature \<Rightarrow> http_request" where
  "http_message t body sig = \<lparr>hr_Method = ''POST'', hr_URL = tg_URL t,
     hr_Header = [(''Content-Type'', ''application/json''), (''Prm-Signature'', Header sig), (''User-Agent'', ''prmd-webhook/0.1'')],
     hr_Body = body\<rparr>"

text \<open>What becomes of a request: the exchange fails, or a status comes back.\<close>

datatype http_answer = NetworkError string | Response int

type_synonym http_env = "http_request \<Rightarrow> http_answer"

definition http_Schemes :: "string list" where
  "http_Schemes = [''https'', ''http'']"

text \<open>\<^verbatim>\<open>http.NewRequestWithContext\<close> with a constant method fails exactly when the URL does not parse.\<close>

definition http_Send :: "(string \<Rightarrow> URL option) \<Rightarrow> http_env \<Rightarrow> Target \<Rightarrow> bytes \<Rightarrow> Signature \<Rightarrow> DeliveryResult" where
  "http_Send url_Parse env t body sig = (case url_Parse (tg_URL t) of
       None \<Rightarrow> \<lparr>dr_Kind = DeliveryPermanent, dr_StatusDetail = ''build request'', dr_Err = Some ''parse''\<rparr>
     | Some _ \<Rightarrow>
         (case env (http_message t body sig) of
            NetworkError e \<Rightarrow> \<lparr>dr_Kind = DeliveryTransient, dr_StatusDetail = ''network'', dr_Err = Some e\<rparr>
          | Response sc \<Rightarrow>
              if 200 \<le> sc \<and> sc < 300 then \<lparr>dr_Kind = DeliveryOK, dr_StatusDetail = ''HTTP '' @ FormatInt sc, dr_Err = None\<rparr>
              else if 400 \<le> sc \<and> sc < 500
              then \<lparr>dr_Kind = DeliveryPermanent, dr_StatusDetail = ''HTTP '' @ FormatInt sc, dr_Err = None\<rparr>
              else \<lparr>dr_Kind = DeliveryTransient, dr_StatusDetail = ''HTTP '' @ FormatInt sc, dr_Err = None\<rparr>))"

section \<open>AMQP\<close>

definition amqp_Schemes :: "string list" where
  "amqp_Schemes = [''amqp'', ''amqps'']"

definition amqpKey :: "URL \<Rightarrow> string" where
  "amqpKey u = ToLower (u_Scheme u) @ ''://'' @ user_name u @ ''@'' @ u_Host u @ u_Path u"

record Publishing =
  pb_ContentType :: string
  pb_DeliveryMode :: nat
  pb_Timestamp :: gotime
  pb_MessageId :: string
  pb_Headers :: "(string \<times> string) list"
  pb_Body :: bytes

record amqp_publish =
  ap_Exchange :: string
  ap_RoutingKey :: string
  ap_Mandatory :: bool
  ap_Publishing :: Publishing

text \<open>The delivery modes of AMQP are 1 (transient) and 2 (persistent).\<close>

definition amqp_message :: "URL \<Rightarrow> gotime \<Rightarrow> Target \<Rightarrow> bytes \<Rightarrow> Signature \<Rightarrow> amqp_publish" where
  "amqp_message u now t body sig = \<lparr>ap_Exchange = query_Get u ''exchange'', ap_RoutingKey = query_Get u ''routing_key'',
     ap_Mandatory = EqualFold (query_Get u ''mandatory'') ''true'',
     ap_Publishing = \<lparr>pb_ContentType = ''application/json'',
       pb_DeliveryMode = (if EqualFold (query_Get u ''persistent'') ''false'' then 1 else 2),
       pb_Timestamp = now, pb_MessageId = Header sig,
       pb_Headers = [(''prm-signature'', Header sig), (''prm-subscription-id'', tg_SubscriptionID t)], pb_Body = body\<rparr>\<rparr>"

record amqp_dial =
  di_URL :: URL
  di_Timeout :: int
  di_ServerName :: "string option"

definition amqp_config :: "URL \<Rightarrow> amqp_dial" where
  "amqp_config u = \<lparr>di_URL = u\<lparr>u_Query := []\<rparr>, di_Timeout = transportDialTimeout,
     di_ServerName = (if EqualFold (u_Scheme u) ''amqps'' then Some (url_Hostname (u_Host u)) else None)\<rparr>"

datatype dial_answer = DialError string | ChannelError string | ConfirmError string | Dialled
datatype confirmation = Confirmed bool | ConfirmClosed | ConfirmTimeout string

text \<open>One attempt's broker: is the pooled connection closed, what dialing and publishing come to, the confirm.\<close>

record amqp_env =
  ae_closed :: bool
  ae_dial :: "amqp_dial \<Rightarrow> dial_answer"
  ae_publish :: "amqp_publish \<Rightarrow> string option"
  ae_confirm :: "amqp_publish \<Rightarrow> confirmation"

definition amqp_getOrDial :: "amqp_env \<Rightarrow> URL \<Rightarrow> string list \<Rightarrow> string list \<times> string option" where
  "amqp_getOrDial env u conns =
     (let key = amqpKey u
      in if key \<in> set conns \<and> \<not> ae_closed env then (conns, None)
         else let conns' = removeAll key conns
              in case ae_dial env (amqp_config u) of
                   DialError e \<Rightarrow> (conns', Some (''amqp dial: '' @ e))
                 | ChannelError e \<Rightarrow> (conns', Some (''amqp channel: '' @ e))
                 | ConfirmError e \<Rightarrow> (conns', Some (''amqp confirm mode: '' @ e))
                 | Dialled \<Rightarrow> (conns' @ [key], None))"

definition dropConn :: "string \<Rightarrow> string list \<Rightarrow> string list" where
  "dropConn key conns = removeAll key conns"

definition amqp_Send :: "(string \<Rightarrow> URL option) \<Rightarrow> gotime \<Rightarrow> amqp_env \<Rightarrow> Target \<Rightarrow> bytes \<Rightarrow> Signature
    \<Rightarrow> string list \<Rightarrow> string list \<times> DeliveryResult" where
  "amqp_Send url_Parse now env t body sig conns =
     (case url_Parse (tg_URL t) of
        None \<Rightarrow> (conns, \<lparr>dr_Kind = DeliveryPermanent, dr_StatusDetail = ''url parse'', dr_Err = Some ''parse''\<rparr>)
      | Some u \<Rightarrow>
          if query_Get u ''routing_key'' = ''''
          then (conns, \<lparr>dr_Kind = DeliveryPermanent, dr_StatusDetail = ''missing routing_key'', dr_Err = None\<rparr>)
          else let (conns1, err) = amqp_getOrDial env u conns; msg = amqp_message u now t body sig
               in case err of
                    Some e \<Rightarrow> (conns1, \<lparr>dr_Kind = DeliveryTransient, dr_StatusDetail = ''amqp dial'', dr_Err = Some e\<rparr>)
                  | None \<Rightarrow>
                      (case ae_publish env msg of
                         Some e \<Rightarrow> (dropConn (amqpKey u) conns1,
                           \<lparr>dr_Kind = DeliveryTransient, dr_StatusDetail = ''amqp publish'', dr_Err = Some e\<rparr>)
                       | None \<Rightarrow>
                           (case ae_confirm env msg of
                              ConfirmClosed \<Rightarrow> (dropConn (amqpKey u) conns1,
                                \<lparr>dr_Kind = DeliveryTransient, dr_StatusDetail = ''amqp confirm channel closed'', dr_Err = None\<rparr>)
                            | Confirmed ack \<Rightarrow>
                                (conns1, if ack then \<lparr>dr_Kind = DeliveryOK, dr_StatusDetail = ''amqp ack'', dr_Err = None\<rparr>
                                         else \<lparr>dr_Kind = DeliveryTransient, dr_StatusDetail = ''amqp nack'', dr_Err = None\<rparr>)
                            | ConfirmTimeout e \<Rightarrow> (dropConn (amqpKey u) conns1,
                                \<lparr>dr_Kind = DeliveryTransient, dr_StatusDetail = ''amqp confirm timeout'', dr_Err = Some e\<rparr>))))"

text \<open>\<^verbatim>\<open>firstErr\<close> of the closing loops: the first error is kept.\<close>

definition first_err :: "string option \<Rightarrow> string option \<Rightarrow> string option" where
  "first_err err e = (case err of None \<Rightarrow> e | Some _ \<Rightarrow> err)"

text \<open>What closing a pooled connection comes to: its channel's error, whether it is closed already, its own error.\<close>

record close_env =
  ce_channel :: "string \<Rightarrow> string option"
  ce_closed :: "string \<Rightarrow> bool"
  ce_conn :: "string \<Rightarrow> string option"

definition amqp_Close :: "close_env \<Rightarrow> string list \<Rightarrow> string list \<times> string option" where
  "amqp_Close C conns = fold (\<lambda>k (cs, firstErr).
       (removeAll k cs, first_err (first_err firstErr (ce_channel C k)) (if ce_closed C k then None else ce_conn C k)))
     conns (conns, None)"

section \<open>MQTT\<close>

definition mqtt_Schemes :: "string list" where
  "mqtt_Schemes = [''mqtt'', ''mqtts'']"

definition mqttKey :: "URL \<Rightarrow> string" where
  "mqttKey u =
     (let base = ToLower (u_Scheme u) @ ''://'' @ user_name u @ ''@'' @ u_Host u;
          cid = query_Get u ''client_id''
      in if cid = '''' then base else base @ ''/'' @ cid)"

record mqtt_options =
  mo_Broker :: string
  mo_ServerName :: "string option"
  mo_Username :: "string option"
  mo_Password :: "string option"
  mo_ClientID :: string
  mo_AutoReconnect :: bool
  mo_ConnectTimeout :: int
  mo_CleanSession :: bool
  mo_OrderMatters :: bool

definition mqtt_config :: "URL \<Rightarrow> string \<Rightarrow> mqtt_options" where
  "mqtt_config u subscriptionID =
     (let tls = EqualFold (u_Scheme u) ''mqtts'';
          host = (if Contains (u_Host u) '':'' then u_Host u else u_Host u @ (if tls then '':8883'' else '':1883''));
          cid = query_Get u ''client_id''
      in \<lparr>mo_Broker = (if tls then ''ssl'' else ''tcp'') @ ''://'' @ host,
          mo_ServerName = (if tls then Some (url_Hostname (u_Host u)) else None),
          mo_Username = u_User u,
          mo_Password = (case u_User u of None \<Rightarrow> None | Some _ \<Rightarrow> u_Password u),
          mo_ClientID = (if cid = '''' then ''prmd-'' @ take 8 subscriptionID else cid),
          mo_AutoReconnect = True, mo_ConnectTimeout = transportDialTimeout, mo_CleanSession = True, mo_OrderMatters = False\<rparr>)"

record mqtt_publish =
  mp_Topic :: string
  mp_QoS :: int
  mp_Retain :: bool
  mp_Payload :: bytes

record mqttEnvelope =
  mv_Signature :: string
  mv_SubscriptionID :: string
  mv_PayloadB64 :: string

definition envelope_json :: "mqttEnvelope \<Rightarrow> json" where
  "envelope_json e = JObj [(''prm_signature'', JStr (mv_Signature e)), (''prm_subscription_id'', JStr (mv_SubscriptionID e)),
     (''payload_b64'', JStr (mv_PayloadB64 e))]"

definition mqtt_message :: "(bytes \<Rightarrow> string) \<Rightarrow> URL \<Rightarrow> int \<Rightarrow> Target \<Rightarrow> bytes \<Rightarrow> Signature \<Rightarrow> mqtt_publish" where
  "mqtt_message b64 u qos t body sig = \<lparr>mp_Topic = TrimPrefix (u_Path u) ''/'', mp_QoS = qos,
     mp_Retain = EqualFold (query_Get u ''retain'') ''true'',
     mp_Payload = print_json (envelope_json \<lparr>mv_Signature = Header sig, mv_SubscriptionID = tg_SubscriptionID t, mv_PayloadB64 = b64 body\<rparr>)\<rparr>"

datatype connect_answer = ConnectError string | ConnectTimeout | Connected
datatype publish_answer = PublishError string | PublishTimeout string | Published

record mqtt_env =
  me_connected :: bool
  me_connect :: "mqtt_options \<Rightarrow> connect_answer"
  me_publish :: "mqtt_publish \<Rightarrow> publish_answer"

definition getOrConnect :: "mqtt_env \<Rightarrow> URL \<Rightarrow> string \<Rightarrow> string list \<Rightarrow> string list \<times> string option" where
  "getOrConnect env u subscriptionID clients =
     (let key = mqttKey u
      in if key \<in> set clients \<and> me_connected env then (clients, None)
         else let clients' = removeAll key clients
              in case me_connect env (mqtt_config u subscriptionID) of
                   ConnectError e \<Rightarrow> (clients', Some (''mqtt connect: '' @ e))
                 | ConnectTimeout \<Rightarrow> (clients', Some ''mqtt connect timeout'')
                 | Connected \<Rightarrow> (clients' @ [key], None))"

definition dropClient :: "string \<Rightarrow> string list \<Rightarrow> string list" where
  "dropClient key clients = removeAll key clients"

definition mqtt_qos :: "URL \<Rightarrow> int option" where
  "mqtt_qos u = (let s = query_Get u ''qos''
     in if s = '''' then Some 1
        else case ParseInt64 s of None \<Rightarrow> None | Some n \<Rightarrow> if n < 0 \<or> n > 2 then None else Some n)"

definition mqtt_Send :: "(string \<Rightarrow> URL option) \<Rightarrow> (bytes \<Rightarrow> string) \<Rightarrow> mqtt_env \<Rightarrow> Target \<Rightarrow> bytes \<Rightarrow> Signature
    \<Rightarrow> string list \<Rightarrow> string list \<times> DeliveryResult" where
  "mqtt_Send url_Parse b64 env t body sig clients =
     (case url_Parse (tg_URL t) of
        None \<Rightarrow> (clients, \<lparr>dr_Kind = DeliveryPermanent, dr_StatusDetail = ''url parse'', dr_Err = Some ''parse''\<rparr>)
      | Some u \<Rightarrow>
          if TrimPrefix (u_Path u) ''/'' = ''''
          then (clients, \<lparr>dr_Kind = DeliveryPermanent, dr_StatusDetail = ''missing topic'', dr_Err = None\<rparr>)
          else case mqtt_qos u of
            None \<Rightarrow> (clients, \<lparr>dr_Kind = DeliveryPermanent, dr_StatusDetail = ''invalid qos'', dr_Err = None\<rparr>)
          | Some qos \<Rightarrow>
              let (clients1, err) = getOrConnect env u (tg_SubscriptionID t) clients
              in case err of
                   Some e \<Rightarrow> (clients1, \<lparr>dr_Kind = DeliveryTransient, dr_StatusDetail = ''mqtt connect'', dr_Err = Some e\<rparr>)
                 | None \<Rightarrow>
                     (case me_publish env (mqtt_message b64 u qos t body sig) of
                        PublishTimeout e \<Rightarrow> (dropClient (mqttKey u) clients1,
                          \<lparr>dr_Kind = DeliveryTransient, dr_StatusDetail = ''mqtt publish timeout'', dr_Err = Some e\<rparr>)
                      | PublishError e \<Rightarrow> (dropClient (mqttKey u) clients1,
                          \<lparr>dr_Kind = DeliveryTransient, dr_StatusDetail = ''mqtt publish'', dr_Err = Some e\<rparr>)
                      | Published \<Rightarrow> (clients1,
                          \<lparr>dr_Kind = DeliveryOK, dr_StatusDetail = ''mqtt qos '' @ FormatInt qos, dr_Err = None\<rparr>)))"

definition mqtt_Close :: "string list \<Rightarrow> string list \<times> string option" where
  "mqtt_Close clients = (fold (\<lambda>k. removeAll k) clients clients, None)"

section \<open>The registry\<close>

datatype transport_name = HTTPTransport | AMQPTransport | MQTTTransport

fun Schemes :: "transport_name \<Rightarrow> string list" where
  "Schemes HTTPTransport = http_Schemes"
| "Schemes AMQPTransport = amqp_Schemes"
| "Schemes MQTTTransport = mqtt_Schemes"

type_synonym transports = "(string \<times> transport_name) list"

definition register :: "transport_name \<Rightarrow> transports \<Rightarrow> transports" where
  "register t r = fold (\<lambda>s. AList.update (ToLower s) t) (Schemes t) r"

definition for_scheme :: "string \<Rightarrow> transports \<Rightarrow> transport_name option" where
  "for_scheme scheme r = map_of r (ToLower scheme)"

text \<open>The registry \<^verbatim>\<open>NewManager\<close> builds.\<close>

definition newRegistry :: transports where
  "newRegistry = register MQTTTransport (register AMQPTransport (register HTTPTransport []))"

section \<open>Closing\<close>

text \<open>\<^verbatim>\<open>all\<close>: every registered transport once, in the order of the map.\<close>

definition all_transports :: "transports \<Rightarrow> transport_name list" where
  "all_transports r = remdups (map snd r)"

record pools =
  po_amqp :: "string list"
  po_mqtt :: "string list"

definition http_Close :: "string option" where "http_Close = None"

fun Close :: "close_env \<Rightarrow> transport_name \<Rightarrow> pools \<Rightarrow> pools \<times> string option" where
  "Close C HTTPTransport p = (p, http_Close)"
| "Close C AMQPTransport p = (let (cs, e) = amqp_Close C (po_amqp p) in (p\<lparr>po_amqp := cs\<rparr>, e))"
| "Close C MQTTTransport p = (let (cs, e) = mqtt_Close (po_mqtt p) in (p\<lparr>po_mqtt := cs\<rparr>, e))"

definition closeAll :: "close_env \<Rightarrow> transports \<Rightarrow> pools \<Rightarrow> pools \<times> string option" where
  "closeAll C r p = fold (\<lambda>t (p, firstErr). let (p', e) = Close C t p in (p', first_err firstErr e)) (all_transports r) (p, None)"

section \<open>The transport contract\<close>

text \<open>
  What the worker relies on of a transport: its schemes name it in the registry, and for a URL that
  passed \<^verbatim>\<open>ValidateURL\<close> a permanent failure, which counts towards auto-disabling the
  subscription, comes from the peer (\<open>rejected\<close>), never from the transport's own URL handling.
\<close>

locale transport =
  fixes name :: transport_name
    and send :: "(string \<Rightarrow> URL option) \<Rightarrow> 'env \<Rightarrow> Target \<Rightarrow> bytes \<Rightarrow> Signature \<Rightarrow> 'st \<Rightarrow> 'st \<times> DeliveryResult"
    and rejected :: "'env \<Rightarrow> Target \<times> bytes \<times> Signature \<Rightarrow> bool"
  assumes registered: "s \<in> set (Schemes name) \<Longrightarrow> for_scheme s newRegistry = Some name"
    and permanent: "ValidateURL parse (tg_URL t) = None \<Longrightarrow> schemeOf parse (tg_URL t) \<in> set (Schemes name) \<Longrightarrow>
      dr_Kind (snd (send parse env t body sig st)) = DeliveryPermanent \<Longrightarrow> rejected env (t, body, sig)"
begin

lemma peer_decides:
  assumes "ValidateURL parse (tg_URL t) = None" and "schemeOf parse (tg_URL t) \<in> set (Schemes name)"
  shows "for_scheme (schemeOf parse (tg_URL t)) newRegistry = Some name
    \<and> (dr_Kind (snd (send parse env t body sig st)) = DeliveryPermanent \<longrightarrow> rejected env (t, body, sig))"
  using assms registered permanent by blast

end

lemma newRegistry_eq:
  "map_of newRegistry = [''https'' \<mapsto> HTTPTransport, ''http'' \<mapsto> HTTPTransport, ''amqp'' \<mapsto> AMQPTransport,
     ''amqps'' \<mapsto> AMQPTransport, ''mqtt'' \<mapsto> MQTTTransport, ''mqtts'' \<mapsto> MQTTTransport]"
  by (simp add: newRegistry_def register_def http_Schemes_def amqp_Schemes_def mqtt_Schemes_def update_conv'
      ToLower_def lower_char_def fun_eq_iff)

lemma for_newRegistry: "s \<in> set (Schemes n) \<Longrightarrow> for_scheme s newRegistry = Some n"
  by (cases n) (auto simp: for_scheme_def newRegistry_eq http_Schemes_def amqp_Schemes_def mqtt_Schemes_def
      ToLower_def lower_char_def)

definition http_rejected :: "http_env \<Rightarrow> Target \<times> bytes \<times> Signature \<Rightarrow> bool" where
  "http_rejected env m = (case env (case m of (t, body, sig) \<Rightarrow> http_message t body sig) of
       NetworkError e \<Rightarrow> False | Response c \<Rightarrow> 400 \<le> c \<and> c < 500)"

interpretation http: transport HTTPTransport "\<lambda>parse env t body sig st. (st, http_Send parse env t body sig)" http_rejected
  by unfold_locales (auto simp: for_newRegistry ValidateURL_def http_Send_def http_rejected_def
      split: http_answer.splits if_splits option.splits)

lemma ParseInt64_qos: "ParseInt64 ''0'' = Some 0" "ParseInt64 ''1'' = Some 1" "ParseInt64 ''2'' = Some 2"
  by code_simp+

interpretation amqp: transport AMQPTransport "\<lambda>parse env. amqp_Send parse (fst env) (snd env)" "\<lambda>env m. False"
proof unfold_locales
  fix parse t body sig and st :: "string list" and env :: "gotime \<times> amqp_env"
  assume v: "ValidateURL parse (tg_URL t) = None" and s: "schemeOf parse (tg_URL t) \<in> set (Schemes AMQPTransport)"
    and p: "dr_Kind (snd (amqp_Send parse (fst env) (snd env) t body sig st)) = DeliveryPermanent"
  from v s obtain u where "parse (tg_URL t) = Some u" "query_Get u ''routing_key'' \<noteq> ''''"
    by (auto simp: ValidateURL_def schemeOf_def amqp_Schemes_def Let_def split: if_splits option.splits)
  with p show False
    by (auto simp: amqp_Send_def Let_def split: option.splits prod.splits confirmation.splits if_splits)
qed (rule for_newRegistry)

interpretation mqtt: transport MQTTTransport "\<lambda>parse env. mqtt_Send parse (fst env) (snd env)" "\<lambda>env m. False"
proof unfold_locales
  fix parse t body sig and st :: "string list" and env :: "(bytes \<Rightarrow> string) \<times> mqtt_env"
  assume v: "ValidateURL parse (tg_URL t) = None" and s: "schemeOf parse (tg_URL t) \<in> set (Schemes MQTTTransport)"
    and p: "dr_Kind (snd (mqtt_Send parse (fst env) (snd env) t body sig st)) = DeliveryPermanent"
  from v s obtain u where u: "parse (tg_URL t) = Some u" "TrimPrefix (u_Path u) ''/'' \<noteq> ''''"
    "query_Get u ''qos'' \<in> {'''', ''0'', ''1'', ''2''}"
    by (auto simp: ValidateURL_def schemeOf_def mqtt_Schemes_def Let_def split: if_splits option.splits)
  then have "mqtt_qos u \<noteq> None" by (auto simp: mqtt_qos_def ParseInt64_qos Let_def)
  with p u show False
    by (auto simp: mqtt_Send_def split: option.splits prod.splits publish_answer.splits)
qed (rule for_newRegistry)

lemma ValidateURL_scheme:
  "ValidateURL parse raw = None \<Longrightarrow> \<exists>n. schemeOf parse raw \<in> set (Schemes n)"
  by (auto simp: ValidateURL_def schemeOf_def Let_def split: if_splits option.splits
      intro: exI [of _ HTTPTransport] exI [of _ AMQPTransport] exI [of _ MQTTTransport]
      simp: http_Schemes_def amqp_Schemes_def mqtt_Schemes_def)


definition sample_amqp_url :: URL where
  "sample_amqp_url = \<lparr>u_Scheme = ''AMQPS'', u_User = None, u_Password = None, u_Host = ''mq'', u_Path = ''/'',
     u_Query = [(''routing_key'', ''ops'')]\<rparr>"

definition sample_target :: Target where
  "sample_target = \<lparr>tg_URL = ''AMQPS://mq/?routing_key=ops'', tg_SubscriptionID = ''s''\<rparr>"

definition refusing_broker :: amqp_env where
  "refusing_broker = \<lparr>ae_closed = True, ae_dial = (\<lambda>_. Dialled), ae_publish = (\<lambda>_. None), ae_confirm = (\<lambda>_. Confirmed False)\<rparr>"


end
