(* ===== verification/Bounded_Queue.thy ===== *)
theory Bounded_Queue
  imports Prelude
begin

text \<open>
  The contract of a buffered Go channel written with a non-blocking send
  (\<^verbatim>\<open>select { case q <- x: default: drop++ }\<close>). Three components of the program have one: the
  outbound queue of a connection, the input of the history writer and the task queue of the webhook
  worker pool. The locale states what one send does; its lemmas say what a burst of sends does.
\<close>

locale bounded_queue =
  fixes items :: "'s \<Rightarrow> 'a list"
    and dropped :: "'s \<Rightarrow> nat"
    and accepting :: "'s \<Rightarrow> bool"
    and cap :: "'s \<Rightarrow> nat"
    and enq :: "'a \<Rightarrow> 's \<Rightarrow> 's"
  assumes enq_room: "accepting s \<Longrightarrow> length (items s) < cap s \<Longrightarrow>
      items (enq x s) = items s @ [x] \<and> dropped (enq x s) = dropped s"
    and enq_full: "accepting s \<Longrightarrow> cap s \<le> length (items s) \<Longrightarrow>
      items (enq x s) = items s \<and> dropped (enq x s) = Suc (dropped s)"
    and enq_closed: "\<not> accepting s \<Longrightarrow> enq x s = s"
    and enq_accepting: "accepting (enq x s) = accepting s"
    and enq_cap: "cap (enq x s) = cap s"
begin

lemma enq_bound: "length (items s) \<le> cap s \<Longrightarrow> length (items (enq x s)) \<le> cap s"
  using enq_room [of s x] enq_full [of s x] enq_closed [of s x]
  by (cases "accepting s"; cases "length (items s) < cap s") auto

lemma enqs_accepting: "accepting (fold enq xs s) = accepting s"
  by (induction xs arbitrary: s) (simp_all add: enq_accepting)

lemma enqs_cap: "cap (fold enq xs s) = cap s"
  by (induction xs arbitrary: s) (simp_all add: enq_cap)

lemma enqs_closed: "\<not> accepting s \<Longrightarrow> fold enq xs s = s"
  by (induction xs) (simp_all add: enq_closed)

lemma enqs_items:
  assumes "accepting s" and "length (items s) \<le> cap s"
  shows "items (fold enq xs s) = items s @ take (cap s - length (items s)) xs"
  using assms
proof (induction xs arbitrary: s)
  case Nil
  then show ?case by simp
next
  case (Cons x xs)
  have acc: "accepting (enq x s)" and cap: "cap (enq x s) = cap s"
    using Cons.prems by (simp_all add: enq_accepting enq_cap)
  show ?case
  proof (cases "length (items s) < cap s")
    case True
    then have it: "items (enq x s) = items s @ [x]"
      using Cons.prems enq_room by blast
    have "cap s - length (items s) = Suc (cap s - Suc (length (items s)))"
      using True by simp
    then show ?thesis
      using Cons.IH [OF acc] True it cap by simp
  next
    case False
    then have it: "items (enq x s) = items s" and full: "cap s = length (items s)"
      using Cons.prems enq_full by auto
    then show ?thesis
      using Cons.IH [OF acc] cap by simp
  qed
qed

lemma enqs_dropped:
  assumes "accepting s" and "length (items s) \<le> cap s"
  shows "dropped (fold enq xs s) = dropped s + (length xs - (cap s - length (items s)))"
  using assms
proof (induction xs arbitrary: s)
  case Nil
  then show ?case by simp
next
  case (Cons x xs)
  have acc: "accepting (enq x s)" and cap: "cap (enq x s) = cap s"
    using Cons.prems by (simp_all add: enq_accepting enq_cap)
  show ?case
  proof (cases "length (items s) < cap s")
    case True
    then have "items (enq x s) = items s @ [x]" and "dropped (enq x s) = dropped s"
      using Cons.prems enq_room by blast+
    then show ?thesis
      using Cons.IH [OF acc] True cap by simp
  next
    case False
    then have "items (enq x s) = items s" and "dropped (enq x s) = Suc (dropped s)"
      using Cons.prems enq_full by auto
    then show ?thesis
      using Cons.IH [OF acc] False Cons.prems cap by simp
  qed
qed

text \<open>No frame is lost unaccounted: what a burst offers is queued or counted as dropped.\<close>

lemma enqs_conservation:
  assumes "accepting s" and "length (items s) \<le> cap s"
  shows "length (items (fold enq xs s)) + dropped (fold enq xs s)
       = length (items s) + dropped s + length xs"
  using assms by (simp add: enqs_items enqs_dropped)

lemma enqs_bound:
  assumes "length (items s) \<le> cap s"
  shows "length (items (fold enq xs s)) \<le> cap s"
  using assms
proof (induction xs arbitrary: s)
  case (Cons x xs)
  then show ?case using Cons.IH [of "enq x s"] enq_bound [of s x] by (simp add: enq_cap)
qed simp

end

end
