(* ===== verification/Webhook_Manager.thy ===== *)
theory Webhook_Manager
  imports Matcher Payload Sqlite Store_Laws Bounded_Queue
begin

text \<open>
  The webhook manager (\<^verbatim>\<open>internal/webhook/manager.go\<close> and the queue of
  \<^verbatim>\<open>worker.go\<close>): the cache of compiled subscriptions, the channel index, the pauses, and the
  cooldown, budget and debounce gates in front of the task queue.

  Live subscriptions are Go pointers that timers and queued tasks keep after the cache has
  dropped them, so the model has a heap: \<open>mg_heap ! r\<close> is the subscription at reference \<open>r\<close>
  and the cache maps an id to a reference. A debounce timer is armed with its deadline; once
  expired or stopped the pointer is still set (\<open>Gone\<close>). When a timer expires its callback
  starts (\<open>mg_flushing\<close>) and takes the subscription's lock later. Every locked section is one
  step. The clock and fresh UUIDs are arguments.
\<close>

record Budget =
  bd_DailyMaxFires :: int
  bd_EstimatedCostPerFireUSD :: bytes

datatype timer = NoTimer | Armed gotime | Gone

record LiveSub =
  ws_ID :: uuid
  ws_TenantID :: uuid
  ws_AccountID :: uuid
  ws_ChannelID :: uuid
  ws_URL :: string
  ws_Secret :: bytes
  ws_Matcher :: Matcher
  ws_Events :: "string list"
  ws_CtxLines :: int
  ws_DebounceMs :: int
  ws_CooldownMs :: int
  ws_Budget :: Budget
  ws_debounceTimer :: timer
  ws_pendingMatches :: "Message list"
  ws_pendingContext :: "Message list option"
  ws_pendingChanName :: string
  ws_lastFire :: gotime
  ws_consec4xx :: nat

record Config =
  cf_Workers :: nat
  cf_QueueDepth :: nat
  cf_HTTPTimeout :: int
  cf_MaxRetries :: nat
  cf_AutoDisable4xx :: nat

definition applyDefaults :: "Config \<Rightarrow> Config" where
  "applyDefaults c = c
     \<lparr>cf_Workers := (if cf_Workers c = 0 then 16 else cf_Workers c),
      cf_QueueDepth := (if cf_QueueDepth c = 0 then 1024 else cf_QueueDepth c),
      cf_HTTPTimeout := (if cf_HTTPTimeout c = 0 then 5 * Second else cf_HTTPTimeout c),
      cf_MaxRetries := (if cf_MaxRetries c = 0 then 3 else cf_MaxRetries c),
      cf_AutoDisable4xx := (if cf_AutoDisable4xx c = 0 then 5 else cf_AutoDisable4xx c)\<rparr>"

record fireTask =
  ft_sub :: nat
  ft_channelName :: string
  ft_matches :: "Message list"
  ft_context :: "Message list option"

record Manager =
  mg_heap :: "LiveSub list"
  mg_subs :: "(uuid \<times> nat) list"
  mg_byChannel :: "(uuid \<times> uuid list) list"
  mg_pauses :: "(uuid \<times> uuid list) list"
  mg_flushing :: "nat list"
  mg_tasks :: "fireTask list"
  mg_dropped :: nat
  mg_stopped :: bool
  mg_cfg :: Config

definition NewManager :: "Config \<Rightarrow> Manager" where
  "NewManager cfg = \<lparr>mg_heap = [], mg_subs = [], mg_byChannel = [], mg_pauses = [], mg_flushing = [],
     mg_tasks = [], mg_dropped = 0, mg_stopped = False, mg_cfg = applyDefaults cfg\<rparr>"

section \<open>The task queue\<close>

definition enqueue :: "fireTask \<Rightarrow> Manager \<Rightarrow> Manager" where
  "enqueue task m =
     (if mg_stopped m then m
      else if length (mg_tasks m) < cf_QueueDepth (mg_cfg m) then m\<lparr>mg_tasks := mg_tasks m @ [task]\<rparr>
      else m\<lparr>mg_dropped := mg_dropped m + 1\<rparr>)"

definition pool_Stop :: "Manager \<Rightarrow> Manager" where
  "pool_Stop m = m\<lparr>mg_stopped := True\<rparr>"

interpretation pool: bounded_queue mg_tasks mg_dropped "\<lambda>m. \<not> mg_stopped m" "\<lambda>m. cf_QueueDepth (mg_cfg m)" enqueue
  by unfold_locales (auto simp: enqueue_def)

section \<open>Compiling a subscription\<close>

definition budget_of_json :: "json \<Rightarrow> Budget option" where
  "budget_of_json v =
     (if v = JNull then Some \<lparr>bd_DailyMaxFires = 0, bd_EstimatedCostPerFireUSD = ''0''\<rparr>
      else Option.bind (as_obj v) (\<lambda>ms.
        Option.bind (get_field as_int 0 ''daily_max_fires'' ms) (\<lambda>n.
        Option.bind (get_field as_num ''0'' ''estimated_cost_per_fire_usd'' ms) (\<lambda>c.
          Some \<lparr>bd_DailyMaxFires = n, bd_EstimatedCostPerFireUSD = c\<rparr>))))"

datatype compile_error = BadRules | BadBudget | EmptySecret

definition compileSubscription :: "(string \<Rightarrow> uuid option) \<Rightarrow> (string \<Rightarrow> (string \<Rightarrow> bool) option)
    \<Rightarrow> Subscription \<Rightarrow> compile_error + LiveSub" where
  "compileSubscription uuid_Parse regexp sub =
     (case Compile uuid_Parse regexp (sub_MatchJSON sub) of
        Inl _ \<Rightarrow> Inl BadRules
      | Inr mat \<Rightarrow>
          (case (if sub_BudgetJSON sub = [] then Some \<lparr>bd_DailyMaxFires = 0, bd_EstimatedCostPerFireUSD = ''0''\<rparr>
                 else Option.bind (parse_json (sub_BudgetJSON sub)) budget_of_json) of
             None \<Rightarrow> Inl BadBudget
           | Some budget \<Rightarrow>
               if sub_Secret sub = [] then Inl EmptySecret
               else Inr \<lparr>ws_ID = sub_ID sub, ws_TenantID = sub_TenantID sub, ws_AccountID = sub_AccountID sub,
                         ws_ChannelID = sub_ChannelID sub, ws_URL = sub_URL sub, ws_Secret = sub_Secret sub,
                         ws_Matcher = mat, ws_Events = sub_Events sub, ws_CtxLines = sub_ContextLines sub,
                         ws_DebounceMs = sub_DebounceMs sub, ws_CooldownMs = sub_CooldownMs sub, ws_Budget = budget,
                         ws_debounceTimer = NoTimer, ws_pendingMatches = [], ws_pendingContext = None,
                         ws_pendingChanName = '''', ws_lastFire = 0, ws_consec4xx = 0\<rparr>))"

section \<open>Sets kept in a map\<close>

text \<open>The code keeps maps from a key to a set and deletes a set that becomes empty.\<close>

definition set_of :: "(uuid \<times> uuid list) list \<Rightarrow> uuid \<Rightarrow> uuid list" where
  "set_of al k = (case map_of al k of None \<Rightarrow> [] | Some xs \<Rightarrow> xs)"

definition put_in :: "uuid \<Rightarrow> uuid \<Rightarrow> (uuid \<times> uuid list) list \<Rightarrow> (uuid \<times> uuid list) list" where
  "put_in k x al = AList.update k (if x \<in> set (set_of al k) then set_of al k else set_of al k @ [x]) al"

definition take_out :: "uuid \<Rightarrow> uuid \<Rightarrow> (uuid \<times> uuid list) list \<Rightarrow> (uuid \<times> uuid list) list" where
  "take_out k x al =
     (case map_of al k of
        None \<Rightarrow> al
      | Some xs \<Rightarrow> if removeAll x xs = [] then AList.delete k al else AList.update k (removeAll x xs) al)"

section \<open>Pauses\<close>

definition setPausedLocked :: "uuid \<Rightarrow> uuid \<Rightarrow> bool \<Rightarrow> Manager \<Rightarrow> Manager" where
  "setPausedLocked channelID botAccountID paused m =
     (if paused then m\<lparr>mg_pauses := put_in channelID botAccountID (mg_pauses m)\<rparr>
      else m\<lparr>mg_pauses := take_out channelID botAccountID (mg_pauses m)\<rparr>)"

definition SetBotPaused :: "uuid \<Rightarrow> uuid \<Rightarrow> bool \<Rightarrow> Manager \<Rightarrow> Manager" where
  "SetBotPaused channelID botAccountID paused m = setPausedLocked channelID botAccountID paused m"

definition IsBotPaused :: "uuid \<Rightarrow> uuid \<Rightarrow> Manager \<Rightarrow> bool" where
  "IsBotPaused channelID botAccountID m =
     (case map_of (mg_pauses m) channelID of None \<Rightarrow> False | Some s \<Rightarrow> botAccountID \<in> set s)"

section \<open>The cache\<close>

definition indexByChannel :: "LiveSub \<Rightarrow> Manager \<Rightarrow> Manager" where
  "indexByChannel s m = m\<lparr>mg_byChannel := put_in (ws_ChannelID s) (ws_ID s) (mg_byChannel m)\<rparr>"

text \<open>\<^verbatim>\<open>Timer.Stop\<close> on the timer of the subscription at \<open>r\<close>, when it has one.\<close>

definition stop_timer :: "nat \<Rightarrow> Manager \<Rightarrow> Manager" where
  "stop_timer r m =
     (let s = mg_heap m ! r
      in if ws_debounceTimer s = NoTimer then m
         else m\<lparr>mg_heap := (mg_heap m)[r := s\<lparr>ws_debounceTimer := Gone\<rparr>]\<rparr>)"

definition install :: "LiveSub \<Rightarrow> Manager \<Rightarrow> Manager" where
  "install live m = indexByChannel live
     (m\<lparr>mg_heap := mg_heap m @ [live], mg_subs := AList.update (ws_ID live) (length (mg_heap m)) (mg_subs m)\<rparr>)"

definition AddOrUpdate :: "(string \<Rightarrow> uuid option) \<Rightarrow> (string \<Rightarrow> (string \<Rightarrow> bool) option)
    \<Rightarrow> Subscription \<Rightarrow> Manager \<Rightarrow> compile_error + Manager" where
  "AddOrUpdate uuid_Parse regexp sub m =
     (case compileSubscription uuid_Parse regexp sub of
        Inl e \<Rightarrow> Inl e
      | Inr live \<Rightarrow>
          let m1 = (case map_of (mg_subs m) (sub_ID sub) of
                      None \<Rightarrow> m
                    | Some r \<Rightarrow>
                        let old = mg_heap m ! r; m' = stop_timer r m
                        in if ws_ChannelID old \<noteq> ws_ChannelID live
                           then m'\<lparr>mg_byChannel := take_out (ws_ChannelID old) (ws_ID old) (mg_byChannel m')\<rparr>
                           else m')
          in Inr (install live m1))"

definition Remove_sub :: "uuid \<Rightarrow> Manager \<Rightarrow> Manager" where
  "Remove_sub i m =
     (case map_of (mg_subs m) i of
        None \<Rightarrow> m
      | Some r \<Rightarrow>
          let s = mg_heap m ! r; m1 = stop_timer r m
          in m1\<lparr>mg_subs := AList.delete i (mg_subs m1),
                mg_byChannel := take_out (ws_ChannelID s) i (mg_byChannel m1)\<rparr>)"

subsection \<open>Reload\<close>

fun reload_subs :: "(string \<Rightarrow> uuid option) \<Rightarrow> (string \<Rightarrow> (string \<Rightarrow> bool) option)
    \<Rightarrow> Subscription list \<Rightarrow> Manager \<Rightarrow> Manager" where
  "reload_subs uuid_Parse regexp [] m = m"
| "reload_subs uuid_Parse regexp (sub # subs) m =
     (case compileSubscription uuid_Parse regexp sub of
        Inl _ \<Rightarrow> reload_subs uuid_Parse regexp subs m
      | Inr live \<Rightarrow> reload_subs uuid_Parse regexp subs (install live m))"

fun reload_channels :: "(string \<Rightarrow> uuid option) \<Rightarrow> (string \<Rightarrow> (string \<Rightarrow> bool) option) \<Rightarrow> store
    \<Rightarrow> uuid \<Rightarrow> ChannelRow list \<Rightarrow> Manager \<Rightarrow> Manager \<times> store_error option" where
  "reload_channels uuid_Parse regexp st t [] m = (m, None)"
| "reload_channels uuid_Parse regexp st t (ch # chs) m =
     (case ListSubscriptionsByChannel t (chn_ID ch) st of
        Inl e \<Rightarrow> (m, Some e)
      | Inr subs \<Rightarrow> reload_channels uuid_Parse regexp st t chs (reload_subs uuid_Parse regexp subs m))"

fun reload_tenants :: "(string \<Rightarrow> uuid option) \<Rightarrow> (string \<Rightarrow> (string \<Rightarrow> bool) option) \<Rightarrow> store
    \<Rightarrow> Tenant list \<Rightarrow> Manager \<Rightarrow> Manager \<times> store_error option" where
  "reload_tenants uuid_Parse regexp st [] m = (m, None)"
| "reload_tenants uuid_Parse regexp st (t # ts) m =
     (case ListChannels (ten_ID t) st of
        Inl e \<Rightarrow> (m, Some e)
      | Inr chs \<Rightarrow>
          (case reload_channels uuid_Parse regexp st (ten_ID t) chs m of
             (m1, Some e) \<Rightarrow> (m1, Some e)
           | (m1, None) \<Rightarrow>
               (case ListChannelBotPauses (ten_ID t) st of
                  Inl e \<Rightarrow> (m1, Some e)
                | Inr ps \<Rightarrow> reload_tenants uuid_Parse regexp st ts
                    (fold (\<lambda>p. setPausedLocked (pau_ChannelID p) (pau_BotAccountID p) True) ps m1))))"

definition Reload :: "(string \<Rightarrow> uuid option) \<Rightarrow> (string \<Rightarrow> (string \<Rightarrow> bool) option) \<Rightarrow> store
    \<Rightarrow> Tenant list \<Rightarrow> Manager \<Rightarrow> Manager \<times> store_error option" where
  "Reload uuid_Parse regexp st tenants m =
     reload_tenants uuid_Parse regexp st tenants (m\<lparr>mg_subs := [], mg_byChannel := [], mg_pauses := []\<rparr>)"

section \<open>Matching and firing\<close>

record Event =
  ev_TenantID :: uuid
  ev_ChannelID :: uuid
  ev_ChannelName :: string
  ev_From :: uuid
  ev_DisplayName :: string
  ev_Body :: string
  ev_TS :: gotime
  ev_Mentions :: "uuid list"
  ev_Context :: "HistoryEntry list"

definition drainPendingLocked :: "gotime \<Rightarrow> nat \<Rightarrow> LiveSub \<Rightarrow> LiveSub \<times> fireTask option" where
  "drainPendingLocked now r s =
     (if ws_pendingMatches s = [] then (s, None)
      else (s\<lparr>ws_pendingMatches := [], ws_pendingContext := None, ws_pendingChanName := '''', ws_lastFire := now\<rparr>,
            Some \<lparr>ft_sub = r, ft_channelName = ws_pendingChanName s, ft_matches = ws_pendingMatches s,
                  ft_context = ws_pendingContext s\<rparr>))"

definition enqueue_opt :: "fireTask option \<Rightarrow> Manager \<Rightarrow> Manager" where
  "enqueue_opt t m = (case t of None \<Rightarrow> m | Some task \<Rightarrow> enqueue task m)"

definition flushDebounced :: "gotime \<Rightarrow> nat \<Rightarrow> Manager \<Rightarrow> Manager" where
  "flushDebounced now r m =
     (let (s, task) = drainPendingLocked now r ((mg_heap m ! r)\<lparr>ws_debounceTimer := NoTimer\<rparr>)
      in enqueue_opt task (m\<lparr>mg_heap := (mg_heap m)[r := s]\<rparr>))"

text \<open>\<^verbatim>\<open>time.Duration(ms) * time.Millisecond\<close>, a 64-bit product.\<close>

definition ms_Duration :: "int \<Rightarrow> int" where
  "ms_Duration ms = int64 (ms * Millisecond)"

definition in_cooldown :: "gotime \<Rightarrow> LiveSub \<Rightarrow> bool" where
  "in_cooldown now s \<longleftrightarrow> ws_CooldownMs s > 0 \<and> \<not> IsZero (ws_lastFire s)
     \<and> now - ws_lastFire s < ms_Duration (ws_CooldownMs s)"

definition day_start :: "gotime \<Rightarrow> gotime" where
  "day_start now = now - now mod (86400 * Second)"

definition over_budget :: "gotime \<Rightarrow> LiveSub \<Rightarrow> store \<Rightarrow> bool" where
  "over_budget now s st \<longleftrightarrow> bd_DailyMaxFires (ws_Budget s) > 0 \<and>
     (case CountSubscriptionFiresSince (ws_TenantID s) (ws_ID s) (day_start now) st of
        Inl _ \<Rightarrow> False
      | Inr n \<Rightarrow> int n \<ge> bd_DailyMaxFires (ws_Budget s))"

definition fire_row :: "LiveSub \<Rightarrow> string \<Rightarrow> int \<Rightarrow> string \<Rightarrow> SubscriptionFire" where
  "fire_row s status attempts err = \<lparr>fire_ID = uuid_Nil, fire_TenantID = ws_TenantID s,
     fire_SubscriptionID = ws_ID s, fire_FiredAt = 0, fire_Status = status, fire_Attempts = attempts,
     fire_LastError = err\<rparr>"

text \<open>A fire row that cannot be written is logged and forgotten.\<close>

definition record_row :: "gotime \<Rightarrow> uuid option \<Rightarrow> SubscriptionFire \<Rightarrow> store \<Rightarrow> store" where
  "record_row now newV7 f st = (case RecordSubscriptionFire now newV7 f st of Inl _ \<Rightarrow> st | Inr st' \<Rightarrow> st')"

definition accumulate :: "(uuid \<Rightarrow> string) \<Rightarrow> Event \<Rightarrow> LiveSub \<Rightarrow> LiveSub" where
  "accumulate uuid_String ev s =
     (let msg = \<lparr>wm_From = uuid_String (ev_From ev), wm_DisplayName = ev_DisplayName ev, wm_TS = ev_TS ev,
                 wm_Body = ev_Body ev\<rparr>;
          s1 = s\<lparr>ws_pendingMatches := ws_pendingMatches s @ [msg], ws_pendingChanName := ev_ChannelName ev\<rparr>
      in if ws_pendingContext s = None \<and> ws_CtxLines s > 0 \<and> ev_Context ev \<noteq> []
         then s1\<lparr>ws_pendingContext := Some (map (MessageFromHistory uuid_String)
                (lastn (nat (min (ws_CtxLines s) (int (length (ev_Context ev))))) (ev_Context ev)))\<rparr>
         else s1)"

definition handleMatch :: "(uuid \<Rightarrow> string) \<Rightarrow> gotime \<Rightarrow> uuid option \<Rightarrow> Event \<Rightarrow> nat
    \<Rightarrow> Manager \<times> store \<Rightarrow> Manager \<times> store" where
  "handleMatch uuid_String now newV7 ev r ms =
     (let (m, st) = ms; s = mg_heap m ! r
      in if in_cooldown now s then (m, st)
         else if over_budget now s st
         then (m, record_row now newV7 (fire_row s ''budget_exhausted'' 0 '''') st)
         else
           let s1 = accumulate uuid_String ev s;
               delay = ms_Duration (ws_DebounceMs s)
           in if ws_debounceTimer s \<noteq> NoTimer then (m\<lparr>mg_heap := (mg_heap m)[r := s1]\<rparr>, st)
              else if delay > 0
              then (m\<lparr>mg_heap := (mg_heap m)[r := s1\<lparr>ws_debounceTimer := Armed (now + delay)\<rparr>]\<rparr>, st)
              else let (s2, task) = drainPendingLocked now r s1
                   in (enqueue_opt task (m\<lparr>mg_heap := (mg_heap m)[r := s2]\<rparr>), st))"

definition recordPausedFire :: "gotime \<Rightarrow> uuid option \<Rightarrow> LiveSub \<Rightarrow> store \<Rightarrow> store" where
  "recordPausedFire now newV7 s st = record_row now newV7 (fire_row s ''paused'' 0 '''') st"

text \<open>One subscription of the snapshot; \<open>newV7\<close> gives the fresh UUID for that subscription's fire row.\<close>

definition notify_one :: "(uuid \<Rightarrow> string) \<Rightarrow> gotime \<Rightarrow> (uuid \<Rightarrow> uuid option) \<Rightarrow> Event \<Rightarrow> uuid list \<Rightarrow> nat
    \<Rightarrow> Manager \<times> store \<Rightarrow> Manager \<times> store" where
  "notify_one uuid_String now newV7 ev paused r ms =
     (let (m, st) = ms; s = mg_heap m ! r
      in if \<not> Match (ws_Matcher s) \<lparr>me_Body = ev_Body ev, me_FromAccountID = ev_From ev, me_Mentions = ev_Mentions ev\<rparr>
         then (m, st)
         else if ws_AccountID s \<in> set paused then (m, recordPausedFire now (newV7 (ws_ID s)) s st)
         else handleMatch uuid_String now (newV7 (ws_ID s)) ev r (m, st))"

definition snapshot :: "uuid \<Rightarrow> Manager \<Rightarrow> nat list" where
  "snapshot channelID m = List.map_filter (map_of (mg_subs m)) (set_of (mg_byChannel m) channelID)"

definition Notify :: "(uuid \<Rightarrow> string) \<Rightarrow> gotime \<Rightarrow> (uuid \<Rightarrow> uuid option) \<Rightarrow> Event
    \<Rightarrow> Manager \<times> store \<Rightarrow> Manager \<times> store" where
  "Notify uuid_String now newV7 ev ms =
     fold (notify_one uuid_String now newV7 ev (set_of (mg_pauses (fst ms)) (ev_ChannelID ev)))
       (snapshot (ev_ChannelID ev) (fst ms)) ms"

section \<open>Sets kept in a map: laws\<close>

definition sets_ok :: "(uuid \<times> uuid list) list \<Rightarrow> bool" where
  "sets_ok al \<longleftrightarrow> distinct (map fst al) \<and> (\<forall>p \<in> set al. snd p \<noteq> [] \<and> distinct (snd p))"

lemma set_of_put_in [simp]: "set_of (put_in k x al) k' =
    (if k' = k then (if x \<in> set (set_of al k) then set_of al k else set_of al k @ [x]) else set_of al k')"
  by (simp add: set_of_def put_in_def update_conv')

lemma set_of_take_out:
  "set_of (take_out k x al) k' = (if k' = k then removeAll x (set_of al k) else set_of al k')"
  by (auto simp: set_of_def take_out_def update_conv' delete_conv' split: option.split)

lemma sets_ok_update:
  assumes "sets_ok al" and "xs \<noteq> []" and "distinct xs"
  shows "sets_ok (AList.update k xs al)"
proof -
  have *: "p \<in> set (AList.update k xs al) \<Longrightarrow> p \<in> set al \<or> p = (k, xs)" for p
    by (induction al) (auto split: if_splits)
  show ?thesis
    unfolding sets_ok_def
  proof (intro conjI ballI)
    show "distinct (map fst (AList.update k xs al))" using assms(1) by (simp add: sets_ok_def distinct_update)
  next
    fix p assume "p \<in> set (AList.update k xs al)"
    from * [OF this] show "snd p \<noteq> []" "distinct (snd p)" using assms by (auto simp: sets_ok_def)
  qed
qed

lemma sets_ok_set_of: "sets_ok al \<Longrightarrow> distinct (set_of al k)"
  by (auto simp: sets_ok_def set_of_def dest!: map_of_SomeD split: option.split)

lemma sets_ok_put_in: "sets_ok al \<Longrightarrow> sets_ok (put_in k x al)"
  using sets_ok_set_of [of al k] unfolding put_in_def by (intro sets_ok_update) auto

lemma sets_ok_take_out: "sets_ok al \<Longrightarrow> sets_ok (take_out k x al)"
proof (cases "map_of al k")
  case (Some xs)
  assume ok: "sets_ok al"
  then have "distinct xs" using Some by (auto simp: sets_ok_def dest!: map_of_SomeD)
  moreover have "sets_ok (AList.delete k al)"
    using ok by (auto simp: sets_ok_def AList.delete_eq distinct_map_filter)
  ultimately show ?thesis
    using ok Some by (auto simp: take_out_def intro!: sets_ok_update distinct_removeAll)
qed (simp add: take_out_def)

lemma IsBotPaused_set: "IsBotPaused ch b m \<longleftrightarrow> b \<in> set (set_of (mg_pauses m) ch)"
  by (simp add: IsBotPaused_def set_of_def split: option.split)

section \<open>One subscription's part of a notification\<close>

text \<open>What \<^verbatim>\<open>handleMatch\<close> and \<^verbatim>\<open>Notify\<close> do to the subscription itself.\<close>

definition hit :: "(uuid \<Rightarrow> string) \<Rightarrow> gotime \<Rightarrow> bool \<Rightarrow> Event \<Rightarrow> nat \<Rightarrow> LiveSub \<Rightarrow> LiveSub \<times> fireTask option" where
  "hit us now over ev r s =
     (if in_cooldown now s \<or> over then (s, None)
      else let s1 = accumulate us ev s
           in if ws_debounceTimer s \<noteq> NoTimer then (s1, None)
              else if ms_Duration (ws_DebounceMs s) > 0
              then (s1\<lparr>ws_debounceTimer := Armed (now + ms_Duration (ws_DebounceMs s))\<rparr>, None)
              else drainPendingLocked now r s1)"

definition matches :: "Event \<Rightarrow> LiveSub \<Rightarrow> bool" where
  "matches ev s = Match (ws_Matcher s) \<lparr>me_Body = ev_Body ev, me_FromAccountID = ev_From ev, me_Mentions = ev_Mentions ev\<rparr>"

definition cell :: "(uuid \<Rightarrow> string) \<Rightarrow> gotime \<Rightarrow> Event \<Rightarrow> uuid list \<Rightarrow> store \<Rightarrow> nat \<Rightarrow> LiveSub \<Rightarrow> LiveSub \<times> fireTask option" where
  "cell us now ev paused st r s =
     (if \<not> matches ev s \<or> ws_AccountID s \<in> set paused then (s, None)
      else hit us now (over_budget now s st) ev r s)"

definition same_budget :: "store \<Rightarrow> store \<Rightarrow> bool" where
  "same_budget st st' \<longleftrightarrow> (\<forall>t i u. CountSubscriptionFiresSince t i u st' = CountSubscriptionFiresSince t i u st)
     \<and> st_subs st' = st_subs st"

lemma same_budget_refl [simp]: "same_budget st st"
  by (simp add: same_budget_def)

lemma same_budget_trans: "same_budget a b \<Longrightarrow> same_budget b c \<Longrightarrow> same_budget a c"
  by (simp add: same_budget_def)

lemma record_row_budget:
  "fire_Status f \<notin> {''ok'', ''retrying''} \<Longrightarrow> same_budget st (record_row now nv f st)"
  by (auto simp: same_budget_def record_row_def RecordSubscriptionFire_def CountSubscriptionFiresSince_def
      any_error_def split: option.splits sum.splits)

lemma over_budget_same: "same_budget st st' \<Longrightarrow> over_budget now s st' = over_budget now s st"
  by (simp add: over_budget_def same_budget_def)

lemma enqueue_opt_None [simp]: "enqueue_opt None m = m"
  by (simp add: enqueue_opt_def)

lemma notify_one_cell:
  "\<exists>st'. notify_one us now nv ev paused r (m, st)
      = (let c = cell us now ev paused st r (mg_heap m ! r)
         in enqueue_opt (snd c) (m\<lparr>mg_heap := (mg_heap m)[r := fst c]\<rparr>), st') \<and> same_budget st st'"
  by (auto simp: notify_one_def cell_def matches_def hit_def handleMatch_def recordPausedFire_def
      Let_def fire_row_def record_row_budget case_prod_unfold)

lemma enqueue_heap: "enqueue t (m\<lparr>mg_heap := h\<rparr>) = (enqueue t m)\<lparr>mg_heap := h\<rparr>"
  by (simp add: enqueue_def)

lemma enqueue_fields [simp]:
  "mg_heap (enqueue t m) = mg_heap m" "mg_subs (enqueue t m) = mg_subs m"
  "mg_byChannel (enqueue t m) = mg_byChannel m" "mg_pauses (enqueue t m) = mg_pauses m"
  "mg_flushing (enqueue t m) = mg_flushing m" "mg_stopped (enqueue t m) = mg_stopped m"
  "mg_cfg (enqueue t m) = mg_cfg m"
  by (simp_all add: enqueue_def)

lemma enqueue_opt_fold: "enqueue_opt t m = fold enqueue (case t of None \<Rightarrow> [] | Some x \<Rightarrow> [x]) m"
  by (simp add: enqueue_opt_def split: option.split)

lemma fold_enqueue_heap: "fold enqueue ts (m\<lparr>mg_heap := h\<rparr>) = (fold enqueue ts m)\<lparr>mg_heap := h\<rparr>"
  by (induction ts arbitrary: m) (simp_all add: enqueue_heap)

lemma fold_enqueue_fields [simp]:
  "mg_heap (fold enqueue ts m) = mg_heap m" "mg_subs (fold enqueue ts m) = mg_subs m"
  "mg_byChannel (fold enqueue ts m) = mg_byChannel m" "mg_pauses (fold enqueue ts m) = mg_pauses m"
  "mg_flushing (fold enqueue ts m) = mg_flushing m" "mg_stopped (fold enqueue ts m) = mg_stopped m"
  "mg_cfg (fold enqueue ts m) = mg_cfg m"
  by (induction ts arbitrary: m) simp_all

text \<open>The heap and the tasks a notification of the references \<open>rs\<close> leaves.\<close>

definition cells :: "(nat \<Rightarrow> LiveSub \<Rightarrow> LiveSub \<times> 't) \<Rightarrow> nat list \<Rightarrow> LiveSub list \<Rightarrow> LiveSub list" where
  "cells f rs h = map (\<lambda>r. if r \<in> set rs then fst (f r (h ! r)) else h ! r) [0 ..< length h]"

definition new_tasks :: "(nat \<Rightarrow> LiveSub \<Rightarrow> LiveSub \<times> fireTask option) \<Rightarrow> nat list \<Rightarrow> LiveSub list \<Rightarrow> fireTask list" where
  "new_tasks f rs h = List.map_filter (\<lambda>r. snd (f r (h ! r))) rs"

lemma length_cells [simp]: "length (cells f rs h) = length h"
  by (simp add: cells_def)

lemma nth_cells [simp]: "r < length h \<Longrightarrow> cells f rs h ! r = (if r \<in> set rs then fst (f r (h ! r)) else h ! r)"
  by (simp add: cells_def)

lemma cells_Cons:
  "r \<notin> set rs \<Longrightarrow> r < length h \<Longrightarrow> cells f rs (h[r := fst (f r (h ! r))]) = cells f (r # rs) h"
  by (rule nth_equalityI) (auto simp: nth_list_update)

lemma new_tasks_Cons:
  "r \<notin> set rs \<Longrightarrow> new_tasks f (r # rs) h
     = (case snd (f r (h ! r)) of None \<Rightarrow> [] | Some t \<Rightarrow> [t]) @ new_tasks f rs (h[r := s'])"
proof -
  assume r: "r \<notin> set rs"
  have "List.map_filter (\<lambda>q. snd (f q (h[r := s'] ! q))) rs = List.map_filter (\<lambda>q. snd (f q (h ! q))) rs"
    using r by (induction rs) (auto simp: List.map_filter_def)
  then show ?thesis by (auto simp: new_tasks_def List.map_filter_def split: option.split)
qed

lemma notify_fold:
  assumes "distinct rs" and "\<forall>r \<in> set rs. r < length (mg_heap m)"
  shows "\<exists>st'. fold (notify_one us now nv ev paused) rs (m, st)
     = (fold enqueue (new_tasks (cell us now ev paused st) rs (mg_heap m))
          (m\<lparr>mg_heap := cells (cell us now ev paused st) rs (mg_heap m)\<rparr>), st') \<and> same_budget st st'"
  using assms
proof (induction rs arbitrary: m st)
  case Nil
  have "cells f [] h = h" for f :: "nat \<Rightarrow> LiveSub \<Rightarrow> LiveSub \<times> fireTask option" and h
    by (rule nth_equalityI) simp_all
  then show ?case by (auto simp: new_tasks_def List.map_filter_def)
next
  case (Cons r rs)
  let ?f = "cell us now ev paused st"
  define c where "c = ?f r (mg_heap m ! r)"
  obtain st1 where one: "notify_one us now nv ev paused r (m, st)
      = (enqueue_opt (snd c) (m\<lparr>mg_heap := (mg_heap m)[r := fst c]\<rparr>), st1)" and b: "same_budget st st1"
    using notify_one_cell [of us now nv ev paused r m st] by (auto simp: c_def Let_def)
  define m1 where "m1 = enqueue_opt (snd c) (m\<lparr>mg_heap := (mg_heap m)[r := fst c]\<rparr>)"
  have h1: "mg_heap m1 = (mg_heap m)[r := fst c]" by (simp add: m1_def enqueue_opt_fold)
  have f: "cell us now ev paused st1 = ?f"
    by (simp add: fun_eq_iff cell_def over_budget_same [OF b])
  obtain st2 where two: "fold (notify_one us now nv ev paused) rs (m1, st1)
     = (fold enqueue (new_tasks ?f rs (mg_heap m1)) (m1\<lparr>mg_heap := cells ?f rs (mg_heap m1)\<rparr>), st2)"
    and b2: "same_budget st1 st2"
    using Cons.IH [of m1 st1] Cons.prems by (auto simp: h1 f)
  have "new_tasks ?f (r # rs) (mg_heap m) = (case snd c of None \<Rightarrow> [] | Some t \<Rightarrow> [t]) @ new_tasks ?f rs (mg_heap m1)"
    using Cons.prems unfolding h1 c_def by (intro new_tasks_Cons) simp
  moreover have "cells ?f rs (mg_heap m1) = cells ?f (r # rs) (mg_heap m)"
    using Cons.prems unfolding h1 c_def by (intro cells_Cons) simp_all
  ultimately have "fold (notify_one us now nv ev paused) (r # rs) (m, st)
     = (fold enqueue (new_tasks ?f (r # rs) (mg_heap m)) (m\<lparr>mg_heap := cells ?f (r # rs) (mg_heap m)\<rparr>), st2)"
    using one two by (simp add: m1_def [symmetric]) (simp add: m1_def enqueue_opt_fold fold_enqueue_heap)
  then show ?case using same_budget_trans [OF b b2] by blast
qed

end
