(* ===== verification/Webhook_Gates.thy ===== *)
theory Webhook_Gates
  imports Webhook_Manager Store_Integrity
begin

text \<open>
  The webhook manager over time: the commands the rest of the server gives it, with timers
  expiring and callbacks running in any order, and what holds in every state they reach: the channel
  index agrees with the cache, and a paused bot is not notified while its matches are on record.
\<close>

datatype mgr_cmd = MAdd Subscription | MDel uuid | MPause uuid uuid bool | MReload "Tenant list"
  | MNotify gotime "uuid \<Rightarrow> uuid option" Event | MExpire gotime nat | MFlush gotime nat | MTake | MStop
  | MStore store_cmd

text \<open>A timer that reaches its deadline starts its callback.\<close>

definition expire :: "gotime \<Rightarrow> nat \<Rightarrow> Manager \<Rightarrow> Manager" where
  "expire now r m =
     (if r < length (mg_heap m) \<and> (case ws_debounceTimer (mg_heap m ! r) of Armed d \<Rightarrow> d \<le> now | _ \<Rightarrow> False)
      then m\<lparr>mg_heap := (mg_heap m)[r := (mg_heap m ! r)\<lparr>ws_debounceTimer := Gone\<rparr>], mg_flushing := mg_flushing m @ [r]\<rparr>
      else m)"

definition run_flush :: "gotime \<Rightarrow> nat \<Rightarrow> Manager \<Rightarrow> Manager" where
  "run_flush now r m =
     (if r \<in> set (mg_flushing m) then flushDebounced now r (m\<lparr>mg_flushing := remove1 r (mg_flushing m)\<rparr>) else m)"

fun exec_mgr :: "(uuid \<Rightarrow> string) \<Rightarrow> (string \<Rightarrow> uuid option) \<Rightarrow> (string \<Rightarrow> (string \<Rightarrow> bool) option)
    \<Rightarrow> mgr_cmd \<Rightarrow> Manager \<times> store \<Rightarrow> Manager \<times> store" where
  "exec_mgr us up re (MAdd sub) (m, st) = (case AddOrUpdate up re sub m of Inl _ \<Rightarrow> (m, st) | Inr m' \<Rightarrow> (m', st))"
| "exec_mgr us up re (MDel i) (m, st) = (Remove_sub i m, st)"
| "exec_mgr us up re (MPause ch b p) (m, st) = (SetBotPaused ch b p m, st)"
| "exec_mgr us up re (MReload ts) (m, st) = (fst (Reload up re st ts m), st)"
| "exec_mgr us up re (MNotify now nv ev) (m, st) = Notify us now nv ev (m, st)"
| "exec_mgr us up re (MExpire now r) (m, st) = (expire now r m, st)"
| "exec_mgr us up re (MFlush now r) (m, st) = (run_flush now r m, st)"
| "exec_mgr us up re MTake (m, st) = (m\<lparr>mg_tasks := tl (mg_tasks m)\<rparr>, st)"
| "exec_mgr us up re MStop (m, st) = (pool_Stop m, st)"
| "exec_mgr us up re (MStore c) (m, st) = (m, exec_cmd c st)"

section \<open>The index agrees with the cache\<close>

definition cached :: "Manager \<Rightarrow> uuid \<Rightarrow> LiveSub option" where
  "cached m i = map_option (\<lambda>r. mg_heap m ! r) (map_of (mg_subs m) i)"

definition mgr_ok :: "Manager \<Rightarrow> bool" where
  "mgr_ok m \<longleftrightarrow> sets_ok (mg_byChannel m) \<and> sets_ok (mg_pauses m)
     \<and> (\<forall>i r. map_of (mg_subs m) i = Some r \<longrightarrow> r < length (mg_heap m) \<and> ws_ID (mg_heap m ! r) = i)
     \<and> (\<forall>ch i. i \<in> set (set_of (mg_byChannel m) ch) \<longleftrightarrow>
          (\<exists>r. map_of (mg_subs m) i = Some r \<and> ws_ChannelID (mg_heap m ! r) = ch))
     \<and> (\<forall>t \<in> set (mg_tasks m). ft_sub t < length (mg_heap m))
     \<and> (\<forall>r \<in> set (mg_flushing m). r < length (mg_heap m))"

lemma mgr_okD:
  assumes "mgr_ok m"
  shows "sets_ok (mg_byChannel m)" "sets_ok (mg_pauses m)"
    "map_of (mg_subs m) i = Some r \<Longrightarrow> r < length (mg_heap m)"
    "map_of (mg_subs m) i = Some r \<Longrightarrow> ws_ID (mg_heap m ! r) = i"
    "i \<in> set (set_of (mg_byChannel m) ch) \<longleftrightarrow> (\<exists>r. map_of (mg_subs m) i = Some r \<and> ws_ChannelID (mg_heap m ! r) = ch)"
    "t \<in> set (mg_tasks m) \<Longrightarrow> ft_sub t < length (mg_heap m)"
    "q \<in> set (mg_flushing m) \<Longrightarrow> q < length (mg_heap m)"
  using assms by (simp_all add: mgr_ok_def)

text \<open>Heaps that differ in the runtime part of their subscriptions only.\<close>

definition keeps :: "LiveSub list \<Rightarrow> LiveSub list \<Rightarrow> bool" where
  "keeps h h' \<longleftrightarrow> length h' = length h \<and> (\<forall>r < length h. ws_ID (h' ! r) = ws_ID (h ! r)
     \<and> ws_ChannelID (h' ! r) = ws_ChannelID (h ! r) \<and> ws_AccountID (h' ! r) = ws_AccountID (h ! r)
     \<and> ws_CooldownMs (h' ! r) = ws_CooldownMs (h ! r))"

lemma keeps_update:
  "ws_ID s = ws_ID (h ! r) \<Longrightarrow> ws_ChannelID s = ws_ChannelID (h ! r) \<Longrightarrow> ws_AccountID s = ws_AccountID (h ! r) \<Longrightarrow>
     ws_CooldownMs s = ws_CooldownMs (h ! r) \<Longrightarrow> keeps h (h[r := s])"
  by (cases "r < length h") (auto simp: keeps_def nth_list_update)

lemma mgr_ok_keeps:
  assumes "mgr_ok m" and "keeps (mg_heap m) (mg_heap m')"
    and "mg_subs m' = mg_subs m" "mg_byChannel m' = mg_byChannel m" "sets_ok (mg_pauses m')"
    and "\<forall>t \<in> set (mg_tasks m'). ft_sub t < length (mg_heap m)"
    and "set (mg_flushing m') \<subseteq> {..< length (mg_heap m)}"
  shows "mgr_ok m'"
proof -
  have ch: "ws_ChannelID (mg_heap m' ! r) = ws_ChannelID (mg_heap m ! r) \<and> ws_ID (mg_heap m' ! r) = ws_ID (mg_heap m ! r)"
    if "map_of (mg_subs m) i = Some r" for i r
    using assms(2) mgr_okD(3) [OF assms(1) that] by (simp add: keeps_def)
  have len: "length (mg_heap m') = length (mg_heap m)" using assms(2) by (simp add: keeps_def)
  show ?thesis
    unfolding mgr_ok_def assms(3,4) len
    using mgr_okD [OF assms(1)] assms(5-7) ch by (auto simp: subset_iff)
qed

lemma drain_fields [simp]:
  "ws_ID (fst (drainPendingLocked now r s)) = ws_ID s"
  "ws_ChannelID (fst (drainPendingLocked now r s)) = ws_ChannelID s"
  "ws_AccountID (fst (drainPendingLocked now r s)) = ws_AccountID s"
  "ws_CooldownMs (fst (drainPendingLocked now r s)) = ws_CooldownMs s"
  "ws_debounceTimer (fst (drainPendingLocked now r s)) = ws_debounceTimer s"
  by (simp_all add: drainPendingLocked_def)

lemma accumulate_fields [simp]:
  "ws_ID (accumulate us ev s) = ws_ID s" "ws_ChannelID (accumulate us ev s) = ws_ChannelID s"
  "ws_AccountID (accumulate us ev s) = ws_AccountID s" "ws_CooldownMs (accumulate us ev s) = ws_CooldownMs s"
  "ws_lastFire (accumulate us ev s) = ws_lastFire s"
  by (simp_all add: accumulate_def Let_def)

lemma cell_fields [simp]:
  "ws_ID (fst (cell us now ev paused st r s)) = ws_ID s"
  "ws_ChannelID (fst (cell us now ev paused st r s)) = ws_ChannelID s"
  "ws_AccountID (fst (cell us now ev paused st r s)) = ws_AccountID s"
  "ws_CooldownMs (fst (cell us now ev paused st r s)) = ws_CooldownMs s"
  by (simp_all add: cell_def hit_def Let_def)

lemma cell_task: "snd (cell us now ev paused st r s) = Some t \<Longrightarrow> ft_sub t = r"
  by (auto simp: cell_def hit_def Let_def drainPendingLocked_def split: if_splits)

lemma tasks_fold_enqueue: "set (mg_tasks (fold enqueue ts m)) \<subseteq> set (mg_tasks m) \<union> set ts"
  by (induction ts arbitrary: m) (force simp: enqueue_def split: if_splits)+

lemma new_tasks_refs: "t \<in> set (new_tasks (cell us now ev paused st) rs h) \<Longrightarrow> ft_sub t \<in> set rs"
  by (auto simp: new_tasks_def List.map_filter_def dest: cell_task)

section \<open>The snapshot of a channel\<close>

lemma snapshot_set:
  assumes "mgr_ok m"
  shows "set (snapshot ch m) = {r. \<exists>i. map_of (mg_subs m) i = Some r \<and> ws_ChannelID (mg_heap m ! r) = ch}"
  using mgr_okD(5) [OF assms] by (force simp: snapshot_def List.map_filter_def image_iff)

lemma snapshot_range: "mgr_ok m \<Longrightarrow> r \<in> set (snapshot ch m) \<Longrightarrow> r < length (mg_heap m)"
  using snapshot_set mgr_okD(3) by blast

lemma snapshot_distinct:
  assumes "mgr_ok m"
  shows "distinct (snapshot ch m)"
proof -
  let ?ids = "filter (\<lambda>i. map_of (mg_subs m) i \<noteq> None) (set_of (mg_byChannel m) ch)"
  have "snapshot ch m = map (\<lambda>i. the (map_of (mg_subs m) i)) ?ids"
    by (simp add: snapshot_def List.map_filter_def comp_def)
  moreover have "distinct ?ids" using sets_ok_set_of [OF mgr_okD(1) [OF assms]] by simp
  moreover have "inj_on (\<lambda>i. the (map_of (mg_subs m) i)) (set ?ids)"
  proof (rule inj_onI)
    fix i j assume "i \<in> set ?ids" "j \<in> set ?ids" and eq: "the (map_of (mg_subs m) i) = the (map_of (mg_subs m) j)"
    then obtain r q where "map_of (mg_subs m) i = Some r" "map_of (mg_subs m) j = Some q" by auto
    with eq show "i = j" using mgr_okD(4) [OF assms, of i r] mgr_okD(4) [OF assms, of j q] by simp
  qed
  ultimately show ?thesis by (simp add: distinct_map)
qed

lemma snapshot_ids_inj: "mgr_ok m \<Longrightarrow> inj_on (\<lambda>r. ws_ID (mg_heap m ! r)) (set (snapshot ch m))"
proof (rule inj_onI)
  fix r q assume ok: "mgr_ok m" and "r \<in> set (snapshot ch m)" "q \<in> set (snapshot ch m)" and e: "ws_ID (mg_heap m ! r) = ws_ID (mg_heap m ! q)"
  then obtain i j where "map_of (mg_subs m) i = Some r" "map_of (mg_subs m) j = Some q"
    using snapshot_set [OF ok, of ch] by auto
  with e mgr_okD(4) [OF ok] show "r = q" by (metis option.inject)
qed

lemma Notify_cells:
  assumes "mgr_ok m"
  shows "\<exists>st'. Notify us now nv ev (m, st) =
     (fold enqueue (new_tasks (cell us now ev (set_of (mg_pauses m) (ev_ChannelID ev)) st) (snapshot (ev_ChannelID ev) m) (mg_heap m))
        (m\<lparr>mg_heap := cells (cell us now ev (set_of (mg_pauses m) (ev_ChannelID ev)) st) (snapshot (ev_ChannelID ev) m) (mg_heap m)\<rparr>), st')
     \<and> same_budget st st'"
  unfolding Notify_def fst_conv
  by (rule notify_fold) (use snapshot_distinct snapshot_range assms in blast)+

section \<open>Every command keeps the index\<close>

lemma install_ok:
  assumes base: "sets_ok (mg_byChannel m)" "sets_ok (mg_pauses m)"
      "\<And>i r. map_of (mg_subs m) i = Some r \<Longrightarrow> r < length (mg_heap m) \<and> ws_ID (mg_heap m ! r) = i"
      "\<forall>t \<in> set (mg_tasks m). ft_sub t < length (mg_heap m)" "\<forall>r \<in> set (mg_flushing m). r < length (mg_heap m)"
    and others: "\<And>ch i. i \<noteq> ws_ID live \<Longrightarrow> i \<in> set (set_of (mg_byChannel m) ch) \<longleftrightarrow>
          (\<exists>r. map_of (mg_subs m) i = Some r \<and> ws_ChannelID (mg_heap m ! r) = ch)"
    and same: "\<And>ch. ws_ID live \<in> set (set_of (mg_byChannel m) ch) \<Longrightarrow> ch = ws_ChannelID live"
  shows "mgr_ok (install live m)"
proof -
  let ?m = "install live m" and ?n = "length (mg_heap m)"
  have heap: "mg_heap ?m = mg_heap m @ [live]" and subs: "map_of (mg_subs ?m) = (map_of (mg_subs m))(ws_ID live \<mapsto> ?n)"
    and idx: "mg_byChannel ?m = put_in (ws_ChannelID live) (ws_ID live) (mg_byChannel m)"
    and rest: "mg_pauses ?m = mg_pauses m" "mg_tasks ?m = mg_tasks m" "mg_flushing ?m = mg_flushing m"
    by (simp_all add: install_def indexByChannel_def update_conv')
  have "i \<in> set (set_of (mg_byChannel ?m) ch) \<longleftrightarrow>
      (\<exists>r. map_of (mg_subs ?m) i = Some r \<and> ws_ChannelID (mg_heap ?m ! r) = ch)" for ch i
  proof (cases "i = ws_ID live")
    case True
    have "ws_ID live \<in> set (set_of (mg_byChannel ?m) ch) \<longleftrightarrow> ch = ws_ChannelID live"
      using same [of ch] unfolding idx set_of_put_in by (cases "ch = ws_ChannelID live") (simp_all, blast)
    moreover have "(\<exists>r. map_of (mg_subs ?m) (ws_ID live) = Some r \<and> ws_ChannelID (mg_heap ?m ! r) = ch) \<longleftrightarrow> ch = ws_ChannelID live"
      unfolding subs heap by (simp add: eq_commute)
    ultimately show ?thesis unfolding True by blast
  next
    case False
    then have "i \<in> set (set_of (mg_byChannel ?m) ch) \<longleftrightarrow> i \<in> set (set_of (mg_byChannel m) ch)"
      unfolding idx by auto
    also have "\<dots> \<longleftrightarrow> (\<exists>r. map_of (mg_subs m) i = Some r \<and> ws_ChannelID (mg_heap m ! r) = ch)"
      by (rule others [OF False])
    finally show ?thesis using False base(3) unfolding subs heap by (auto simp: nth_append)
  qed
  moreover have "r < length (mg_heap ?m) \<and> ws_ID (mg_heap ?m ! r) = i" if "map_of (mg_subs ?m) i = Some r" for i r
    using that base(3) [of i r] unfolding subs heap by (auto simp: nth_append split: if_splits)
  ultimately show ?thesis
    using base(4,5) sets_ok_put_in [OF base(1)] base(2)
    unfolding mgr_ok_def rest by (fastforce simp: idx heap)
qed

lemma mgr_ok_install:
  assumes "mgr_ok m" and "\<And>r. map_of (mg_subs m) (ws_ID live) = Some r \<Longrightarrow> ws_ChannelID (mg_heap m ! r) = ws_ChannelID live"
  shows "mgr_ok (install live m)"
  using mgr_okD [OF assms(1)] assms(2) by (intro install_ok) auto

lemma stop_timer_keeps: "keeps (mg_heap m) (mg_heap (stop_timer r m))"
  by (auto simp: stop_timer_def Let_def intro!: keeps_update) (simp add: keeps_def)

lemma stop_timer_fields [simp]:
  "mg_subs (stop_timer r m) = mg_subs m" "mg_byChannel (stop_timer r m) = mg_byChannel m"
  "mg_pauses (stop_timer r m) = mg_pauses m" "mg_tasks (stop_timer r m) = mg_tasks m"
  "mg_flushing (stop_timer r m) = mg_flushing m"
  by (simp_all add: stop_timer_def Let_def)

lemma mgr_ok_stop_timer: "mgr_ok m \<Longrightarrow> mgr_ok (stop_timer r m)"
  by (rule mgr_ok_keeps [OF _ stop_timer_keeps]) (auto dest: mgr_okD)

lemma compile_ids:
  "compileSubscription up re sub = Inr live \<Longrightarrow> ws_ID live = sub_ID sub \<and> ws_ChannelID live = sub_ChannelID sub"
  by (auto simp: compileSubscription_def split: sum.splits option.splits if_splits)

lemma mgr_ok_AddOrUpdate:
  assumes "mgr_ok m" and "AddOrUpdate up re sub m = Inr m'"
  shows "mgr_ok m'"
proof -
  obtain live where live: "compileSubscription up re sub = Inr live" using assms(2)
    by (auto simp: AddOrUpdate_def split: sum.splits)
  note ids = compile_ids [OF live]
  show ?thesis
  proof (cases "map_of (mg_subs m) (sub_ID sub)")
    case None
    with assms live have "m' = install live m" by (simp add: AddOrUpdate_def)
    with None ids show ?thesis by (simp only:, intro mgr_ok_install [OF assms(1)]) simp
  next
    case (Some r)
    let ?s = "stop_timer r m" and ?old = "mg_heap m ! r"
    have ok: "mgr_ok ?s" by (rule mgr_ok_stop_timer [OF assms(1)])
    have old: "ws_ID ?old = sub_ID sub" "ws_ChannelID (mg_heap ?s ! r) = ws_ChannelID ?old"
      using mgr_okD(3,4) [OF assms(1) Some] stop_timer_keeps [of m r] by (simp_all add: keeps_def)
    show ?thesis
    proof (cases "ws_ChannelID ?old = ws_ChannelID live")
      case True
      with assms live Some have "m' = install live ?s" by (simp add: AddOrUpdate_def Let_def)
      with ok True ids old Some show ?thesis by (auto intro!: mgr_ok_install)
    next
      case False
      let ?t = "?s\<lparr>mg_byChannel := take_out (ws_ChannelID ?old) (ws_ID ?old) (mg_byChannel ?s)\<rparr>"
      from False assms live Some have m': "m' = install live ?t" by (simp add: AddOrUpdate_def Let_def)
      have uniq: "ch = ws_ChannelID ?old" if "ws_ID live \<in> set (set_of (mg_byChannel m) ch)" for ch
        using that mgr_okD(5) [OF assms(1), of "ws_ID live" ch] Some ids by auto
      show ?thesis
        unfolding m'
      proof (rule install_ok)
        show "ch = ws_ChannelID live" if "ws_ID live \<in> set (set_of (mg_byChannel ?t) ch)" for ch
          using that uniq [of ch] old ids by (auto simp: set_of_take_out split: if_splits)
        show "(i \<in> set (set_of (mg_byChannel ?t) ch)) = (\<exists>r. map_of (mg_subs ?t) i = Some r \<and> ws_ChannelID (mg_heap ?t ! r) = ch)"
          if "i \<noteq> ws_ID live" for ch i
          using that mgr_okD(5) [OF ok, of i ch] old ids by (auto simp: set_of_take_out)
      qed (use mgr_okD [OF ok] in \<open>auto simp: sets_ok_take_out\<close>)
    qed
  qed
qed

lemma mgr_ok_Remove_sub: "mgr_ok m \<Longrightarrow> mgr_ok (Remove_sub i m)"
proof (cases "map_of (mg_subs m) i")
  case (Some r)
  assume ok0: "mgr_ok m"
  let ?s = "stop_timer r m"
  have ok: "mgr_ok ?s" by (rule mgr_ok_stop_timer [OF ok0])
  have ch: "ws_ChannelID (mg_heap ?s ! r) = ws_ChannelID (mg_heap m ! r)"
    using mgr_okD(3) [OF ok0 Some] stop_timer_keeps [of m r] by (simp add: keeps_def)
  have m': "Remove_sub i m = ?s\<lparr>mg_subs := AList.delete i (mg_subs ?s),
       mg_byChannel := take_out (ws_ChannelID (mg_heap ?s ! r)) i (mg_byChannel ?s)\<rparr>"
    using Some ch by (simp add: Remove_sub_def Let_def)
  have "(j \<in> set (set_of (take_out (ws_ChannelID (mg_heap ?s ! r)) i (mg_byChannel ?s)) c)) =
      (\<exists>q. map_of (AList.delete i (mg_subs ?s)) j = Some q \<and> ws_ChannelID (mg_heap ?s ! q) = c)" for j c
    using mgr_okD(5) [OF ok, of j c] Some ch by (auto simp: set_of_take_out delete_conv')
  with mgr_okD [OF ok] show ?thesis
    unfolding m' mgr_ok_def by (auto simp: sets_ok_take_out delete_conv')
qed (simp add: Remove_sub_def)

subsection \<open>Reload\<close>

definition from_store :: "store \<Rightarrow> Manager \<Rightarrow> bool" where
  "from_store st m \<longleftrightarrow> (\<forall>i r. map_of (mg_subs m) i = Some r \<longrightarrow>
     (\<exists>row \<in> set (st_subs st). sub_ID row = i \<and> sub_ChannelID row = ws_ChannelID (mg_heap m ! r)))"

definition is_row :: "store \<Rightarrow> Subscription \<Rightarrow> bool" where
  "is_row st sub \<longleftrightarrow> (\<exists>row \<in> set (st_subs st). sub_ID row = sub_ID sub \<and> sub_ChannelID row = sub_ChannelID sub)"

lemma row_unique:
  assumes "store_ok st" and "a \<in> set (st_subs st)" and "b \<in> set (st_subs st)" and "sub_ID a = sub_ID b"
  shows "a = b"
proof -
  have "distinct (map sub_ID (st_subs st))" using assms(1) by (simp add: store_ok_def table_ok_def)
  with assms(2-4) show ?thesis by (auto simp: distinct_map dest: inj_onD)
qed

lemma reload_install:
  assumes "store_ok st" and "mgr_ok m" and "from_store st m" and "is_row st sub"
    and "compileSubscription up re sub = Inr live"
  shows "mgr_ok (install live m) \<and> from_store st (install live m)"
proof
  note ids = compile_ids [OF assms(5)]
  obtain row where row: "row \<in> set (st_subs st)" "sub_ID row = ws_ID live" "sub_ChannelID row = ws_ChannelID live"
    using assms(4) ids by (auto simp: is_row_def)
  show "mgr_ok (install live m)"
  proof (rule mgr_ok_install [OF assms(2)])
    fix r assume "map_of (mg_subs m) (ws_ID live) = Some r"
    then obtain row' where "row' \<in> set (st_subs st)" "sub_ID row' = ws_ID live"
      "sub_ChannelID row' = ws_ChannelID (mg_heap m ! r)"
      using assms(3) by (auto simp: from_store_def)
    then show "ws_ChannelID (mg_heap m ! r) = ws_ChannelID live"
      using row_unique [OF assms(1), of row' row] row by simp
  qed
  show "from_store st (install live m)"
    using assms(3) row mgr_okD(3) [OF assms(2)]
    by (auto simp: from_store_def install_def indexByChannel_def update_conv' nth_append)
qed

lemma reload_subs_ok:
  assumes "store_ok st" and "list_all (is_row st) subs" and "mgr_ok m" and "from_store st m"
  shows "mgr_ok (reload_subs up re subs m) \<and> from_store st (reload_subs up re subs m)"
  using assms(2-4)
proof (induction subs arbitrary: m)
  case (Cons sub subs)
  then show ?case
    using reload_install [OF assms(1), of m sub up re] by (auto split: sum.split)
qed simp

lemma ListSubscriptionsByChannel_rows:
  "ListSubscriptionsByChannel t c st = Inr subs \<Longrightarrow> list_all (is_row st) subs"
  by (fastforce simp: ListSubscriptionsByChannel_def query_rows_def list_all_iff is_row_def scanSubscription_def
      split: if_splits)

lemma reload_channels_ok:
  assumes "store_ok st" and "mgr_ok m" and "from_store st m"
  shows "mgr_ok (fst (reload_channels up re st t chs m)) \<and> from_store st (fst (reload_channels up re st t chs m))"
  using assms(2,3)
proof (induction chs arbitrary: m)
  case (Cons ch chs)
  then show ?case
    using reload_subs_ok [OF assms(1) ListSubscriptionsByChannel_rows] by (auto split: sum.split)
qed simp

lemma mgr_ok_pause: "mgr_ok m \<Longrightarrow> mgr_ok (setPausedLocked c b p m)"
  by (auto simp: mgr_ok_def setPausedLocked_def sets_ok_put_in sets_ok_take_out)

lemma setPausedLocked_fields [simp]:
  "mg_subs (setPausedLocked c b p m) = mg_subs m" "mg_heap (setPausedLocked c b p m) = mg_heap m"
  by (simp_all add: setPausedLocked_def)

lemma reload_pauses_ok:
  "mgr_ok m \<and> from_store st m \<Longrightarrow>
     mgr_ok (fold (\<lambda>p. setPausedLocked (f p) (g p) True) ps m) \<and> from_store st (fold (\<lambda>p. setPausedLocked (f p) (g p) True) ps m)"
  by (induction ps arbitrary: m) (simp_all add: mgr_ok_pause from_store_def)

lemma reload_tenants_ok:
  assumes "store_ok st" and "mgr_ok m \<and> from_store st m"
  shows "mgr_ok (fst (reload_tenants up re st ts m)) \<and> from_store st (fst (reload_tenants up re st ts m))"
  using assms(2)
proof (induction ts arbitrary: m)
  case (Cons t ts)
  show ?case
  proof (cases "ListChannels (ten_ID t) st")
    case (Inr chs)
    obtain m1 e where m1: "reload_channels up re st (ten_ID t) chs m = (m1, e)" by fastforce
    then have ok: "mgr_ok m1 \<and> from_store st m1"
      using reload_channels_ok [OF assms(1), of m up re "ten_ID t" chs] Cons.prems by simp
    from Inr m1 ok Cons.IH [OF reload_pauses_ok [OF ok]] show ?thesis
      by (auto split: option.split sum.split)
  qed (use Cons.prems in simp)
qed simp

lemma mgr_ok_Reload: "store_ok st \<Longrightarrow> mgr_ok m \<Longrightarrow> mgr_ok (fst (Reload up re st ts m))"
proof -
  assume "store_ok st" "mgr_ok m"
  moreover have "mgr_ok (m\<lparr>mg_subs := [], mg_byChannel := [], mg_pauses := []\<rparr>)"
    using \<open>mgr_ok m\<close> by (auto simp: mgr_ok_def sets_ok_def set_of_def)
  ultimately show ?thesis
    unfolding Reload_def using reload_tenants_ok by (simp add: from_store_def)
qed

subsection \<open>Notifications, timers and the queue\<close>

lemma keeps_cells: "keeps h (cells (cell us now ev paused st) rs h)"
  by (simp add: keeps_def)

lemma Notify_ok:
  assumes "mgr_ok m"
  shows "mgr_ok (fst (Notify us now nv ev (m, st)))"
proof -
  let ?f = "cell us now ev (set_of (mg_pauses m) (ev_ChannelID ev)) st" and ?rs = "snapshot (ev_ChannelID ev) m"
  obtain st' where n: "Notify us now nv ev (m, st)
     = (fold enqueue (new_tasks ?f ?rs (mg_heap m)) (m\<lparr>mg_heap := cells ?f ?rs (mg_heap m)\<rparr>), st')"
    using Notify_cells [OF assms] by blast
  have "ft_sub t < length (mg_heap m)" if "t \<in> set (mg_tasks (fst (Notify us now nv ev (m, st))))" for t
    using that tasks_fold_enqueue [of "new_tasks ?f ?rs (mg_heap m)" "m\<lparr>mg_heap := cells ?f ?rs (mg_heap m)\<rparr>"]
      new_tasks_refs snapshot_range [OF assms] mgr_okD(6) [OF assms] unfolding n by fastforce
  then show ?thesis
    using mgr_okD [OF assms] keeps_cells by (intro mgr_ok_keeps [OF assms]) (auto simp: n)
qed

lemma flushDebounced_cell:
  "flushDebounced now r m = (let c = drainPendingLocked now r ((mg_heap m ! r)\<lparr>ws_debounceTimer := NoTimer\<rparr>)
     in enqueue_opt (snd c) (m\<lparr>mg_heap := (mg_heap m)[r := fst c]\<rparr>))"
  by (simp add: flushDebounced_def Let_def case_prod_unfold)

lemma mgr_ok_flush:
  assumes "mgr_ok m"
  shows "mgr_ok (run_flush now r m)"
proof (cases "r \<in> set (mg_flushing m)")
  case True
  define m0 where "m0 = m\<lparr>mg_flushing := remove1 r (mg_flushing m)\<rparr>"
  define c where "c = drainPendingLocked now r ((mg_heap m ! r)\<lparr>ws_debounceTimer := NoTimer\<rparr>)"
  have run: "run_flush now r m = enqueue_opt (snd c) (m0\<lparr>mg_heap := (mg_heap m)[r := fst c]\<rparr>)"
    using True by (simp add: run_flush_def flushDebounced_cell Let_def c_def m0_def)
  have r: "r < length (mg_heap m)" by (rule mgr_okD(7) [OF assms True])
  have "ft_sub t = r" if "snd c = Some t" for t
    using that by (auto simp: c_def drainPendingLocked_def split: if_splits)
  then have "\<forall>t \<in> set (mg_tasks (run_flush now r m)). ft_sub t < length (mg_heap m)"
    using mgr_okD(6) [OF assms] r by (auto simp: run m0_def enqueue_opt_def enqueue_def split: option.splits if_splits)
  moreover have "keeps (mg_heap m) (mg_heap (run_flush now r m))"
    unfolding run enqueue_opt_fold by (auto simp: c_def intro!: keeps_update)
  moreover have "set (mg_flushing (run_flush now r m)) \<subseteq> set (mg_flushing m)"
    unfolding run enqueue_opt_fold by (simp add: m0_def set_remove1_subset)
  ultimately show ?thesis
    using mgr_okD [OF assms] by (intro mgr_ok_keeps [OF assms]) (auto simp: run enqueue_opt_fold m0_def)
qed (simp add: run_flush_def assms)

lemma mgr_ok_expire:
  assumes "mgr_ok m" shows "mgr_ok (expire now r m)"
  using mgr_okD [OF assms]
  by (auto simp: expire_def intro!: mgr_ok_keeps [OF assms] keeps_update assms)

definition mgr_inv :: "Manager \<times> store \<Rightarrow> bool" where
  "mgr_inv ms \<longleftrightarrow> mgr_ok (fst ms) \<and> store_ok (snd ms)"

lemma store_ok_record_row: "store_ok st \<Longrightarrow> store_ok (record_row now nv f st)"
  using exec_cmd_ok [of st "CmdRecordSubscriptionFire now nv f"]
  by (auto simp: record_row_def after_def split: sum.splits)

lemma store_ok_handleMatch: "store_ok st \<Longrightarrow> store_ok (snd (handleMatch us now nv ev r (m, st)))"
  by (simp add: handleMatch_def Let_def case_prod_unfold store_ok_record_row)

lemma store_ok_notify_one: "store_ok (snd ms) \<Longrightarrow> store_ok (snd (notify_one us now nv ev paused r ms))"
  by (cases ms) (simp add: notify_one_def Let_def recordPausedFire_def store_ok_record_row store_ok_handleMatch)

lemma store_ok_Notify: "store_ok st \<Longrightarrow> store_ok (snd (Notify us now nv ev (m, st)))"
proof -
  have "store_ok (snd ms) \<Longrightarrow> store_ok (snd (fold (notify_one us now nv ev paused) rs ms))" for ms paused rs
    by (induction rs arbitrary: ms) (simp_all add: store_ok_notify_one)
  then show "store_ok st \<Longrightarrow> ?thesis" by (simp add: Notify_def)
qed

lemma mgr_ok_tasks: "mgr_ok m \<Longrightarrow> set ts \<subseteq> set (mg_tasks m) \<Longrightarrow> mgr_ok (m\<lparr>mg_tasks := ts\<rparr>)"
  by (auto simp: mgr_ok_def)

lemma mgr_ok_pool_Stop: "mgr_ok m \<Longrightarrow> mgr_ok (pool_Stop m)"
  by (simp add: mgr_ok_def pool_Stop_def)

lemma exec_mgr_inv:
  assumes "mgr_inv ms"
  shows "mgr_inv (exec_mgr us up re cmd ms)"
proof -
  obtain m st where ms: "ms = (m, st)" by (cases ms)
  with assms have ok: "mgr_ok m" "store_ok st" by (simp_all add: mgr_inv_def)
  show ?thesis
  proof (cases cmd)
    case (MAdd sub)
    then show ?thesis using ok mgr_ok_AddOrUpdate by (auto simp: ms mgr_inv_def split: sum.split)
  next
    case (MNotify now nv ev)
    then show ?thesis using ok Notify_ok store_ok_Notify by (simp add: ms mgr_inv_def)
  next
    case MTake
    have "set (tl (mg_tasks m)) \<subseteq> set (mg_tasks m)" by (cases "mg_tasks m") auto
    with MTake show ?thesis using ok mgr_ok_tasks by (simp add: ms mgr_inv_def)
  qed (use ok in \<open>simp_all add: ms mgr_inv_def mgr_ok_Remove_sub SetBotPaused_def mgr_ok_pause mgr_ok_Reload
        mgr_ok_flush mgr_ok_expire mgr_ok_pool_Stop exec_cmd_ok\<close>)
qed

lemma mgr_inv_New: "mgr_inv (NewManager cfg, Migrate)"
  by (simp add: mgr_inv_def store_ok_Migrate mgr_ok_def NewManager_def sets_ok_def set_of_def)

lemma exec_mgrs_inv: "mgr_inv ms \<Longrightarrow> mgr_inv (fold (exec_mgr us up re) cmds ms)"
  by (induction cmds arbitrary: ms) (simp_all add: exec_mgr_inv)

text \<open>
  The channel index is exact. Whatever sequence of additions, updates that move a
  subscription to another channel, removals, reloads, pauses, notifications, timer expiries,
  callbacks and store changes the manager has gone through, a notification on a channel looks at
  exactly the cached subscriptions of that channel, each once; and no task or timer callback
  refers to a subscription that does not exist.
\<close>

theorem manager_index_exact:
  defines "run \<equiv> \<lambda>us up re cfg cmds. fst (fold (exec_mgr us up re) cmds (NewManager cfg, Migrate))"
  shows "set (map (\<lambda>r. mg_heap (run us up re cfg cmds) ! r) (snapshot ch (run us up re cfg cmds)))
       = {s. \<exists>i. cached (run us up re cfg cmds) i = Some s \<and> ws_ChannelID s = ch}
     \<and> distinct (map (\<lambda>r. ws_ID (mg_heap (run us up re cfg cmds) ! r)) (snapshot ch (run us up re cfg cmds)))
     \<and> set (map ft_sub (mg_tasks (run us up re cfg cmds))) \<subseteq> {..< length (mg_heap (run us up re cfg cmds))}
     \<and> set (mg_flushing (run us up re cfg cmds)) \<subseteq> {..< length (mg_heap (run us up re cfg cmds))}"
proof -
  define m where "m = run us up re cfg cmds"
  have ok: "mgr_ok m"
    using exec_mgrs_inv [OF mgr_inv_New] by (simp add: m_def run_def mgr_inv_def)
  have "inj_on (\<lambda>r. ws_ID (mg_heap m ! r)) (set (snapshot ch m))" by (rule snapshot_ids_inj [OF ok])
  then have "distinct (map (\<lambda>r. ws_ID (mg_heap m ! r)) (snapshot ch m))"
    using snapshot_distinct [OF ok] by (simp add: distinct_map)
  moreover have "set (map (\<lambda>r. mg_heap m ! r) (snapshot ch m)) = {s. \<exists>i. cached m i = Some s \<and> ws_ChannelID s = ch}"
    using snapshot_set [OF ok, of ch] by (auto simp: cached_def image_iff)
  ultimately show ?thesis
    using mgr_okD(6,7) [OF ok] unfolding m_def [symmetric] by auto
qed

section \<open>A paused bot is not notified\<close>

lemma tasks_fold_append: "\<exists>new. mg_tasks (fold enqueue ts m) = mg_tasks m @ new \<and> set new \<subseteq> set ts"
proof (induction ts arbitrary: m)
  case (Cons t ts)
  obtain new where "mg_tasks (fold enqueue ts (enqueue t m)) = mg_tasks (enqueue t m) @ new" "set new \<subseteq> set ts"
    using Cons by blast
  moreover obtain e where "mg_tasks (enqueue t m) = mg_tasks m @ e" "set e \<subseteq> {t}"
    by (cases "mg_stopped m"; cases "length (mg_tasks m) < cf_QueueDepth (mg_cfg m)") (auto simp: enqueue_def)
  ultimately show ?case by (intro exI [of _ "e @ new"]) auto
qed simp

lemma new_tasks_iff: "t \<in> set (new_tasks f rs h) \<longleftrightarrow> (\<exists>r \<in> set rs. snd (f r (h ! r)) = Some t)"
  by (force simp: new_tasks_def List.map_filter_def)

subsection \<open>The rows a notification records\<close>

text \<open>The store can take one more fire row for the tenant, under the fresh id.\<close>

definition can_record :: "store \<Rightarrow> uuid \<Rightarrow> uuid option \<Rightarrow> bool" where
  "can_record st t newV7 \<longleftrightarrow> \<not> st_down st \<and> t \<in> ten_ID ` set (st_tenants st)
     \<and> (\<exists>i. newV7 = Some i \<and> i \<notin> fire_ID ` set (st_fires st))"

definition stored_row :: "gotime \<Rightarrow> uuid option \<Rightarrow> SubscriptionFire \<Rightarrow> SubscriptionFire" where
  "stored_row now newV7 f = f\<lparr>fire_ID := the newV7, fire_FiredAt := UnixMicro now\<rparr>"

lemma record_row_stored:
  assumes "can_record st (ws_TenantID s) newV7"
  shows "record_row now newV7 (fire_row s status a err) st
     = st\<lparr>st_fires := st_fires st @ [stored_row now newV7 (fire_row s status a err)]\<rparr>"
proof -
  obtain i where i: "newV7 = Some i" "i \<notin> fire_ID ` set (st_fires st)" and up: "\<not> st_down st"
    and t: "ws_TenantID s \<in> ten_ID ` set (st_tenants st)"
    using assms by (auto simp: can_record_def)
  have "exec_insert st (ws_TenantID s) (\<exists>r \<in> set (st_fires st). fire_ID r = i) = Inr ()"
    using i up t by (auto simp: exec_insert_def)
  with i(1) show ?thesis
    by (simp add: record_row_def RecordSubscriptionFire_def fire_row_def stored_row_def or_new_def or_now_def IsZero_def any_error_def)
qed

definition gate_rows :: "gotime \<Rightarrow> (uuid \<Rightarrow> uuid option) \<Rightarrow> Event \<Rightarrow> uuid list \<Rightarrow> store \<Rightarrow> LiveSub \<Rightarrow> SubscriptionFire list" where
  "gate_rows now nv ev paused st s =
     (if \<not> matches ev s then []
      else if ws_AccountID s \<in> set paused then [stored_row now (nv (ws_ID s)) (fire_row s ''paused'' 0 '''')]
      else if \<not> in_cooldown now s \<and> over_budget now s st
      then [stored_row now (nv (ws_ID s)) (fire_row s ''budget_exhausted'' 0 '''')]
      else [])"

lemma notify_one_store:
  assumes "can_record st (ws_TenantID (mg_heap m ! r)) (nv (ws_ID (mg_heap m ! r)))"
  shows "snd (notify_one us now nv ev paused r (m, st))
     = st\<lparr>st_fires := st_fires st @ gate_rows now nv ev paused st (mg_heap m ! r)\<rparr>"
  using record_row_stored [OF assms]
  by (simp add: notify_one_def handleMatch_def recordPausedFire_def gate_rows_def matches_def Let_def case_prod_unfold)

text \<open>Every subscription of the list can record under an id of its own.\<close>

definition ids_fresh :: "(uuid \<Rightarrow> uuid option) \<Rightarrow> store \<Rightarrow> LiveSub list \<Rightarrow> bool" where
  "ids_fresh nv st ss \<longleftrightarrow> (\<forall>s \<in> set ss. can_record st (ws_TenantID s) (nv (ws_ID s))) \<and> distinct (map (\<lambda>s. nv (ws_ID s)) ss)"

lemma gate_rows_ids: "f \<in> set (gate_rows now nv ev paused st s) \<Longrightarrow> fire_ID f = the (nv (ws_ID s)) \<and> fire_SubscriptionID f = ws_ID s"
  by (auto simp: gate_rows_def stored_row_def fire_row_def split: if_splits)

lemma ids_fresh_step:
  assumes "ids_fresh nv st (s # ss)"
  shows "ids_fresh nv (st\<lparr>st_fires := st_fires st @ gate_rows now nv ev paused st s\<rparr>) ss"
proof -
  have "nv (ws_ID s) \<noteq> nv (ws_ID x)" "\<exists>i. nv (ws_ID s) = Some i" if "x \<in> set ss" for x
    using assms that by (auto simp: ids_fresh_def can_record_def)
  with assms show ?thesis
    by (fastforce simp: ids_fresh_def can_record_def dest: gate_rows_ids)
qed

lemma notify_store:
  assumes "distinct rs" and "\<forall>r \<in> set rs. r < length (mg_heap m)" and "ids_fresh nv st (map ((!) (mg_heap m)) rs)"
  shows "snd (fold (notify_one us now nv ev paused) rs (m, st))
     = st\<lparr>st_fires := st_fires st @ concat (map (\<lambda>r. gate_rows now nv ev paused st (mg_heap m ! r)) rs)\<rparr>"
  using assms
proof (induction rs arbitrary: m st)
  case (Cons r rs)
  let ?s = "mg_heap m ! r"
  define st1 where "st1 = st\<lparr>st_fires := st_fires st @ gate_rows now nv ev paused st ?s\<rparr>"
  obtain m1 where one: "notify_one us now nv ev paused r (m, st) = (m1, st1)"
    using notify_one_store [of st m r nv us now ev paused] Cons.prems(3)
    by (cases "notify_one us now nv ev paused r (m, st)") (simp add: st1_def ids_fresh_def)
  obtain s' where h1: "mg_heap m1 = (mg_heap m)[r := s']" and b: "same_budget st st1"
    using notify_one_cell [of us now nv ev paused r m st] one by (auto simp: Let_def enqueue_opt_fold)
  have same: "mg_heap m1 ! q = mg_heap m ! q" if "q \<in> set rs" for q
    using that Cons.prems(1) h1 by (cases "q = r") simp_all
  then have map_same: "map ((!) (mg_heap m1)) rs = map ((!) (mg_heap m)) rs" by simp
  have "snd (fold (notify_one us now nv ev paused) rs (m1, st1))
     = st1\<lparr>st_fires := st_fires st1 @ concat (map (\<lambda>r. gate_rows now nv ev paused st1 (mg_heap m1 ! r)) rs)\<rparr>"
  proof (rule Cons.IH)
    show "ids_fresh nv st1 (map ((!) (mg_heap m1)) rs)"
      using ids_fresh_step [of nv st ?s "map ((!) (mg_heap m)) rs"] Cons.prems(3) unfolding st1_def map_same by simp
  qed (use Cons.prems h1 in simp_all)
  moreover have "gate_rows now nv ev paused st1 = gate_rows now nv ev paused st"
    by (simp add: fun_eq_iff gate_rows_def over_budget_same [OF b])
  moreover have "map (\<lambda>r. gate_rows now nv ev paused st (mg_heap m1 ! r)) rs = map (\<lambda>r. gate_rows now nv ev paused st (mg_heap m ! r)) rs"
    by (simp add: same)
  ultimately show ?case by (simp add: one) (simp add: st1_def)
qed simp

lemma filter_concat_one:
  assumes "distinct rs" and "r \<in> set rs" and "inj_on k (set rs)" and "\<And>q x. x \<in> set (f q) \<Longrightarrow> g x = k q"
  shows "filter (\<lambda>x. g x = k r) (concat (map f rs)) = f r"
  using assms(1-3)
proof (induction rs)
  case (Cons q rs)
  have mine: "filter (\<lambda>x. g x = k r) (f q) = (if k q = k r then f q else [])" for q
    using assms(4) [of _ q] by (auto intro: filter_True filter_False)
  have rest: "filter (\<lambda>x. g x = k r) (concat (map f rs)) = []" if "r \<notin> set rs" "r \<in> set (q # rs)"
    using that Cons.prems(3) assms(4) by (fastforce simp: filter_empty_conv inj_on_def)
  show ?case
  proof (cases "q = r")
    case True
    with Cons.prems rest show ?thesis by (simp add: mine)
  next
    case False
    with Cons.prems have "k q \<noteq> k r" by (auto simp: inj_on_def)
    with False Cons show ?thesis by (simp add: mine)
  qed
qed simp

text \<open>
  Property C15. A channel operator's pause suppresses delivery: while a bot is paused on a channel, a
  message there neither starts a task for one of the bot's subscriptions nor changes such a
  subscription (nothing accumulates in its debounce window); every task the message starts
  belongs to another account's subscription on that channel. And the suppression is on record: where the store can take the rows of
  this notification (it answers, it has the tenants, the fresh ids are new and distinct), each of the bot's
  subscriptions cached for the channel gains exactly one fire row with status \<open>paused\<close> and no attempts if it matched the message,
  and no row if it did not.
\<close>

theorem paused_bot_not_notified:
  assumes "mgr_ok m" and "IsBotPaused (ev_ChannelID ev) bid m" and "Notify us now nv ev (m, st) = (m', st')"
  shows "(\<forall>r < length (mg_heap m). ws_AccountID (mg_heap m ! r) = bid \<longrightarrow> mg_heap m' ! r = mg_heap m ! r)
     \<and> (\<exists>new. mg_tasks m' = mg_tasks m @ new \<and> (\<forall>t \<in> set new. ws_AccountID (mg_heap m ! ft_sub t) \<noteq> bid
            \<and> ws_ChannelID (mg_heap m ! ft_sub t) = ev_ChannelID ev))
     \<and> (ids_fresh nv st (map ((!) (mg_heap m)) (snapshot (ev_ChannelID ev) m)) \<longrightarrow>
          (\<forall>i s. cached m i = Some s \<and> ws_ChannelID s = ev_ChannelID ev \<and> ws_AccountID s = bid \<longrightarrow>
             filter (\<lambda>f. fire_SubscriptionID f = i) (st_fires st') = filter (\<lambda>f. fire_SubscriptionID f = i) (st_fires st)
               @ (if Match (ws_Matcher s) \<lparr>me_Body = ev_Body ev, me_FromAccountID = ev_From ev, me_Mentions = ev_Mentions ev\<rparr>
                  then [\<lparr>fire_ID = the (nv i), fire_TenantID = ws_TenantID s, fire_SubscriptionID = i, fire_FiredAt = UnixMicro now,
                         fire_Status = ''paused'', fire_Attempts = 0, fire_LastError = ''''\<rparr>]
                  else [])))"
proof -
  let ?p = "set_of (mg_pauses m) (ev_ChannelID ev)"
  let ?f = "cell us now ev ?p st" and ?rs = "snapshot (ev_ChannelID ev) m"
  have m': "m' = fold enqueue (new_tasks ?f ?rs (mg_heap m)) (m\<lparr>mg_heap := cells ?f ?rs (mg_heap m)\<rparr>)"
    using Notify_cells [OF assms(1), of us now nv ev st] assms(3) by auto
  have quiet: "?f r s = (s, None)" if "ws_AccountID s = bid" for r s
    using that assms(2) by (simp add: cell_def IsBotPaused_set)
  have "ws_AccountID (mg_heap m ! ft_sub t) \<noteq> bid \<and> ws_ChannelID (mg_heap m ! ft_sub t) = ev_ChannelID ev"
    if t: "t \<in> set (new_tasks ?f ?rs (mg_heap m))" for t
  proof -
    obtain r where r: "r \<in> set ?rs" "snd (?f r (mg_heap m ! r)) = Some t"
      using t unfolding new_tasks_iff by blast
    then have "ft_sub t = r" "ws_AccountID (mg_heap m ! r) \<noteq> bid"
      using quiet [of "mg_heap m ! r" r] cell_task by fastforce+
    with r(1) snapshot_set [OF assms(1)] show ?thesis by auto
  qed
  moreover obtain new where "mg_tasks m' = mg_tasks m @ new" "set new \<subseteq> set (new_tasks ?f ?rs (mg_heap m))"
    using tasks_fold_append [of "new_tasks ?f ?rs (mg_heap m)" "m\<lparr>mg_heap := cells ?f ?rs (mg_heap m)\<rparr>"] m' by auto
  moreover have "filter (\<lambda>f. fire_SubscriptionID f = i) (st_fires st')
      = filter (\<lambda>f. fire_SubscriptionID f = i) (st_fires st) @ gate_rows now nv ev ?p st s"
    if fresh: "ids_fresh nv st (map ((!) (mg_heap m)) ?rs)" and c: "cached m i = Some s" "ws_ChannelID s = ev_ChannelID ev" for i s
  proof -
    have "st' = st\<lparr>st_fires := st_fires st @ concat (map (\<lambda>r. gate_rows now nv ev ?p st (mg_heap m ! r)) ?rs)\<rparr>"
      using notify_store [OF snapshot_distinct [OF assms(1)] _ fresh, of us now ev ?p] snapshot_range [OF assms(1)] assms(3)
      by (simp add: Notify_def)
    moreover obtain r where r: "map_of (mg_subs m) i = Some r" "s = mg_heap m ! r" using c(1) by (auto simp: cached_def)
    moreover have "filter (\<lambda>f. fire_SubscriptionID f = ws_ID (mg_heap m ! r)) (concat (map (\<lambda>r. gate_rows now nv ev ?p st (mg_heap m ! r)) ?rs))
        = gate_rows now nv ev ?p st (mg_heap m ! r)"
      using r c(2) snapshot_set [OF assms(1)] gate_rows_ids
      by (intro filter_concat_one snapshot_distinct snapshot_ids_inj assms(1)) auto
    ultimately show ?thesis using mgr_okD(4) [OF assms(1) r(1)] by simp
  qed
  moreover have "gate_rows now nv ev ?p st s = (if matches ev s then [stored_row now (nv (ws_ID s)) (fire_row s ''paused'' 0 '''')] else [])"
    if "ws_AccountID s = bid" for s
    using that assms(2) by (simp add: gate_rows_def IsBotPaused_set)
  moreover have "ws_ID s = i" if "cached m i = Some s" for i s
    using that mgr_okD(4) [OF assms(1)] by (auto simp: cached_def)
  ultimately show ?thesis using quiet
    by (auto simp: m' intro!: exI [of _ new]) (auto simp: matches_def stored_row_def fire_row_def)
qed

definition sample_sub :: "int \<Rightarrow> LiveSub" where
  "sample_sub debounce = \<lparr>ws_ID = 5, ws_TenantID = 1, ws_AccountID = 8, ws_ChannelID = 3, ws_URL = ''https://bot'', ws_Secret = ''k'',
     ws_Matcher = \<lparr>mt_anyOf = [], mt_allOf = []\<rparr>, ws_Events = [''message''], ws_CtxLines = 0, ws_DebounceMs = debounce,
     ws_CooldownMs = 0, ws_Budget = \<lparr>bd_DailyMaxFires = 0, bd_EstimatedCostPerFireUSD = ''0''\<rparr>,
     ws_debounceTimer = NoTimer, ws_pendingMatches = [], ws_pendingContext = None, ws_pendingChanName = '''',
     ws_lastFire = 0, ws_consec4xx = 0\<rparr>"

definition sample_manager :: "int \<Rightarrow> Manager" where
  "sample_manager debounce = install (sample_sub debounce) (NewManager \<lparr>cf_Workers = 0, cf_QueueDepth = 0, cf_HTTPTimeout = 0, cf_MaxRetries = 0, cf_AutoDisable4xx = 0\<rparr>)"

definition sample_event :: Event where
  "sample_event = \<lparr>ev_TenantID = 1, ev_ChannelID = 3, ev_ChannelName = ''ops'', ev_From = 9, ev_DisplayName = ''ann'',
     ev_Body = ''deploy'', ev_TS = 100, ev_Mentions = [], ev_Context = []\<rparr>"

lemma sample_manager_ok: "mgr_ok (sample_manager d)"
  using mgr_inv_New [of "\<lparr>cf_Workers = 0, cf_QueueDepth = 0, cf_HTTPTimeout = 0, cf_MaxRetries = 0, cf_AutoDisable4xx = 0\<rparr>"]
  unfolding sample_manager_def by (intro mgr_ok_install) (simp_all add: mgr_inv_def, simp add: NewManager_def)

definition worker_store :: store where
  "worker_store = Migrate\<lparr>st_tenants := [\<lparr>ten_ID = 1, ten_Slug = ''t'', ten_DisplayName = ''T'', ten_Settings = ''{}'',
     ten_Status = ''active'', ten_CreatedAt = 0\<rparr>]\<rparr>"

theorem paused_bot_not_notified_witness:
  "let (m', st') = Notify (\<lambda>_. ''u'') 200 (\<lambda>_. Some 77) sample_event (SetBotPaused 3 8 True (sample_manager 50), worker_store)
   in mg_heap m' ! 0 = sample_sub 50
      \<and> map (\<lambda>f. (fire_SubscriptionID f, fire_Status f, fire_Attempts f)) (filter (\<lambda>f. fire_SubscriptionID f = 5) (st_fires st')) = [(5, ''paused'', 0)]"
proof -
  let ?m = "SetBotPaused 3 8 True (sample_manager 50)"
  obtain m' st' where n: "Notify (\<lambda>_. ''u'') 200 (\<lambda>_. Some 77) sample_event (?m, worker_store) = (m', st')" by fastforce
  have ok: "mgr_ok ?m" by (simp add: SetBotPaused_def mgr_ok_pause sample_manager_ok)
  have p: "IsBotPaused (ev_ChannelID sample_event) 8 ?m"
    by (simp add: IsBotPaused_set SetBotPaused_def setPausedLocked_def sample_event_def)
  have h: "mg_heap ?m = [sample_sub 50]" "snapshot (ev_ChannelID sample_event) ?m = [0]" "cached ?m 5 = Some (sample_sub 50)"
    by (simp_all add: SetBotPaused_def setPausedLocked_def sample_manager_def install_def indexByChannel_def NewManager_def
        snapshot_def set_of_def put_in_def List.map_filter_def cached_def sample_event_def) (simp_all add: sample_sub_def)
  have f: "ids_fresh (\<lambda>_. Some 77) worker_store (map ((!) (mg_heap ?m)) (snapshot (ev_ChannelID sample_event) ?m))"
    unfolding h(1,2) by (simp add: ids_fresh_def can_record_def worker_store_def Migrate_def sample_sub_def)
  have s: "ws_AccountID (sample_sub 50) = 8" "ws_ChannelID (sample_sub 50) = ev_ChannelID sample_event"
    "Match (ws_Matcher (sample_sub 50)) e = True" "st_fires worker_store = []" for e
    by (simp_all add: sample_sub_def sample_event_def Match_def worker_store_def Migrate_def)
  note t = paused_bot_not_notified [OF ok p n]
  have "mg_heap m' ! 0 = sample_sub 50" using t by (simp add: h(1) s(1))
  moreover have "map (\<lambda>f. (fire_SubscriptionID f, fire_Status f, fire_Attempts f)) (filter (\<lambda>f. fire_SubscriptionID f = 5) (st_fires st')) = [(5, ''paused'', 0)]"
    using t [THEN conjunct2, THEN conjunct2, rule_format, OF f, of 5 "sample_sub 50"] by (simp add: h(3) s)
  ultimately show ?thesis using n by simp
qed

text \<open>
  The pause is checked when a message matches, not when a debounce window closes:
  a match that is waiting in the window when the operator pauses the bot is still handed to
  the worker pool afterwards (here: match, pause, timer, callback on one subscription with a
  50 ms window).
\<close>

theorem pause_leaves_pending_window:
  "let m1 = fst (Notify (\<lambda>_. ''u'') 1000 (\<lambda>_. Some 77) sample_event (sample_manager 50, Migrate));
       m2 = SetBotPaused 3 8 True m1;
       m3 = run_flush 60000000 0 (expire 60000000 0 m2)
   in mg_tasks m1 = [] \<and> IsBotPaused 3 8 m3 \<and> map ft_sub (mg_tasks m3) = [0]
      \<and> map (map wm_Body) (map ft_matches (mg_tasks m3)) = [[''deploy'']]"
proof -
  let ?us = "\<lambda>_. ''u''" and ?m = "sample_manager 50"
  have d: "ms_Duration 50 = 50000000" by code_simp
  have h: "mg_heap ?m = [sample_sub 50]" "mg_tasks ?m = []" "mg_pauses ?m = []" "mg_flushing ?m = []"
    "snapshot 3 ?m = [0]" "mg_stopped ?m = False" "cf_QueueDepth (mg_cfg ?m) = 1024"
    by (simp_all add: sample_manager_def install_def indexByChannel_def NewManager_def snapshot_def set_of_def put_in_def
        sample_sub_def List.map_filter_def applyDefaults_def)
  have n: "fst (Notify ?us 1000 (\<lambda>_. Some 77) sample_event (?m, Migrate))
      = ?m\<lparr>mg_heap := [(accumulate ?us sample_event (sample_sub 50))\<lparr>ws_debounceTimer := Armed 50001000\<rparr>]\<rparr>"
    unfolding Notify_def using h
    by (simp add: sample_event_def set_of_def notify_one_def handleMatch_def Match_def in_cooldown_def over_budget_def d
        sample_sub_def)
  show ?thesis
    unfolding n Let_def
    by (simp add: h SetBotPaused_def setPausedLocked_def IsBotPaused_set expire_def run_flush_def flushDebounced_def
        drainPendingLocked_def enqueue_opt_def enqueue_def accumulate_def sample_sub_def sample_event_def Let_def
        MessageFromHistory_def)
qed

lemma install_heap [simp]: "mg_heap (install live m) = mg_heap m @ [live]"
  by (simp add: install_def indexByChannel_def)

end
