(* ===== verification/Webhook_Time.thy ===== *)
theory Webhook_Time
  imports Webhook_Gates
begin

text \<open>
  One live subscription of the webhook manager (\<^verbatim>\<open>internal/webhook/manager.go\<close>) followed through a run: the
  tasks a command queues for it are a cooldown apart, and debouncing loses no accepted match except where the task queue
  drops a whole batch.
\<close>

section \<open>The life of one subscription\<close>

definition timer_only :: "nat \<Rightarrow> LiveSub list \<Rightarrow> LiveSub list \<Rightarrow> bool" where
  "timer_only r h h' \<longleftrightarrow> length h \<le> length h' \<and> (\<exists>x. h' ! r = (h ! r)\<lparr>ws_debounceTimer := x\<rparr>)"

lemma timer_only_refl [simp]: "timer_only r h h"
  unfolding timer_only_def by (auto intro: exI [of _ "ws_debounceTimer (h ! r)"])

lemma timer_only_append: "r < length h \<Longrightarrow> timer_only r h (h @ ext)"
  unfolding timer_only_def by (auto simp: nth_append intro: exI [of _ "ws_debounceTimer (h ! r)"])

lemma timer_only_trans: "timer_only r a b \<Longrightarrow> timer_only r b c \<Longrightarrow> timer_only r a c"
  by (auto simp: timer_only_def)

lemma timer_only_update: "timer_only r h (h[q := (h ! q)\<lparr>ws_debounceTimer := x\<rparr>])"
proof (cases "q < length h \<and> q = r")
  case False
  then have "h[q := (h ! q)\<lparr>ws_debounceTimer := x\<rparr>] ! r = h ! r" by (cases "q < length h") (simp_all add: not_less list_update_beyond)
  then show ?thesis unfolding timer_only_def by (auto intro: exI [of _ "ws_debounceTimer (h ! r)"])
qed (auto simp: timer_only_def intro: exI [of _ x])

lemma stop_timer_only: "timer_only r (mg_heap m) (mg_heap (stop_timer q m))"
  by (simp add: stop_timer_def Let_def timer_only_update)

lemma AddOrUpdate_timer_only:
  assumes "r < length (mg_heap m)" and "AddOrUpdate up re sub m = Inr m'"
  shows "timer_only r (mg_heap m) (mg_heap m')"
proof -
  have *: "timer_only r (mg_heap m) (mg_heap (stop_timer q m) @ [live])" for q live
    using stop_timer_only [of r m q] assms(1)
    by (intro timer_only_trans [OF stop_timer_only timer_only_append]) (simp add: timer_only_def)
  show ?thesis
    using assms * by (auto simp: AddOrUpdate_def Let_def timer_only_append split: sum.splits option.splits)
qed

lemma reload_subs_heap: "\<exists>ext. mg_heap (reload_subs up re subs m) = mg_heap m @ ext"
proof (induction subs arbitrary: m)
  case (Cons sub subs)
  show ?case
  proof (cases "compileSubscription up re sub")
    case (Inr live)
    with Cons [of "install live m"] show ?thesis by force
  qed (use Cons in simp)
qed simp

lemma reload_channels_heap: "\<exists>ext. mg_heap (fst (reload_channels up re st t chs m)) = mg_heap m @ ext"
proof (induction chs arbitrary: m)
  case (Cons ch chs)
  show ?case
  proof (cases "ListSubscriptionsByChannel t (chn_ID ch) st")
    case (Inr subs)
    with Cons [of "reload_subs up re subs m"] reload_subs_heap [of up re subs m] show ?thesis by force
  qed simp
qed simp

lemma fold_pause_heap [simp]: "mg_heap (fold (\<lambda>p. setPausedLocked (f p) (g p) True) ps m) = mg_heap m"
  by (induction ps arbitrary: m) simp_all

lemma reload_tenants_heap: "\<exists>ext. mg_heap (fst (reload_tenants up re st ts m)) = mg_heap m @ ext"
proof (induction ts arbitrary: m)
  case (Cons t ts)
  show ?case
  proof (cases "ListChannels (ten_ID t) st")
    case (Inr chs)
    obtain m1 e where m1: "reload_channels up re st (ten_ID t) chs m = (m1, e)" by fastforce
    then obtain ext where ext: "mg_heap m1 = mg_heap m @ ext"
      using reload_channels_heap [of up re st "ten_ID t" chs m] by auto
    have "\<exists>ext. mg_heap (fst (reload_tenants up re st ts (fold (\<lambda>p. setPausedLocked (pau_ChannelID p) (pau_BotAccountID p) True) ps m1)))
        = mg_heap m @ ext" for ps
      using Cons [of "fold (\<lambda>p. setPausedLocked (pau_ChannelID p) (pau_BotAccountID p) True) ps m1"] ext by force
    with Inr m1 ext show ?thesis by (auto split: option.split sum.split)
  qed simp
qed simp

lemma Reload_timer_only: "r < length (mg_heap m) \<Longrightarrow> timer_only r (mg_heap m) (mg_heap (fst (Reload up re st ts m)))"
  using reload_tenants_heap [of up re st ts "m\<lparr>mg_subs := [], mg_byChannel := [], mg_pauses := []\<rparr>"] timer_only_append
  by (auto simp: Reload_def)

lemma Remove_sub_timer_only: "timer_only r (mg_heap m) (mg_heap (Remove_sub i m))"
  using stop_timer_only [of r m] by (auto simp: Remove_sub_def Let_def split: option.split)

lemma expire_timer_only: "timer_only r (mg_heap m) (mg_heap (expire now q m))"
  by (simp add: expire_def timer_only_update)

lemma Notify_cell:
  assumes "mgr_ok m" and "r < length (mg_heap m)"
  shows "length (mg_heap (fst (Notify us now nv ev (m, st)))) = length (mg_heap m)"
    and "mg_heap (fst (Notify us now nv ev (m, st))) ! r =
      (if r \<in> set (snapshot (ev_ChannelID ev) m)
       then fst (cell us now ev (set_of (mg_pauses m) (ev_ChannelID ev)) st r (mg_heap m ! r)) else mg_heap m ! r)"
  using Notify_cells [OF assms(1), of us now nv ev st] assms(2) by auto

lemma cell_cases: "fst (cell us now ev paused st r s) = s \<or> (\<exists>over. fst (cell us now ev paused st r s) = fst (hit us now over ev r s))"
  by (auto simp: cell_def)

lemma run_flush_cell:
  assumes "mgr_ok m"
  shows "length (mg_heap (run_flush now q m)) = length (mg_heap m)"
    and "mg_heap (run_flush now q m) ! r = (if q \<in> set (mg_flushing m) \<and> q = r
      then fst (drainPendingLocked now r ((mg_heap m ! r)\<lparr>ws_debounceTimer := NoTimer\<rparr>)) else mg_heap m ! r)"
  using mgr_okD(7) [OF assms, of q]
  by (auto simp: run_flush_def flushDebounced_cell Let_def enqueue_opt_fold nth_list_update)

text \<open>What one command can do to the subscription at a reference.\<close>

lemma exec_cell:
  assumes "mgr_inv (m, st)" and "r < length (mg_heap m)"
  shows "r < length (mg_heap (fst (exec_mgr us up re cmd (m, st)))) \<and>
     ((\<exists>x. mg_heap (fst (exec_mgr us up re cmd (m, st))) ! r = (mg_heap m ! r)\<lparr>ws_debounceTimer := x\<rparr>) \<or>
      (\<exists>now nv ev over. cmd = MNotify now nv ev \<and>
         mg_heap (fst (exec_mgr us up re cmd (m, st))) ! r = fst (hit us now over ev r (mg_heap m ! r))) \<or>
      (\<exists>now. cmd = MFlush now r \<and>
         mg_heap (fst (exec_mgr us up re cmd (m, st))) ! r
           = fst (drainPendingLocked now r ((mg_heap m ! r)\<lparr>ws_debounceTimer := NoTimer\<rparr>))))"
proof -
  let ?m' = "fst (exec_mgr us up re cmd (m, st))"
  have ok: "mgr_ok m" using assms(1) by (simp add: mgr_inv_def)
  have timer: ?thesis if "timer_only r (mg_heap m) (mg_heap ?m')"
    using that assms(2) by (auto simp: timer_only_def)
  show ?thesis
  proof (cases cmd)
    case (MAdd sub)
    then show ?thesis
      using AddOrUpdate_timer_only [OF assms(2), of up re sub] by (intro timer) (auto split: sum.split)
  next
    case (MNotify now nv ev)
    have c: "mg_heap ?m' ! r = mg_heap m ! r \<or> (\<exists>over. mg_heap ?m' ! r = fst (hit us now over ev r (mg_heap m ! r)))"
      unfolding MNotify exec_mgr.simps Notify_cell [OF ok assms(2)] using cell_cases by auto
    have "length (mg_heap ?m') = length (mg_heap m)"
      unfolding MNotify exec_mgr.simps by (rule Notify_cell(1) [OF ok assms(2)])
    with c MNotify assms(2) show ?thesis
      by (auto intro: exI [of _ "ws_debounceTimer (mg_heap m ! r)"])
  next
    case (MFlush now q)
    then show ?thesis
      using run_flush_cell [OF ok, of now q] assms(2)
      by (auto intro: exI [of _ "ws_debounceTimer (mg_heap m ! r)"])
  qed (rule timer, simp add: assms(2) Reload_timer_only Remove_sub_timer_only expire_timer_only SetBotPaused_def pool_Stop_def)+
qed

section \<open>The tasks a command starts and queues\<close>

definition opt_list :: "'a option \<Rightarrow> 'a list" where
  "opt_list x = (case x of None \<Rightarrow> [] | Some y \<Rightarrow> [y])"

lemma fst_Notify:
  assumes "mgr_ok m"
  shows "fst (Notify us now nv ev (m, st)) =
     fold enqueue (new_tasks (cell us now ev (set_of (mg_pauses m) (ev_ChannelID ev)) st) (snapshot (ev_ChannelID ev) m) (mg_heap m))
       (m\<lparr>mg_heap := cells (cell us now ev (set_of (mg_pauses m) (ev_ChannelID ev)) st) (snapshot (ev_ChannelID ev) m) (mg_heap m)\<rparr>)"
  using Notify_cells [OF assms, of us now nv ev st] by auto

definition queue_part :: "Manager \<Rightarrow> fireTask list \<times> nat \<times> bool" where
  "queue_part m = (mg_tasks m, mg_dropped m, mg_stopped m)"

lemma queue_part_simps [simp]:
  "queue_part (m\<lparr>mg_heap := h\<rparr>) = queue_part m" "queue_part (m\<lparr>mg_subs := ss\<rparr>) = queue_part m"
  "queue_part (m\<lparr>mg_byChannel := b\<rparr>) = queue_part m" "queue_part (m\<lparr>mg_pauses := p\<rparr>) = queue_part m"
  "queue_part (m\<lparr>mg_flushing := f\<rparr>) = queue_part m"
  by (simp_all add: queue_part_def)

lemma queue_part_ops [simp]:
  "queue_part (stop_timer r m) = queue_part m" "queue_part (install live m) = queue_part m"
  "queue_part (setPausedLocked c b p m) = queue_part m" "queue_part (expire now r m) = queue_part m"
  by (simp_all add: stop_timer_def install_def indexByChannel_def setPausedLocked_def expire_def Let_def)

lemma queue_part_AddOrUpdate: "AddOrUpdate up re sub m = Inr m' \<Longrightarrow> queue_part m' = queue_part m"
  by (auto simp: AddOrUpdate_def Let_def split: sum.splits option.splits)

lemma queue_part_Remove_sub [simp]: "queue_part (Remove_sub i m) = queue_part m"
  by (simp add: Remove_sub_def Let_def split: option.split)

lemma queue_part_reload_subs: "queue_part (reload_subs up re subs m) = queue_part m"
  by (induction subs arbitrary: m) (simp_all split: sum.split)

lemma queue_part_reload_channels: "queue_part (fst (reload_channels up re st t chs m)) = queue_part m"
  by (induction chs arbitrary: m) (simp_all add: queue_part_reload_subs split: sum.split)

lemma queue_part_pauses: "queue_part (fold (\<lambda>p. setPausedLocked (f p) (g p) True) ps m) = queue_part m"
  by (induction ps arbitrary: m) simp_all

lemma queue_part_reload_tenants: "queue_part (fst (reload_tenants up re st ts m)) = queue_part m"
proof (induction ts arbitrary: m)
  case (Cons t ts)
  show ?case
  proof (cases "ListChannels (ten_ID t) st")
    case (Inr chs)
    obtain m1 e where m1: "reload_channels up re st (ten_ID t) chs m = (m1, e)" by fastforce
    then have "queue_part m1 = queue_part m"
      using queue_part_reload_channels [of up re st "ten_ID t" chs m] by simp
    with Inr m1 Cons show ?thesis by (simp add: queue_part_pauses split: option.split sum.split)
  qed simp
qed simp

lemma queue_part_Reload [simp]: "queue_part (fst (Reload up re st ts m)) = queue_part m"
  by (simp add: Reload_def queue_part_reload_tenants)

text \<open>The tasks a command hands to the worker pool.\<close>

fun started :: "(uuid \<Rightarrow> string) \<Rightarrow> mgr_cmd \<Rightarrow> Manager \<times> store \<Rightarrow> fireTask list" where
  "started us (MNotify now nv ev) (m, st) =
     new_tasks (cell us now ev (set_of (mg_pauses m) (ev_ChannelID ev)) st) (snapshot (ev_ChannelID ev) m) (mg_heap m)"
| "started us (MFlush now q) (m, st) =
     (if q \<in> set (mg_flushing m) then opt_list (snd (drainPendingLocked now q ((mg_heap m ! q)\<lparr>ws_debounceTimer := NoTimer\<rparr>))) else [])"
| "started us _ _ = []"

text \<open>The tasks a command adds to the queue, and the one a worker takes from it.\<close>

definition queued :: "(uuid \<Rightarrow> string) \<Rightarrow> (string \<Rightarrow> uuid option) \<Rightarrow> (string \<Rightarrow> (string \<Rightarrow> bool) option)
    \<Rightarrow> mgr_cmd \<Rightarrow> Manager \<times> store \<Rightarrow> fireTask list" where
  "queued us up re cmd ms = (case cmd of
       MTake \<Rightarrow> []
     | _ \<Rightarrow> drop (length (mg_tasks (fst ms))) (mg_tasks (fst (exec_mgr us up re cmd ms))))"

definition taken :: "mgr_cmd \<Rightarrow> Manager \<times> store \<Rightarrow> fireTask list" where
  "taken cmd ms = (case cmd of MTake \<Rightarrow> take 1 (mg_tasks (fst ms)) | _ \<Rightarrow> [])"

lemma exec_queue:
  assumes "mgr_ok m" and "cmd \<noteq> MTake"
  shows "mg_tasks (fst (exec_mgr us up re cmd (m, st))) = mg_tasks (fold enqueue (started us cmd (m, st)) m)
    \<and> mg_dropped (fst (exec_mgr us up re cmd (m, st))) = mg_dropped (fold enqueue (started us cmd (m, st)) m)
    \<and> (mg_stopped m \<longrightarrow> mg_stopped (fst (exec_mgr us up re cmd (m, st))))"
proof -
  let ?m' = "fst (exec_mgr us up re cmd (m, st))"
  have quiet: ?thesis if "queue_part ?m' = queue_part m" "started us cmd (m, st) = []"
    using that by (simp add: queue_part_def)
  show ?thesis
  proof (cases cmd)
    case (MAdd sub)
    then show ?thesis using queue_part_AddOrUpdate [of up re sub m] by (intro quiet) (auto split: sum.split)
  next
    case (MNotify now nv ev)
    then show ?thesis by (simp add: fst_Notify [OF assms(1)] fold_enqueue_heap)
  next
    case (MFlush now q)
    have e: "enqueue_opt x (m\<lparr>mg_flushing := f, mg_heap := h\<rparr>) = (fold enqueue (opt_list x) m)\<lparr>mg_flushing := f, mg_heap := h\<rparr>" for x f h
      by (simp add: enqueue_opt_def opt_list_def enqueue_def split: option.split)
    show ?thesis by (simp add: MFlush run_flush_def flushDebounced_cell Let_def e)
  next
    case MStop
    then show ?thesis by (simp add: pool_Stop_def)
  next
    case MTake
    with assms(2) show ?thesis by simp
  qed (rule quiet; simp add: SetBotPaused_def)+
qed

text \<open>Each task handed to the pool is queued (\<open>True\<close>) or dropped; a pool that runs counts the dropped ones.\<close>

lemma enqueue_flags:
  "\<exists>fs. length fs = length ts \<and> mg_tasks (fold enqueue ts m) = mg_tasks m @ map fst (filter snd (zip ts fs))
     \<and> (\<not> mg_stopped m \<longrightarrow> mg_dropped (fold enqueue ts m) = mg_dropped m + length (filter Not fs))"
proof (induction ts arbitrary: m)
  case (Cons t ts)
  define f where "f = (\<not> mg_stopped m \<and> length (mg_tasks m) < cf_QueueDepth (mg_cfg m))"
  obtain fs where fs: "length fs = length ts"
      "mg_tasks (fold enqueue ts (enqueue t m)) = mg_tasks (enqueue t m) @ map fst (filter snd (zip ts fs))"
      "\<not> mg_stopped m \<longrightarrow> mg_dropped (fold enqueue ts (enqueue t m)) = mg_dropped (enqueue t m) + length (filter Not fs)"
    using Cons [of "enqueue t m"] by auto
  have "mg_tasks (enqueue t m) = mg_tasks m @ (if f then [t] else [])"
    "\<not> mg_stopped m \<Longrightarrow> mg_dropped (enqueue t m) = mg_dropped m + (if f then 0 else 1)"
    by (auto simp: f_def enqueue_def)
  with fs show ?case by (intro exI [of _ "f # fs"]) auto
qed simp

lemma queued_started: "mgr_ok m \<Longrightarrow> set (queued us up re cmd (m, st)) \<subseteq> set (started us cmd (m, st))"
proof (cases "cmd = MTake")
  case False
  assume "mgr_ok m"
  then obtain new where "mg_tasks (fst (exec_mgr us up re cmd (m, st))) = mg_tasks m @ new" "set new \<subseteq> set (started us cmd (m, st))"
    using exec_queue [OF _ False] tasks_fold_append [of "started us cmd (m, st)" m] by metis
  then show ?thesis using False by (cases cmd) (auto simp: queued_def)
qed (simp add: queued_def)

lemma opt_tasks_drain: "map ft_sub (opt_list (snd (drainPendingLocked now q s))) = (if ws_pendingMatches s = [] then [] else [q])"
  by (simp add: drainPendingLocked_def opt_list_def)

lemma new_tasks_subs: "map ft_sub (new_tasks (cell us now ev paused st) rs h) = filter (\<lambda>r. snd (cell us now ev paused st r (h ! r)) \<noteq> None) rs"
  by (induction rs) (auto simp: new_tasks_def List.map_filter_def dest: cell_task)

text \<open>No command starts two tasks for one subscription.\<close>

lemma started_distinct: "mgr_ok m \<Longrightarrow> distinct (map ft_sub (started us cmd (m, st)))"
  using snapshot_distinct by (cases cmd) (auto simp: new_tasks_subs opt_tasks_drain)

section \<open>The cooldown separates fires\<close>

fun cmd_time :: "mgr_cmd \<Rightarrow> gotime option" where
  "cmd_time (MNotify now nv ev) = Some now"
| "cmd_time (MExpire now r) = Some now"
| "cmd_time (MFlush now r) = Some now"
| "cmd_time _ = None"

text \<open>The clock readings of a run do not go back, from \<open>t\<close> on.\<close>

fun timed :: "gotime \<Rightarrow> mgr_cmd list \<Rightarrow> bool" where
  "timed t [] = True"
| "timed t (c # cs) = (case cmd_time c of None \<Rightarrow> timed t cs | Some u \<Rightarrow> t \<le> u \<and> timed u cs)"

text \<open>The clock readings at which tasks of the subscription at \<open>r\<close> enter the queue during a run, one for each task.\<close>

fun fire_times :: "(uuid \<Rightarrow> string) \<Rightarrow> (string \<Rightarrow> uuid option) \<Rightarrow> (string \<Rightarrow> (string \<Rightarrow> bool) option)
    \<Rightarrow> nat \<Rightarrow> mgr_cmd list \<Rightarrow> Manager \<times> store \<Rightarrow> gotime list" where
  "fire_times us up re r [] ms = []"
| "fire_times us up re r (c # cs) ms =
     map (\<lambda>_. case cmd_time c of None \<Rightarrow> 0 | Some now \<Rightarrow> now) (filter (\<lambda>t. ft_sub t = r) (queued us up re c ms))
       @ fire_times us up re r cs (exec_mgr us up re c ms)"

definition cooled :: "gotime \<Rightarrow> LiveSub \<Rightarrow> bool" where
  "cooled t s \<longleftrightarrow> ws_lastFire s \<le> t \<and> (ws_pendingMatches s \<noteq> [] \<longrightarrow> ws_lastFire s \<noteq> 0 \<longrightarrow>
     ws_CooldownMs s * Millisecond \<le> t - ws_lastFire s)"

text \<open>One step of the subscription: it stays cooled, and if it fires the cooldown has passed.\<close>

definition good_step :: "gotime \<Rightarrow> LiveSub \<Rightarrow> LiveSub \<Rightarrow> bool" where
  "good_step now s s' \<longleftrightarrow> cooled now s' \<and> ws_CooldownMs s' = ws_CooldownMs s \<and>
     (ws_lastFire s' \<noteq> ws_lastFire s \<longrightarrow> ws_lastFire s' = now \<and>
        (ws_lastFire s \<noteq> 0 \<longrightarrow> ws_CooldownMs s * Millisecond \<le> now - ws_lastFire s))"

lemma cooled_mono: "cooled t s \<Longrightarrow> t \<le> u \<Longrightarrow> cooled u s"
  by (auto simp: cooled_def)

lemma good_step_drain: "cooled t s \<Longrightarrow> t \<le> now \<Longrightarrow> good_step now s (fst (drainPendingLocked now r s))"
  by (auto simp: good_step_def cooled_def drainPendingLocked_def)

lemma ms_Duration_id: "0 < c \<Longrightarrow> c * Millisecond < 2 ^ 63 \<Longrightarrow> ms_Duration c = c * Millisecond"
  unfolding ms_Duration_def by (rule int64_id) (simp_all add: Millisecond_def)

lemma good_step_hit:
  assumes "cooled t s" and "t \<le> now" and "0 < ws_CooldownMs s" and "ws_CooldownMs s * Millisecond < 2 ^ 63"
  shows "good_step now s (fst (hit us now over ev r s))"
proof (cases "in_cooldown now s \<or> over")
  case True
  then show ?thesis using assms(1,2) cooled_mono by (auto simp: hit_def good_step_def)
next
  case False
  then have cool: "ws_lastFire s \<noteq> 0 \<Longrightarrow> ws_CooldownMs s * Millisecond \<le> now - ws_lastFire s"
    using assms(3,4) by (simp add: in_cooldown_def ms_Duration_id IsZero_def)
  let ?s = "accumulate us ev s"
  have acc: "cooled now ?s" using cool assms(1,2) by (simp add: cooled_def)
  then have "good_step now ?s (fst (drainPendingLocked now r ?s))" by (rule good_step_drain) simp
  then have "good_step now s (fst (drainPendingLocked now r ?s))" by (simp add: good_step_def)
  moreover have "good_step now s ?s" "good_step now s (?s\<lparr>ws_debounceTimer := x\<rparr>)" for x
    using acc by (simp_all add: good_step_def cooled_def)
  ultimately show ?thesis using False by (simp add: hit_def Let_def)
qed

lemma good_step_timer: "cooled t s \<Longrightarrow> t \<le> now \<Longrightarrow> good_step now s (s\<lparr>ws_debounceTimer := x\<rparr>)"
  by (auto simp: good_step_def cooled_def)

lemma exec_good_step:
  assumes "mgr_inv (m, st)" and "r < length (mg_heap m)" and "cooled t (mg_heap m ! r)"
    and "0 < ws_CooldownMs (mg_heap m ! r)" and "ws_CooldownMs (mg_heap m ! r) * Millisecond < 2 ^ 63"
    and "case cmd_time cmd of None \<Rightarrow> now = t | Some u \<Rightarrow> t \<le> u \<and> now = u"
  shows "good_step now (mg_heap m ! r) (mg_heap (fst (exec_mgr us up re cmd (m, st))) ! r)"
proof -
  let ?s = "mg_heap m ! r" and ?s' = "mg_heap (fst (exec_mgr us up re cmd (m, st))) ! r"
  have le: "t \<le> now" using assms(6) by (cases "cmd_time cmd") auto
  consider (timer) x where "?s' = ?s\<lparr>ws_debounceTimer := x\<rparr>"
    | (notify) u nv ev over where "cmd = MNotify u nv ev" "?s' = fst (hit us u over ev r ?s)"
    | (flush) u where "cmd = MFlush u r" "?s' = fst (drainPendingLocked u r (?s\<lparr>ws_debounceTimer := NoTimer\<rparr>))"
    using exec_cell [OF assms(1,2), of us up re cmd] by blast
  then show ?thesis
  proof cases
    case timer
    then show ?thesis using good_step_timer [OF assms(3) le] by simp
  next
    case notify
    then show ?thesis using good_step_hit [OF assms(3) le assms(4,5)] assms(6) by simp
  next
    case flush
    have "cooled t (?s\<lparr>ws_debounceTimer := NoTimer\<rparr>)" using assms(3) by (simp add: cooled_def)
    from good_step_drain [OF this le, of r] flush assms(6) show ?thesis by (simp add: good_step_def)
  qed
qed

text \<open>A task of the subscription starts its cooldown.\<close>

lemma drain_fires: "snd (drainPendingLocked now r s) = Some t \<Longrightarrow> ws_lastFire (fst (drainPendingLocked now r s)) = now"
  by (auto simp: drainPendingLocked_def split: if_splits)

lemma cell_fires: "snd (cell us now ev paused st r s) = Some t \<Longrightarrow> ws_lastFire (fst (cell us now ev paused st r s)) = now"
  by (auto simp: cell_def hit_def Let_def drain_fires split: if_splits)

lemma started_fires:
  assumes "mgr_ok m" and "r < length (mg_heap m)" and "t \<in> set (started us cmd (m, st))" and "ft_sub t = r"
  shows "cmd_time cmd = Some (ws_lastFire (mg_heap (fst (exec_mgr us up re cmd (m, st))) ! r))"
proof (cases cmd)
  case (MNotify now nv ev)
  let ?f = "cell us now ev (set_of (mg_pauses m) (ev_ChannelID ev)) st" and ?rs = "snapshot (ev_ChannelID ev) m"
  obtain q where q: "q \<in> set ?rs" "snd (?f q (mg_heap m ! q)) = Some t"
    using assms(3) by (auto simp: MNotify new_tasks_iff)
  with assms(4) have "q = r" using cell_task by fastforce
  with q show ?thesis using cell_fires Notify_cell(2) [OF assms(1,2)] by (simp add: MNotify)
next
  case (MFlush now q)
  then have q: "q \<in> set (mg_flushing m)" "snd (drainPendingLocked now q ((mg_heap m ! q)\<lparr>ws_debounceTimer := NoTimer\<rparr>)) = Some t"
    using assms(3) by (auto simp: opt_list_def split: if_splits option.splits)
  with assms(4) have "q = r" by (auto simp: drainPendingLocked_def split: if_splits)
  with q show ?thesis using drain_fires run_flush_cell(2) [OF assms(1)] by (simp add: MFlush)
qed (use assms(3) in simp_all)

lemma cell_cool: "snd (cell us now ev paused st r s) = Some t \<Longrightarrow> \<not> in_cooldown now s"
  by (auto simp: cell_def hit_def Let_def split: if_splits)

lemma started_cool:
  assumes "mgr_ok m" and "t \<in> set (started us cmd (m, st))" and "ft_sub t = r" and "cooled t0 (mg_heap m ! r)"
    and "0 < ws_CooldownMs (mg_heap m ! r)" and "ws_CooldownMs (mg_heap m ! r) * Millisecond < 2 ^ 63"
    and "cmd_time cmd = Some now \<and> t0 \<le> now" and "ws_lastFire (mg_heap m ! r) \<noteq> 0"
  shows "ws_CooldownMs (mg_heap m ! r) * Millisecond \<le> now - ws_lastFire (mg_heap m ! r)"
proof (cases cmd)
  case (MNotify u nv ev)
  let ?f = "cell us u ev (set_of (mg_pauses m) (ev_ChannelID ev)) st"
  obtain q where q: "snd (?f q (mg_heap m ! q)) = Some t"
    using assms(2) by (auto simp: MNotify new_tasks_iff)
  with assms(3) have "q = r" using cell_task by fastforce
  with cell_cool [OF q] assms(5-8) show ?thesis
    by (simp add: MNotify in_cooldown_def IsZero_def ms_Duration_id)
next
  case (MFlush u q)
  then have "snd (drainPendingLocked u q ((mg_heap m ! q)\<lparr>ws_debounceTimer := NoTimer\<rparr>)) = Some t"
    using assms(2) by (auto simp: opt_list_def split: if_splits option.splits)
  with assms(3) have "q = r" "ws_pendingMatches (mg_heap m ! r) \<noteq> []" by (auto simp: drainPendingLocked_def split: if_splits)
  with assms(4,7,8) MFlush show ?thesis by (simp add: cooled_def)
qed (use assms(2) in simp_all)

lemma queued_once:
  assumes "mgr_ok m"
  shows "length (filter (\<lambda>t. ft_sub t = r) (queued us up re cmd (m, st))) \<le> 1"
proof (cases "cmd = MTake")
  case False
  obtain fs where fs: "mg_tasks (fold enqueue (started us cmd (m, st)) m)
      = mg_tasks m @ map fst (filter snd (zip (started us cmd (m, st)) fs))" "length fs = length (started us cmd (m, st))"
    using enqueue_flags by blast
  have q: "queued us up re cmd (m, st) = map fst (filter snd (zip (started us cmd (m, st)) fs))"
    using exec_queue [OF assms False, of us up re st] fs False by (cases cmd) (auto simp: queued_def)
  have "length (filter (\<lambda>p. snd p \<and> ft_sub (fst p) = r) (zip xs bs)) \<le> 1" if "distinct (map ft_sub xs)" for xs bs
    using that
  proof (induction xs arbitrary: bs)
    case (Cons x xs)
    have "filter (\<lambda>p. snd p \<and> ft_sub (fst p) = ft_sub x) (zip xs cs) = []" for cs
      using Cons.prems by (auto simp: filter_empty_conv dest!: set_zip_leftD) (metis imageI)
    with Cons show ?case by (cases bs) auto
  qed simp
  from this [OF started_distinct [OF assms]] show ?thesis unfolding q by (simp add: filter_map comp_def)
qed (simp add: queued_def)

lemma fire_times_spaced:
  assumes "mgr_inv ms" and "r < length (mg_heap (fst ms))" and "cooled t (mg_heap (fst ms) ! r)" and "timed t cmds"
    and "ws_CooldownMs (mg_heap (fst ms) ! r) = c" and "0 < c" and "c * Millisecond < 2 ^ 63" and "0 < t"
  shows "successively (\<lambda>a b. c * Millisecond \<le> b - a) (fire_times us up re r cmds ms)
    \<and> (ws_lastFire (mg_heap (fst ms) ! r) \<noteq> 0 \<longrightarrow> fire_times us up re r cmds ms \<noteq> [] \<longrightarrow>
         c * Millisecond \<le> hd (fire_times us up re r cmds ms) - ws_lastFire (mg_heap (fst ms) ! r))"
  using assms(1-5,8)
proof (induction cmds arbitrary: ms t)
  case (Cons cmd cmds)
  define now where "now = (case cmd_time cmd of None \<Rightarrow> t | Some u \<Rightarrow> u)"
  define ms' where "ms' = exec_mgr us up re cmd ms"
  obtain m st where ms: "ms = (m, st)" by (cases ms)
  have ok: "mgr_ok m" using Cons.prems(1) ms by (simp add: mgr_inv_def)
  let ?s = "mg_heap m ! r" and ?s' = "mg_heap (fst ms') ! r"
  let ?mine = "filter (\<lambda>t. ft_sub t = r) (queued us up re cmd ms)"
  have step: "good_step now ?s ?s'"
    unfolding ms'_def ms
    by (rule exec_good_step [of _ _ _ t]) (use Cons.prems assms(6,7) ms in \<open>auto simp: now_def split: option.splits\<close>)
  have now: "timed now cmds" "t \<le> now" using Cons.prems(4) by (auto simp: now_def split: option.splits)
  have ih: "successively (\<lambda>a b. c * Millisecond \<le> b - a) (fire_times us up re r cmds ms')
    \<and> (ws_lastFire ?s' \<noteq> 0 \<longrightarrow> fire_times us up re r cmds ms' \<noteq> [] \<longrightarrow>
         c * Millisecond \<le> hd (fire_times us up re r cmds ms') - ws_lastFire ?s')"
  proof (rule Cons.IH [where t = now])
    show "mgr_inv ms'" unfolding ms'_def by (rule exec_mgr_inv [OF Cons.prems(1)])
    show "r < length (mg_heap (fst ms'))"
      unfolding ms'_def ms using exec_cell [of m st r us up re cmd] Cons.prems(1,2) ms by simp
  qed (use step now Cons.prems(5,6) ms in \<open>simp_all add: good_step_def\<close>)
  have mine: "map (\<lambda>_. case cmd_time cmd of None \<Rightarrow> 0 | Some u \<Rightarrow> u) ?mine = [] \<or>
      map (\<lambda>_. case cmd_time cmd of None \<Rightarrow> 0 | Some u \<Rightarrow> u) ?mine = [now] \<and> ws_lastFire ?s' = now"
  proof (cases ?mine)
    case (Cons x xs)
    have x: "x \<in> set (started us cmd (m, st))" "ft_sub x = r"
      using queued_started [OF ok, of us up re cmd st] Cons ms by (auto simp: filter_eq_Cons_iff)
    have "cmd_time cmd = Some (ws_lastFire ?s')"
      using started_fires [OF ok _ x] Cons.prems(2) ms by (simp add: ms'_def)
    with queued_once [OF ok, of r us up re cmd st] Cons ms show ?thesis by (auto simp: now_def)
  qed simp
  have low: "ws_lastFire ?s \<le> t" using Cons.prems(3) ms by (simp add: cooled_def)
  have jump: "ws_lastFire ?s' \<noteq> ws_lastFire ?s \<Longrightarrow> ws_lastFire ?s' = now \<and> (ws_lastFire ?s \<noteq> 0 \<longrightarrow> c * Millisecond \<le> now - ws_lastFire ?s)"
    using step Cons.prems(5) ms by (simp add: good_step_def)
  have times: "fire_times us up re r (cmd # cmds) ms
      = map (\<lambda>_. case cmd_time cmd of None \<Rightarrow> 0 | Some u \<Rightarrow> u) ?mine @ fire_times us up re r cmds ms'"
    by (simp add: ms'_def)
  show ?case
  proof (cases "fire_times us up re r (cmd # cmds) ms = fire_times us up re r cmds ms'")
    case True
    have "ws_lastFire ?s' = ws_lastFire ?s \<or> ws_lastFire ?s' = now" using jump by blast
    then show ?thesis using ih low now(2) Cons.prems(6) ms unfolding True by auto
  next
    case False
    with mine times have new: "fire_times us up re r (cmd # cmds) ms = now # fire_times us up re r cmds ms'" "ws_lastFire ?s' = now"
      by auto
    obtain x where "x \<in> set (queued us up re cmd ms)" "ft_sub x = r"
      using False times by (auto simp: filter_empty_conv)
    then have x: "x \<in> set (started us cmd (m, st))" "ft_sub x = r" using queued_started [OF ok] ms by blast+
    have "cmd_time cmd = Some now"
      using started_fires [OF ok _ x, of up re] Cons.prems(2) ms by (simp add: now_def)
    then have "c * Millisecond \<le> now - ws_lastFire ?s" if "ws_lastFire ?s \<noteq> 0"
      using started_cool [OF ok x, of t now] Cons.prems(3,5) assms(6,7) now(2) that ms by simp
    with ih new now(2) Cons.prems(6) ms show ?thesis by (auto simp: successively_Cons)
  qed
qed simp

text \<open>
  Property C17. The cooldown is honoured whatever happens in between: take a live subscription with a
  cooldown (in milliseconds, small enough for a 64-bit duration), from the moment it is cached (it has not fired and holds no
  match), through any interleaving of messages, debounce timers, callbacks, worker takes, pauses, updates, reloads and
  removals with clock readings that do not go back. Whenever two tasks of it enter the worker queue one after the other, the
  clock readings of the commands that queued them are at least the cooldown apart. The cooldown belongs to the live object: an update or a reload
  of the subscription installs a new one, which has not fired.
\<close>

theorem cooldown_separates_fires:
  assumes "mgr_inv ms" and "r < length (mg_heap (fst ms))" and "mg_heap (fst ms) ! r = s"
    and "ws_lastFire s = 0" and "ws_pendingMatches s = []"
    and "0 < ws_CooldownMs s" and "ws_CooldownMs s * Millisecond < 2 ^ 63" and "0 < t" and "timed t cmds"
  shows "successively (\<lambda>a b. ws_CooldownMs s * Millisecond \<le> b - a) (fire_times us up re r cmds ms)"
  using fire_times_spaced [of ms r t cmds "ws_CooldownMs s" us up re] assms by (simp add: cooled_def)

definition cooled_manager :: Manager where
  "cooled_manager = install ((sample_sub 50)\<lparr>ws_CooldownMs := 1000\<rparr>)
     (NewManager \<lparr>cf_Workers = 0, cf_QueueDepth = 0, cf_HTTPTimeout = 0, cf_MaxRetries = 0, cf_AutoDisable4xx = 0\<rparr>)"

lemma cooled_manager_inv: "mgr_inv (cooled_manager, Migrate)"
proof -
  have "mgr_ok (NewManager c)" for c using mgr_inv_New [of c] by (simp add: mgr_inv_def)
  then have "mgr_ok cooled_manager"
    unfolding cooled_manager_def by (rule mgr_ok_install) (simp add: NewManager_def)
  then show ?thesis by (simp add: mgr_inv_def store_ok_Migrate)
qed

text \<open>A window of 50 ms and a cooldown of one second: a batch, a message that falls into the cooldown, and a second batch.\<close>

definition cooled_run :: "mgr_cmd list" where
  "cooled_run = [MNotify 5 (\<lambda>_. None) sample_event, MExpire 60000000 0, MFlush 60000001 0, MNotify 70000000 (\<lambda>_. None) sample_event,
     MNotify 1070000000 (\<lambda>_. None) sample_event, MTake, MExpire 1200000000 0, MFlush 1200000000 0]"

lemma cooled_run_fires:
  "fire_times (\<lambda>_. ''u'') (\<lambda>_. None) (\<lambda>_. None) 0 cooled_run (cooled_manager, Migrate) = [60000001, 1200000000]"
  by code_simp

theorem cooldown_separates_fires_witness:
  "fire_times (\<lambda>_. ''u'') (\<lambda>_. None) (\<lambda>_. None) 0 cooled_run (cooled_manager, Migrate) = [60000001, 1200000000]
   \<and> successively (\<lambda>a b. 1000 * Millisecond \<le> b - a)
       (fire_times (\<lambda>_. ''u'') (\<lambda>_. None) (\<lambda>_. None) 0 cooled_run (cooled_manager, Migrate))"
  using cooled_run_fires cooldown_separates_fires [OF cooled_manager_inv, of 0 "(sample_sub 50)\<lparr>ws_CooldownMs := 1000\<rparr>" 1
      cooled_run "\<lambda>_. ''u''" "\<lambda>_. None" "\<lambda>_. None"]
  by (simp add: cooled_manager_def NewManager_def sample_sub_def Millisecond_def cooled_run_def)

section \<open>Debouncing loses no match\<close>

definition msg_of :: "(uuid \<Rightarrow> string) \<Rightarrow> Event \<Rightarrow> Message" where
  "msg_of us ev = \<lparr>wm_From = us (ev_From ev), wm_DisplayName = ev_DisplayName ev, wm_TS = ev_TS ev, wm_Body = ev_Body ev\<rparr>"

text \<open>The messages of the batches started for a subscription.\<close>

definition batches :: "nat \<Rightarrow> fireTask list \<Rightarrow> Message list" where
  "batches r ts = concat (map ft_matches (filter (\<lambda>t. ft_sub t = r) ts))"

text \<open>The message a command makes the subscription at \<open>r\<close> accept: it matches, no pause, cooldown or budget stops it.\<close>

fun accepted :: "(uuid \<Rightarrow> string) \<Rightarrow> nat \<Rightarrow> mgr_cmd \<Rightarrow> Manager \<times> store \<Rightarrow> Message list" where
  "accepted us r (MNotify now nv ev) (m, st) =
     (if r \<in> set (snapshot (ev_ChannelID ev) m) \<and> matches ev (mg_heap m ! r)
         \<and> \<not> IsBotPaused (ev_ChannelID ev) (ws_AccountID (mg_heap m ! r)) m
         \<and> \<not> in_cooldown now (mg_heap m ! r) \<and> \<not> over_budget now (mg_heap m ! r) st
      then [msg_of us ev] else [])"
| "accepted us r _ _ = []"

fun accepted_run :: "(uuid \<Rightarrow> string) \<Rightarrow> (string \<Rightarrow> uuid option) \<Rightarrow> (string \<Rightarrow> (string \<Rightarrow> bool) option)
    \<Rightarrow> nat \<Rightarrow> mgr_cmd list \<Rightarrow> Manager \<times> store \<Rightarrow> Message list" where
  "accepted_run us up re r [] ms = []"
| "accepted_run us up re r (c # cs) ms = accepted us r c ms @ accepted_run us up re r cs (exec_mgr us up re c ms)"

lemma batches_append [simp]: "batches r (a @ b) = batches r a @ batches r b"
  by (simp add: batches_def)

lemma accumulate_pending [simp]: "ws_pendingMatches (accumulate us ev s) = ws_pendingMatches s @ [msg_of us ev]"
  by (simp add: accumulate_def msg_of_def Let_def)

lemma drain_conserves:
  "batches r (opt_list (snd (drainPendingLocked now r s))) @ ws_pendingMatches (fst (drainPendingLocked now r s)) = ws_pendingMatches s"
  by (simp add: drainPendingLocked_def opt_list_def batches_def)

lemma cell_conserves:
  "batches r (opt_list (snd (cell us now ev paused st r s))) @ ws_pendingMatches (fst (cell us now ev paused st r s))
     = ws_pendingMatches s @ (if matches ev s \<and> ws_AccountID s \<notin> set paused \<and> \<not> in_cooldown now s \<and> \<not> over_budget now s st
         then [msg_of us ev] else [])"
  using drain_conserves [of r now "accumulate us ev s"]
  by (auto simp: cell_def hit_def Let_def) (simp_all add: opt_list_def batches_def)

lemma batches_new_tasks:
  assumes "distinct rs"
  shows "batches r (new_tasks (cell us now ev paused st) rs h)
     = (if r \<in> set rs then batches r (opt_list (snd (cell us now ev paused st r (h ! r)))) else [])"
  using assms
proof (induction rs)
  case (Cons q rs)
  have split: "new_tasks (cell us now ev paused st) (q # rs) h
      = opt_list (snd (cell us now ev paused st q (h ! q))) @ new_tasks (cell us now ev paused st) rs h"
    by (auto simp: new_tasks_def opt_list_def List.map_filter_def split: option.split)
  have other: "batches r (opt_list (snd (cell us now ev paused st q (h ! q)))) = []" if "q \<noteq> r"
    using that cell_task [of us now ev paused st q "h ! q"] by (auto simp: batches_def opt_list_def split: option.split)
  show ?case
    unfolding split batches_append using Cons other by auto
qed (simp add: new_tasks_def batches_def List.map_filter_def)

fun queued_run :: "(uuid \<Rightarrow> string) \<Rightarrow> (string \<Rightarrow> uuid option) \<Rightarrow> (string \<Rightarrow> (string \<Rightarrow> bool) option)
    \<Rightarrow> mgr_cmd list \<Rightarrow> Manager \<times> store \<Rightarrow> fireTask list" where
  "queued_run us up re [] ms = []"
| "queued_run us up re (c # cs) ms = queued us up re c ms @ queued_run us up re cs (exec_mgr us up re c ms)"

fun taken_run :: "(uuid \<Rightarrow> string) \<Rightarrow> (string \<Rightarrow> uuid option) \<Rightarrow> (string \<Rightarrow> (string \<Rightarrow> bool) option)
    \<Rightarrow> mgr_cmd list \<Rightarrow> Manager \<times> store \<Rightarrow> fireTask list" where
  "taken_run us up re [] ms = []"
| "taken_run us up re (c # cs) ms = taken c ms @ taken_run us up re cs (exec_mgr us up re c ms)"

lemma started_conserves:
  assumes "mgr_inv (m, st)" and "r < length (mg_heap m)"
  shows "batches r (started us cmd (m, st)) @ ws_pendingMatches (mg_heap (fst (exec_mgr us up re cmd (m, st))) ! r)
     = ws_pendingMatches (mg_heap m ! r) @ accepted us r cmd (m, st)"
proof -
  have ok: "mgr_ok m" using assms(1) by (simp add: mgr_inv_def)
  let ?m' = "fst (exec_mgr us up re cmd (m, st))"
  have quiet: ?thesis if "timer_only r (mg_heap m) (mg_heap ?m')" "started us cmd (m, st) = []" "accepted us r cmd (m, st) = []"
    using that by (auto simp: timer_only_def batches_def)
  show ?thesis
  proof (cases cmd)
    case (MAdd sub)
    show ?thesis
    proof (rule quiet)
      show "timer_only r (mg_heap m) (mg_heap ?m')"
        using MAdd AddOrUpdate_timer_only [OF assms(2), of up re sub] by (auto split: sum.split)
    qed (simp_all add: MAdd)
  next
    case (MNotify now nv ev)
    then show ?thesis
      using cell_conserves [of r us now ev "set_of (mg_pauses m) (ev_ChannelID ev)" st "mg_heap m ! r"]
        Notify_cell(2) [OF ok assms(2), of us now nv ev st]
      by (simp add: batches_new_tasks [OF snapshot_distinct [OF ok]] IsBotPaused_set)
  next
    case (MFlush now q)
    have "batches r (opt_list (snd (drainPendingLocked now q s))) = []" if "q \<noteq> r" for s
      using that by (simp add: batches_def opt_list_def drainPendingLocked_def)
    then show ?thesis
      using drain_conserves [of r now "(mg_heap m ! r)\<lparr>ws_debounceTimer := NoTimer\<rparr>"] run_flush_cell(2) [OF ok, of now q r]
      by (cases "q = r"; cases "q \<in> set (mg_flushing m)") (simp_all add: MFlush, simp_all add: batches_def)
  qed (rule quiet; simp add: Reload_timer_only [OF assms(2)] Remove_sub_timer_only expire_timer_only SetBotPaused_def pool_Stop_def)+
qed

lemma started_nonempty: "t \<in> set (started us cmd (m, st)) \<Longrightarrow> ft_matches t \<noteq> []"
  by (cases cmd) (auto simp: new_tasks_iff opt_list_def cell_def hit_def drainPendingLocked_def Let_def split: if_splits option.splits)

text \<open>The batches of one subscription among flagged tasks.\<close>

definition flagged :: "nat \<Rightarrow> fireTask list \<Rightarrow> bool list \<Rightarrow> (Message list \<times> bool) list" where
  "flagged r ts fs = map (\<lambda>(t, f). (ft_matches t, f)) (filter (\<lambda>(t, f). ft_sub t = r) (zip ts fs))"

lemma flagged_props:
  "length fs = length ts \<Longrightarrow> concat (map fst (flagged r ts fs)) = batches r ts
     \<and> map fst (filter snd (flagged r ts fs)) = map ft_matches (filter (\<lambda>t. ft_sub t = r) (map fst (filter snd (zip ts fs))))
     \<and> length (filter (\<lambda>b. \<not> snd b) (flagged r ts fs)) \<le> length (filter Not fs)
     \<and> fst ` set (flagged r ts fs) \<subseteq> ft_matches ` set ts"
  by (induction ts fs rule: list_induct2') (auto simp: flagged_def batches_def)

lemma exec_batches:
  assumes "mgr_inv (m, st)" and "r < length (mg_heap m)"
  obtains bs where
    "ws_pendingMatches (mg_heap m ! r) @ accepted us r cmd (m, st)
       = concat (map fst bs) @ ws_pendingMatches (mg_heap (fst (exec_mgr us up re cmd (m, st))) ! r)"
    and "map ft_matches (filter (\<lambda>t. ft_sub t = r) (queued us up re cmd (m, st))) = map fst (filter snd bs)"
    and "[] \<notin> fst ` set bs"
    and "mg_tasks m @ queued us up re cmd (m, st) = taken cmd (m, st) @ mg_tasks (fst (exec_mgr us up re cmd (m, st)))"
    and "\<not> mg_stopped m \<longrightarrow> mg_dropped m + length (filter (\<lambda>b. \<not> snd b) bs) \<le> mg_dropped (fst (exec_mgr us up re cmd (m, st)))"
    and "mg_stopped m \<longrightarrow> mg_stopped (fst (exec_mgr us up re cmd (m, st)))"
proof (cases "cmd = MTake")
  case True
  show ?thesis
    by (rule that [of "[]"]) (cases "mg_tasks m"; simp add: True queued_def taken_def)+
next
  case False
  let ?ts = "started us cmd (m, st)" and ?m' = "fst (exec_mgr us up re cmd (m, st))"
  have ok: "mgr_ok m" using assms(1) by (simp add: mgr_inv_def)
  obtain fs where fs: "length fs = length ?ts" "mg_tasks (fold enqueue ?ts m) = mg_tasks m @ map fst (filter snd (zip ?ts fs))"
    "\<not> mg_stopped m \<longrightarrow> mg_dropped (fold enqueue ?ts m) = mg_dropped m + length (filter Not fs)"
    using enqueue_flags by blast
  note q = exec_queue [OF ok False, of us up re st] and b = flagged_props [OF fs(1), of r]
  have new: "queued us up re cmd (m, st) = map fst (filter snd (zip ?ts fs))"
    using q fs(2) False by (cases cmd) (auto simp: queued_def)
  show ?thesis
  proof (rule that [of "flagged r ?ts fs"])
    have "fst ` set (flagged r ?ts fs) \<subseteq> ft_matches ` set ?ts" using b by blast
    moreover have "[] \<notin> ft_matches ` set ?ts" using started_nonempty [of _ us cmd m st] by (metis imageE)
    ultimately show "[] \<notin> fst ` set (flagged r ?ts fs)" by blast
    show "mg_tasks m @ queued us up re cmd (m, st) = taken cmd (m, st) @ mg_tasks ?m'"
      using q fs(2) new False by (cases cmd) (simp_all add: taken_def)
  qed (use b q fs(3) new started_conserves [OF assms, of us cmd up re] in simp_all)
qed

text \<open>
  Property C25. Debouncing loses and reorders nothing. Follow a live subscription over any interleaving of the manager's commands:
  messages, timers, callbacks, workers taking tasks, pauses, updates, reloads, removals, shutdown. The messages that were in its
  window, followed by the messages it accepted, in order and once each, are the concatenation of a list of non-empty
  batches followed by the messages still in its window. The batches marked \<open>True\<close> are, in order, exactly the
  matches of the tasks queued for it; the others were dropped by the pool, whole, and each is counted in \<^verbatim>\<open>dropped\<close> unless the
  pool has been stopped. Every queued task is taken by a worker in the order of the queue or is still queued. (The window of an
  object that an update, a reload or a removal has replaced may stay pending for good: its timer is stopped.)
\<close>

theorem debounce_conserves_matches:
  assumes "mgr_inv ms" and "r < length (mg_heap (fst ms))" and "ms' = fold (exec_mgr us up re) cmds ms"
  shows "\<exists>bs. ws_pendingMatches (mg_heap (fst ms) ! r) @ accepted_run us up re r cmds ms
         = concat (map fst bs) @ ws_pendingMatches (mg_heap (fst ms') ! r)
     \<and> map ft_matches (filter (\<lambda>t. ft_sub t = r) (queued_run us up re cmds ms)) = map fst (filter snd bs)
     \<and> [] \<notin> fst ` set bs
     \<and> mg_tasks (fst ms) @ queued_run us up re cmds ms = taken_run us up re cmds ms @ mg_tasks (fst ms')
     \<and> (\<not> mg_stopped (fst ms') \<longrightarrow> mg_dropped (fst ms) + length (filter (\<lambda>b. \<not> snd b) bs) \<le> mg_dropped (fst ms'))
     \<and> (mg_stopped (fst ms) \<longrightarrow> mg_stopped (fst ms'))"
  using assms
proof (induction cmds arbitrary: ms)
  case Nil
  then show ?case by (intro exI [of _ "[]"]) simp
next
  case (Cons cmd cmds)
  obtain m st where ms: "ms = (m, st)" by (cases ms)
  let ?ms1 = "exec_mgr us up re cmd ms"
  obtain bs where one: "ws_pendingMatches (mg_heap m ! r) @ accepted us r cmd ms = concat (map fst bs) @ ws_pendingMatches (mg_heap (fst ?ms1) ! r)"
      "map ft_matches (filter (\<lambda>t. ft_sub t = r) (queued us up re cmd ms)) = map fst (filter snd bs)" "[] \<notin> fst ` set bs"
      "mg_tasks m @ queued us up re cmd ms = taken cmd ms @ mg_tasks (fst ?ms1)"
      "\<not> mg_stopped m \<longrightarrow> mg_dropped m + length (filter (\<lambda>b. \<not> snd b) bs) \<le> mg_dropped (fst ?ms1)" "mg_stopped m \<longrightarrow> mg_stopped (fst ?ms1)"
    using exec_batches [of m st r us cmd up re] Cons.prems(1,2) ms by auto
  have len: "r < length (mg_heap (fst ?ms1))"
    using exec_cell [of m st r us up re cmd] Cons.prems(1,2) ms by simp
  obtain cs where two: "ws_pendingMatches (mg_heap (fst ?ms1) ! r) @ accepted_run us up re r cmds ?ms1 = concat (map fst cs) @ ws_pendingMatches (mg_heap (fst ms') ! r)"
      "map ft_matches (filter (\<lambda>t. ft_sub t = r) (queued_run us up re cmds ?ms1)) = map fst (filter snd cs)" "[] \<notin> fst ` set cs"
      "mg_tasks (fst ?ms1) @ queued_run us up re cmds ?ms1 = taken_run us up re cmds ?ms1 @ mg_tasks (fst ms')"
      "\<not> mg_stopped (fst ms') \<longrightarrow> mg_dropped (fst ?ms1) + length (filter (\<lambda>b. \<not> snd b) cs) \<le> mg_dropped (fst ms')"
      "mg_stopped (fst ?ms1) \<longrightarrow> mg_stopped (fst ms')"
    using Cons.IH [OF exec_mgr_inv [OF Cons.prems(1), of us up re cmd] len] Cons.prems(3) by auto
  have "ws_pendingMatches (mg_heap m ! r) @ accepted us r cmd ms @ accepted_run us up re r cmds ?ms1
      = concat (map fst bs) @ concat (map fst cs) @ ws_pendingMatches (mg_heap (fst ms') ! r)"
    using one(1) two(1) by (metis append.assoc)
  moreover have "mg_tasks m @ queued us up re cmd ms @ queued_run us up re cmds ?ms1
      = taken cmd ms @ taken_run us up re cmds ?ms1 @ mg_tasks (fst ms')"
    using one(4) two(4) by (metis append.assoc)
  ultimately show ?case
    using one two ms by (intro exI [of _ "bs @ cs"]) auto
qed

text \<open>The run of the cooldown example: two batches of one message each, the first taken by a worker, the second still queued.\<close>

theorem debounce_conserves_matches_witness:
  "map (map wm_Body) (map ft_matches (queued_run (\<lambda>_. ''u'') (\<lambda>_. None) (\<lambda>_. None) cooled_run (cooled_manager, Migrate))) = [[''deploy''], [''deploy'']]
   \<and> map wm_Body (accepted_run (\<lambda>_. ''u'') (\<lambda>_. None) (\<lambda>_. None) 0 cooled_run (cooled_manager, Migrate)) = [''deploy'', ''deploy'']
   \<and> length (taken_run (\<lambda>_. ''u'') (\<lambda>_. None) (\<lambda>_. None) cooled_run (cooled_manager, Migrate)) = 1
   \<and> (\<exists>bs :: (Message list \<times> bool) list. accepted_run (\<lambda>_. ''u'') (\<lambda>_. None) (\<lambda>_. None) 0 cooled_run (cooled_manager, Migrate)
         = concat (map fst bs) @ ws_pendingMatches (mg_heap (fst (fold (exec_mgr (\<lambda>_. ''u'') (\<lambda>_. None) (\<lambda>_. None)) cooled_run (cooled_manager, Migrate))) ! 0))"
proof (intro conjI)
  have p: "ws_pendingMatches (mg_heap (fst (cooled_manager, Migrate)) ! 0) = []" "0 < length (mg_heap (fst (cooled_manager, Migrate)))"
    by (simp_all add: cooled_manager_def NewManager_def sample_sub_def)
  show "\<exists>bs :: (Message list \<times> bool) list. accepted_run (\<lambda>_. ''u'') (\<lambda>_. None) (\<lambda>_. None) 0 cooled_run (cooled_manager, Migrate)
         = concat (map fst bs) @ ws_pendingMatches (mg_heap (fst (fold (exec_mgr (\<lambda>_. ''u'') (\<lambda>_. None) (\<lambda>_. None)) cooled_run (cooled_manager, Migrate))) ! 0)"
    using debounce_conserves_matches [OF cooled_manager_inv p(2) refl, of "\<lambda>_. ''u''" "\<lambda>_. None" "\<lambda>_. None" cooled_run] unfolding p(1) append_Nil by blast
qed code_simp+

end
