(* ===== verification/Webhook_Worker.thy ===== *)
theory Webhook_Worker
  imports Webhook_Gates Transport
begin

text \<open>
  The delivery worker (\<^verbatim>\<open>internal/webhook/worker.go\<close>): one task, its attempts with backoff,
  the fire row it records and the automatic disabling of a subscription that keeps failing. The
  transport's answer to attempt \<open>a\<close> is \<open>send a\<close>, the clock at that attempt \<open>at a\<close>, and
  \<open>cancelled a\<close> says that shutdown interrupts the wait after it.
\<close>

section \<open>Attempts\<close>

definition backoff :: "nat \<Rightarrow> int" where
  "backoff attempt =
     (let delay = int64 (int64 (int64 (2 ^ (attempt - 1)) * 250) * Millisecond)
      in if delay > 5 * Second then 5 * Second else delay)"

datatype outcome = Delivered nat string | Rejected nat string | Interrupted nat | GaveUp string

definition with_err :: "DeliveryResult \<Rightarrow> string" where
  "with_err res = (case dr_Err res of None \<Rightarrow> dr_StatusDetail res | Some e \<Rightarrow> dr_StatusDetail res @ '': '' @ e)"

text \<open>\<open>attempt_loop k a\<close>: attempts \<open>a\<close>, \<open>a + 1\<close>, ... with \<open>k\<close> of them left.\<close>

fun attempt_loop :: "(nat \<Rightarrow> DeliveryResult) \<Rightarrow> (nat \<Rightarrow> bool) \<Rightarrow> nat \<Rightarrow> nat \<Rightarrow> string \<Rightarrow> outcome" where
  "attempt_loop send cancelled 0 attempt lastDetail = GaveUp lastDetail"
| "attempt_loop send cancelled (Suc k) attempt lastDetail =
     (case dr_Kind (send attempt) of
        DeliveryOK \<Rightarrow> Delivered attempt (dr_StatusDetail (send attempt))
      | DeliveryPermanent \<Rightarrow> Rejected attempt (with_err (send attempt))
      | DeliveryTransient \<Rightarrow>
          if k > 0 \<and> cancelled attempt then Interrupted attempt
          else attempt_loop send cancelled k (Suc attempt) (with_err (send attempt)))"

section \<open>The worker\<close>

definition recordFire :: "gotime \<Rightarrow> uuid option \<Rightarrow> LiveSub \<Rightarrow> string \<Rightarrow> nat \<Rightarrow> string \<Rightarrow> store \<Rightarrow> store" where
  "recordFire now newV7 s status attempts lastErr st = record_row now newV7 (fire_row s status (int attempts) lastErr) st"

definition autoDisable :: "gotime \<Rightarrow> LiveSub \<Rightarrow> Manager \<times> store \<Rightarrow> Manager \<times> store" where
  "autoDisable now s ms =
     (let (m, st) = ms
      in case GetSubscriptionByID (ws_TenantID s) (ws_ID s) st of
           Inl _ \<Rightarrow> (Remove_sub (ws_ID s) m, st)
         | Inr sub \<Rightarrow>
             let st' = (if IsZero (sub_DisabledAt sub)
                        then (case UpdateSubscription (ws_TenantID s) (sub\<lparr>sub_DisabledAt := now\<rparr>) st of
                                Inl _ \<Rightarrow> st | Inr st1 \<Rightarrow> st1)
                        else st)
             in (Remove_sub (ws_ID s) m, st'))"

definition set_consec :: "nat \<Rightarrow> nat \<Rightarrow> Manager \<Rightarrow> Manager" where
  "set_consec r n m = m\<lparr>mg_heap := (mg_heap m)[r := (mg_heap m ! r)\<lparr>ws_consec4xx := n\<rparr>]\<rparr>"

definition task_payload :: "(uuid \<Rightarrow> string) \<Rightarrow> uuid option \<Rightarrow> gotime \<Rightarrow> LiveSub \<Rightarrow> fireTask \<Rightarrow> Payload" where
  "task_payload uuid_String newV7 now s task =
     \<lparr>pl_EventID = NewEventID uuid_String newV7, pl_SubscriptionID = uuid_String (ws_ID s),
      pl_TenantID = uuid_String (ws_TenantID s), pl_ChannelID = uuid_String (ws_ChannelID s),
      pl_ChannelName = ft_channelName task, pl_TS = now, pl_Matches = ft_matches task, pl_Context = ft_context task\<rparr>"

definition finish :: "gotime \<Rightarrow> uuid option \<Rightarrow> nat \<Rightarrow> outcome \<Rightarrow> Manager \<times> store \<Rightarrow> Manager \<times> store" where
  "finish now newV7 r res ms =
     (let (m, st) = ms; s = mg_heap m ! r
      in case res of
           Delivered a detail \<Rightarrow> (set_consec r 0 m, recordFire now newV7 s ''ok'' a detail st)
         | Rejected a detail \<Rightarrow>
             let n = ws_consec4xx s + 1;
                 ms' = (set_consec r n m, recordFire now newV7 s ''dropped_4xx'' a detail st)
             in if n \<ge> cf_AutoDisable4xx (mg_cfg m) then autoDisable now s ms' else ms'
         | Interrupted a \<Rightarrow> (m, recordFire now newV7 s ''failed'' a ''shutdown'' st)
         | GaveUp detail \<Rightarrow> (m, recordFire now newV7 s ''failed'' (cf_MaxRetries (mg_cfg m)) (''last error: '' @ detail) st))"

definition deliver :: "(uuid \<Rightarrow> string) \<Rightarrow> (gotime \<Rightarrow> string + string) \<Rightarrow> (bytes \<Rightarrow> bytes \<Rightarrow> bytes) \<Rightarrow> (string \<Rightarrow> URL option)
    \<Rightarrow> (nat \<Rightarrow> Target \<Rightarrow> bytes \<Rightarrow> Signature \<Rightarrow> DeliveryResult) \<Rightarrow> (nat \<Rightarrow> gotime) \<Rightarrow> (nat \<Rightarrow> bool)
    \<Rightarrow> gotime \<Rightarrow> uuid option \<Rightarrow> uuid option \<Rightarrow> fireTask \<Rightarrow> Manager \<times> store \<Rightarrow> Manager \<times> store" where
  "deliver uuid_String fmt_time hmac url_Parse send at cancelled now eventID newV7 task ms =
     (let (m, st) = ms; r = ft_sub task; s = mg_heap m ! r
      in case Marshal fmt_time (task_payload uuid_String eventID now s task) of
           Inl err \<Rightarrow> (m, recordFire now newV7 s ''failed'' 0 err st)
         | Inr body \<Rightarrow>
             let scheme = schemeOf url_Parse (ws_URL s)
             in case for_scheme scheme newRegistry of
                  None \<Rightarrow> (m, recordFire now newV7 s ''failed'' 0 (''no transport for scheme '' @ [CHR 0x22] @ scheme @ [CHR 0x22]) st)
                | Some tr \<Rightarrow>
                    let target = \<lparr>tg_URL = ws_URL s, tg_SubscriptionID = uuid_String (ws_ID s)\<rparr>;
                        attempt = (\<lambda>a. send a target body (Sign hmac body (ws_Secret s) (Unix (at a))))
                    in finish now newV7 r (attempt_loop attempt cancelled (cf_MaxRetries (mg_cfg m)) 1 '''') (m, st))"

section \<open>Backoff\<close>

lemma int64_mult: "int64 (int64 a * b) = int64 (a * b)"
  by (simp add: int64_def)

lemma backoff_eq: "backoff a = min (int64 (2 ^ (a - 1) * 250 * Millisecond)) (5 * Second)"
proof -
  have "int64 (int64 (int64 (2 ^ (a - 1)) * 250) * Millisecond) = int64 (2 ^ (a - 1) * 250 * Millisecond)"
    by (simp only: int64_mult)
  then show ?thesis by (simp add: backoff_def Let_def min_def)
qed

text \<open>
  Bounds of the retry delay: the wait before the next attempt never exceeds five
  seconds; for the first 36 attempts it is 250 ms doubled per attempt and cut at five seconds, so it is
  positive and does not shrink; at attempt 37 the 64-bit product wraps to a negative
  duration, which does not wait at all.
\<close>

theorem backoff_bounds:
  "backoff a \<le> 5 * Second
   \<and> (1 \<le> a \<and> a \<le> 36 \<longrightarrow> backoff a = min (250 * Millisecond * 2 ^ (a - 1)) (5 * Second)
        \<and> 250 * Millisecond \<le> backoff a)
   \<and> backoff 37 < 0"
proof (intro conjI impI)
  show "backoff a \<le> 5 * Second" by (simp add: backoff_eq)
next
  assume a: "1 \<le> a \<and> a \<le> 36"
  have "(2::int) ^ (a - 1) \<le> 2 ^ 35" using a by (intro power_increasing) auto
  moreover have one: "(1::int) \<le> 2 ^ (a - 1)" by simp
  moreover define p :: int where "p = 2 ^ (a - 1)"
  ultimately have "int64 (2 ^ (a - 1) * 250 * Millisecond) = 2 ^ (a - 1) * 250 * Millisecond"
    unfolding p_def [symmetric] by (intro int64_id) (simp_all add: Millisecond_def)
  moreover note one
  ultimately show "backoff a = min (250 * Millisecond * 2 ^ (a - 1)) (5 * Second)" and "250 * Millisecond \<le> backoff a"
    by (simp_all add: backoff_eq Millisecond_def Second_def)
next
  show "backoff 37 < 0" by code_simp
qed

theorem backoff_bounds_witness: "backoff 3 = 1000 * Millisecond"
  using backoff_bounds [of 3] by (simp add: Millisecond_def Second_def)

section \<open>What one task leaves\<close>

text \<open>The attempts are made in order until one is not transient, shutdown intervenes, or none is left.\<close>

definition transient_until :: "(nat \<Rightarrow> DeliveryResult) \<Rightarrow> (nat \<Rightarrow> bool) \<Rightarrow> nat \<Rightarrow> nat \<Rightarrow> bool" where
  "transient_until send cancelled b a \<longleftrightarrow>
     (\<forall>i. b \<le> i \<and> i < a \<longrightarrow> dr_Kind (send i) = DeliveryTransient \<and> \<not> cancelled i)"

lemma transient_until_refl [simp]: "transient_until send cancelled b b"
  by (auto simp: transient_until_def)

fun outcome_ok :: "(nat \<Rightarrow> DeliveryResult) \<Rightarrow> (nat \<Rightarrow> bool) \<Rightarrow> nat \<Rightarrow> nat \<Rightarrow> string \<Rightarrow> outcome \<Rightarrow> bool" where
  "outcome_ok send cancelled k b d (Delivered a x) = (b \<le> a \<and> a < b + k \<and> transient_until send cancelled b a
     \<and> dr_Kind (send a) = DeliveryOK \<and> x = dr_StatusDetail (send a))"
| "outcome_ok send cancelled k b d (Rejected a x) = (b \<le> a \<and> a < b + k \<and> transient_until send cancelled b a
     \<and> dr_Kind (send a) = DeliveryPermanent \<and> x = with_err (send a))"
| "outcome_ok send cancelled k b d (Interrupted a) = (b \<le> a \<and> Suc a < b + k \<and> transient_until send cancelled b a
     \<and> dr_Kind (send a) = DeliveryTransient \<and> cancelled a)"
| "outcome_ok send cancelled k b d (GaveUp x) = ((k = 0 \<and> x = d) \<or> (0 < k \<and> transient_until send cancelled b (b + k - 1)
     \<and> dr_Kind (send (b + k - 1)) = DeliveryTransient \<and> x = with_err (send (b + k - 1))))"

lemma attempt_loop_ok: "outcome_ok send cancelled k b d (attempt_loop send cancelled k b d)"
proof (induction k arbitrary: b d)
  case (Suc k)
  show ?case
  proof (cases "dr_Kind (send b) = DeliveryTransient \<and> \<not> (k > 0 \<and> cancelled b)")
    case True
    then have step: "attempt_loop send cancelled (Suc k) b d = attempt_loop send cancelled k (Suc b) (with_err (send b))"
      by auto
    have ext: "transient_until send cancelled b a" if "transient_until send cancelled (Suc b) a" "k \<noteq> 0" for a
      unfolding transient_until_def
    proof (intro allI impI)
      fix i assume "b \<le> i \<and> i < a"
      then show "dr_Kind (send i) = DeliveryTransient \<and> \<not> cancelled i"
        using that True by (cases "i = b") (auto simp: transient_until_def)
    qed
    from Suc.IH [of "Suc b" "with_err (send b)"] ext True show ?thesis
      unfolding step
      by (cases "attempt_loop send cancelled k (Suc b) (with_err (send b))"; cases k) auto
  next
    case False
    then show ?thesis by (cases "dr_Kind (send b)") auto
  qed
qed simp

lemma recordFire_row:
  assumes "can_record st (ws_TenantID s) newV7"
  shows "\<exists>row. st_fires (recordFire now newV7 s status a err st) = st_fires st @ [row]
     \<and> fire_SubscriptionID row = ws_ID s \<and> fire_Status row = status \<and> fire_Attempts row = int a \<and> fire_LastError row = err"
  unfolding recordFire_def record_row_stored [OF assms] by (simp add: stored_row_def fire_row_def)

lemma UpdateSubscription_fires: "UpdateSubscription t b st = Inr st' \<Longrightarrow> st_fires st' = st_fires st"
  by (auto simp: UpdateSubscription_def Let_def split: if_splits)

lemma autoDisable_fires: "st_fires (snd (autoDisable now s (m, st))) = st_fires st"
  using UpdateSubscription_fires by (auto simp: autoDisable_def Let_def split: sum.splits)

text \<open>The answer to attempt \<open>a\<close> of a task: the transport gets the body and a signature made for that attempt.\<close>

definition answer :: "(uuid \<Rightarrow> string) \<Rightarrow> (bytes \<Rightarrow> bytes \<Rightarrow> bytes)
    \<Rightarrow> (nat \<Rightarrow> Target \<Rightarrow> bytes \<Rightarrow> Signature \<Rightarrow> DeliveryResult) \<Rightarrow> (nat \<Rightarrow> gotime) \<Rightarrow> LiveSub \<Rightarrow> bytes \<Rightarrow> nat \<Rightarrow> DeliveryResult" where
  "answer us hmac send at s body a =
     send a \<lparr>tg_URL = ws_URL s, tg_SubscriptionID = us (ws_ID s)\<rparr> body (Sign hmac body (ws_Secret s) (Unix (at a)))"

lemma deliver_finish:
  assumes "Marshal ft (task_payload us eid now (mg_heap m ! ft_sub task) task) = Inr body"
    and "for_scheme (schemeOf url_Parse (ws_URL (mg_heap m ! ft_sub task))) newRegistry = Some tr"
  shows "deliver us ft hmac url_Parse send at cancelled now eid nv task (m, st) =
     finish now nv (ft_sub task)
       (attempt_loop (answer us hmac send at (mg_heap m ! ft_sub task) body) cancelled (cf_MaxRetries (mg_cfg m)) 1 '''') (m, st)"
  using assms by (simp add: deliver_def Let_def answer_def [abs_def])

lemma deliver_unsent:
  assumes "(\<exists>e. Marshal ft (task_payload us eid now (mg_heap m ! ft_sub task) task) = Inl e)
    \<or> for_scheme (schemeOf url_Parse (ws_URL (mg_heap m ! ft_sub task))) newRegistry = None"
  shows "\<exists>err. deliver us ft hmac url_Parse send at cancelled now eid nv task (m, st) =
     (m, recordFire now nv (mg_heap m ! ft_sub task) ''failed'' 0 err st)"
  using assms by (auto simp: deliver_def Let_def split: sum.split)

text \<open>
  Property C26. Every delivered task leaves exactly one fire row, and the row tells the truth. With a store that can take
  the row: when the payload marshals and there is a transport for the URL, the worker makes at most
  \<^verbatim>\<open>MaxRetries\<close> attempts and records: \<open>ok\<close> with the number of the first attempt that succeeded
  after only transient failures; \<open>dropped_4xx\<close> with the first permanent failure; or \<open>failed\<close>,
  either because shutdown interrupted a wait or because all \<^verbatim>\<open>MaxRetries\<close> attempts failed transiently.
  Otherwise it records \<open>failed\<close> with no attempts.
\<close>

theorem one_fire_row_per_task:
  assumes "can_record st (ws_TenantID (mg_heap m ! ft_sub task)) nv" and "0 < cf_MaxRetries (mg_cfg m)"
  shows "\<exists>row. st_fires (snd (deliver us ft hmac url_Parse send at cancelled now eid nv task (m, st))) = st_fires st @ [row]
     \<and> fire_SubscriptionID row = ws_ID (mg_heap m ! ft_sub task)
     \<and> (case (Marshal ft (task_payload us eid now (mg_heap m ! ft_sub task) task),
              for_scheme (schemeOf url_Parse (ws_URL (mg_heap m ! ft_sub task))) newRegistry) of
          (Inr body, Some tr) \<Rightarrow>
            (\<exists>a ans. ans = answer us hmac send at (mg_heap m ! ft_sub task) body \<and>
               1 \<le> a \<and> a \<le> cf_MaxRetries (mg_cfg m) \<and> fire_Attempts row = int a \<and> transient_until ans cancelled 1 a \<and>
               (fire_Status row = ''ok'' \<and> dr_Kind (ans a) = DeliveryOK
                \<or> fire_Status row = ''dropped_4xx'' \<and> dr_Kind (ans a) = DeliveryPermanent
                \<or> fire_Status row = ''failed'' \<and> dr_Kind (ans a) = DeliveryTransient
                    \<and> (cancelled a \<and> a < cf_MaxRetries (mg_cfg m) \<or> a = cf_MaxRetries (mg_cfg m))))
        | _ \<Rightarrow> fire_Status row = ''failed'' \<and> fire_Attempts row = 0)"
proof -
  let ?r = "ft_sub task" and ?n = "cf_MaxRetries (mg_cfg m)"
  let ?s = "mg_heap m ! ?r" and ?d = "deliver us ft hmac url_Parse send at cancelled now eid nv task (m, st)"
  note row = recordFire_row [OF assms(1), of now]
  consider (sent) body tr where "Marshal ft (task_payload us eid now ?s task) = Inr body"
      "for_scheme (schemeOf url_Parse (ws_URL ?s)) newRegistry = Some tr"
    | (unsent) "(\<exists>e. Marshal ft (task_payload us eid now ?s task) = Inl e) \<or> for_scheme (schemeOf url_Parse (ws_URL ?s)) newRegistry = None"
    by (metis option.exhaust sum.exhaust)
  then show ?thesis
  proof cases
    case unsent
    then obtain err where "?d = (m, recordFire now nv ?s ''failed'' 0 err st)" using deliver_unsent by blast
    with unsent row [of "''failed''" 0 err] show ?thesis by (auto split: sum.split option.split)
  next
    case sent
    define ans where "ans = answer us hmac send at ?s body"
    define res where "res = attempt_loop ans cancelled ?n 1 ''''"
    have ok: "outcome_ok ans cancelled ?n 1 '''' res" unfolding res_def by (rule attempt_loop_ok)
    have d: "?d = finish now nv ?r res (m, st)" by (simp add: deliver_finish [OF sent] res_def ans_def)
    show ?thesis
    proof (cases res)
      case (Delivered a x)
      then show ?thesis using ok row [of "''ok''" a x] unfolding d by (auto simp: finish_def sent ans_def)
    next
      case (Rejected a x)
      then show ?thesis using ok row [of "''dropped_4xx''" a x] unfolding d
        by (auto simp: finish_def Let_def autoDisable_fires sent ans_def)
    next
      case (Interrupted a)
      then show ?thesis using ok row [of "''failed''" a "''shutdown''"] unfolding d by (auto simp: finish_def sent ans_def)
    next
      case (GaveUp x)
      then show ?thesis using ok assms(2) row [of "''failed''" ?n "''last error: '' @ x"] unfolding d
        by (auto simp: finish_def sent ans_def intro!: exI [of _ ?n])
    qed
  qed
qed

definition sample_url :: "string \<Rightarrow> URL option" where
  "sample_url s = Some \<lparr>u_Scheme = ''https'', u_User = None, u_Password = None, u_Host = ''bot'', u_Path = '''', u_Query = []\<rparr>"

definition sample_task :: fireTask where
  "sample_task = \<lparr>ft_sub = 0, ft_channelName = ''ops'', ft_matches = [], ft_context = None\<rparr>"

lemma sample_manager_fields:
  "mg_heap (sample_manager d) = [sample_sub d]" "cf_MaxRetries (mg_cfg (sample_manager d)) = 3"
  "cf_AutoDisable4xx (mg_cfg (sample_manager d)) = 5"
  by (simp_all add: sample_manager_def install_def indexByChannel_def NewManager_def applyDefaults_def)

lemma sample_transport: "for_scheme (schemeOf sample_url u) newRegistry = Some HTTPTransport"
proof -
  have "schemeOf sample_url u = ''https''" by (simp add: schemeOf_def sample_url_def ToLower_def lower_char_def)
  then show ?thesis by (simp add: for_newRegistry http_Schemes_def)
qed

lemma sample_body_ex: "\<exists>body. Marshal (\<lambda>_. Inr t) (task_payload us eid now s sample_task) = Inr body"
  by (simp add: Marshal_def task_payload_def sample_task_def json_context_def)

theorem one_fire_row_per_task_witness:
  "\<exists>row. st_fires (snd (deliver (\<lambda>_. ''u'') (\<lambda>_. Inr ''t'') (\<lambda>k m. k) sample_url
       (\<lambda>a t b s. http_Send sample_url (\<lambda>_. if a = 1 then Response 503 else Response 200) t b s) (\<lambda>a. 0) (\<lambda>a. False) 100 (Some 2) (Some 77)
       sample_task (sample_manager 0, worker_store))) = [row] \<and> fire_SubscriptionID row = 5 \<and> fire_Status row = ''ok'' \<and> fire_Attempts row = 2"
proof -
  let ?send = "\<lambda>a t b s. http_Send sample_url (\<lambda>_. if a = 1 then Response 503 else Response 200) t b s"
  have r: "can_record worker_store (ws_TenantID (mg_heap (sample_manager 0) ! ft_sub sample_task)) (Some 77)"
    by (simp add: can_record_def worker_store_def Migrate_def sample_manager_fields sample_task_def sample_sub_def)
  have f: "st_fires worker_store = []" by (simp add: worker_store_def Migrate_def)
  have i: "ws_ID (mg_heap (sample_manager 0) ! ft_sub sample_task) = 5"
    by (simp add: sample_manager_fields sample_task_def sample_sub_def)
  have k: "dr_Kind (answer us h ?send at s b a) = (if a = 1 then DeliveryTransient else DeliveryOK)" for us h at s b a
    by (simp add: answer_def http_Send_def sample_url_def)
  obtain body where b: "Marshal (\<lambda>_. Inr ''t'') (task_payload (\<lambda>_. ''u'') (Some 2) 100 (mg_heap (sample_manager 0) ! ft_sub sample_task) sample_task) = Inr body"
    using sample_body_ex by blast
  have two: "a = 2" if "1 \<le> a" "a \<noteq> 1" "\<forall>i. 1 \<le> i \<and> i < a \<longrightarrow> i = 1" for a :: nat
    using that(3) [rule_format, of 2] that(1,2) by linarith
  from one_fire_row_per_task [OF r, of "\<lambda>_. ''u''" "\<lambda>_. Inr ''t''" "\<lambda>k m. k" sample_url ?send "\<lambda>a. 0" "\<lambda>a. False" 100 "Some 2"]
  obtain row a where row: "st_fires (snd (deliver (\<lambda>_. ''u'') (\<lambda>_. Inr ''t'') (\<lambda>k m. k) sample_url ?send (\<lambda>a. 0) (\<lambda>a. False) 100 (Some 2) (Some 77)
       sample_task (sample_manager 0, worker_store))) = [row]" "fire_SubscriptionID row = 5"
    and a: "1 \<le> a" "a \<le> 3" "fire_Attempts row = int a" "\<forall>i. 1 \<le> i \<and> i < a \<longrightarrow> i = 1"
      "fire_Status row = ''ok'' \<and> a \<noteq> 1 \<or> fire_Status row = ''failed'' \<and> a = 1 \<and> a = (3 :: nat)"
    unfolding b sample_transport f i append_Nil by (auto simp: sample_manager_fields k [unfolded One_nat_def] transient_until_def split: if_splits)
  then show ?thesis using two [of a] by auto
qed

section \<open>Automatic disabling\<close>

lemma UpdateSubscription_disables:
  assumes "store_ok st" and "GetSubscriptionByID t i st = Inr sub" and "t \<noteq> uuid_Nil" and "i \<noteq> uuid_Nil" and "0 < UnixMicro now"
    and "now \<noteq> 0"
  shows "\<exists>st'. UpdateSubscription t (sub\<lparr>sub_DisabledAt := now\<rparr>) st = Inr st'
    \<and> (\<forall>row \<in> set (st_subs st'). sub_TenantID row = t \<and> sub_ID row = i \<longrightarrow> sub_DisabledAt row \<noteq> 0)"
proof -
  obtain row where row: "find (\<lambda>r. sub_TenantID r = t \<and> sub_ID r = i) (st_subs st) = Some row" "sub = scanSubscription row"
    and up: "\<not> st_down st"
    using assms(2) by (auto simp: GetSubscriptionByID_def query_row_def split: if_splits option.splits)
  then have mem: "row \<in> set (st_subs st)" "sub_TenantID row = t" "sub_ID row = i"
    by (auto simp: find_Some_iff)
  then have "sub_ID sub = i" using row(2) by (simp add: scanSubscription_def)
  with mem up assms(3-6) show ?thesis
    by (auto simp: UpdateSubscription_def Let_def nullable_micro_def IsZero_def intro!: bexI [of _ row])
qed

lemma Remove_sub_uncached: "cached (Remove_sub i m) i = None"
  by (auto simp: cached_def Remove_sub_def Let_def delete_conv' split: option.split)

text \<open>
  A subscription whose receiver keeps refusing is switched off for good: when a task
  ends in a permanent failure and the count of consecutive permanent failures reaches
  \<^verbatim>\<open>AutoDisable4xx\<close>, the subscription leaves the manager's cache, its row is marked disabled,
  and no list of the channel's active subscriptions, hence no later reload, brings it back.
\<close>

theorem auto_disable_is_durable:
  assumes "mgr_inv (m, st)" and s: "s = mg_heap m ! ft_sub task"
    and "Marshal ft (task_payload us eid now s task) = Inr body"
    and "for_scheme (schemeOf url_Parse (ws_URL s)) newRegistry = Some tr"
    and "attempt_loop (answer us hmac send at s body) cancelled (cf_MaxRetries (mg_cfg m)) 1 '''' = Rejected a x"
    and "cf_AutoDisable4xx (mg_cfg m) \<le> ws_consec4xx s + 1"
    and "GetSubscriptionByID (ws_TenantID s) (ws_ID s) st = Inr sub" and "sub_DisabledAt sub = 0"
    and "ws_TenantID s \<noteq> uuid_Nil" and "ws_ID s \<noteq> uuid_Nil" and "0 < UnixMicro now" and "now \<noteq> 0"
    and "deliver us ft hmac url_Parse send at cancelled now eid nv task (m, st) = (m', st')"
  shows "cached m' (ws_ID s) = None
    \<and> (\<forall>ch subs. ListSubscriptionsByChannel (ws_TenantID s) ch st' = Inr subs \<longrightarrow> ws_ID s \<notin> sub_ID ` set subs)"
proof -
  define st1 where "st1 = recordFire now nv s ''dropped_4xx'' a x st"
  have "st_subs st1 = st_subs st" "st_down st1 = st_down st"
    by (auto simp: st1_def recordFire_def record_row_def RecordSubscriptionFire_def any_error_def exec_insert_def
        split: option.splits sum.splits if_splits)
  then have g: "GetSubscriptionByID (ws_TenantID s) (ws_ID s) st1 = Inr sub"
    using assms(7) by (simp add: GetSubscriptionByID_def query_row_def)
  have "store_ok st1"
    using assms(1) store_ok_record_row by (simp add: st1_def recordFire_def mgr_inv_def)
  from UpdateSubscription_disables [OF this g assms(9,10,11,12)] obtain st2 where
    u: "UpdateSubscription (ws_TenantID s) (sub\<lparr>sub_DisabledAt := now\<rparr>) st1 = Inr st2"
    and dis: "\<forall>row \<in> set (st_subs st2). sub_TenantID row = ws_TenantID s \<and> sub_ID row = ws_ID s \<longrightarrow> sub_DisabledAt row \<noteq> 0"
    by blast
  have "(m', st') = autoDisable now s (set_consec (ft_sub task) (ws_consec4xx s + 1) m, st1)"
    using assms(6,13) unfolding deliver_finish [OF assms(3,4) [unfolded s]] assms(5) [unfolded s]
    by (simp add: finish_def Let_def s st1_def)
  also have "\<dots> = (Remove_sub (ws_ID s) (set_consec (ft_sub task) (ws_consec4xx s + 1) m), st2)"
    using g u assms(8) by (simp add: autoDisable_def IsZero_def)
  finally have "m' = Remove_sub (ws_ID s) (set_consec (ft_sub task) (ws_consec4xx s + 1) m)" "st' = st2" by auto
  with dis show ?thesis
    by (auto simp: Remove_sub_uncached ListSubscriptionsByChannel_def query_rows_def scanSubscription_def split: if_splits)
qed

definition failing_manager :: Manager where
  "failing_manager = install ((sample_sub 0)\<lparr>ws_consec4xx := 4\<rparr>)
     (NewManager \<lparr>cf_Workers = 0, cf_QueueDepth = 0, cf_HTTPTimeout = 0, cf_MaxRetries = 0, cf_AutoDisable4xx = 0\<rparr>)"

definition sample_row :: Subscription where
  "sample_row = \<lparr>sub_ID = 5, sub_TenantID = 1, sub_AccountID = 8, sub_ChannelID = 3, sub_URL = ''https://bot'', sub_Secret = ''k'',
     sub_MatchJSON = ''{}'', sub_Events = [''message''], sub_ContextLines = 0, sub_DebounceMs = 0, sub_CooldownMs = 0,
     sub_BudgetJSON = ''{}'', sub_DisabledAt = 0, sub_CreatedAt = 0\<rparr>"

theorem auto_disable_is_durable_witness:
  "cached (fst (deliver (\<lambda>_. ''u'') (\<lambda>_. Inr ''t'') (\<lambda>k m. k) sample_url (\<lambda>a t b s. http_Send sample_url (\<lambda>_. Response 410) t b s) (\<lambda>a. 0)
      (\<lambda>a. False) (unix_epoch + 1000000) (Some 2) (Some 77) sample_task (failing_manager, worker_store\<lparr>st_subs := [sample_row]\<rparr>))) 5 = None"
proof -
  let ?st = "worker_store\<lparr>st_subs := [sample_row]\<rparr>" and ?s = "(sample_sub 0)\<lparr>ws_consec4xx := 4\<rparr>"
  obtain m' st' where d: "deliver (\<lambda>_. ''u'') (\<lambda>_. Inr ''t'') (\<lambda>k m. k) sample_url (\<lambda>a t b s. http_Send sample_url (\<lambda>_. Response 410) t b s) (\<lambda>a. 0)
      (\<lambda>a. False) (unix_epoch + 1000000) (Some 2) (Some 77) sample_task (failing_manager, ?st) = (m', st')" by fastforce
  have "mgr_ok (NewManager c)" for c using mgr_inv_New [of c] by (simp add: mgr_inv_def)
  then have "mgr_ok failing_manager"
    unfolding failing_manager_def by (rule mgr_ok_install) (simp add: NewManager_def)
  moreover have "store_ok ?st"
    by (simp add: store_ok_def table_ok_def worker_store_def Migrate_def sample_row_def)
  ultimately have inv: "mgr_inv (failing_manager, ?st)" by (simp add: mgr_inv_def)
  have s: "?s = mg_heap failing_manager ! ft_sub sample_task"
    by (simp add: failing_manager_def NewManager_def sample_task_def)
  have cfg: "cf_MaxRetries (mg_cfg failing_manager) = Suc 2" "cf_AutoDisable4xx (mg_cfg failing_manager) = 5"
    by (simp_all add: failing_manager_def install_def indexByChannel_def NewManager_def applyDefaults_def)
  obtain body where body: "Marshal (\<lambda>_. Inr ''t'') (task_payload (\<lambda>_. ''u'') (Some 2) (unix_epoch + 1000000) ?s sample_task) = Inr body"
    using sample_body_ex by blast
  have loop: "attempt_loop (answer (\<lambda>_. ''u'') (\<lambda>k m. k) (\<lambda>a t b s. http_Send sample_url (\<lambda>_. Response 410) t b s) (\<lambda>a. 0) ?s body)
      (\<lambda>a. False) (cf_MaxRetries (mg_cfg failing_manager)) 1 '''' = Rejected 1 (''HTTP '' @ FormatInt 410)"
    unfolding cfg attempt_loop.simps by (simp add: answer_def http_Send_def sample_url_def with_err_def)
  have f: "ws_TenantID ?s = 1" "ws_ID ?s = 5" "ws_consec4xx ?s = 4" by (simp_all add: sample_sub_def)
  have g: "GetSubscriptionByID (ws_TenantID ?s) (ws_ID ?s) ?st = Inr (scanSubscription sample_row)"
    by (simp add: f GetSubscriptionByID_def query_row_def worker_store_def Migrate_def sample_row_def)
  have now: "0 < UnixMicro (unix_epoch + 1000000)" "unix_epoch + 1000000 \<noteq> 0"
    by (simp_all add: UnixMicro_def unix_epoch_def)
  have z: "sub_DisabledAt (scanSubscription sample_row) = 0"
    by (simp add: scanSubscription_def sample_row_def scan_nullable_def)
  from auto_disable_is_durable [OF inv s body sample_transport loop _ g z _ _ now d] show ?thesis
    by (simp add: f cfg d)
qed

end
