(* ===== verification/Delivery.thy ===== *)
theory Delivery
  imports Webhook_Worker
begin

text \<open>
  What a delivery puts on the wire: the worker (\<^verbatim>\<open>internal/webhook/worker.go\<close>) over the three transports, seen by the
  subscriber, and how the manager stops (\<^verbatim>\<open>Manager.Stop\<close> in \<^verbatim>\<open>internal/webhook/manager.go\<close>). The subscriber's
  side, \<open>received\<close>, follows the comments of the transports: the signature and the payload are read from the place where that
  transport carries them.
\<close>

section \<open>The worker over the transports\<close>

text \<open>The world at one attempt: the web, the clock and the brokers.\<close>

record transport_env =
  te_http :: http_env
  te_now :: gotime
  te_amqp :: amqp_env
  te_mqtt :: mqtt_env

definition transport_Send :: "(string \<Rightarrow> URL option) \<Rightarrow> (bytes \<Rightarrow> string) \<Rightarrow> transport_env \<Rightarrow> transport_name
    \<Rightarrow> Target \<Rightarrow> bytes \<Rightarrow> Signature \<Rightarrow> pools \<Rightarrow> pools \<times> DeliveryResult" where
  "transport_Send url_Parse b64 N tr t body sig p = (case tr of
       HTTPTransport \<Rightarrow> (p, http_Send url_Parse (te_http N) t body sig)
     | AMQPTransport \<Rightarrow> (let (cs, res) = amqp_Send url_Parse (te_now N) (te_amqp N) t body sig (po_amqp p) in (p\<lparr>po_amqp := cs\<rparr>, res))
     | MQTTTransport \<Rightarrow> (let (cs, res) = mqtt_Send url_Parse b64 (te_mqtt N) t body sig (po_mqtt p) in (p\<lparr>po_mqtt := cs\<rparr>, res)))"

text \<open>The attempts of one task; \<open>W a\<close> is the world and the pools that attempt \<open>a\<close> finds.\<close>

definition worker_send :: "(string \<Rightarrow> URL option) \<Rightarrow> (bytes \<Rightarrow> string) \<Rightarrow> (nat \<Rightarrow> transport_env \<times> pools) \<Rightarrow> transport_name
    \<Rightarrow> nat \<Rightarrow> Target \<Rightarrow> bytes \<Rightarrow> Signature \<Rightarrow> DeliveryResult" where
  "worker_send url_Parse b64 W tr a t body sig = snd (transport_Send url_Parse b64 (fst (W a)) tr t body sig (snd (W a)))"

text \<open>\<^verbatim>\<open>Manager.Stop\<close>: the pool of workers, then the pooled broker connections.\<close>

definition Manager_Stop :: "close_env \<Rightarrow> Manager \<times> pools \<Rightarrow> (Manager \<times> pools) \<times> string option" where
  "Manager_Stop C mp = (let (p, err) = closeAll C newRegistry (snd mp) in ((pool_Stop (fst mp), p), err))"

section \<open>What the subscriber receives\<close>

datatype wire = HttpWire http_request | AmqpWire amqp_publish | MqttWire mqtt_publish

text \<open>The signature header and the payload as the subscriber reads them; \<open>dec\<close> decodes base64.\<close>

fun received :: "(string \<Rightarrow> bytes option) \<Rightarrow> wire \<Rightarrow> (string \<times> bytes) option" where
  "received dec (HttpWire r) = map_option (\<lambda>h. (h, hr_Body r)) (map_of (hr_Header r) ''Prm-Signature'')"
| "received dec (AmqpWire m) =
     map_option (\<lambda>h. (h, pb_Body (ap_Publishing m))) (map_of (pb_Headers (ap_Publishing m)) ''prm-signature'')"
| "received dec (MqttWire m) = (case parse_json (mp_Payload m) of
       Some (JObj ms) \<Rightarrow> (case (map_of ms ''prm_signature'', map_of ms ''payload_b64'') of
           (Some (JStr h), Some (JStr x)) \<Rightarrow> map_option (Pair h) (dec x)
         | _ \<Rightarrow> None)
     | _ \<Rightarrow> None)"

definition genuine :: "(bytes \<Rightarrow> bytes \<Rightarrow> bytes) \<Rightarrow> (string \<Rightarrow> bytes option) \<Rightarrow> bytes \<Rightarrow> bytes \<Rightarrow> wire \<Rightarrow> bool" where
  "genuine hmac dec secret body w = (case received dec w of
       None \<Rightarrow> False
     | Some (h, b) \<Rightarrow> b = body \<and> Verify hmac h b secret)"

lemma signed_verifies:
  assumes "\<And>x. hmac secret x \<noteq> []" and "- (2 ^ 63) \<le> ts" and "ts < 2 ^ 63"
  shows "Verify hmac (Header (Sign hmac body secret ts)) body secret"
proof -
  let ?s = "Sign hmac body secret ts"
  have "parseSignatureHeader (Header ?s) = Some (sg_T ?s, sg_V ?s)"
    using assms hex_chars by (intro parse_Header) (simp_all add: Sign_def hex_nonempty)
  then show ?thesis by (simp add: Verify_def) (simp add: Sign_def)
qed

lemma envelope_reads_back: "parse_json (print_json (envelope_json e)) = Some (envelope_json e)"
  by (rule parse_print_json) (simp_all add: envelope_json_def max_depth_def)

lemma genuine_messages:
  assumes "Verify hmac (Header sig) body secret"
  shows "genuine hmac dec secret body (HttpWire (http_message t body sig))"
    and "genuine hmac dec secret body (AmqpWire (amqp_message u now t body sig))"
    and "dec (b64 body) = Some body \<Longrightarrow> genuine hmac dec secret body (MqttWire (mqtt_message b64 u qos t body sig))"
  using assms by (simp_all add: genuine_def http_message_def amqp_message_def mqtt_message_def envelope_reads_back)
    (simp add: envelope_json_def)

text \<open>Two worlds that differ at most in how they take messages outside \<open>G\<close>.\<close>

definition agree :: "(wire \<Rightarrow> bool) \<Rightarrow> transport_env \<Rightarrow> transport_env \<Rightarrow> bool" where
  "agree G N N' \<longleftrightarrow> te_now N = te_now N' \<and> (\<forall>r. G (HttpWire r) \<longrightarrow> te_http N r = te_http N' r) \<and>
     ae_closed (te_amqp N) = ae_closed (te_amqp N') \<and> ae_dial (te_amqp N) = ae_dial (te_amqp N') \<and>
     (\<forall>m. G (AmqpWire m) \<longrightarrow> ae_publish (te_amqp N) m = ae_publish (te_amqp N') m \<and> ae_confirm (te_amqp N) m = ae_confirm (te_amqp N') m) \<and>
     me_connected (te_mqtt N) = me_connected (te_mqtt N') \<and> me_connect (te_mqtt N) = me_connect (te_mqtt N') \<and>
     (\<forall>m. G (MqttWire m) \<longrightarrow> me_publish (te_mqtt N) m = me_publish (te_mqtt N') m)"

lemma http_Send_cong:
  "env (http_message t body sig) = env' (http_message t body sig) \<Longrightarrow> http_Send parse env t body sig = http_Send parse env' t body sig"
  by (cases "parse (tg_URL t)") (simp_all add: http_Send_def)

lemma amqp_Send_cong:
  assumes "ae_closed env = ae_closed env'" and "ae_dial env = ae_dial env'"
    and "\<And>u. ae_publish env (amqp_message u now t body sig) = ae_publish env' (amqp_message u now t body sig)"
    and "\<And>u. ae_confirm env (amqp_message u now t body sig) = ae_confirm env' (amqp_message u now t body sig)"
  shows "amqp_Send parse now env t body sig conns = amqp_Send parse now env' t body sig conns"
proof -
  have "amqp_getOrDial env u conns = amqp_getOrDial env' u conns" for u using assms(1,2) by (simp add: amqp_getOrDial_def Let_def)
  with assms(3,4) show ?thesis by (simp add: amqp_Send_def Let_def split: option.split prod.split)
qed

lemma mqtt_Send_cong:
  assumes "me_connected env = me_connected env'" and "me_connect env = me_connect env'"
    and "\<And>u qos. me_publish env (mqtt_message b64 u qos t body sig) = me_publish env' (mqtt_message b64 u qos t body sig)"
  shows "mqtt_Send parse b64 env t body sig clients = mqtt_Send parse b64 env' t body sig clients"
proof -
  have "getOrConnect env u i clients = getOrConnect env' u i clients" for u i using assms(1,2) by (simp add: getOrConnect_def Let_def)
  with assms(3) show ?thesis by (simp add: mqtt_Send_def split: option.split prod.split)
qed

lemma transport_Send_agree:
  assumes "agree (genuine hmac dec secret body) N N'" and "Verify hmac (Header sig) body secret" and "dec (b64 body) = Some body"
  shows "transport_Send parse b64 N tr t body sig p = transport_Send parse b64 N' tr t body sig p"
proof (cases tr)
  case HTTPTransport
  then show ?thesis
    using assms genuine_messages(1) [OF assms(2)] by (simp add: transport_Send_def agree_def cong: http_Send_cong)
next
  case AMQPTransport
  have "amqp_Send parse (te_now N) (te_amqp N) t body sig c = amqp_Send parse (te_now N) (te_amqp N') t body sig c" for c
    using assms(1) genuine_messages(2) [OF assms(2)] by (intro amqp_Send_cong) (simp_all add: agree_def)
  then show ?thesis using AMQPTransport assms(1) by (simp add: transport_Send_def agree_def)
next
  case MQTTTransport
  have "mqtt_Send parse b64 (te_mqtt N) t body sig c = mqtt_Send parse b64 (te_mqtt N') t body sig c" for c
    using assms(1) genuine_messages(3) [OF assms(2), of dec b64] assms(3) by (intro mqtt_Send_cong) (simp_all add: agree_def)
  then show ?thesis using MQTTTransport by (simp add: transport_Send_def)
qed

section \<open>Only verifiable messages leave\<close>

lemma message_wf: "json_message ft x = Inr j \<Longrightarrow> json_wf j \<and> json_depth j = Suc 0"
  by (auto simp: json_message_def split: sum.splits)

lemma json_messages_all: "json_messages ft xs = Inr js \<Longrightarrow> list_all2 (\<lambda>x j. json_message ft x = Inr j) xs js"
  by (induction xs arbitrary: js) (auto split: sum.splits)

lemma messages_wf: "json_messages ft xs = Inr js \<Longrightarrow> json_wf (JArr js) \<and> json_depth (JArr js) \<le> 2"
proof -
  assume "json_messages ft xs = Inr js"
  then have "list_all json_wf js \<and> foldr max (map json_depth js) 0 \<le> Suc 0"
    by (induction xs arbitrary: js) (auto simp: message_wf split: sum.splits)
  then show ?thesis by (simp add: comp_def)
qed

lemma payload_reads_back:
  assumes "Marshal ft p = Inr body"
  shows "\<exists>doc js. parse_json body = Some (JObj doc) \<and> map_of doc ''subscription_id'' = Some (JStr (pl_SubscriptionID p)) \<and>
     map_of doc ''matches'' = Some (JArr js) \<and> list_all2 (\<lambda>x j. json_message ft x = Inr j) (pl_Matches p) js"
proof -
  obtain ts ms c where f: "json_messages ft (pl_Matches p) = Inr ms" "json_context ft (pl_Context p) = Inr c"
    and body: "body = print_json (JObj [(''event_id'', JStr (pl_EventID p)), (''subscription_id'', JStr (pl_SubscriptionID p)),
      (''tenant_id'', JStr (pl_TenantID p)), (''channel_id'', JStr (pl_ChannelID p)),
      (''channel_name'', JStr (pl_ChannelName p)), (''ts'', JStr ts), (''matches'', JArr ms), (''context'', c)])"
    using assms by (auto simp: Marshal_def split: sum.splits)
  note m = messages_wf [OF f(1)]
  have c: "json_wf c \<and> json_depth c \<le> 2"
    using f(2) messages_wf by (fastforce simp: json_context_def split: option.splits sum.splits)
  have "parse_json body = Some (JObj [(''event_id'', JStr (pl_EventID p)), (''subscription_id'', JStr (pl_SubscriptionID p)),
      (''tenant_id'', JStr (pl_TenantID p)), (''channel_id'', JStr (pl_ChannelID p)),
      (''channel_name'', JStr (pl_ChannelName p)), (''ts'', JStr ts), (''matches'', JArr ms), (''context'', c)])"
    unfolding body by (rule parse_print_json) (use m c in \<open>simp_all add: max_depth_def\<close>)
  with json_messages_all [OF f(1)] show ?thesis by simp
qed

text \<open>
  Property C16. A subscriber can check whatever reaches it. During a delivery the worker puts nothing on the wire, be it an HTTP
  request, an AMQP message or the envelope of an MQTT message, from which the subscriber would not read, at the place
  documented for that transport, exactly the payload of the task and a signature that verifies under the subscription's
  secret: two worlds that differ only in how they take other messages make the same delivery, down to the rows recorded. And
  the payload is JSON that names the subscription and lists the matches of the task. (A payload that cannot be marshalled is not sent at all.)
\<close>

theorem only_verifiable_messages_leave:
  assumes "for_scheme (schemeOf parse (ws_URL s)) newRegistry = Some tr" and s: "s = mg_heap m ! ft_sub task"
    and body: "Marshal ft (task_payload us eid now s task) = Inr body"
    and "\<And>x. hmac (ws_Secret s) x \<noteq> []" and "\<And>b. dec (b64 b) = Some b" and "\<And>a. - (2 ^ 63) \<le> Unix (at a) \<and> Unix (at a) < 2 ^ 63"
    and "\<And>a. snd (W a) = snd (W' a)" and "\<And>a. agree (genuine hmac dec (ws_Secret s) body) (fst (W a)) (fst (W' a))"
  shows "deliver us ft hmac parse (worker_send parse b64 W tr) at cancelled now eid nv task (m, st) =
         deliver us ft hmac parse (worker_send parse b64 W' tr) at cancelled now eid nv task (m, st) \<and>
    (\<exists>doc js. parse_json body = Some (JObj doc) \<and> map_of doc ''subscription_id'' = Some (JStr (us (ws_ID s))) \<and>
       map_of doc ''matches'' = Some (JArr js) \<and> list_all2 (\<lambda>x j. json_message ft x = Inr j) (ft_matches task) js)"
proof
  have "answer us hmac (worker_send parse b64 W tr) at s body a = answer us hmac (worker_send parse b64 W' tr) at s body a" for a
    using transport_Send_agree [OF assms(8) signed_verifies, of "Unix (at a)"] assms(4-7)
    by (simp add: answer_def worker_send_def)
  then have "answer us hmac (worker_send parse b64 W tr) at s body = answer us hmac (worker_send parse b64 W' tr) at s body"
    by blast
  then show "deliver us ft hmac parse (worker_send parse b64 W tr) at cancelled now eid nv task (m, st) =
      deliver us ft hmac parse (worker_send parse b64 W' tr) at cancelled now eid nv task (m, st)"
    using deliver_finish [OF body [unfolded s] assms(1) [unfolded s]] s by simp
  show "\<exists>doc js. parse_json body = Some (JObj doc) \<and> map_of doc ''subscription_id'' = Some (JStr (us (ws_ID s))) \<and>
      map_of doc ''matches'' = Some (JArr js) \<and> list_all2 (\<lambda>x j. json_message ft x = Inr j) (ft_matches task) js"
    using payload_reads_back [OF body] by (simp add: task_payload_def)
qed

text \<open>A world that takes only the messages it likes.\<close>

definition gated_world :: "(wire \<Rightarrow> bool) \<Rightarrow> transport_env" where
  "gated_world ok = \<lparr>te_http = (\<lambda>r. if ok (HttpWire r) then Response 200 else Response 400), te_now = 0,
     te_amqp = \<lparr>ae_closed = False, ae_dial = (\<lambda>_. Dialled), ae_publish = (\<lambda>m. if ok (AmqpWire m) then None else Some ''refused''),
       ae_confirm = (\<lambda>m. Confirmed True)\<rparr>,
     te_mqtt = \<lparr>me_connected = True, me_connect = (\<lambda>_. Connected), me_publish = (\<lambda>m. if ok (MqttWire m) then Published else PublishError ''refused'')\<rparr>\<rparr>"

definition gated_send :: "(wire \<Rightarrow> bool) \<Rightarrow> nat \<Rightarrow> Target \<Rightarrow> bytes \<Rightarrow> Signature \<Rightarrow> DeliveryResult" where
  "gated_send ok = worker_send sample_url id (\<lambda>a. (gated_world ok, \<lparr>po_amqp = [], po_mqtt = []\<rparr>)) HTTPTransport"

definition sample_body :: bytes where
  "sample_body = (case Marshal (\<lambda>_. Inr ''t'') (task_payload (\<lambda>_. ''u'') (Some 2) 100 (sample_sub 0) sample_task) of Inl _ \<Rightarrow> [] | Inr b \<Rightarrow> b)"

theorem only_verifiable_messages_leave_witness:
  "deliver (\<lambda>_. ''u'') (\<lambda>_. Inr ''t'') (\<lambda>k x. ''mac'') sample_url (gated_send (\<lambda>_. True)) (\<lambda>a. unix_epoch) (\<lambda>a. False) 100 (Some 2) (Some 77)
     sample_task (sample_manager 0, worker_store) =
   deliver (\<lambda>_. ''u'') (\<lambda>_. Inr ''t'') (\<lambda>k x. ''mac'') sample_url (gated_send (genuine (\<lambda>k x. ''mac'') Some ''k'' sample_body)) (\<lambda>a. unix_epoch)
     (\<lambda>a. False) 100 (Some 2) (Some 77) sample_task (sample_manager 0, worker_store)"
proof -
  let ?ok = "genuine (\<lambda>k x. ''mac'') Some ''k'' sample_body"
  have s: "sample_sub 0 = mg_heap (sample_manager 0) ! ft_sub sample_task" "ws_Secret (sample_sub 0) = ''k''"
    by (simp_all add: sample_manager_fields sample_task_def sample_sub_def)
  have a: "agree (genuine (\<lambda>k x. ''mac'') Some (ws_Secret (sample_sub 0)) sample_body) (gated_world (\<lambda>_. True)) (gated_world ?ok)"
    by (simp add: agree_def gated_world_def s(2))
  have b: "Marshal (\<lambda>_. Inr ''t'') (task_payload (\<lambda>_. ''u'') (Some 2) 100 (sample_sub 0) sample_task) = Inr sample_body"
    using sample_body_ex [of "''t''" "\<lambda>_. ''u''" "Some 2" 100 "sample_sub 0"] by (auto simp: sample_body_def)
  show ?thesis unfolding gated_send_def
    by (rule only_verifiable_messages_leave [OF sample_transport s(1) b, THEN conjunct1])
      (use a in \<open>simp_all add: Unix_def\<close>)
qed

section \<open>Pools\<close>

lemma drop_all: "fold (\<lambda>k. removeAll k) xs ys = filter (\<lambda>y. y \<notin> set xs) ys"
  by (induction xs arbitrary: ys) (auto simp: removeAll_filter_not_eq intro: filter_cong)

lemma amqp_Close_empties: "fst (amqp_Close C conns) = []"
proof -
  have "fst (fold (\<lambda>k (cs, firstErr). (removeAll k cs, g k firstErr)) xs (ys, e)) = fold (\<lambda>k. removeAll k) xs ys" for g xs ys e
    by (induction xs arbitrary: ys e) simp_all
  from this [of "\<lambda>k firstErr. first_err (first_err firstErr (ce_channel C k)) (if ce_closed C k then None else ce_conn C k)" conns conns None]
  show ?thesis by (simp add: amqp_Close_def drop_all)
qed

text \<open>Stopping the manager leaves no pooled connection behind, whatever errors closing them meets.\<close>

theorem Stop_leaves_no_connection: "snd (fst (Manager_Stop C (m, p))) = \<lparr>po_amqp = [], po_mqtt = []\<rparr> \<and> mg_stopped (fst (fst (Manager_Stop C (m, p))))"
proof -
  have "map snd newRegistry = [HTTPTransport, HTTPTransport, AMQPTransport, AMQPTransport, MQTTTransport, MQTTTransport]"
    by code_simp
  then have "all_transports newRegistry = [HTTPTransport, AMQPTransport, MQTTTransport]" by (simp add: all_transports_def)
  then show ?thesis
    using amqp_Close_empties [of C "po_amqp p"]
    by (auto simp: Manager_Stop_def closeAll_def mqtt_Close_def drop_all pool_Stop_def Let_def split: prod.split)
qed

text \<open>
  The pools are keyed without the password: a delivery whose URL has the user, host and path of a pooled connection goes out over
  that connection, whatever its own password is and whether or not the broker would accept it.
\<close>

theorem pool_ignores_password:
  assumes "parse (tg_URL t) = Some (u\<lparr>u_Password := pw\<rparr>)"
  shows "amqpKey u \<in> set conns \<Longrightarrow> \<not> ae_closed ea \<Longrightarrow>
      amqp_Send parse now ea t body sig conns = amqp_Send parse now (ea\<lparr>ae_dial := (\<lambda>_. DialError e)\<rparr>) t body sig conns"
    and "mqttKey u \<in> set clients \<Longrightarrow> me_connected em \<Longrightarrow>
      mqtt_Send parse b64 em t body sig clients = mqtt_Send parse b64 (em\<lparr>me_connect := (\<lambda>_. ConnectError e)\<rparr>) t body sig clients"
  using assms by (simp_all add: amqp_Send_def amqp_getOrDial_def amqpKey_def mqtt_Send_def getOrConnect_def mqttKey_def user_name_def
      query_Get_def Let_def cong: option.case_cong)

end
