(* ===== verification/Auth.thy ===== *)
theory Auth
  imports Store_Integrity
begin

text \<open>
  Authentication (\<^verbatim>\<open>internal/auth/auth.go\<close>). The Argon2id function is the argument
  \<open>IDKey\<close> (password, salt, iterations, memory, parallelism, key length); SHA-256 is \<open>sha256\<close>;
  the base64 decoders and encoders are arguments; random bytes are arguments, \<open>None\<close> when the
  source fails.
\<close>

datatype auth_error = ErrUnauthenticated | ErrUnsupported | ErrTenantNotFound | ErrTenantSuspended | ErrAuthInternal

type_synonym idkey = "bytes \<Rightarrow> bytes \<Rightarrow> nat \<Rightarrow> nat \<Rightarrow> nat \<Rightarrow> nat \<Rightarrow> bytes"

definition argonMemory :: nat where "argonMemory = 65536"
definition argonIterations :: nat where "argonIterations = 3"
definition argonParallelism :: nat where "argonParallelism = 1"
definition argonKeyLen :: nat where "argonKeyLen = 32"

definition ParamsString :: string where
  "ParamsString = ''argon2id,m=65536,t=3,p=1,k=32''"

section \<open>Password hashes\<close>

definition HashPassword :: "idkey \<Rightarrow> bytes option \<Rightarrow> string \<Rightarrow> (bytes \<times> bytes \<times> string) option" where
  "HashPassword IDKey rand password =
     (case rand of
        None \<Rightarrow> None
      | Some salt \<Rightarrow> Some (IDKey password salt argonIterations argonMemory argonParallelism argonKeyLen, salt, ParamsString))"

record argon_params =
  ap_mem :: nat
  ap_iters :: nat
  ap_par :: nat
  ap_keyLen :: nat

text \<open>One \<^verbatim>\<open>key=value\<close> part: a part without \<^verbatim>\<open>=\<close> is skipped, \<^verbatim>\<open>p\<close> is cut to eight bits.\<close>

definition param_part :: "string \<Rightarrow> argon_params \<Rightarrow> argon_params option" where
  "param_part kv p =
     (case IndexByte kv CHR ''='' of
        None \<Rightarrow> Some p
      | Some eq \<Rightarrow>
          let k = take eq kv; v = drop (eq + 1) kv
          in case ParseUint 32 v of
               None \<Rightarrow> None
             | Some n \<Rightarrow> Some
                 (if k = ''m'' then p\<lparr>ap_mem := n\<rparr>
                  else if k = ''t'' then p\<lparr>ap_iters := n\<rparr>
                  else if k = ''p'' then p\<lparr>ap_par := n mod 256\<rparr>
                  else if k = ''k'' then p\<lparr>ap_keyLen := n\<rparr>
                  else p))"

fun param_parts :: "string list \<Rightarrow> argon_params \<Rightarrow> argon_params option" where
  "param_parts [] p = Some p"
| "param_parts (kv # kvs) p = (case param_part kv p of None \<Rightarrow> None | Some p' \<Rightarrow> param_parts kvs p')"

definition parseParams :: "string \<Rightarrow> argon_params option" where
  "parseParams s =
     (if \<not> HasPrefix s ''argon2id,'' then None
      else case param_parts (Split (TrimPrefix s ''argon2id,'') CHR '','')
                  \<lparr>ap_mem = 0, ap_iters = 0, ap_par = 0, ap_keyLen = argonKeyLen\<rparr> of
        None \<Rightarrow> None
      | Some p \<Rightarrow> if ap_mem p = 0 \<or> ap_iters p = 0 \<or> ap_par p = 0 then None else Some p)"

definition ComputeClientProof :: "idkey \<Rightarrow> string \<Rightarrow> bytes \<Rightarrow> string \<Rightarrow> bytes option" where
  "ComputeClientProof IDKey password salt params =
     map_option (\<lambda>p. IDKey password salt (ap_iters p) (ap_mem p) (ap_par p) (ap_keyLen p)) (parseParams params)"

definition VerifyPassword :: "idkey \<Rightarrow> Account option \<Rightarrow> string \<Rightarrow> auth_error option" where
  "VerifyPassword IDKey stored candidate =
     (case stored of
        None \<Rightarrow> Some ErrUnauthenticated
      | Some a \<Rightarrow>
          (case parseParams (acc_PasswordParams a) of
             None \<Rightarrow> Some ErrUnauthenticated
           | Some p \<Rightarrow>
               if IDKey candidate (acc_PasswordSalt a) (ap_iters p) (ap_mem p) (ap_par p) (ap_keyLen p) \<noteq> acc_PasswordHash a
               then Some ErrUnauthenticated else None))"

section \<open>The password handshake\<close>

record Challenge =
  cl_AccountID :: uuid
  cl_TenantID :: uuid
  cl_Nonce :: bytes
  cl_Salt :: bytes
  cl_Params :: string

definition BeginPasswordAuth :: "bytes option \<Rightarrow> string \<Rightarrow> string \<Rightarrow> store \<Rightarrow> auth_error + Challenge \<times> Tenant" where
  "BeginPasswordAuth rand tenantSlug username st =
     (case GetTenantBySlug tenantSlug st of
        Inl e \<Rightarrow> Inl (if e = ErrNotFound then ErrTenantNotFound else ErrAuthInternal)
      | Inr tenant \<Rightarrow>
          if ten_Status tenant = TenantSuspended then Inl ErrTenantSuspended
          else case GetAccountByUsername (ten_ID tenant) username st of
            Inl e \<Rightarrow> Inl (if e = ErrNotFound then ErrUnauthenticated else ErrAuthInternal)
          | Inr acc \<Rightarrow>
              (case rand of
                 None \<Rightarrow> Inl ErrAuthInternal
               | Some nonce \<Rightarrow> Inr (\<lparr>cl_AccountID = acc_ID acc, cl_TenantID = ten_ID tenant, cl_Nonce = nonce,
                   cl_Salt = acc_PasswordSalt acc, cl_Params = acc_PasswordParams acc\<rparr>, tenant)))"

text \<open>A result: accepted with account and tenant, or refused with the reason for the wire.\<close>

datatype auth_result = AuthOK Account Tenant | AuthRefused string

definition CompletePasswordAuth :: "(string \<Rightarrow> bytes option) \<Rightarrow> Challenge \<Rightarrow> string \<Rightarrow> store \<Rightarrow> auth_error + auth_result" where
  "CompletePasswordAuth b64dec ch proofBase64 st =
     (case b64dec proofBase64 of
        None \<Rightarrow> Inr (AuthRefused ''invalid_credentials'')
      | Some proof \<Rightarrow>
          (case GetAccountByID (cl_TenantID ch) (cl_AccountID ch) st of
             Inl _ \<Rightarrow> Inr (AuthRefused ''invalid_credentials'')
           | Inr acc \<Rightarrow>
               if proof \<noteq> acc_PasswordHash acc then Inr (AuthRefused ''invalid_credentials'')
               else case GetTenantByID (acc_TenantID acc) st of
                 Inl _ \<Rightarrow> Inl ErrAuthInternal
               | Inr tenant \<Rightarrow> Inr (AuthOK acc tenant)))"

section \<open>Tokens\<close>

definition IssueToken :: "(bytes \<Rightarrow> string) \<Rightarrow> (string \<Rightarrow> bytes) \<Rightarrow> bytes option \<Rightarrow> gotime \<Rightarrow> uuid option
    \<Rightarrow> uuid \<Rightarrow> uuid \<Rightarrow> string \<Rightarrow> store \<Rightarrow> auth_error + store \<times> string \<times> Token" where
  "IssueToken b64url sha256 rand now newV7 tenantID accountID label st =
     (case rand of
        None \<Rightarrow> Inl ErrAuthInternal
      | Some raw \<Rightarrow>
          let plaintext = b64url raw
          in case CreateToken now newV7 tenantID accountID (sha256 plaintext) label st of
               Inl _ \<Rightarrow> Inl ErrAuthInternal
             | Inr (st', t) \<Rightarrow> Inr (st', plaintext, t))"

definition AuthenticateToken :: "(string \<Rightarrow> bytes) \<Rightarrow> string \<Rightarrow> store \<Rightarrow> auth_error + auth_result \<times> Token option" where
  "AuthenticateToken sha256 plaintext st =
     (if plaintext = '''' then Inr (AuthRefused ''invalid_credentials'', None)
      else case GetTokenByHash (sha256 plaintext) st of
        Inl _ \<Rightarrow> Inr (AuthRefused ''invalid_credentials'', None)
      | Inr tok \<Rightarrow>
          (case GetTenantByID (tok_TenantID tok) st of
             Inl _ \<Rightarrow> Inl ErrAuthInternal
           | Inr tenant \<Rightarrow>
               if ten_Status tenant = TenantSuspended then Inr (AuthRefused ''tenant_suspended'', None)
               else case GetAccountByID (tok_TenantID tok) (tok_AccountID tok) st of
                 Inl _ \<Rightarrow> Inl ErrAuthInternal
               | Inr acc \<Rightarrow> Inr (AuthOK acc tenant, Some tok)))"

section \<open>Password correctness\<close>

lemma parseParams_ParamsString:
  "parseParams ParamsString = Some \<lparr>ap_mem = argonMemory, ap_iters = argonIterations, ap_par = argonParallelism, ap_keyLen = argonKeyLen\<rparr>"
  by (simp add: parseParams_def ParamsString_def HasPrefix_def TrimPrefix_def param_part_def ParseUint_def digits_val_def
      digit_val_def is_digit_def argonMemory_def argonIterations_def argonParallelism_def argonKeyLen_def Let_def)

lemma GetTenantBySlug_Inr: "GetTenantBySlug slug st = Inr t \<Longrightarrow>
    \<not> st_down st \<and> ten_Slug t = slug \<and> (\<exists>r \<in> set (st_tenants st). t = scanTenant r \<and> ten_ID r = ten_ID t)"
  by (auto simp: GetTenantBySlug_def query_row_Inr find_Some_iff scanTenant_def)

lemma GetAccountByUsername_Inr: "GetAccountByUsername T u st = Inr a \<Longrightarrow>
    acc_TenantID a = T \<and> acc_Username a = u \<and> (\<exists>r \<in> set (st_accounts st). a = scanAccount r)"
  by (auto simp: GetAccountByUsername_def query_row_Inr find_Some_iff scanAccount_def)

lemma GetAccountByID_Inr: "GetAccountByID T i st = Inr a \<Longrightarrow>
    acc_TenantID a = T \<and> acc_ID a = i \<and> (\<exists>r \<in> set (st_accounts st). a = scanAccount r)"
  by (auto simp: GetAccountByID_def query_row_Inr find_Some_iff scanAccount_def)

lemma find_SomeD: "find P xs = Some x \<Longrightarrow> x \<in> set xs \<and> P x"
  by (induction xs) (auto split: if_splits)

lemma find_snoc: "\<forall>x \<in> set xs. \<not> P x \<Longrightarrow> P y \<Longrightarrow> find P (xs @ [y]) = Some y"
  by (induction xs) auto

lemma find_unique:
  "distinct (map key xs) \<Longrightarrow> r \<in> set xs \<Longrightarrow> Q r \<Longrightarrow> find (\<lambda>x. Q x \<and> key x = key r) xs = Some r"
  by (induction xs) (auto simp: image_iff)

lemma account_unique:
  assumes "store_ok st" and "GetAccountByUsername T u st = Inr a"
  shows "GetAccountByID T (acc_ID a) st = Inr a"
proof -
  obtain r where r: "r \<in> set (st_accounts st)" "acc_TenantID r = T" "a = scanAccount r" and up: "\<not> st_down st"
    using assms(2) by (auto simp: GetAccountByUsername_def query_row_Inr dest: find_SomeD)
  have "distinct (map acc_ID (st_accounts st))" using assms(1) by (simp add: store_ok_def table_ok_def)
  then have "find (\<lambda>x. acc_TenantID x = T \<and> acc_ID x = acc_ID r) (st_accounts st) = Some r"
    by (rule find_unique) (use r in simp_all)
  then show ?thesis using r up by (simp add: GetAccountByID_def query_row_Inr) (simp add: scanAccount_def)
qed

lemma tenant_by_id:
  assumes "store_ok st" and "GetTenantBySlug slug st = Inr t"
  shows "GetTenantByID (ten_ID t) st = Inr t"
proof -
  obtain r where r: "r \<in> set (st_tenants st)" "t = scanTenant r" and up: "\<not> st_down st"
    using GetTenantBySlug_Inr [OF assms(2)] by blast
  have "distinct (map ten_ID (st_tenants st))" using assms(1) by (simp add: store_ok_def)
  from find_unique [OF this r(1), of "\<lambda>_. True"] r up show ?thesis
    by (simp add: GetTenantByID_def query_row_Inr) (simp add: scanTenant_def)
qed

text \<open>
  The password handshake is correct for an honest client: for an account whose hash
  was made by \<^verbatim>\<open>HashPassword\<close>, a client that computes its proof from the challenge's salt and
  parameters is accepted, as that account of that tenant, with the right password; and with any
  password it is accepted exactly when Argon2id maps it to the same key. The server-side
  \<^verbatim>\<open>VerifyPassword\<close> decides the same.
\<close>

theorem password_login_correct:
  assumes "store_ok st" and "BeginPasswordAuth rand slug username st = Inr (ch, tenant)"
    and "GetAccountByUsername (ten_ID tenant) username st = Inr acc"
    and "HashPassword IDKey (Some (acc_PasswordSalt acc)) password
           = Some (acc_PasswordHash acc, acc_PasswordSalt acc, acc_PasswordParams acc)"
    and "\<And>b. b64dec (b64enc b) = Some b"
  shows "\<exists>proof. ComputeClientProof IDKey attempt (cl_Salt ch) (cl_Params ch) = Some proof
     \<and> CompletePasswordAuth b64dec ch (b64enc proof) st
         = Inr (if VerifyPassword IDKey (Some acc) attempt = None then AuthOK acc tenant else AuthRefused ''invalid_credentials'')
     \<and> (VerifyPassword IDKey (Some acc) attempt = None \<longleftrightarrow>
          IDKey attempt (acc_PasswordSalt acc) 3 65536 1 32 = IDKey password (acc_PasswordSalt acc) 3 65536 1 32)"
proof -
  have t: "GetTenantBySlug slug st = Inr tenant" and ch: "cl_TenantID ch = ten_ID tenant" "cl_AccountID ch = acc_ID acc"
      "cl_Salt ch = acc_PasswordSalt acc" "cl_Params ch = acc_PasswordParams acc"
    using assms(2,3) by (auto simp: BeginPasswordAuth_def split: sum.splits option.splits if_splits)
  have h: "acc_PasswordParams acc = ParamsString" "acc_PasswordHash acc = IDKey password (acc_PasswordSalt acc) 3 65536 1 32"
    using assms(4) by (simp_all add: HashPassword_def argonMemory_def argonIterations_def argonParallelism_def argonKeyLen_def)
  have p: "ComputeClientProof IDKey attempt (cl_Salt ch) (cl_Params ch) = Some (IDKey attempt (acc_PasswordSalt acc) 3 65536 1 32)"
    by (simp add: ComputeClientProof_def ch h parseParams_ParamsString argonMemory_def argonIterations_def
        argonParallelism_def argonKeyLen_def)
  have v: "VerifyPassword IDKey (Some acc) attempt = None \<longleftrightarrow> IDKey attempt (acc_PasswordSalt acc) 3 65536 1 32 = acc_PasswordHash acc"
    by (simp add: VerifyPassword_def h(1) parseParams_ParamsString argonMemory_def argonIterations_def
        argonParallelism_def argonKeyLen_def)
  have a: "GetAccountByID (cl_TenantID ch) (cl_AccountID ch) st = Inr acc"
    unfolding ch by (rule account_unique [OF assms(1,3)])
  have "acc_TenantID acc = ten_ID tenant" using GetAccountByUsername_Inr [OF assms(3)] by simp
  then have "GetTenantByID (acc_TenantID acc) st = Inr tenant" using tenant_by_id [OF assms(1) t] by simp
  with p v a h(2) show ?thesis
    by (auto simp: CompletePasswordAuth_def assms(5))
qed

definition login_store :: store where
  "login_store = Migrate\<lparr>st_tenants := [\<lparr>ten_ID = 1, ten_Slug = ''acme'', ten_DisplayName = ''Acme'', ten_Settings = ''{}'',
       ten_Status = TenantActive, ten_CreatedAt = 0\<rparr>],
     st_accounts := [\<lparr>acc_ID = 20, acc_TenantID = 1, acc_Username = ''ann'', acc_DisplayName = ''Ann'', acc_Type = AccountHuman,
       acc_PasswordHash = ''pw'' @ ''salt'', acc_PasswordSalt = ''salt'', acc_PasswordParams = ParamsString,
       acc_RecoveryEmail = '''', acc_CreatedAt = 0\<rparr>]\<rparr>"

definition login_account :: Account where
  "login_account = \<lparr>acc_ID = 20, acc_TenantID = 1, acc_Username = ''ann'', acc_DisplayName = ''Ann'', acc_Type = AccountHuman,
       acc_PasswordHash = ''pw'' @ ''salt'', acc_PasswordSalt = ''salt'', acc_PasswordParams = ParamsString,
       acc_RecoveryEmail = '''', acc_CreatedAt = unix_epoch\<rparr>"

definition login_tenant :: Tenant where
  "login_tenant = \<lparr>ten_ID = 1, ten_Slug = ''acme'', ten_DisplayName = ''Acme'', ten_Settings = ''{}'',
       ten_Status = TenantActive, ten_CreatedAt = unix_epoch\<rparr>"

lemmas login_eval = login_store_def login_account_def login_tenant_def Migrate_def query_row_def GetTenantBySlug_def
  GetTenantByID_def GetAccountByUsername_def GetAccountByID_def scanTenant_def scanAccount_def time_UnixMicro_def
  TenantActive_def TenantSuspended_def

lemma login_store_ok: "store_ok login_store"
  by (simp add: login_store_def Migrate_def store_ok_def table_ok_def)

theorem password_login_correct_witness:
  "CompletePasswordAuth Some \<lparr>cl_AccountID = 20, cl_TenantID = 1, cl_Nonce = ''n'', cl_Salt = ''salt'', cl_Params = ParamsString\<rparr>
     (''pw'' @ ''salt'') login_store = Inr (AuthOK login_account login_tenant)"
proof -
  let ?K = "\<lambda>p s (i::nat) (m::nat) (q::nat) (k::nat). p @ s :: bytes"
  let ?ch = "\<lparr>cl_AccountID = 20, cl_TenantID = 1, cl_Nonce = ''n'', cl_Salt = ''salt'', cl_Params = ParamsString\<rparr>"
  have b: "BeginPasswordAuth (Some ''n'') ''acme'' ''ann'' login_store = Inr (?ch, login_tenant)"
    by (simp add: BeginPasswordAuth_def login_eval)
  have a: "GetAccountByUsername (ten_ID login_tenant) ''ann'' login_store = Inr login_account"
    by (simp add: login_eval)
  have h: "HashPassword ?K (Some (acc_PasswordSalt login_account)) ''pw''
      = Some (acc_PasswordHash login_account, acc_PasswordSalt login_account, acc_PasswordParams login_account)"
    by (simp add: HashPassword_def login_account_def)
  have p: "ComputeClientProof ?K ''pw'' (cl_Salt ?ch) (cl_Params ?ch) = Some (''pw'' @ ''salt'')"
    by (simp add: ComputeClientProof_def parseParams_ParamsString)
  have s: "acc_PasswordSalt login_account = ''salt''" by (simp add: login_account_def)
  from password_login_correct [OF login_store_ok b a h, of Some "\<lambda>x. x" "''pw''"] show ?thesis
    unfolding p by (simp add: s)
qed

section \<open>Token correctness\<close>

text \<open>
  A bearer token is accepted only for the account it was issued to: when
  \<^verbatim>\<open>AuthenticateToken\<close> succeeds, the presented text hashes to a stored token that is not revoked,
  the account is that token's account within the token's tenant, and that tenant is not suspended.
\<close>

theorem token_auth_sound:
  assumes "AuthenticateToken sha256 plaintext st = Inr (AuthOK acc tenant, Some tok)"
  shows "plaintext \<noteq> '''' \<and> (\<exists>row \<in> set (st_tokens st). tok_Hash row = sha256 plaintext \<and> tok_RevokedAt row = 0
            \<and> tok_ID row = tok_ID tok \<and> tok_TenantID row = ten_ID tenant \<and> tok_AccountID row = acc_ID acc)
     \<and> acc_TenantID acc = ten_ID tenant \<and> ten_Status tenant \<noteq> TenantSuspended"
proof -
  have steps: "plaintext \<noteq> ''''" "GetTokenByHash (sha256 plaintext) st = Inr tok"
    "GetTenantByID (tok_TenantID tok) st = Inr tenant" "ten_Status tenant \<noteq> TenantSuspended"
    "GetAccountByID (tok_TenantID tok) (tok_AccountID tok) st = Inr acc"
    using assms by (auto simp: AuthenticateToken_def split: if_splits sum.splits)
  obtain row where "row \<in> set (st_tokens st)" "tok_Hash row = sha256 plaintext" "tok_RevokedAt row = 0" "tok = scanToken row"
    using steps(2) by (auto simp: GetTokenByHash_def query_row_Inr dest: find_SomeD)
  moreover have "ten_ID tenant = tok_TenantID tok"
    using steps(3) by (auto simp: GetTenantByID_def query_row_Inr scanTenant_def dest: find_SomeD)
  ultimately show ?thesis
    using steps(1,4) GetAccountByID_Inr [OF steps(5)] by (auto simp: scanToken_def)
qed

text \<open>The row that issuing a token writes.\<close>

lemma IssueToken_live:
  assumes "IssueToken b64url sha256 rand now newV7 T A label st = Inr (st', plaintext, tok)"
  shows "GetTokenByHash (sha256 plaintext) st' = Inr (tok\<lparr>tok_CreatedAt := time_UnixMicro (UnixMicro now)\<rparr>)"
    and "tok_TenantID tok = T" "tok_AccountID tok = A" "rand \<noteq> None" "plaintext = b64url (the rand)"
    and "tok\<lparr>tok_CreatedAt := UnixMicro now\<rparr> \<in> set (st_tokens st')" "tok_Hash tok = sha256 plaintext"
    and "st' = st\<lparr>st_tokens := st_tokens st'\<rparr>"
proof -
  obtain raw where raw: "rand = Some raw" "plaintext = b64url raw"
    and c: "CreateToken now newV7 T A (sha256 plaintext) label st = Inr (st', tok)"
    using assms by (auto simp: IssueToken_def Let_def split: option.splits sum.splits)
  show "rand \<noteq> None" "plaintext = b64url (the rand)" using raw by simp_all
  let ?row = "tok\<lparr>tok_CreatedAt := UnixMicro now\<rparr>"
  have st': "st' = st\<lparr>st_tokens := st_tokens st @ [?row]\<rparr>" and fresh: "\<forall>r \<in> set (st_tokens st). tok_Hash r \<noteq> sha256 plaintext"
    and tok: "tok_TenantID tok = T" "tok_AccountID tok = A" "tok_Hash tok = sha256 plaintext" "tok_RevokedAt tok = 0"
      "tok_LastUsedAt tok = 0" and up: "\<not> st_down st"
    using c by (auto simp: CreateToken_def exec_insert_def Let_def split: option.splits sum.splits if_splits)
  show "tok_TenantID tok = T" "tok_AccountID tok = A" "tok_Hash tok = sha256 plaintext" by (fact tok)+
  show "?row \<in> set (st_tokens st')" "st' = st\<lparr>st_tokens := st_tokens st'\<rparr>" by (simp_all add: st')
  have "find (\<lambda>r. tok_Hash r = sha256 plaintext \<and> tok_RevokedAt r = 0) (st_tokens st @ [?row]) = Some ?row"
    using fresh tok by (intro find_snoc) auto
  then show "GetTokenByHash (sha256 plaintext) st' = Inr (tok\<lparr>tok_CreatedAt := time_UnixMicro (UnixMicro now)\<rparr>)"
    using up tok by (simp add: GetTokenByHash_def query_row_Inr st') (simp add: scanToken_def scan_nullable_def)
qed

text \<open>
  Issuing and revoking: a token that \<^verbatim>\<open>IssueToken\<close> returned authenticates as its account
  straight away; and once it is revoked, no later sequence of store operations makes the same text
  authenticate again.
\<close>

theorem issued_token_lives_until_revoked:
  assumes "store_reachable st" and "IssueToken b64url sha256 rand now newV7 T A label st = Inr (st', plaintext, tok)"
    and "plaintext \<noteq> ''''" and "GetTenantByID T st' = Inr tenant" and "ten_Status tenant \<noteq> TenantSuspended"
    and "GetAccountByID T A st' = Inr acc"
  shows "AuthenticateToken sha256 plaintext st' = Inr (AuthOK acc tenant, Some (tok\<lparr>tok_CreatedAt := time_UnixMicro (UnixMicro now)\<rparr>))
    \<and> (RevokeToken now' T (tok_ID tok) st' = Inr st'' \<longrightarrow> UnixMicro now' \<noteq> 0 \<longrightarrow> \<not> st_down (run_cmds cs st'') \<longrightarrow>
         AuthenticateToken sha256 plaintext (run_cmds cs st'') = Inr (AuthRefused ''invalid_credentials'', None))"
proof -
  note live = IssueToken_live [OF assms(2)]
  have now: "AuthenticateToken sha256 plaintext st' = Inr (AuthOK acc tenant, Some (tok\<lparr>tok_CreatedAt := time_UnixMicro (UnixMicro now)\<rparr>))"
    using assms(3-6) live by (simp add: AuthenticateToken_def)
  have c: "CreateToken now newV7 T A (sha256 plaintext) label st = Inr (st', tok)"
    using assms(2) by (auto simp: IssueToken_def Let_def split: option.splits sum.splits)
  have reach: "store_reachable st'"
  proof -
    have "st' = exec_cmd (CmdCreateToken now newV7 T A (sha256 plaintext) label) st"
      using c by (simp add: after_fst_def)
    then show ?thesis using store_reachable.exec [OF assms(1)] by (simp only:)
  qed
  have "AuthenticateToken sha256 plaintext (run_cmds cs st'') = Inr (AuthRefused ''invalid_credentials'', None)"
    if "RevokeToken now' T (tok_ID tok) st' = Inr st''" "UnixMicro now' \<noteq> 0" "\<not> st_down (run_cmds cs st'')"
  proof -
    from RevokeToken_dead [OF reachable_ok [OF reach] that(1,2) live(6)] live(7)
    have "hash_dead (sha256 plaintext) st''" by simp
    then have "GetTokenByHash (sha256 plaintext) (run_cmds cs st'') = Inl ErrNotFound"
      by (rule hash_dead_lookup [OF hash_dead_run that(3)])
    then show ?thesis using assms(3) by (simp add: AuthenticateToken_def)
  qed
  with now show ?thesis by blast
qed

definition issue_store :: store where
  "issue_store = run_cmds
     [CmdCreateTenant unix_epoch (Some 1) \<lparr>ten_ID = 0, ten_Slug = ''acme'', ten_DisplayName = ''Acme'', ten_Settings = ''{}'',
        ten_Status = '''', ten_CreatedAt = 0\<rparr>,
      CmdCreateAccount unix_epoch (Some 20) 1 \<lparr>acc_ID = 0, acc_TenantID = 0, acc_Username = ''bot'', acc_DisplayName = ''Bot'',
        acc_Type = AccountBot, acc_PasswordHash = ''h'', acc_PasswordSalt = ''s'', acc_PasswordParams = ParamsString,
        acc_RecoveryEmail = '''', acc_CreatedAt = 0\<rparr>] Migrate"

definition issued_store :: store where
  "issued_store = exec_cmd (CmdCreateToken unix_epoch (Some 40) 1 20 (''H'' @ ''raw'') ''ci'') issue_store"

definition bot_account :: Account where
  "bot_account = \<lparr>acc_ID = 20, acc_TenantID = 1, acc_Username = ''bot'', acc_DisplayName = ''Bot'',
     acc_Type = AccountBot, acc_PasswordHash = ''h'', acc_PasswordSalt = ''s'', acc_PasswordParams = ParamsString,
     acc_RecoveryEmail = '''', acc_CreatedAt = unix_epoch\<rparr>"

definition issued_token :: Token where
  "issued_token = \<lparr>tok_ID = 40, tok_TenantID = 1, tok_AccountID = 20, tok_Hash = ''H'' @ ''raw'', tok_Label = ''ci'',
     tok_CreatedAt = unix_epoch, tok_LastUsedAt = 0, tok_RevokedAt = 0\<rparr>"

lemmas issue_eval = issued_store_def issue_store_def eval_tokens login_eval bot_account_def issued_token_def
  exec_insert_def time_UnixMicro_def unix_epoch_def AccountBot_def ParamsString_def

lemma issued_store_facts:
  "IssueToken (\<lambda>b. b) (\<lambda>p. ''H'' @ p) (Some ''raw'') unix_epoch (Some 40) 1 20 ''ci'' issue_store
     = Inr (issued_store, ''raw'', issued_token)"
  "GetTenantByID 1 issued_store = Inr login_tenant" "GetAccountByID 1 20 issued_store = Inr bot_account"
  by (simp_all add: IssueToken_def issue_eval)

lemma issue_store_reachable: "store_reachable issue_store"
  unfolding issue_store_def by (intro run_cmds_reachable store_reachable.empty)

theorem issued_token_lives_until_revoked_witness:
  "AuthenticateToken (\<lambda>p. ''H'' @ p) ''raw'' issued_store
     = Inr (AuthOK bot_account login_tenant, Some (issued_token\<lparr>tok_CreatedAt := time_UnixMicro (UnixMicro unix_epoch)\<rparr>))"
  using issued_token_lives_until_revoked [OF issue_store_reachable issued_store_facts(1) _ issued_store_facts(2) _ issued_store_facts(3)]
  by (simp add: login_tenant_def TenantActive_def TenantSuspended_def)

theorem token_auth_sound_witness:
  "acc_TenantID bot_account = ten_ID login_tenant \<and> ten_Status login_tenant \<noteq> TenantSuspended"
proof -
  have "AuthenticateToken (\<lambda>p. ''H'' @ p) ''raw'' issued_store = Inr (AuthOK bot_account login_tenant, Some issued_token)"
    by (simp add: AuthenticateToken_def issued_store_facts)
      (simp add: issue_eval GetTokenByHash_def scanToken_def scan_nullable_def)
  from token_auth_sound [OF this] show ?thesis by simp
qed

end
