(* ===== verification/Subops.thy ===== *)
theory Subops
  imports Webhook_Worker Auth
begin

text \<open>
  Subscription management (\<^verbatim>\<open>internal/subops/subops.go\<close>), the logic that the REST control plane and
  the realtime handlers share. A call works on the store and, when there is one, the webhook manager
  (\<open>None\<close> is Go's nil). UUID parsing, URL parsing, regular expressions and the random secret
  (\<open>None\<close> when the source fails) are arguments. A Go slice or pointer that may be nil is an option.
\<close>

datatype subops_error = SubBadRequest | SubNotFound | SubNotOwner | SubInternal

record CreateInput =
  ci_ChannelName :: string
  ci_ChannelID :: string
  ci_URL :: string
  ci_Match :: bytes
  ci_Events :: "string list"
  ci_ContextLines :: int
  ci_DebounceMs :: int
  ci_CooldownMs :: int
  ci_Budget :: bytes

record UpdateInput =
  ui_URL :: "string option"
  ui_Match :: "bytes option"
  ui_Events :: "string list option"
  ui_ContextLines :: "int option"
  ui_DebounceMs :: "int option"
  ui_CooldownMs :: "int option"
  ui_Budget :: "bytes option"
  ui_Disabled :: "bool option"

type_synonym world = "store \<times> Manager option"

text \<open>The library functions the operations call.\<close>

record subops_lib =
  lib_uuid_Parse :: "string \<Rightarrow> uuid option"
  lib_url_Parse :: "string \<Rightarrow> URL option"
  lib_regexp :: "string \<Rightarrow> (string \<Rightarrow> bool) option"

abbreviation lib_Compile :: "subops_lib \<Rightarrow> bytes \<Rightarrow> match_error + Matcher" where
  "lib_Compile L \<equiv> Compile (lib_uuid_Parse L) (lib_regexp L)"

section \<open>Operations\<close>

definition resolveChannelID :: "subops_lib \<Rightarrow> uuid \<Rightarrow> string \<Rightarrow> string \<Rightarrow> store \<Rightarrow> subops_error + uuid" where
  "resolveChannelID L tenantID name i st =
     (if i \<noteq> '''' then
        (case lib_uuid_Parse L i of
           None \<Rightarrow> Inl SubBadRequest
         | Some chID \<Rightarrow> (case GetChannelByID tenantID chID st of Inl _ \<Rightarrow> Inl SubNotFound | Inr ch \<Rightarrow> Inr (chn_ID ch)))
      else (case GetChannelByName tenantID name st of Inl _ \<Rightarrow> Inl SubNotFound | Inr ch \<Rightarrow> Inr (chn_ID ch)))"

text \<open>The cache update whose error the caller drops.\<close>

definition cache_sub :: "subops_lib \<Rightarrow> Subscription \<Rightarrow> Manager option \<Rightarrow> Manager option" where
  "cache_sub L sub mgr =
     (case mgr of
        None \<Rightarrow> None
      | Some m \<Rightarrow> (case AddOrUpdate (lib_uuid_Parse L) (lib_regexp L) sub m of Inl _ \<Rightarrow> Some m | Inr m' \<Rightarrow> Some m'))"

definition new_sub :: "uuid \<Rightarrow> uuid \<Rightarrow> bytes \<Rightarrow> CreateInput \<Rightarrow> Subscription" where
  "new_sub acctID channelID secret input = \<lparr>sub_ID = uuid_Nil, sub_TenantID = uuid_Nil, sub_AccountID = acctID,
     sub_ChannelID = channelID, sub_URL = ci_URL input, sub_Secret = secret, sub_MatchJSON = ci_Match input,
     sub_Events = (if ci_Events input = [] then [''message''] else ci_Events input),
     sub_ContextLines = ci_ContextLines input, sub_DebounceMs = ci_DebounceMs input,
     sub_CooldownMs = ci_CooldownMs input,
     sub_BudgetJSON = (if ci_Budget input = [] then ''{}'' else ci_Budget input),
     sub_DisabledAt = 0, sub_CreatedAt = 0\<rparr>"

definition Create_sub :: "subops_lib \<Rightarrow> gotime \<Rightarrow> uuid option \<Rightarrow> bytes option \<Rightarrow> Tenant \<Rightarrow> Account \<Rightarrow> CreateInput
    \<Rightarrow> world \<Rightarrow> world \<times> (subops_error + Subscription)" where
  "Create_sub L now newV7 secret tenant acct input w =
     (if acc_Type acct \<noteq> AccountBot then (w, Inl SubBadRequest)
      else if ValidateURL (lib_url_Parse L) (ci_URL input) \<noteq> None then (w, Inl SubBadRequest)
      else if ci_Match input = [] then (w, Inl SubBadRequest)
      else if (ci_ChannelName input = '''') = (ci_ChannelID input = '''') then (w, Inl SubBadRequest)
      else case resolveChannelID L (ten_ID tenant) (ci_ChannelName input) (ci_ChannelID input) (fst w) of
        Inl e \<Rightarrow> (w, Inl e)
      | Inr channelID \<Rightarrow>
          case lib_Compile L (ci_Match input) of
            Inl _ \<Rightarrow> (w, Inl SubBadRequest)
          | Inr _ \<Rightarrow>
              case secret of
                None \<Rightarrow> (w, Inl SubInternal)
              | Some sec \<Rightarrow>
                  case CreateSubscription now newV7 (ten_ID tenant) (new_sub (acc_ID acct) channelID sec input) (fst w) of
                    Inl _ \<Rightarrow> (w, Inl SubInternal)
                  | Inr (st, sub) \<Rightarrow> ((st, cache_sub L sub (snd w)), Inr sub))"

definition Get_sub :: "subops_lib \<Rightarrow> Tenant \<Rightarrow> Account \<Rightarrow> string \<Rightarrow> store \<Rightarrow> subops_error + Subscription" where
  "Get_sub L tenant acct subscriptionID st =
     (case lib_uuid_Parse L subscriptionID of
        None \<Rightarrow> Inl SubBadRequest
      | Some i \<Rightarrow>
          case GetSubscriptionByID (ten_ID tenant) i st of
            Inl _ \<Rightarrow> Inl SubNotFound
          | Inr sub \<Rightarrow> if sub_AccountID sub \<noteq> acc_ID acct then Inl SubNotOwner else Inr sub)"

definition List_sub :: "Tenant \<Rightarrow> Account \<Rightarrow> store \<Rightarrow> subops_error + Subscription list" where
  "List_sub tenant acct st =
     (case ListSubscriptionsByAccount (ten_ID tenant) (acc_ID acct) st of Inl _ \<Rightarrow> Inl SubInternal | Inr xs \<Rightarrow> Inr xs)"

text \<open>The patch of \<^verbatim>\<open>Update\<close>, up to the write: the first invalid field rejects it.\<close>

definition apply_patch :: "subops_lib \<Rightarrow> gotime \<Rightarrow> UpdateInput \<Rightarrow> Subscription \<Rightarrow> subops_error + Subscription" where
  "apply_patch L now input sub =
     (if (case ui_URL input of None \<Rightarrow> False | Some u \<Rightarrow> ValidateURL (lib_url_Parse L) u \<noteq> None) then Inl SubBadRequest
      else if (case ui_Match input of None \<Rightarrow> False | Some b \<Rightarrow> isl (lib_Compile L b)) then Inl SubBadRequest
      else Inr (sub
        \<lparr>sub_URL := case_option (sub_URL sub) id (ui_URL input),
         sub_MatchJSON := case_option (sub_MatchJSON sub) id (ui_Match input),
         sub_Events := case_option (sub_Events sub) id (ui_Events input),
         sub_ContextLines := case_option (sub_ContextLines sub) id (ui_ContextLines input),
         sub_DebounceMs := case_option (sub_DebounceMs sub) id (ui_DebounceMs input),
         sub_CooldownMs := case_option (sub_CooldownMs sub) id (ui_CooldownMs input),
         sub_BudgetJSON := case_option (sub_BudgetJSON sub) id (ui_Budget input),
         sub_DisabledAt := (case ui_Disabled input of
             None \<Rightarrow> sub_DisabledAt sub
           | Some True \<Rightarrow> (if IsZero (sub_DisabledAt sub) then now else sub_DisabledAt sub)
           | Some False \<Rightarrow> 0)\<rparr>))"

definition Update_sub :: "subops_lib \<Rightarrow> gotime \<Rightarrow> Tenant \<Rightarrow> Account \<Rightarrow> string \<Rightarrow> UpdateInput \<Rightarrow> world
    \<Rightarrow> world \<times> (subops_error + Subscription)" where
  "Update_sub L now tenant acct subscriptionID input w =
     (case Get_sub L tenant acct subscriptionID (fst w) of
        Inl e \<Rightarrow> (w, Inl e)
      | Inr sub0 \<Rightarrow>
          case apply_patch L now input sub0 of
            Inl e \<Rightarrow> (w, Inl e)
          | Inr sub \<Rightarrow>
              case UpdateSubscription (ten_ID tenant) sub (fst w) of
                Inl _ \<Rightarrow> (w, Inl SubInternal)
              | Inr st \<Rightarrow>
                  ((st, if IsZero (sub_DisabledAt sub) then cache_sub L sub (snd w)
                        else map_option (Remove_sub (sub_ID sub)) (snd w)), Inr sub))"

definition Delete_sub :: "subops_lib \<Rightarrow> Tenant \<Rightarrow> Account \<Rightarrow> string \<Rightarrow> world \<Rightarrow> world \<times> subops_error option" where
  "Delete_sub L tenant acct subscriptionID w =
     (case Get_sub L tenant acct subscriptionID (fst w) of
        Inl e \<Rightarrow> (w, Some e)
      | Inr sub \<Rightarrow>
          case DeleteSubscription (ten_ID tenant) (sub_ID sub) (fst w) of
            Inl _ \<Rightarrow> (w, Some SubInternal)
          | Inr st \<Rightarrow> ((st, map_option (Remove_sub (sub_ID sub)) (snd w)), None))"

section \<open>The cache of another subscription\<close>

lemma cached_stop_timer:
  assumes "mgr_ok m" and "map_of (mg_subs m) j = Some r" and "i \<noteq> j"
  shows "cached (stop_timer r m) i = cached m i"
proof (cases "map_of (mg_subs m) i")
  case (Some q)
  then have "q \<noteq> r" using mgr_okD(4) [OF assms(1)] assms(2,3) by metis
  with Some show ?thesis by (simp add: cached_def stop_timer_def Let_def)
qed (simp add: cached_def)

lemma cached_index [simp]: "cached (m\<lparr>mg_byChannel := x\<rparr>) i = cached m i"
  by (simp add: cached_def)

lemma cached_AddOrUpdate_other:
  assumes "mgr_ok m" and "AddOrUpdate up re sub m = Inr m'" and "i \<noteq> sub_ID sub"
  shows "cached m' i = cached m i"
proof -
  obtain live where live: "compileSubscription up re sub = Inr live" using assms(2)
    by (auto simp: AddOrUpdate_def split: sum.splits)
  have inst: "cached (install live n) i = cached n i" if "\<And>j r. map_of (mg_subs n) j = Some r \<Longrightarrow> r < length (mg_heap n)" for n
    using that assms(3) compile_ids [OF live]
    by (auto simp: cached_def install_def indexByChannel_def update_conv' nth_append intro!: option.map_cong)
  show ?thesis
  proof (cases "map_of (mg_subs m) (sub_ID sub)")
    case None
    with assms(2) live have "m' = install live m" by (simp add: AddOrUpdate_def)
    with inst mgr_okD(3) [OF assms(1)] show ?thesis by simp
  next
    case (Some r)
    from assms(2) live Some obtain x where "m' = install live (stop_timer r m) \<or>
        m' = install live ((stop_timer r m)\<lparr>mg_byChannel := x\<rparr>)"
      by (auto simp: AddOrUpdate_def Let_def split: if_splits)
    moreover have "cached (install live ((stop_timer r m)\<lparr>mg_byChannel := y\<rparr>)) i = cached m i" for y
      using inst [of "(stop_timer r m)\<lparr>mg_byChannel := y\<rparr>"] mgr_okD(3) [OF mgr_ok_stop_timer [OF assms(1), of r]]
        cached_stop_timer [OF assms(1) Some assms(3)] by simp
    moreover have "cached (install live (stop_timer r m)) i = cached m i"
      using inst [of "stop_timer r m"] mgr_okD(3) [OF mgr_ok_stop_timer [OF assms(1), of r]]
        cached_stop_timer [OF assms(1) Some assms(3)] by simp
    ultimately show ?thesis by blast
  qed
qed

lemma cached_Remove_other:
  assumes "mgr_ok m" and "i \<noteq> j"
  shows "cached (Remove_sub j m) i = cached m i"
proof (cases "map_of (mg_subs m) j")
  case (Some r)
  have "cached (Remove_sub j m) i = cached (stop_timer r m) i"
    using Some assms(2) by (simp add: Remove_sub_def Let_def cached_def delete_conv')
  with cached_stop_timer [OF assms(1) Some assms(2)] show ?thesis by simp
qed (simp add: Remove_sub_def)

lemma cached_AddOrUpdate_same:
  assumes "AddOrUpdate up re sub m = Inr m'" and "compileSubscription up re sub = Inr live"
  shows "cached m' (sub_ID sub) = Some live"
proof -
  have "\<exists>n. m' = install live n" using assms by (auto simp: AddOrUpdate_def Let_def split: option.splits)
  then show ?thesis using compile_ids [OF assms(2)]
    by (auto simp: cached_def install_def indexByChannel_def update_conv')
qed

section \<open>Ownership\<close>

datatype sub_cmd = SCreate gotime "uuid option" "bytes option" CreateInput | SUpdate gotime string UpdateInput | SDelete string

fun exec_sub :: "subops_lib \<Rightarrow> Tenant \<times> Account \<times> sub_cmd \<Rightarrow> world \<Rightarrow> world" where
  "exec_sub L (t, a, SCreate now nv sec input) w = fst (Create_sub L now nv sec t a input w)"
| "exec_sub L (t, a, SUpdate now i input) w = fst (Update_sub L now t a i input w)"
| "exec_sub L (t, a, SDelete i) w = fst (Delete_sub L t a i w)"

definition opt_ok :: "Manager option \<Rightarrow> bool" where
  "opt_ok mo \<longleftrightarrow> (case mo of None \<Rightarrow> True | Some m \<Rightarrow> mgr_ok m)"

definition world_ok :: "world \<Rightarrow> bool" where
  "world_ok w \<longleftrightarrow> store_ok (fst w) \<and> opt_ok (snd w)"

definition cached_in :: "world \<Rightarrow> uuid \<Rightarrow> LiveSub option" where
  "cached_in w i = Option.bind (snd w) (\<lambda>m. cached m i)"

lemma cache_sub_ok: "opt_ok mo \<Longrightarrow> opt_ok (cache_sub L sub mo)"
  by (auto simp: opt_ok_def cache_sub_def split: option.splits sum.splits dest: mgr_ok_AddOrUpdate)

lemma cache_sub_other: "opt_ok mo \<Longrightarrow> i \<noteq> sub_ID sub \<Longrightarrow>
    Option.bind (cache_sub L sub mo) (\<lambda>m. cached m i) = Option.bind mo (\<lambda>m. cached m i)"
  by (auto simp: opt_ok_def cache_sub_def split: option.splits sum.splits dest: cached_AddOrUpdate_other)

lemma Get_sub_row:
  assumes "Get_sub L t a i st = Inr sub"
  obtains r where "r \<in> set (st_subs st)" "sub = scanSubscription r" "sub_TenantID r = ten_ID t" "sub_AccountID r = acc_ID a"
    "lib_uuid_Parse L i = Some (sub_ID r)"
proof -
  from assms obtain j r where "lib_uuid_Parse L i = Some j" and sub: "sub = scanSubscription r" and own: "sub_AccountID sub = acc_ID a"
    and r: "find (\<lambda>r. sub_TenantID r = ten_ID t \<and> sub_ID r = j) (st_subs st) = Some r"
    by (auto simp: Get_sub_def GetSubscriptionByID_def query_row_Inr split: option.splits sum.splits if_splits)
  with find_SomeD [OF r] show thesis by (intro that [of r]) (auto simp: scanSubscription_def)
qed

lemma apply_patch_key:
  "apply_patch L now input sub = Inr sub' \<Longrightarrow> sub_ID sub' = sub_ID sub \<and> sub_TenantID sub' = sub_TenantID sub
     \<and> sub_AccountID sub' = sub_AccountID sub \<and> sub_ChannelID sub' = sub_ChannelID sub"
  by (auto simp: apply_patch_def split: if_splits)

lemma Create_sub_cases:
  "(\<exists>e. Create_sub L now nv sec t a input w = (w, Inl e)) \<or>
   (\<exists>ch s st b. sec = Some s \<and> resolveChannelID L (ten_ID t) (ci_ChannelName input) (ci_ChannelID input) (fst w) = Inr ch
      \<and> CreateSubscription now nv (ten_ID t) (new_sub (acc_ID a) ch s input) (fst w) = Inr (st, b)
      \<and> Create_sub L now nv sec t a input w = ((st, cache_sub L b (snd w)), Inr b))"
  by (simp add: Create_sub_def split: sum.split option.split prod.split)

lemma exec_sub_ok: "world_ok w \<Longrightarrow> world_ok (exec_sub L (t, a, c) w)"
proof (cases c)
  case (SCreate now nv sec input)
  assume ok: "world_ok w"
  have "store_ok st'" if "CreateSubscription now nv (ten_ID t) b (fst w) = Inr (st', b')" for b st' b'
    using exec_cmd_ok [of "fst w" "CmdCreateSubscription now nv (ten_ID t) b"] ok that
    by (simp add: world_ok_def after_fst_def)
  then show ?thesis using SCreate ok
    using Create_sub_cases [of L now nv sec t a input w] by (auto simp: world_ok_def cache_sub_ok)
next
  case (SUpdate now i input)
  assume ok: "world_ok w"
  have "store_ok st'" if "UpdateSubscription (ten_ID t) b (fst w) = Inr st'" for b st'
    using exec_cmd_ok [of "fst w" "CmdUpdateSubscription (ten_ID t) b"] ok that by (simp add: world_ok_def after_def)
  moreover have "opt_ok (map_option (Remove_sub j) (snd w))" for j
    using ok by (auto simp: world_ok_def opt_ok_def mgr_ok_Remove_sub split: option.splits)
  ultimately show ?thesis using SUpdate ok
    by (auto simp: Update_sub_def world_ok_def cache_sub_ok split: sum.split)
next
  case (SDelete i)
  assume ok: "world_ok w"
  have "store_ok st'" if "DeleteSubscription (ten_ID t) j (fst w) = Inr st'" for j st'
    using exec_cmd_ok [of "fst w" "CmdDeleteSubscription (ten_ID t) j"] ok that by (simp add: world_ok_def after_def)
  moreover have "opt_ok (map_option (Remove_sub j) (snd w))" for j
    using ok by (auto simp: world_ok_def opt_ok_def mgr_ok_Remove_sub split: option.splits)
  ultimately show ?thesis using SDelete ok by (auto simp: Delete_sub_def world_ok_def split: sum.split)
qed

lemma row_distinct:
  "store_ok st \<Longrightarrow> r \<in> set (st_subs st) \<Longrightarrow> q \<in> set (st_subs st) \<Longrightarrow> sub_ID r = sub_ID q \<Longrightarrow> r = q"
  using row_unique by blast

lemma CreateSubscription_Inr:
  "CreateSubscription now nv T b st = Inr (st', b') \<Longrightarrow>
     st_subs st' = st_subs st @ [sub_row b'] \<and> sub_ID b' \<notin> sub_ID ` set (st_subs st) \<and> \<not> st_down st
     \<and> st' = st\<lparr>st_subs := st_subs st @ [sub_row b']\<rparr> \<and> sub_TenantID b' = T
     \<and> b' = b\<lparr>sub_TenantID := T, sub_ID := sub_ID b', sub_CreatedAt := or_now (sub_CreatedAt b) now,
              sub_Events := (if sub_Events b = [] then [''message''] else sub_Events b)\<rparr>"
  by (auto simp: CreateSubscription_def any_error_def exec_insert_def Let_def split: if_splits option.splits sum.splits)

lemma UpdateSubscription_row:
  "UpdateSubscription T b st = Inr st' \<Longrightarrow> r \<in> set (st_subs st) \<Longrightarrow> sub_ID r \<noteq> sub_ID b \<Longrightarrow> r \<in> set (st_subs st')"
  by (force simp: UpdateSubscription_def Let_def split: if_splits)

lemma DeleteSubscription_row:
  "DeleteSubscription T i st = Inr st' \<Longrightarrow> r \<in> set (st_subs st) \<Longrightarrow> sub_ID r \<noteq> i \<Longrightarrow> r \<in> set (st_subs st')"
  by (auto simp: DeleteSubscription_def Let_def split: if_splits)

lemma Remove_other: "opt_ok mo \<Longrightarrow> i \<noteq> j \<Longrightarrow>
    Option.bind (map_option (Remove_sub j) mo) (\<lambda>m. cached m i) = Option.bind mo (\<lambda>m. cached m i)"
  by (auto simp: opt_ok_def cached_Remove_other split: option.splits)

lemma exec_sub_foreign:
  assumes ok: "world_ok w" and r: "r \<in> set (st_subs (fst w))"
    and foreign: "\<not> (ten_ID t = sub_TenantID r \<and> acc_ID a = sub_AccountID r)"
  shows "r \<in> set (st_subs (fst (exec_sub L (t, a, c) w))) \<and> cached_in (exec_sub L (t, a, c) w) (sub_ID r) = cached_in w (sub_ID r)"
proof -
  have oks: "store_ok (fst w)" "opt_ok (snd w)" using ok by (simp_all add: world_ok_def)
  have other: "sub_ID sub \<noteq> sub_ID r" if "Get_sub L t a i (fst w) = Inr sub" for i sub
    using that foreign row_distinct [OF oks(1) r] by (elim Get_sub_row) (fastforce simp: scanSubscription_def)
  show ?thesis
  proof (cases c)
    case (SCreate now nv sec input)
    have new: "sub_ID b' \<noteq> sub_ID r" if "CreateSubscription now nv (ten_ID t) b (fst w) = Inr (st', b')" for b st' b'
      using CreateSubscription_Inr [OF that] r by auto
    have keep: "r \<in> set (st_subs st')" if "CreateSubscription now nv (ten_ID t) b (fst w) = Inr (st', b')" for b st' b'
      using CreateSubscription_Inr [OF that] r by auto
    show ?thesis using SCreate r oks new keep
      using Create_sub_cases [of L now nv sec t a input w] by (auto simp: cached_in_def cache_sub_other [OF _ not_sym])
  next
    case (SUpdate now i input)
    show ?thesis
    proof (cases "Get_sub L t a i (fst w)")
      case (Inr sub0)
      show ?thesis
      proof (cases "apply_patch L now input sub0")
        case (Inr sub)
        then have "sub_ID r \<noteq> sub_ID sub" using apply_patch_key other \<open>Get_sub L t a i (fst w) = Inr sub0\<close> by fastforce
        with SUpdate Inr \<open>Get_sub L t a i (fst w) = Inr sub0\<close> r oks show ?thesis
          by (auto simp: Update_sub_def cached_in_def cache_sub_other Remove_other dest: UpdateSubscription_row split: sum.split)
      qed (use SUpdate Inr r in \<open>simp add: Update_sub_def\<close>)
    qed (use SUpdate r in \<open>simp add: Update_sub_def\<close>)
  next
    case (SDelete i)
    show ?thesis
    proof (cases "Get_sub L t a i (fst w)")
      case (Inr sub)
      then have "sub_ID r \<noteq> sub_ID sub" using other by fastforce
      with SDelete Inr r oks show ?thesis
        by (auto simp: Delete_sub_def cached_in_def Remove_other dest: DeleteSubscription_row split: sum.split)
    qed (use SDelete r in \<open>simp add: Delete_sub_def\<close>)
  qed
qed

lemma exec_subs_foreign:
  assumes "world_ok w" and "r \<in> set (st_subs (fst w))"
    and "\<forall>(t, a, c) \<in> set cs. \<not> (ten_ID t = sub_TenantID r \<and> acc_ID a = sub_AccountID r)"
  shows "r \<in> set (st_subs (fst (fold (exec_sub L) cs w))) \<and> cached_in (fold (exec_sub L) cs w) (sub_ID r) = cached_in w (sub_ID r)"
  using assms
proof (induction cs arbitrary: w)
  case (Cons x cs)
  obtain t a c where x: "x = (t, a, c)" by (cases x)
  have "world_ok (exec_sub L x w)" using Cons.prems(1) exec_sub_ok x by simp
  then show ?case
    using Cons.IH [of "exec_sub L x w"] Cons.prems exec_sub_foreign [of w r t a L c] x by simp
qed simp

text \<open>
  A subscription belongs to its bot: whatever subscriptions other accounts (of any
  tenant) create, update or delete, by whatever ids they name, the stored row of the owner stays as it is and
  the compiled subscription the webhook manager fires for it stays cached unchanged.
\<close>

theorem subscription_ownership:
  assumes "store_ok st" and "mgr_ok m" and "r \<in> set (st_subs st)"
    and "\<forall>(t, a, c) \<in> set cs. \<not> (ten_ID t = sub_TenantID r \<and> acc_ID a = sub_AccountID r)"
    and "fold (exec_sub L) cs (st, Some m) = (st', Some m')"
  shows "r \<in> set (st_subs st') \<and> cached m' (sub_ID r) = cached m (sub_ID r)"
  using exec_subs_foreign [of "(st, Some m)" r cs L] assms by (simp add: world_ok_def opt_ok_def cached_in_def)

section \<open>Creating, reading back and deleting\<close>

lemma Get_sub_unique:
  assumes "store_ok st" and "\<not> st_down st" and "r \<in> set (st_subs st)" and "sub_TenantID r = ten_ID t" and "sub_AccountID r = acc_ID a"
    and "lib_uuid_Parse L i = Some (sub_ID r)"
  shows "Get_sub L t a i st = Inr (scanSubscription r)"
proof -
  have "distinct (map sub_ID (st_subs st))" using assms(1) by (simp add: store_ok_def table_ok_def)
  from find_unique [OF this assms(3), of "\<lambda>x. sub_TenantID x = ten_ID t"] assms
  show ?thesis by (simp add: Get_sub_def GetSubscriptionByID_def query_row_def) (simp add: scanSubscription_def)
qed

lemma Delete_sub_unique:
  assumes "store_ok st" and "\<not> st_down st" and "r \<in> set (st_subs st)" and "sub_TenantID r = ten_ID t" and "sub_AccountID r = acc_ID a"
    and "lib_uuid_Parse L i = Some (sub_ID r)"
  shows "\<exists>st'. Delete_sub L t a i (st, Some m) = ((st', Some (Remove_sub (sub_ID r) m)), None) \<and> Get_sub L t a i st' = Inl SubNotFound"
proof -
  have "\<exists>x \<in> set (st_subs st). sub_TenantID x = ten_ID t \<and> sub_ID x = sub_ID r" using assms(3,4) by auto
  moreover have "find (\<lambda>x. sub_TenantID x = ten_ID t \<and> sub_ID x = sub_ID r)
      (filter (\<lambda>x. \<not> (sub_TenantID x = ten_ID t \<and> sub_ID x = sub_ID r)) (st_subs st)) = None"
    by (simp add: find_None_iff)
  moreover have "sub_ID (scanSubscription r) = sub_ID r" by (simp add: scanSubscription_def)
  ultimately show ?thesis
    unfolding Delete_sub_def fst_conv Get_sub_unique [OF assms] using assms(2,6)
    by (simp add: DeleteSubscription_def Get_sub_def GetSubscriptionByID_def query_row_def)
qed

lemma Create_fields:
  assumes "CreateSubscription now nv T (new_sub acct ch s input) st = Inr (st', sub)"
  shows "sub_AccountID sub = acct" "sub_URL sub = ci_URL input" "sub_MatchJSON sub = ci_Match input" "sub_Secret sub = s"
    "sub_ChannelID sub = ch" "sub_DisabledAt sub = 0" "sub_TenantID sub = T"
    "sub_BudgetJSON sub = (if ci_Budget input = [] then ''{}'' else ci_Budget input)"
proof -
  let ?n = "new_sub acct ch s input"
  have e: "sub = ?n\<lparr>sub_TenantID := T, sub_ID := sub_ID sub, sub_CreatedAt := or_now (sub_CreatedAt ?n) now,
      sub_Events := (if sub_Events ?n = [] then [''message''] else sub_Events ?n)\<rparr>"
    using CreateSubscription_Inr [OF assms] by blast
  note eqs = arg_cong [OF e, of sub_AccountID] arg_cong [OF e, of sub_URL] arg_cong [OF e, of sub_MatchJSON]
    arg_cong [OF e, of sub_Secret] arg_cong [OF e, of sub_ChannelID] arg_cong [OF e, of sub_DisabledAt]
    arg_cong [OF e, of sub_TenantID] arg_cong [OF e, of sub_BudgetJSON]
  from eqs show "sub_AccountID sub = acct" "sub_URL sub = ci_URL input" "sub_MatchJSON sub = ci_Match input" "sub_Secret sub = s"
    "sub_ChannelID sub = ch" "sub_DisabledAt sub = 0" "sub_TenantID sub = T"
    "sub_BudgetJSON sub = (if ci_Budget input = [] then ''{}'' else ci_Budget input)"
    by (simp_all add: new_sub_def)
qed

lemma Create_sub_checks:
  "snd (Create_sub L now nv sec t a input w) = Inr b \<Longrightarrow>
     acc_Type a = AccountBot \<and> ValidateURL (lib_url_Parse L) (ci_URL input) = None \<and> \<not> isl (lib_Compile L (ci_Match input))"
  by (auto simp: Create_sub_def split: sum.splits option.splits prod.splits if_splits)

text \<open>
  The life of a subscription: when \<^verbatim>\<open>Create\<close> succeeds the caller is a bot and the
  URL and the rules are valid; \<^verbatim>\<open>Get\<close> by the returned id gives back the stored row, which is the
  input on the resolved channel owned by the caller; when the row compiles, the manager has it cached
  compiled; and \<^verbatim>\<open>Delete\<close> then succeeds, after which \<^verbatim>\<open>Get\<close> reports not found and nothing is cached.
\<close>

theorem subscription_roundtrip:
  assumes "store_ok st" and "Create_sub L now nv sec t a input (st, Some m) = ((st', Some m'), Inr sub)"
    and "lib_uuid_Parse L i = Some (sub_ID sub)"
  shows "acc_Type a = AccountBot \<and> ValidateURL (lib_url_Parse L) (ci_URL input) = None \<and> \<not> isl (lib_Compile L (ci_Match input))
    \<and> (\<exists>row. Get_sub L t a i st' = Inr row \<and> sub_URL row = ci_URL input \<and> sub_MatchJSON row = ci_Match input
        \<and> Some (sub_Secret row) = sec \<and> IsZero (sub_DisabledAt row)
        \<and> Inr (sub_ChannelID row) = resolveChannelID L (ten_ID t) (ci_ChannelName input) (ci_ChannelID input) st)
    \<and> (\<forall>live. compileSubscription (lib_uuid_Parse L) (lib_regexp L) sub = Inr live \<longrightarrow> cached m' (sub_ID sub) = Some live)
    \<and> (\<exists>st'' m''. Delete_sub L t a i (st', Some m') = ((st'', Some m''), None) \<and> Get_sub L t a i st'' = Inl SubNotFound
        \<and> cached m'' (sub_ID sub) = None)"
proof (intro conjI allI impI)
  show "acc_Type a = AccountBot" "ValidateURL (lib_url_Parse L) (ci_URL input) = None" "\<not> isl (lib_Compile L (ci_Match input))"
    using Create_sub_checks [of L now nv sec t a input "(st, Some m)" sub] assms(2) by simp_all
  from Create_sub_cases [of L now nv sec t a input "(st, Some m)"] assms(2) obtain ch s where
    s: "sec = Some s" and ch: "resolveChannelID L (ten_ID t) (ci_ChannelName input) (ci_ChannelID input) st = Inr ch"
    and cr: "CreateSubscription now nv (ten_ID t) (new_sub (acc_ID a) ch s input) st = Inr (st', sub)"
    and mm: "cache_sub L sub (Some m) = Some m'" by auto
  note row = CreateSubscription_Inr [OF cr] and flds = Create_fields [OF cr]
  have ok: "store_ok st'" using exec_cmd_ok [OF assms(1), of "CmdCreateSubscription now nv (ten_ID t) (new_sub (acc_ID a) ch s input)"] cr
    by (simp add: after_fst_def)
  have r: "sub_row sub \<in> set (st_subs st')" "\<not> st_down st'" "sub_TenantID (sub_row sub) = ten_ID t" "sub_AccountID (sub_row sub) = acc_ID a"
    "lib_uuid_Parse L i = Some (sub_ID (sub_row sub))"
    using row flds assms(3) by (simp_all add: sub_row_def)
  from Get_sub_unique [OF ok r(2,1,3-5)] flds ch s
  show "\<exists>row. Get_sub L t a i st' = Inr row \<and> sub_URL row = ci_URL input \<and> sub_MatchJSON row = ci_Match input
      \<and> Some (sub_Secret row) = sec \<and> IsZero (sub_DisabledAt row)
      \<and> Inr (sub_ChannelID row) = resolveChannelID L (ten_ID t) (ci_ChannelName input) (ci_ChannelID input) st"
    by (simp add: scanSubscription_def sub_row_def nullable_micro_def scan_nullable_def IsZero_def)
  show "cached m' (sub_ID sub) = Some live" if c: "compileSubscription (lib_uuid_Parse L) (lib_regexp L) sub = Inr live" for live
  proof -
    obtain n where "AddOrUpdate (lib_uuid_Parse L) (lib_regexp L) sub m = Inr n" using c by (simp add: AddOrUpdate_def Let_def)
    with mm cached_AddOrUpdate_same [OF this c] show ?thesis by (simp add: cache_sub_def)
  qed
  from Delete_sub_unique [OF ok r(2,1,3-5), of m'] Remove_sub_uncached [of "sub_ID sub" m']
  show "\<exists>st'' m''. Delete_sub L t a i (st', Some m') = ((st'', Some m''), None) \<and> Get_sub L t a i st'' = Inl SubNotFound
      \<and> cached m'' (sub_ID sub) = None"
    by (auto simp: sub_row_def)
qed

section \<open>Rows that do not compile\<close>

definition compiled_rows :: "subops_lib \<Rightarrow> store \<Rightarrow> Manager \<Rightarrow> bool" where
  "compiled_rows L st m \<longleftrightarrow> (\<forall>i r. map_of (mg_subs m) i = Some r \<longrightarrow>
     (\<exists>row \<in> set (st_subs st). sub_ID row = i \<and> \<not> isl (compileSubscription (lib_uuid_Parse L) (lib_regexp L) (scanSubscription row))))"

lemma compiled_rows_subs: "mg_subs m' = mg_subs m \<Longrightarrow> compiled_rows L st m \<Longrightarrow> compiled_rows L st m'"
  by (simp add: compiled_rows_def)

lemma compiled_rows_reload_subs:
  assumes "\<forall>sub \<in> set subs. \<exists>row \<in> set (st_subs st). sub = scanSubscription row" and "compiled_rows L st m"
  shows "compiled_rows L st (reload_subs (lib_uuid_Parse L) (lib_regexp L) subs m)"
  using assms
proof (induction subs arbitrary: m)
  case (Cons sub subs)
  show ?case
  proof (cases "compileSubscription (lib_uuid_Parse L) (lib_regexp L) sub")
    case (Inr live)
    obtain row where row: "row \<in> set (st_subs st)" "sub = scanSubscription row" using Cons.prems(1) by auto
    then have "ws_ID live = sub_ID row" using compile_ids [OF Inr] by (simp add: scanSubscription_def)
    then have "compiled_rows L st (install live m)"
      using Cons.prems(2) row Inr by (auto simp: compiled_rows_def install_def indexByChannel_def update_conv')
    with Cons Inr show ?thesis by simp
  qed (use Cons in simp)
qed simp

lemma compiled_rows_reload_channels:
  "compiled_rows L st m \<Longrightarrow> compiled_rows L st (fst (reload_channels (lib_uuid_Parse L) (lib_regexp L) st t chs m))"
proof (induction chs arbitrary: m)
  case (Cons ch chs)
  have "\<forall>sub \<in> set subs. \<exists>row \<in> set (st_subs st). sub = scanSubscription row"
    if "ListSubscriptionsByChannel t (chn_ID ch) st = Inr subs" for subs
    using that by (auto simp: ListSubscriptionsByChannel_def query_rows_def split: if_splits)
  with Cons show ?case by (auto simp: compiled_rows_reload_subs split: sum.split)
qed simp

lemma compiled_rows_pauses:
  "compiled_rows L st m \<Longrightarrow> compiled_rows L st (fold (\<lambda>p. setPausedLocked (f p) (g p) True) ps m)"
proof (induction ps arbitrary: m)
  case (Cons p ps)
  then show ?case using compiled_rows_subs [of "setPausedLocked (f p) (g p) True m" m L st] by simp
qed simp

lemma compiled_rows_reload_tenants:
  "compiled_rows L st m \<Longrightarrow> compiled_rows L st (fst (reload_tenants (lib_uuid_Parse L) (lib_regexp L) st ts m))"
proof (induction ts arbitrary: m)
  case (Cons t ts)
  show ?case
  proof (cases "ListChannels (ten_ID t) st")
    case (Inr chs)
    obtain m1 e where m1: "reload_channels (lib_uuid_Parse L) (lib_regexp L) st (ten_ID t) chs m = (m1, e)" by fastforce
    then have "compiled_rows L st m1" using compiled_rows_reload_channels [OF Cons.prems, of "ten_ID t" chs] by simp
    with Inr m1 Cons.IH show ?thesis by (auto simp: compiled_rows_pauses split: option.split sum.split)
  qed (use Cons.prems in simp)
qed simp

text \<open>
  The budget of a subscription is not checked when it is created. If \<^verbatim>\<open>Create\<close> succeeds for
  a subscription that the manager cannot compile (its budget is not a budget object), the manager is left
  unchanged and no later \<^verbatim>\<open>Reload\<close> picks the subscription up: it is stored, reported as created, and never fires.
\<close>

theorem uncompilable_subscription_never_loaded:
  assumes "store_ok st" and "Create_sub L now nv sec t a input (st, Some m) = ((st', Some m'), Inr sub)"
    and "isl (compileSubscription (lib_uuid_Parse L) (lib_regexp L) sub)"
  shows "m' = m \<and> cached (fst (Reload (lib_uuid_Parse L) (lib_regexp L) st' tenants n)) (sub_ID sub) = None"
proof
  from Create_sub_cases [of L now nv sec t a input "(st, Some m)"] assms(2) obtain ch s where
    cr: "CreateSubscription now nv (ten_ID t) (new_sub (acc_ID a) ch s input) st = Inr (st', sub)"
    and mm: "cache_sub L sub (Some m) = Some m'" by auto
  from mm assms(3) show "m' = m" by (auto simp: cache_sub_def AddOrUpdate_def isl_def split: sum.splits)
  let ?c = "compileSubscription (lib_uuid_Parse L) (lib_regexp L)"
  have ok: "store_ok st'" using exec_cmd_ok [OF assms(1), of "CmdCreateSubscription now nv (ten_ID t) (new_sub (acc_ID a) ch s input)"] cr
    by (simp add: after_fst_def)
  have budget: "sub_BudgetJSON sub \<noteq> []" using Create_fields(8) [OF cr] by simp
  have row: "sub_row sub \<in> set (st_subs st')" using CreateSubscription_Inr [OF cr] by simp
  have bad: "isl (?c (scanSubscription (sub_row sub)))"
    using assms(3) budget by (auto simp: compileSubscription_def scanSubscription_def sub_row_def or_default_def
        split: sum.splits option.splits if_splits)
  have id: "sub_ID (sub_row sub) = sub_ID sub" by (simp add: sub_row_def)
  have "compiled_rows L st' (fst (Reload (lib_uuid_Parse L) (lib_regexp L) st' tenants n))"
    unfolding Reload_def by (rule compiled_rows_reload_tenants) (simp add: compiled_rows_def)
  then have "map_of (mg_subs (fst (Reload (lib_uuid_Parse L) (lib_regexp L) st' tenants n))) (sub_ID sub) = Some r \<Longrightarrow> False" for r
    using bad row_distinct [OF ok row] id unfolding compiled_rows_def by metis
  then show "cached (fst (Reload (lib_uuid_Parse L) (lib_regexp L) st' tenants n)) (sub_ID sub) = None"
    by (cases "map_of (mg_subs (fst (Reload (lib_uuid_Parse L) (lib_regexp L) st' tenants n))) (sub_ID sub)")
      (auto simp: cached_def)
qed

section \<open>Concrete inputs\<close>

definition sample_lib :: subops_lib where
  "sample_lib = \<lparr>lib_uuid_Parse = (\<lambda>s. if s = ''s9'' then Some 9 else None), lib_url_Parse = sample_url, lib_regexp = (\<lambda>_. None)\<rparr>"

definition sub_store :: store where
  "sub_store = worker_store\<lparr>st_channels := [\<lparr>chn_ID = 3, chn_TenantID = 1, chn_Name = ''ops'', chn_OwnerID = 8,
     chn_Visibility = ChannelPublic, chn_CreatedAt = 0\<rparr>]\<rparr>"

definition sub_tenant :: Tenant where
  "sub_tenant = hd (st_tenants worker_store)"

definition sub_bot :: Account where
  "sub_bot = \<lparr>acc_ID = 8, acc_TenantID = 1, acc_Username = ''b'', acc_DisplayName = ''B'', acc_Type = AccountBot,
     acc_PasswordHash = [], acc_PasswordSalt = [], acc_PasswordParams = '''', acc_RecoveryEmail = '''', acc_CreatedAt = 0\<rparr>"

definition sub_input :: "bytes \<Rightarrow> CreateInput" where
  "sub_input budget = \<lparr>ci_ChannelName = ''ops'', ci_ChannelID = '''', ci_URL = ''https://bot'', ci_Match = ''{}'', ci_Events = [],
     ci_ContextLines = 0, ci_DebounceMs = 0, ci_CooldownMs = 0, ci_Budget = budget\<rparr>"

definition new_manager :: Manager where
  "new_manager = NewManager \<lparr>cf_Workers = 0, cf_QueueDepth = 0, cf_HTTPTimeout = 0, cf_MaxRetries = 0, cf_AutoDisable4xx = 0\<rparr>"

definition sub_created :: "bytes \<Rightarrow> world \<times> (subops_error + Subscription)" where
  "sub_created budget = Create_sub sample_lib 100 (Some 9) (Some ''k'') sub_tenant sub_bot (sub_input budget) (sub_store, Some new_manager)"

lemma sub_store_ok: "store_ok sub_store"
  by (simp add: store_ok_def table_ok_def sub_store_def worker_store_def Migrate_def)

definition sub_row9 :: "bytes \<Rightarrow> Subscription" where
  "sub_row9 budget = (new_sub 8 3 ''k'' (sub_input budget))\<lparr>sub_ID := 9, sub_TenantID := 1, sub_CreatedAt := 100\<rparr>"

lemma Create_sub_mgr: "\<exists>m'. snd (fst (Create_sub L now nv sec t a input (st, Some m))) = Some m'"
proof -
  have "\<exists>m'. cache_sub L sub (Some m) = Some m'" for sub by (simp add: cache_sub_def split: sum.split)
  then show ?thesis using Create_sub_cases [of L now nv sec t a input "(st, Some m)"] by fastforce
qed

lemma sub_created_eq:
  "budget \<in> {[], ''[]''} \<Longrightarrow>
     \<exists>m'. sub_created budget = ((sub_store\<lparr>st_subs := [sub_row (sub_row9 budget)]\<rparr>, Some m'), Inr (sub_row9 budget))"
proof -
  assume b: "budget \<in> {[], ''[]''}"
  have "fst (fst (sub_created [])) = sub_store\<lparr>st_subs := [sub_row (sub_row9 [])]\<rparr> \<and> snd (sub_created []) = Inr (sub_row9 [])"
    and "fst (fst (sub_created ''[]'')) = sub_store\<lparr>st_subs := [sub_row (sub_row9 ''[]'')]\<rparr> \<and> snd (sub_created ''[]'') = Inr (sub_row9 ''[]'')"
    by code_simp+
  with b have "fst (fst (sub_created budget)) = sub_store\<lparr>st_subs := [sub_row (sub_row9 budget)]\<rparr>" "snd (sub_created budget) = Inr (sub_row9 budget)"
    by auto
  moreover have "\<exists>m'. snd (fst (sub_created budget)) = Some m'" unfolding sub_created_def by (rule Create_sub_mgr)
  ultimately show ?thesis by (auto simp: prod_eq_iff)
qed

theorem subscription_roundtrip_witness:
  "\<exists>st' m'. fst (sub_created []) = (st', Some m') \<and> (\<exists>row. Get_sub sample_lib sub_tenant sub_bot ''s9'' st' = Inr row \<and> sub_URL row = ''https://bot'')"
proof -
  obtain m' where c: "sub_created [] = ((sub_store\<lparr>st_subs := [sub_row (sub_row9 [])]\<rparr>, Some m'), Inr (sub_row9 []))"
    using sub_created_eq by blast
  have i: "lib_uuid_Parse sample_lib ''s9'' = Some (sub_ID (sub_row9 []))" by (simp add: sample_lib_def sub_row9_def)
  from subscription_roundtrip [OF sub_store_ok c [unfolded sub_created_def] i] c show ?thesis
    by (auto simp: sub_input_def)
qed

theorem uncompilable_subscription_never_loaded_witness:
  "\<exists>st' m'. fst (sub_created ''[]'') = (st', Some m') \<and> snd (sub_created ''[]'') = Inr (sub_row9 ''[]'')
     \<and> cached (fst (Reload (lib_uuid_Parse sample_lib) (lib_regexp sample_lib) st' [sub_tenant] m')) 9 = None"
proof -
  obtain m' where c: "sub_created ''[]'' = ((sub_store\<lparr>st_subs := [sub_row (sub_row9 ''[]'')]\<rparr>, Some m'), Inr (sub_row9 ''[]''))"
    using sub_created_eq by blast
  have i: "isl (compileSubscription (lib_uuid_Parse sample_lib) (lib_regexp sample_lib) (sub_row9 ''[]''))" by code_simp
  have "sub_ID (sub_row9 ''[]'') = 9" by (simp add: sub_row9_def)
  with uncompilable_subscription_never_loaded [OF sub_store_ok c [unfolded sub_created_def] i, of "[sub_tenant]" m'] c
  show ?thesis by auto
qed

theorem subscription_ownership_witness:
  "sub_row (sub_row9 []) \<in> set (st_subs (fst (fold (exec_sub sample_lib) [(sub_tenant, sub_bot\<lparr>acc_ID := 77\<rparr>, SDelete ''s9'')]
     (sub_store\<lparr>st_subs := [sub_row (sub_row9 [])]\<rparr>, Some new_manager))))"
proof -
  let ?st = "sub_store\<lparr>st_subs := [sub_row (sub_row9 [])]\<rparr>" and ?cs = "[(sub_tenant, sub_bot\<lparr>acc_ID := 77\<rparr>, SDelete ''s9'')]"
  have ok: "store_ok ?st" by (simp add: store_ok_def table_ok_def sub_store_def worker_store_def Migrate_def sub_row9_def sub_row_def)
  have m: "mgr_ok new_manager" using mgr_inv_New by (simp add: new_manager_def mgr_inv_def)
  have "Get_sub sample_lib sub_tenant (sub_bot\<lparr>acc_ID := 77\<rparr>) ''s9'' ?st = Inl SubNotOwner" by code_simp
  then have f: "fold (exec_sub sample_lib) ?cs (?st, Some new_manager) = (?st, Some new_manager)" by (simp add: Delete_sub_def)
  have foreign: "\<forall>(t, a, c) \<in> set ?cs. \<not> (ten_ID t = sub_TenantID (sub_row (sub_row9 [])) \<and> acc_ID a = sub_AccountID (sub_row (sub_row9 [])))"
    by (simp add: sub_row9_def sub_row_def new_sub_def)
  from subscription_ownership [OF ok m _ foreign f] f show ?thesis by auto
qed

end
