(* ===== verification/Tenants.thy ===== *)
theory Tenants
  imports Store_Integrity
begin

text \<open>
  The tenant cache (\<^verbatim>\<open>internal/tenants/tenants.go\<close>): lookups by slug and by id with a
  time-to-live, creation that primes the cache, and invalidation. The clock is an argument.
\<close>

definition DefaultTTL :: int where
  "DefaultTTL = 60 * Second"

record cacheEntry =
  ce_tenant :: Tenant
  ce_expiry :: gotime

record Service =
  tv_ttl :: int
  tv_bySlug :: "(string \<times> cacheEntry) list"
  tv_byID :: "(uuid \<times> cacheEntry) list"

definition newService :: Service where
  "newService = \<lparr>tv_ttl = DefaultTTL, tv_bySlug = [], tv_byID = []\<rparr>"

definition WithTTL :: "int \<Rightarrow> Service \<Rightarrow> Service" where
  "WithTTL ttl s = s\<lparr>tv_ttl := ttl\<rparr>"

definition put :: "gotime \<Rightarrow> Tenant \<Rightarrow> Service \<Rightarrow> Service" where
  "put now t s =
     (let e = \<lparr>ce_tenant = t, ce_expiry = now + tv_ttl s\<rparr>
      in s\<lparr>tv_bySlug := AList.update (ten_Slug t) e (tv_bySlug s), tv_byID := AList.update (ten_ID t) e (tv_byID s)\<rparr>)"

definition fresh :: "gotime \<Rightarrow> cacheEntry option \<Rightarrow> Tenant option" where
  "fresh now e = (case e of None \<Rightarrow> None | Some c \<Rightarrow> if now < ce_expiry c then Some (ce_tenant c) else None)"

definition BySlug :: "gotime \<Rightarrow> string \<Rightarrow> store \<Rightarrow> Service \<Rightarrow> Service \<times> (store_error + Tenant)" where
  "BySlug now slug st s =
     (case fresh now (map_of (tv_bySlug s) slug) of
        Some t \<Rightarrow> (s, Inr t)
      | None \<Rightarrow> (case GetTenantBySlug slug st of Inl e \<Rightarrow> (s, Inl e) | Inr t \<Rightarrow> (put now t s, Inr t)))"

definition ByID :: "gotime \<Rightarrow> uuid \<Rightarrow> store \<Rightarrow> Service \<Rightarrow> Service \<times> (store_error + Tenant)" where
  "ByID now i st s =
     (case fresh now (map_of (tv_byID s) i) of
        Some t \<Rightarrow> (s, Inr t)
      | None \<Rightarrow> (case GetTenantByID i st of Inl e \<Rightarrow> (s, Inl e) | Inr t \<Rightarrow> (put now t s, Inr t)))"

definition Create_tenant :: "gotime \<Rightarrow> uuid option \<Rightarrow> Tenant \<Rightarrow> store \<Rightarrow> Service \<Rightarrow> store_error + store \<times> Service" where
  "Create_tenant now newV7 t st s =
     (case CreateTenant now newV7 t st of Inl e \<Rightarrow> Inl e | Inr (st', t') \<Rightarrow> Inr (st', put now t' s))"

definition List_tenants :: "store \<Rightarrow> store_error + Tenant list" where
  "List_tenants st = ListTenants st"

definition Invalidate :: "string \<Rightarrow> uuid \<Rightarrow> Service \<Rightarrow> Service" where
  "Invalidate slug i s = s\<lparr>tv_bySlug := AList.delete slug (tv_bySlug s), tv_byID := AList.delete i (tv_byID s)\<rparr>"

section \<open>Staleness\<close>

text \<open>
  A run over time: lookups, creations and invalidations through the service, and any other
  operation on the store. \<open>H\<close> collects the clock and the store at every step.
\<close>

datatype ten_cmd = TBySlug gotime string | TByID gotime uuid | TCreate gotime "uuid option" Tenant
  | TInvalidate string uuid | TStore store_cmd

type_synonym ten_state = "Service \<times> store \<times> (gotime \<times> store) list"

fun exec_ten :: "ten_cmd \<Rightarrow> ten_state \<Rightarrow> ten_state" where
  "exec_ten (TBySlug now slug) (s, st, H) = (fst (BySlug now slug st s), st, (now, st) # H)"
| "exec_ten (TByID now i) (s, st, H) = (fst (ByID now i st s), st, (now, st) # H)"
| "exec_ten (TCreate now nv t) (s, st, H) =
     (case Create_tenant now nv t st s of Inl _ \<Rightarrow> (s, st, H) | Inr (st', s') \<Rightarrow> (s', st', (now, st') # H))"
| "exec_ten (TInvalidate slug i) (s, st, H) = (Invalidate slug i s, st, H)"
| "exec_ten (TStore c) (s, st, H) = (s, exec_cmd c st, H)"

text \<open>The store holds a tenant with this id, slug, name and status.\<close>

definition holds :: "store \<Rightarrow> Tenant \<Rightarrow> bool" where
  "holds st t \<longleftrightarrow> (\<exists>r \<in> set (st_tenants st). ten_ID r = ten_ID t \<and> ten_Slug r = ten_Slug t
     \<and> ten_DisplayName r = ten_DisplayName t \<and> ten_Status r = ten_Status t)"

definition witnessed :: "(gotime \<times> store) list \<Rightarrow> int \<Rightarrow> cacheEntry \<Rightarrow> bool" where
  "witnessed H ttl e \<longleftrightarrow> (\<exists>u st. (u, st) \<in> set H \<and> ce_expiry e = u + ttl \<and> holds st (ce_tenant e))"

definition cache_ok :: "int \<Rightarrow> ten_state \<Rightarrow> bool" where
  "cache_ok ttl x \<longleftrightarrow> (case x of (s, st, H) \<Rightarrow> tv_ttl s = ttl
     \<and> (\<forall>k e. map_of (tv_bySlug s) k = Some e \<longrightarrow> ten_Slug (ce_tenant e) = k \<and> witnessed H ttl e)
     \<and> (\<forall>k e. map_of (tv_byID s) k = Some e \<longrightarrow> ten_ID (ce_tenant e) = k \<and> witnessed H ttl e))"

lemma witnessed_mono: "witnessed H ttl e \<Longrightarrow> witnessed (h # H) ttl e"
  by (auto simp: witnessed_def)

lemma cache_ok_later: "cache_ok ttl (s, st, H) \<Longrightarrow> cache_ok ttl (s, st', h # H)"
  by (auto simp: cache_ok_def witnessed_mono)

lemma cache_ok_put:
  assumes "cache_ok ttl (s, st, H)" and "holds st' t" and "(now, st') \<in> set H"
  shows "cache_ok ttl (put now t s, st', H)"
proof -
  have "witnessed H ttl \<lparr>ce_tenant = t, ce_expiry = now + tv_ttl s\<rparr>"
    using assms by (auto simp: witnessed_def cache_ok_def intro!: exI [of _ now] exI [of _ st'])
  with assms(1) show ?thesis by (auto simp: cache_ok_def put_def Let_def update_conv')
qed

lemma find_scan_holds: "find P (st_tenants st) = Some r \<Longrightarrow> holds st (scanTenant r) \<and> P r"
  by (auto simp: find_Some_iff holds_def scanTenant_def intro!: bexI [of _ r])

lemma scanTenant_same: "ten_Slug (scanTenant r) = ten_Slug r" "ten_ID (scanTenant r) = ten_ID r"
  by (simp_all add: scanTenant_def)

lemma lookup_holds:
  "GetTenantBySlug slug st = Inr t \<Longrightarrow> holds st t \<and> ten_Slug t = slug"
  "GetTenantByID i st = Inr t \<Longrightarrow> holds st t \<and> ten_ID t = i"
  by (auto simp: GetTenantBySlug_def GetTenantByID_def query_row_Inr scanTenant_same dest!: find_scan_holds)

lemma CreateTenant_holds: "CreateTenant now nv t st = Inr (st', t') \<Longrightarrow> holds st' t'"
  by (auto simp: CreateTenant_def Let_def holds_def tenant_row_def split: option.splits if_splits)

lemma cache_ok_step: "cache_ok ttl x \<Longrightarrow> cache_ok ttl (exec_ten c x)"
proof -
  assume ok: "cache_ok ttl x"
  obtain s st H where x: "x = (s, st, H)" by (cases x)
  show ?thesis
  proof (cases c)
    case (TBySlug now slug)
    have "cache_ok ttl (s, st, (now, st) # H)" using ok x cache_ok_later by simp
    then show ?thesis
      using TBySlug x cache_ok_put [of ttl s st "(now, st) # H" st _ now] lookup_holds(1) [of slug st]
      by (auto simp: BySlug_def split: option.split sum.split)
  next
    case (TByID now i)
    have "cache_ok ttl (s, st, (now, st) # H)" using ok x cache_ok_later by simp
    then show ?thesis
      using TByID x cache_ok_put [of ttl s st "(now, st) # H" st _ now] lookup_holds(2) [of i st]
      by (auto simp: ByID_def split: option.split sum.split)
  next
    case (TCreate now nv t)
    show ?thesis
    proof (cases "CreateTenant now nv t st")
      case (Inr p)
      obtain st' t' where p: "p = (st', t')" by (cases p)
      have "cache_ok ttl (s, st, (now, st') # H)" using ok x cache_ok_later by simp
      then show ?thesis
        using TCreate x Inr p cache_ok_put [of ttl s st "(now, st') # H" st' t' now] CreateTenant_holds [of now nv t st st' t']
        by (simp add: Create_tenant_def)
    qed (use ok x TCreate in \<open>simp add: Create_tenant_def\<close>)
  qed (use ok x in \<open>auto simp: cache_ok_def Invalidate_def delete_conv' split: if_splits\<close>)
qed

lemma cache_ok_run: "cache_ok ttl x \<Longrightarrow> cache_ok ttl (fold exec_ten cs x)"
  by (induction cs arbitrary: x) (simp_all add: cache_ok_step)

text \<open>
  A cached tenant is never older than the time-to-live: after any sequence of lookups,
  creations, invalidations and direct store changes, a tenant that a lookup by slug or by id
  returns has the slug or id asked for, and some state of the store observed less than
  \<^verbatim>\<open>DefaultTTL\<close> ago (or the store now) holds it with that id, slug, name and status.
\<close>

theorem tenant_cache_staleness:
  assumes "fold exec_ten cs (newService, st0, []) = (s, st, H)"
    and "snd (BySlug now slug st s) = Inr t" and "snd (ByID now i st s) = Inr t'"
  shows "ten_Slug t = slug \<and> (\<exists>u st'. (u, st') \<in> set ((now, st) # H) \<and> now < u + DefaultTTL \<and> holds st' t)
    \<and> ten_ID t' = i \<and> (\<exists>u st'. (u, st') \<in> set ((now, st) # H) \<and> now < u + DefaultTTL \<and> holds st' t')"
proof -
  have "cache_ok DefaultTTL (newService, st0, [])" by (simp add: cache_ok_def newService_def)
  from cache_ok_run [OF this, of cs] assms(1) have ok: "cache_ok DefaultTTL (s, st, H)" by simp
  have pos: "now < now + DefaultTTL" by (simp add: DefaultTTL_def Second_def)
  have "ten_Slug t = slug \<and> (\<exists>u st'. (u, st') \<in> set ((now, st) # H) \<and> now < u + DefaultTTL \<and> holds st' t)"
  proof (cases "fresh now (map_of (tv_bySlug s) slug)")
    case None
    with assms(2) have "GetTenantBySlug slug st = Inr t" by (auto simp: BySlug_def split: sum.splits)
    with lookup_holds(1) pos show ?thesis by fastforce
  next
    case (Some x)
    with assms(2) ok show ?thesis
      by (fastforce simp: BySlug_def fresh_def cache_ok_def witnessed_def split: option.splits if_splits)
  qed
  moreover have "ten_ID t' = i \<and> (\<exists>u st'. (u, st') \<in> set ((now, st) # H) \<and> now < u + DefaultTTL \<and> holds st' t')"
  proof (cases "fresh now (map_of (tv_byID s) i)")
    case None
    with assms(3) have "GetTenantByID i st = Inr t'" by (auto simp: ByID_def split: sum.splits)
    with lookup_holds(2) pos show ?thesis by fastforce
  next
    case (Some x)
    with assms(3) ok show ?thesis
      by (fastforce simp: ByID_def fresh_def cache_ok_def witnessed_def split: option.splits if_splits)
  qed
  ultimately show ?thesis by blast
qed

definition sample_tenant :: Tenant where
  "sample_tenant = \<lparr>ten_ID = 7, ten_Slug = ''acme'', ten_DisplayName = ''Acme'', ten_Settings = [],
     ten_Status = TenantActive, ten_CreatedAt = 0\<rparr>"

theorem tenant_cache_staleness_witness:
  defines "x \<equiv> fold exec_ten [TCreate 100 None sample_tenant, TByID 200 7] (newService, Migrate, [])"
  defines "t \<equiv> sample_tenant\<lparr>ten_CreatedAt := 100\<rparr>"
  shows "snd (BySlug 300 ''acme'' (fst (snd x)) (fst x)) = Inr t
    \<and> (\<exists>u st'. (u, st') \<in> set ((300, fst (snd x)) # snd (snd x)) \<and> 300 < u + DefaultTTL \<and> holds st' t)"
proof -
  have x: "x = (fst x, fst (snd x), snd (snd x))" by simp
  have a: "snd (BySlug 300 ''acme'' (fst (snd x)) (fst x)) = Inr t"
    and b: "snd (ByID 300 7 (fst (snd x)) (fst x)) = Inr t"
    unfolding x_def t_def by code_simp+
  from tenant_cache_staleness [OF x [unfolded x_def] a [unfolded x_def] b [unfolded x_def]] a
  show ?thesis unfolding x_def by blast
qed

end
