(* ===== verification/Frames.thy ===== *)
theory Frames
  imports Json "HOL-Library.Monad_Syntax"
begin

text \<open>
  The frames of the wire protocol (\<^verbatim>\<open>internal/proto/frames.go\<close>): one record per frame struct, the
  sum of them as the type \<open>Frame\<close>, and for every struct what \<^verbatim>\<open>encoding/json\<close> writes for its tags and
  reads back. The \<^verbatim>\<open>Type\<close> field of a struct is the constructor of \<open>Frame\<close>; the codec theory says what is
  written for it. A slice that may be nil and a pointer field are options; an absent
  \<^verbatim>\<open>json.RawMessage\<close> is empty, and a present one is the exact text of the member.
\<close>

section \<open>Frame structs\<close>

record Hello =
  hl_ID :: string
  hl_ClientName :: string
  hl_ClientVersion :: string
  hl_CapVersion :: string
  hl_Capabilities :: "string list"

record Welcome =
  wl_ID :: string
  wl_ServerName :: string
  wl_ServerVersion :: string
  wl_CapVersion :: string
  wl_Capabilities :: "string list"

record AuthRequest =
  aq_ID :: string
  aq_Method :: string
  aq_Tenant :: string
  aq_Username :: string
  aq_Token :: string

record AuthChallenge =
  ac_ID :: string
  ac_Salt :: string
  ac_Nonce :: string
  ac_Params :: string

record AuthResponse =
  ar_ID :: string
  ar_Proof :: string

record AuthOK =
  ao_ID :: string
  ao_AccountID :: string
  ao_TenantID :: string
  ao_AccountType :: string
  ao_DisplayName :: string

record AuthErr =
  ae_ID :: string
  ae_Reason :: string
  ae_Detail :: string

record Join =
  jn_ID :: string
  jn_Channel :: string

record Part =
  pt_ID :: string
  pt_Channel :: string

record Msg =
  mg_ID :: string
  mg_Channel :: string
  mg_To :: string
  mg_From :: string
  mg_FromRole :: string
  mg_TS :: gotime
  mg_Body :: string

record Presence =
  pr_ID :: string
  pr_Channel :: string
  pr_Kind :: string
  pr_AccountID :: string
  pr_DisplayName :: string

record Ping =
  pi_ID :: string
  pi_Token :: string

record Pong =
  po_ID :: string
  po_Token :: string

record SubscriptionCreate =
  sc_ID :: string
  sc_ChannelName :: string
  sc_ChannelID :: string
  sc_URL :: string
  sc_Match :: bytes
  sc_Events :: "string list"
  sc_ContextLines :: int
  sc_DebounceMs :: int
  sc_CooldownMs :: int
  sc_Budget :: bytes

record SubscriptionList =
  sl_ID :: string

record SubscriptionGet =
  sg_ID :: string
  sg_SubscriptionID :: string

record SubscriptionUpdate =
  su_ID :: string
  su_SubscriptionID :: string
  su_URL :: "string option"
  su_Match :: bytes
  su_Events :: "string list option"
  su_ContextLines :: "int option"
  su_DebounceMs :: "int option"
  su_CooldownMs :: "int option"
  su_Budget :: bytes
  su_Disabled :: "bool option"

record SubscriptionDelete =
  sd_ID :: string
  sd_SubscriptionID :: string

record SubscriptionInfo =
  si_ID :: string
  si_TenantID :: string
  si_AccountID :: string
  si_ChannelID :: string
  si_URL :: string
  si_Secret :: string
  si_Match :: bytes
  si_Events :: "string list"
  si_ContextLines :: int
  si_DebounceMs :: int
  si_CooldownMs :: int
  si_Budget :: bytes
  si_DisabledAt :: "gotime option"
  si_CreatedAt :: gotime

record SubscriptionOK =
  so_ID :: string
  so_Subscription :: SubscriptionInfo

record SubscriptionListOK =
  sk_ID :: string
  sk_Subscriptions :: "SubscriptionInfo list"

record SubscriptionDeleted =
  sx_ID :: string
  sx_SubscriptionID :: string

record ChatHistory =
  cq_ID :: string
  cq_Channel :: string
  cq_Limit :: int
  cq_BeforeTS :: gotime

record StoredMessageWire =
  sm_ID :: string
  sm_From :: string
  sm_TS :: gotime
  sm_Body :: string

record ChatHistoryOK =
  ck_ID :: string
  ck_Channel :: string
  ck_Messages :: "StoredMessageWire list"

record MembersReq =
  mq_ID :: string
  mq_Channel :: string

record MemberInfo =
  mi_AccountID :: string
  mi_DisplayName :: string
  mi_AccountType :: string
  mi_IsGhost :: bool
  mi_ConnCount :: int
  mi_Paused :: bool

record MembersOK =
  mk_ID :: string
  mk_Channel :: string
  mk_Members :: "MemberInfo list"

record ChanopPauseBot =
  cp_ID :: string
  cp_Channel :: string
  cp_BotAccountID :: string
  cp_Reason :: string

record ChanopResumeBot =
  cr_ID :: string
  cr_Channel :: string
  cr_BotAccountID :: string
  cr_Reason :: string

record ChanopOK =
  co_ID :: string
  co_Action :: string
  co_Channel :: string
  co_BotAccountID :: string

record ErrorFrame =
  er_ID :: string
  er_Reason :: string
  er_Detail :: string

datatype Frame =
    FHello Hello
  | FWelcome Welcome
  | FAuthRequest AuthRequest
  | FAuthChallenge AuthChallenge
  | FAuthResponse AuthResponse
  | FAuthOK AuthOK
  | FAuthErr AuthErr
  | FJoin Join
  | FPart Part
  | FMsg Msg
  | FPresence Presence
  | FPing Ping
  | FPong Pong
  | FSubscriptionCreate SubscriptionCreate
  | FSubscriptionList SubscriptionList
  | FSubscriptionGet SubscriptionGet
  | FSubscriptionUpdate SubscriptionUpdate
  | FSubscriptionDelete SubscriptionDelete
  | FSubscriptionOK SubscriptionOK
  | FSubscriptionListOK SubscriptionListOK
  | FSubscriptionDeleted SubscriptionDeleted
  | FChatHistory ChatHistory
  | FChatHistoryOK ChatHistoryOK
  | FMembersReq MembersReq
  | FMembersOK MembersOK
  | FChanopPauseBot ChanopPauseBot
  | FChanopResumeBot ChanopResumeBot
  | FChanopOK ChanopOK
  | FError ErrorFrame

fun FrameType :: "Frame \<Rightarrow> string" where
  "FrameType (FHello _) = ''hello''"
| "FrameType (FWelcome _) = ''welcome''"
| "FrameType (FAuthRequest _) = ''auth_request''"
| "FrameType (FAuthChallenge _) = ''auth_challenge''"
| "FrameType (FAuthResponse _) = ''auth_response''"
| "FrameType (FAuthOK _) = ''auth_ok''"
| "FrameType (FAuthErr _) = ''auth_err''"
| "FrameType (FJoin _) = ''join''"
| "FrameType (FPart _) = ''part''"
| "FrameType (FMsg _) = ''msg''"
| "FrameType (FPresence _) = ''presence''"
| "FrameType (FPing _) = ''ping''"
| "FrameType (FPong _) = ''pong''"
| "FrameType (FSubscriptionCreate _) = ''subscription_create''"
| "FrameType (FSubscriptionList _) = ''subscription_list''"
| "FrameType (FSubscriptionGet _) = ''subscription_get''"
| "FrameType (FSubscriptionUpdate _) = ''subscription_update''"
| "FrameType (FSubscriptionDelete _) = ''subscription_delete''"
| "FrameType (FSubscriptionOK _) = ''subscription_ok''"
| "FrameType (FSubscriptionListOK _) = ''subscription_list_ok''"
| "FrameType (FSubscriptionDeleted _) = ''subscription_deleted''"
| "FrameType (FChatHistory _) = ''chathistory''"
| "FrameType (FChatHistoryOK _) = ''chathistory_ok''"
| "FrameType (FMembersReq _) = ''members''"
| "FrameType (FMembersOK _) = ''members_ok''"
| "FrameType (FChanopPauseBot _) = ''chanop_pause_bot''"
| "FrameType (FChanopResumeBot _) = ''chanop_resume_bot''"
| "FrameType (FChanopOK _) = ''chanop_ok''"
| "FrameType (FError _) = ''error''"

definition FromRoleChannelOp :: string where "FromRoleChannelOp = ''channel_op''"
definition FromRoleSystem :: string where "FromRoleSystem = ''system''"
definition AuthMethodPassword :: string where "AuthMethodPassword = ''password''"
definition AuthMethodToken :: string where "AuthMethodToken = ''token''"
definition PresenceJoin :: string where "PresenceJoin = ''join''"
definition PresencePart :: string where "PresencePart = ''part''"

section \<open>Writing and reading fields\<close>

text \<open>
  What the codec uses of other packages: \<^verbatim>\<open>time.Time\<close>'s JSON text (no text for a year outside 0 to
  9999) and its parser, and the text of a number after a round trip through \<^verbatim>\<open>float64\<close> (\<open>None\<close> when it is
  out of range).
\<close>

record codec_lib =
  fmt_time :: "gotime \<Rightarrow> string option"
  parse_time :: "string \<Rightarrow> gotime option"
  num64 :: "bytes \<Rightarrow> bytes option"

text \<open>Members written so far, as key and text; \<open>None\<close> when marshalling fails.\<close>

type_synonym members = "(bytes \<times> bytes) list"

definition fields :: "members option list \<Rightarrow> members option" where
  "fields xs = map_option concat (those xs)"

definition m_text :: "bytes \<Rightarrow> bytes \<Rightarrow> members option" where
  "m_text k t = Some [(k, t)]"

definition m_str :: "bytes \<Rightarrow> string \<Rightarrow> members option" where
  "m_str k s = m_text k (print_str s)"

definition m_str_o :: "bytes \<Rightarrow> string \<Rightarrow> members option" where
  "m_str_o k s = (if s = [] then Some [] else m_str k s)"

definition m_int :: "bytes \<Rightarrow> int \<Rightarrow> members option" where
  "m_int k n = m_text k (FormatInt n)"

definition m_int_o :: "bytes \<Rightarrow> int \<Rightarrow> members option" where
  "m_int_o k n = (if n = 0 then Some [] else m_int k n)"

definition m_bool :: "bytes \<Rightarrow> bool \<Rightarrow> members option" where
  "m_bool k b = m_text k (if b then ''true'' else ''false'')"

definition m_bool_o :: "bytes \<Rightarrow> bool \<Rightarrow> members option" where
  "m_bool_o k b = (if b then m_bool k b else Some [])"

definition m_list :: "bytes \<Rightarrow> string list \<Rightarrow> members option" where
  "m_list k xs = m_text k (print_json (JArr (map JStr xs)))"

definition m_list_o :: "bytes \<Rightarrow> string list \<Rightarrow> members option" where
  "m_list_o k xs = (if xs = [] then Some [] else m_list k xs)"

definition m_time :: "codec_lib \<Rightarrow> bytes \<Rightarrow> gotime \<Rightarrow> members option" where
  "m_time L k t = Option.bind (fmt_time L t) (\<lambda>s. m_text k (print_str s))"

definition m_ptr :: "('a \<Rightarrow> members option) \<Rightarrow> 'a option \<Rightarrow> members option" where
  "m_ptr w p = (case p of None \<Rightarrow> Some [] | Some x \<Rightarrow> w x)"

text \<open>\<^verbatim>\<open>json.Compact\<close> with HTML escaping, which marshalling applies to a raw message.\<close>

fun compact :: "bool \<Rightarrow> bytes \<Rightarrow> bytes" where
  "compact inS [] = []"
| "compact inS (c # s) =
     (if \<not> inS then (if is_ws c then compact False s else c # compact (c = CHR 0x22) s)
      else if c = CHR 0x5C then (case s of [] \<Rightarrow> [c] | e # r \<Rightarrow> c # e # compact True r)
      else if c = CHR 0x22 then c # compact False s
      else if c = CHR ''<'' \<or> c = CHR ''>'' \<or> c = CHR ''&''
      then CHR 0x5C # ''u00'' @ [hex_char (code c div 16), hex_char (code c mod 16)] @ compact True s
      else if c = CHR 0xE2 \<and> take 2 s = [CHR 0x80, CHR 0xA8] then CHR 0x5C # ''u2028'' @ compact True (drop 2 s)
      else if c = CHR 0xE2 \<and> take 2 s = [CHR 0x80, CHR 0xA9] then CHR 0x5C # ''u2029'' @ compact True (drop 2 s)
      else c # compact True s)"

definition m_raw :: "bytes \<Rightarrow> bytes \<Rightarrow> members option" where
  "m_raw k b = (if b = [] then m_text k ''null''
     else if parse_json b = None then None else m_text k (compact False b))"

definition m_raw_o :: "bytes \<Rightarrow> bytes \<Rightarrow> members option" where
  "m_raw_o k b = (if b = [] then Some [] else m_raw k b)"

definition object_text :: "members \<Rightarrow> bytes" where
  "object_text ms = ''{'' @ join (map (\<lambda>(k, t). print_str k @ '':'' @ t) ms) @ ''}''"

definition m_struct :: "bytes \<Rightarrow> members option \<Rightarrow> members option" where
  "m_struct k ms = Option.bind ms (\<lambda>xs. m_text k (object_text xs))"

definition m_structs :: "bytes \<Rightarrow> members option list \<Rightarrow> members option" where
  "m_structs k xs = Option.bind (those xs) (\<lambda>ys. m_text k (''['' @ join (map object_text ys) @ '']''))"

text \<open>The members of an object's text with the exact text of each value, and the texts of an array's elements.\<close>

fun raw_members :: "nat \<Rightarrow> bytes \<Rightarrow> members" where
  "raw_members 0 s = []"
| "raw_members (Suc n) s = (case skip_ws s of
       [] \<Rightarrow> []
     | c # r \<Rightarrow>
         (case scan_str r of
            None \<Rightarrow> []
          | Some (k, r1) \<Rightarrow>
              let v = skip_ws (drop 1 (skip_ws r1))
              in (case parse_val (2 * length v + 2) max_depth v of
                    None \<Rightarrow> []
                  | Some (_, r2) \<Rightarrow> (k, take (length v - length r2) v) # raw_members n (drop 1 (skip_ws r2)))))"

fun raw_elems :: "nat \<Rightarrow> bytes \<Rightarrow> bytes list" where
  "raw_elems 0 s = []"
| "raw_elems (Suc n) s =
     (let v = skip_ws s
      in case parse_val (2 * length v + 2) max_depth v of
           None \<Rightarrow> []
         | Some (_, r) \<Rightarrow> take (length v - length r) v # raw_elems n (drop 1 (skip_ws r)))"

text \<open>An object as a decoder sees it: its decoded members and their texts.\<close>

type_synonym obj = "(bytes \<times> json) list \<times> members"

definition read_obj :: "bytes \<Rightarrow> obj option" where
  "read_obj s = (case parse_json s of
       Some (JObj ms) \<Rightarrow> Some (ms, raw_members (length s) (drop 1 (skip_ws s)))
     | Some JNull \<Rightarrow> Some ([], [])
     | _ \<Rightarrow> None)"

definition f_str :: "bytes \<Rightarrow> obj \<Rightarrow> string option" where
  "f_str k x = get_field as_str '''' k (fst x)"

definition f_int :: "bytes \<Rightarrow> obj \<Rightarrow> int option" where
  "f_int k x = get_field as_int 0 k (fst x)"

definition f_bool :: "bytes \<Rightarrow> obj \<Rightarrow> bool option" where
  "f_bool k x = get_field as_bool False k (fst x)"

definition f_time :: "codec_lib \<Rightarrow> bytes \<Rightarrow> obj \<Rightarrow> gotime option" where
  "f_time L k x = get_field (\<lambda>v. Option.bind (as_str v) (parse_time L)) 0 k (fst x)"

text \<open>A pointer or slice field: \<^verbatim>\<open>null\<close> sets it to nil.\<close>

definition f_ptr :: "(json \<Rightarrow> 'a option) \<Rightarrow> bytes \<Rightarrow> obj \<Rightarrow> 'a option option" where
  "f_ptr dec k x =
     (let vs = map (\<lambda>v. if v = JNull then Some None else map_option Some (dec v))
                 (map snd (filter (\<lambda>(k', v). EqualFold k' k) (fst x)))
      in if None \<in> set vs then None else if vs = [] then Some None else last vs)"

definition f_list :: "bytes \<Rightarrow> obj \<Rightarrow> string list option" where
  "f_list k x = map_option (case_option [] id) (f_ptr (as_list as_str '''') k x)"

definition f_raw :: "bytes \<Rightarrow> obj \<Rightarrow> bytes option" where
  "f_raw k x = (let vs = map snd (filter (\<lambda>(k', t). EqualFold k' k) (snd x))
     in Some (if vs = [] then [] else last vs))"

definition f_struct :: "(obj \<Rightarrow> 'a option) \<Rightarrow> bytes \<Rightarrow> obj \<Rightarrow> 'a option" where
  "f_struct dec k x = Option.bind (f_raw k x) (\<lambda>t. Option.bind (if t = [] then Some ([], []) else read_obj t) dec)"

definition f_structs :: "(obj \<Rightarrow> 'a option) \<Rightarrow> bytes \<Rightarrow> obj \<Rightarrow> 'a list option" where
  "f_structs dec k x = Option.bind (f_raw k x) (\<lambda>t.
     if t = [] then Some []
     else case parse_json t of
        Some JNull \<Rightarrow> Some []
      | Some (JArr []) \<Rightarrow> Some []
      | Some (JArr (_ # _)) \<Rightarrow> those (map (\<lambda>e. Option.bind (read_obj e) dec) (raw_elems (length t) (drop 1 (skip_ws t))))
      | _ \<Rightarrow> None)"

section \<open>The structs\<close>

definition enc_SubscriptionInfo :: "codec_lib \<Rightarrow> SubscriptionInfo \<Rightarrow> members option" where
  "enc_SubscriptionInfo L f = fields [
    m_str ''id'' (si_ID f), m_str ''tenant_id'' (si_TenantID f), m_str ''account_id'' (si_AccountID f),
    m_str ''channel_id'' (si_ChannelID f), m_str ''url'' (si_URL f), m_str_o ''secret'' (si_Secret f),
    m_raw ''match'' (si_Match f), m_list ''events'' (si_Events f), m_int ''context_lines'' (si_ContextLines f),
    m_int ''debounce_ms'' (si_DebounceMs f), m_int ''cooldown_ms'' (si_CooldownMs f),
    m_raw_o ''budget'' (si_Budget f), m_ptr (m_time L ''disabled_at'') (si_DisabledAt f),
    m_time L ''created_at'' (si_CreatedAt f)]"

definition dec_SubscriptionInfo :: "codec_lib \<Rightarrow> obj \<Rightarrow> SubscriptionInfo option" where
  "dec_SubscriptionInfo L x = do {
    v0 \<leftarrow> f_str ''id'' x; v1 \<leftarrow> f_str ''tenant_id'' x; v2 \<leftarrow> f_str ''account_id'' x;
    v3 \<leftarrow> f_str ''channel_id'' x; v4 \<leftarrow> f_str ''url'' x; v5 \<leftarrow> f_str ''secret'' x;
    v6 \<leftarrow> f_raw ''match'' x; v7 \<leftarrow> f_list ''events'' x;
    v8 \<leftarrow> f_int ''context_lines'' x; v9 \<leftarrow> f_int ''debounce_ms'' x;
    v10 \<leftarrow> f_int ''cooldown_ms'' x; v11 \<leftarrow> f_raw ''budget'' x;
    v12 \<leftarrow> f_ptr (\<lambda>v. Option.bind (as_str v) (parse_time L)) ''disabled_at'' x;
    v13 \<leftarrow> f_time L ''created_at'' x;
    Some \<lparr>si_ID = v0, si_TenantID = v1, si_AccountID = v2, si_ChannelID = v3, si_URL = v4,
      si_Secret = v5, si_Match = v6, si_Events = v7, si_ContextLines = v8, si_DebounceMs = v9,
      si_CooldownMs = v10, si_Budget = v11, si_DisabledAt = v12, si_CreatedAt = v13\<rparr> }"

definition enc_StoredMessageWire :: "codec_lib \<Rightarrow> StoredMessageWire \<Rightarrow> members option" where
  "enc_StoredMessageWire L f = fields [
    m_str ''id'' (sm_ID f), m_str ''from'' (sm_From f), m_time L ''ts'' (sm_TS f), m_str ''body'' (sm_Body f)]"

definition dec_StoredMessageWire :: "codec_lib \<Rightarrow> obj \<Rightarrow> StoredMessageWire option" where
  "dec_StoredMessageWire L x = do {
    v0 \<leftarrow> f_str ''id'' x; v1 \<leftarrow> f_str ''from'' x; v2 \<leftarrow> f_time L ''ts'' x;
    v3 \<leftarrow> f_str ''body'' x;
    Some \<lparr>sm_ID = v0, sm_From = v1, sm_TS = v2, sm_Body = v3\<rparr> }"

definition enc_MemberInfo :: "codec_lib \<Rightarrow> MemberInfo \<Rightarrow> members option" where
  "enc_MemberInfo L f = fields [
    m_str ''account_id'' (mi_AccountID f), m_str_o ''display_name'' (mi_DisplayName f),
    m_str ''account_type'' (mi_AccountType f), m_bool ''is_ghost'' (mi_IsGhost f),
    m_int ''conn_count'' (mi_ConnCount f), m_bool_o ''paused'' (mi_Paused f)]"

definition dec_MemberInfo :: "codec_lib \<Rightarrow> obj \<Rightarrow> MemberInfo option" where
  "dec_MemberInfo L x = do {
    v0 \<leftarrow> f_str ''account_id'' x; v1 \<leftarrow> f_str ''display_name'' x;
    v2 \<leftarrow> f_str ''account_type'' x; v3 \<leftarrow> f_bool ''is_ghost'' x;
    v4 \<leftarrow> f_int ''conn_count'' x; v5 \<leftarrow> f_bool ''paused'' x;
    Some \<lparr>mi_AccountID = v0, mi_DisplayName = v1, mi_AccountType = v2, mi_IsGhost = v3,
      mi_ConnCount = v4, mi_Paused = v5\<rparr> }"

definition enc_Hello :: "codec_lib \<Rightarrow> Hello \<Rightarrow> members option" where
  "enc_Hello L f = fields [
    m_str_o ''id'' (hl_ID f), m_str_o ''client_name'' (hl_ClientName f),
    m_str_o ''client_version'' (hl_ClientVersion f), m_str ''cap_version'' (hl_CapVersion f),
    m_list_o ''capabilities'' (hl_Capabilities f)]"

definition dec_Hello :: "codec_lib \<Rightarrow> obj \<Rightarrow> Hello option" where
  "dec_Hello L x = do {
    v0 \<leftarrow> f_str ''id'' x; v1 \<leftarrow> f_str ''client_name'' x;
    v2 \<leftarrow> f_str ''client_version'' x; v3 \<leftarrow> f_str ''cap_version'' x;
    v4 \<leftarrow> f_list ''capabilities'' x;
    Some \<lparr>hl_ID = v0, hl_ClientName = v1, hl_ClientVersion = v2, hl_CapVersion = v3, hl_Capabilities = v4\<rparr> }"

definition enc_Welcome :: "codec_lib \<Rightarrow> Welcome \<Rightarrow> members option" where
  "enc_Welcome L f = fields [
    m_str_o ''id'' (wl_ID f), m_str ''server_name'' (wl_ServerName f), m_str ''server_version'' (wl_ServerVersion f),
    m_str ''cap_version'' (wl_CapVersion f), m_list_o ''capabilities'' (wl_Capabilities f)]"

definition dec_Welcome :: "codec_lib \<Rightarrow> obj \<Rightarrow> Welcome option" where
  "dec_Welcome L x = do {
    v0 \<leftarrow> f_str ''id'' x; v1 \<leftarrow> f_str ''server_name'' x;
    v2 \<leftarrow> f_str ''server_version'' x; v3 \<leftarrow> f_str ''cap_version'' x;
    v4 \<leftarrow> f_list ''capabilities'' x;
    Some \<lparr>wl_ID = v0, wl_ServerName = v1, wl_ServerVersion = v2, wl_CapVersion = v3, wl_Capabilities = v4\<rparr> }"

definition enc_AuthRequest :: "codec_lib \<Rightarrow> AuthRequest \<Rightarrow> members option" where
  "enc_AuthRequest L f = fields [
    m_str_o ''id'' (aq_ID f), m_str ''method'' (aq_Method f), m_str_o ''tenant'' (aq_Tenant f),
    m_str_o ''username'' (aq_Username f), m_str_o ''token'' (aq_Token f)]"

definition dec_AuthRequest :: "codec_lib \<Rightarrow> obj \<Rightarrow> AuthRequest option" where
  "dec_AuthRequest L x = do {
    v0 \<leftarrow> f_str ''id'' x; v1 \<leftarrow> f_str ''method'' x; v2 \<leftarrow> f_str ''tenant'' x;
    v3 \<leftarrow> f_str ''username'' x; v4 \<leftarrow> f_str ''token'' x;
    Some \<lparr>aq_ID = v0, aq_Method = v1, aq_Tenant = v2, aq_Username = v3, aq_Token = v4\<rparr> }"

definition enc_AuthChallenge :: "codec_lib \<Rightarrow> AuthChallenge \<Rightarrow> members option" where
  "enc_AuthChallenge L f = fields [
    m_str_o ''id'' (ac_ID f), m_str ''salt'' (ac_Salt f), m_str ''nonce'' (ac_Nonce f), m_str ''params'' (ac_Params f)]"

definition dec_AuthChallenge :: "codec_lib \<Rightarrow> obj \<Rightarrow> AuthChallenge option" where
  "dec_AuthChallenge L x = do {
    v0 \<leftarrow> f_str ''id'' x; v1 \<leftarrow> f_str ''salt'' x; v2 \<leftarrow> f_str ''nonce'' x;
    v3 \<leftarrow> f_str ''params'' x;
    Some \<lparr>ac_ID = v0, ac_Salt = v1, ac_Nonce = v2, ac_Params = v3\<rparr> }"

definition enc_AuthResponse :: "codec_lib \<Rightarrow> AuthResponse \<Rightarrow> members option" where
  "enc_AuthResponse L f = fields [
    m_str_o ''id'' (ar_ID f), m_str ''proof'' (ar_Proof f)]"

definition dec_AuthResponse :: "codec_lib \<Rightarrow> obj \<Rightarrow> AuthResponse option" where
  "dec_AuthResponse L x = do {
    v0 \<leftarrow> f_str ''id'' x; v1 \<leftarrow> f_str ''proof'' x;
    Some \<lparr>ar_ID = v0, ar_Proof = v1\<rparr> }"

definition enc_AuthOK :: "codec_lib \<Rightarrow> AuthOK \<Rightarrow> members option" where
  "enc_AuthOK L f = fields [
    m_str_o ''id'' (ao_ID f), m_str ''account_id'' (ao_AccountID f), m_str ''tenant_id'' (ao_TenantID f),
    m_str ''account_type'' (ao_AccountType f), m_str ''display_name'' (ao_DisplayName f)]"

definition dec_AuthOK :: "codec_lib \<Rightarrow> obj \<Rightarrow> AuthOK option" where
  "dec_AuthOK L x = do {
    v0 \<leftarrow> f_str ''id'' x; v1 \<leftarrow> f_str ''account_id'' x; v2 \<leftarrow> f_str ''tenant_id'' x;
    v3 \<leftarrow> f_str ''account_type'' x; v4 \<leftarrow> f_str ''display_name'' x;
    Some \<lparr>ao_ID = v0, ao_AccountID = v1, ao_TenantID = v2, ao_AccountType = v3, ao_DisplayName = v4\<rparr> }"

definition enc_AuthErr :: "codec_lib \<Rightarrow> AuthErr \<Rightarrow> members option" where
  "enc_AuthErr L f = fields [
    m_str_o ''id'' (ae_ID f), m_str ''reason'' (ae_Reason f), m_str_o ''detail'' (ae_Detail f)]"

definition dec_AuthErr :: "codec_lib \<Rightarrow> obj \<Rightarrow> AuthErr option" where
  "dec_AuthErr L x = do {
    v0 \<leftarrow> f_str ''id'' x; v1 \<leftarrow> f_str ''reason'' x; v2 \<leftarrow> f_str ''detail'' x;
    Some \<lparr>ae_ID = v0, ae_Reason = v1, ae_Detail = v2\<rparr> }"

definition enc_Join :: "codec_lib \<Rightarrow> Join \<Rightarrow> members option" where
  "enc_Join L f = fields [
    m_str_o ''id'' (jn_ID f), m_str ''channel'' (jn_Channel f)]"

definition dec_Join :: "codec_lib \<Rightarrow> obj \<Rightarrow> Join option" where
  "dec_Join L x = do {
    v0 \<leftarrow> f_str ''id'' x; v1 \<leftarrow> f_str ''channel'' x;
    Some \<lparr>jn_ID = v0, jn_Channel = v1\<rparr> }"

definition enc_Part :: "codec_lib \<Rightarrow> Part \<Rightarrow> members option" where
  "enc_Part L f = fields [
    m_str_o ''id'' (pt_ID f), m_str ''channel'' (pt_Channel f)]"

definition dec_Part :: "codec_lib \<Rightarrow> obj \<Rightarrow> Part option" where
  "dec_Part L x = do {
    v0 \<leftarrow> f_str ''id'' x; v1 \<leftarrow> f_str ''channel'' x;
    Some \<lparr>pt_ID = v0, pt_Channel = v1\<rparr> }"

definition enc_Msg :: "codec_lib \<Rightarrow> Msg \<Rightarrow> members option" where
  "enc_Msg L f = fields [
    m_str_o ''id'' (mg_ID f), m_str_o ''channel'' (mg_Channel f), m_str_o ''to'' (mg_To f),
    m_str_o ''from'' (mg_From f), m_str_o ''from_role'' (mg_FromRole f), m_time L ''ts'' (mg_TS f),
    m_str ''body'' (mg_Body f)]"

definition dec_Msg :: "codec_lib \<Rightarrow> obj \<Rightarrow> Msg option" where
  "dec_Msg L x = do {
    v0 \<leftarrow> f_str ''id'' x; v1 \<leftarrow> f_str ''channel'' x; v2 \<leftarrow> f_str ''to'' x;
    v3 \<leftarrow> f_str ''from'' x; v4 \<leftarrow> f_str ''from_role'' x; v5 \<leftarrow> f_time L ''ts'' x;
    v6 \<leftarrow> f_str ''body'' x;
    Some \<lparr>mg_ID = v0, mg_Channel = v1, mg_To = v2, mg_From = v3, mg_FromRole = v4, mg_TS = v5,
      mg_Body = v6\<rparr> }"

definition enc_Presence :: "codec_lib \<Rightarrow> Presence \<Rightarrow> members option" where
  "enc_Presence L f = fields [
    m_str_o ''id'' (pr_ID f), m_str ''channel'' (pr_Channel f), m_str ''kind'' (pr_Kind f),
    m_str ''account_id'' (pr_AccountID f), m_str_o ''display_name'' (pr_DisplayName f)]"

definition dec_Presence :: "codec_lib \<Rightarrow> obj \<Rightarrow> Presence option" where
  "dec_Presence L x = do {
    v0 \<leftarrow> f_str ''id'' x; v1 \<leftarrow> f_str ''channel'' x; v2 \<leftarrow> f_str ''kind'' x;
    v3 \<leftarrow> f_str ''account_id'' x; v4 \<leftarrow> f_str ''display_name'' x;
    Some \<lparr>pr_ID = v0, pr_Channel = v1, pr_Kind = v2, pr_AccountID = v3, pr_DisplayName = v4\<rparr> }"

definition enc_Ping :: "codec_lib \<Rightarrow> Ping \<Rightarrow> members option" where
  "enc_Ping L f = fields [
    m_str_o ''id'' (pi_ID f), m_str ''token'' (pi_Token f)]"

definition dec_Ping :: "codec_lib \<Rightarrow> obj \<Rightarrow> Ping option" where
  "dec_Ping L x = do {
    v0 \<leftarrow> f_str ''id'' x; v1 \<leftarrow> f_str ''token'' x;
    Some \<lparr>pi_ID = v0, pi_Token = v1\<rparr> }"

definition enc_Pong :: "codec_lib \<Rightarrow> Pong \<Rightarrow> members option" where
  "enc_Pong L f = fields [
    m_str_o ''id'' (po_ID f), m_str ''token'' (po_Token f)]"

definition dec_Pong :: "codec_lib \<Rightarrow> obj \<Rightarrow> Pong option" where
  "dec_Pong L x = do {
    v0 \<leftarrow> f_str ''id'' x; v1 \<leftarrow> f_str ''token'' x;
    Some \<lparr>po_ID = v0, po_Token = v1\<rparr> }"

definition enc_SubscriptionCreate :: "codec_lib \<Rightarrow> SubscriptionCreate \<Rightarrow> members option" where
  "enc_SubscriptionCreate L f = fields [
    m_str_o ''id'' (sc_ID f), m_str_o ''channel_name'' (sc_ChannelName f), m_str_o ''channel_id'' (sc_ChannelID f),
    m_str ''url'' (sc_URL f), m_raw ''match'' (sc_Match f), m_list_o ''events'' (sc_Events f),
    m_int_o ''context_lines'' (sc_ContextLines f), m_int_o ''debounce_ms'' (sc_DebounceMs f),
    m_int_o ''cooldown_ms'' (sc_CooldownMs f), m_raw_o ''budget'' (sc_Budget f)]"

definition dec_SubscriptionCreate :: "codec_lib \<Rightarrow> obj \<Rightarrow> SubscriptionCreate option" where
  "dec_SubscriptionCreate L x = do {
    v0 \<leftarrow> f_str ''id'' x; v1 \<leftarrow> f_str ''channel_name'' x; v2 \<leftarrow> f_str ''channel_id'' x;
    v3 \<leftarrow> f_str ''url'' x; v4 \<leftarrow> f_raw ''match'' x; v5 \<leftarrow> f_list ''events'' x;
    v6 \<leftarrow> f_int ''context_lines'' x; v7 \<leftarrow> f_int ''debounce_ms'' x;
    v8 \<leftarrow> f_int ''cooldown_ms'' x; v9 \<leftarrow> f_raw ''budget'' x;
    Some \<lparr>sc_ID = v0, sc_ChannelName = v1, sc_ChannelID = v2, sc_URL = v3, sc_Match = v4,
      sc_Events = v5, sc_ContextLines = v6, sc_DebounceMs = v7, sc_CooldownMs = v8, sc_Budget = v9\<rparr> }"

definition enc_SubscriptionList :: "codec_lib \<Rightarrow> SubscriptionList \<Rightarrow> members option" where
  "enc_SubscriptionList L f = fields [
    m_str_o ''id'' (sl_ID f)]"

definition dec_SubscriptionList :: "codec_lib \<Rightarrow> obj \<Rightarrow> SubscriptionList option" where
  "dec_SubscriptionList L x = do {
    v0 \<leftarrow> f_str ''id'' x;
    Some \<lparr>sl_ID = v0\<rparr> }"

definition enc_SubscriptionGet :: "codec_lib \<Rightarrow> SubscriptionGet \<Rightarrow> members option" where
  "enc_SubscriptionGet L f = fields [
    m_str_o ''id'' (sg_ID f), m_str ''subscription_id'' (sg_SubscriptionID f)]"

definition dec_SubscriptionGet :: "codec_lib \<Rightarrow> obj \<Rightarrow> SubscriptionGet option" where
  "dec_SubscriptionGet L x = do {
    v0 \<leftarrow> f_str ''id'' x; v1 \<leftarrow> f_str ''subscription_id'' x;
    Some \<lparr>sg_ID = v0, sg_SubscriptionID = v1\<rparr> }"

definition enc_SubscriptionUpdate :: "codec_lib \<Rightarrow> SubscriptionUpdate \<Rightarrow> members option" where
  "enc_SubscriptionUpdate L f = fields [
    m_str_o ''id'' (su_ID f), m_str ''subscription_id'' (su_SubscriptionID f), m_ptr (m_str ''url'') (su_URL f),
    m_raw_o ''match'' (su_Match f), m_ptr (m_list_o ''events'') (su_Events f),
    m_ptr (m_int ''context_lines'') (su_ContextLines f), m_ptr (m_int ''debounce_ms'') (su_DebounceMs f),
    m_ptr (m_int ''cooldown_ms'') (su_CooldownMs f), m_raw_o ''budget'' (su_Budget f),
    m_ptr (m_bool ''disabled'') (su_Disabled f)]"

definition dec_SubscriptionUpdate :: "codec_lib \<Rightarrow> obj \<Rightarrow> SubscriptionUpdate option" where
  "dec_SubscriptionUpdate L x = do {
    v0 \<leftarrow> f_str ''id'' x; v1 \<leftarrow> f_str ''subscription_id'' x;
    v2 \<leftarrow> f_ptr as_str ''url'' x; v3 \<leftarrow> f_raw ''match'' x;
    v4 \<leftarrow> f_ptr (as_list as_str '''') ''events'' x; v5 \<leftarrow> f_ptr as_int ''context_lines'' x;
    v6 \<leftarrow> f_ptr as_int ''debounce_ms'' x; v7 \<leftarrow> f_ptr as_int ''cooldown_ms'' x;
    v8 \<leftarrow> f_raw ''budget'' x; v9 \<leftarrow> f_ptr as_bool ''disabled'' x;
    Some \<lparr>su_ID = v0, su_SubscriptionID = v1, su_URL = v2, su_Match = v3, su_Events = v4,
      su_ContextLines = v5, su_DebounceMs = v6, su_CooldownMs = v7, su_Budget = v8, su_Disabled = v9\<rparr> }"

definition enc_SubscriptionDelete :: "codec_lib \<Rightarrow> SubscriptionDelete \<Rightarrow> members option" where
  "enc_SubscriptionDelete L f = fields [
    m_str_o ''id'' (sd_ID f), m_str ''subscription_id'' (sd_SubscriptionID f)]"

definition dec_SubscriptionDelete :: "codec_lib \<Rightarrow> obj \<Rightarrow> SubscriptionDelete option" where
  "dec_SubscriptionDelete L x = do {
    v0 \<leftarrow> f_str ''id'' x; v1 \<leftarrow> f_str ''subscription_id'' x;
    Some \<lparr>sd_ID = v0, sd_SubscriptionID = v1\<rparr> }"

definition enc_SubscriptionOK :: "codec_lib \<Rightarrow> SubscriptionOK \<Rightarrow> members option" where
  "enc_SubscriptionOK L f = fields [
    m_str_o ''id'' (so_ID f), m_struct ''subscription'' (enc_SubscriptionInfo L (so_Subscription f))]"

definition dec_SubscriptionOK :: "codec_lib \<Rightarrow> obj \<Rightarrow> SubscriptionOK option" where
  "dec_SubscriptionOK L x = do {
    v0 \<leftarrow> f_str ''id'' x; v1 \<leftarrow> f_struct (dec_SubscriptionInfo L) ''subscription'' x;
    Some \<lparr>so_ID = v0, so_Subscription = v1\<rparr> }"

definition enc_SubscriptionListOK :: "codec_lib \<Rightarrow> SubscriptionListOK \<Rightarrow> members option" where
  "enc_SubscriptionListOK L f = fields [
    m_str_o ''id'' (sk_ID f), m_structs ''subscriptions'' (map (enc_SubscriptionInfo L) (sk_Subscriptions f))]"

definition dec_SubscriptionListOK :: "codec_lib \<Rightarrow> obj \<Rightarrow> SubscriptionListOK option" where
  "dec_SubscriptionListOK L x = do {
    v0 \<leftarrow> f_str ''id'' x; v1 \<leftarrow> f_structs (dec_SubscriptionInfo L) ''subscriptions'' x;
    Some \<lparr>sk_ID = v0, sk_Subscriptions = v1\<rparr> }"

definition enc_SubscriptionDeleted :: "codec_lib \<Rightarrow> SubscriptionDeleted \<Rightarrow> members option" where
  "enc_SubscriptionDeleted L f = fields [
    m_str_o ''id'' (sx_ID f), m_str ''subscription_id'' (sx_SubscriptionID f)]"

definition dec_SubscriptionDeleted :: "codec_lib \<Rightarrow> obj \<Rightarrow> SubscriptionDeleted option" where
  "dec_SubscriptionDeleted L x = do {
    v0 \<leftarrow> f_str ''id'' x; v1 \<leftarrow> f_str ''subscription_id'' x;
    Some \<lparr>sx_ID = v0, sx_SubscriptionID = v1\<rparr> }"

definition enc_ChatHistory :: "codec_lib \<Rightarrow> ChatHistory \<Rightarrow> members option" where
  "enc_ChatHistory L f = fields [
    m_str_o ''id'' (cq_ID f), m_str ''channel'' (cq_Channel f), m_int_o ''limit'' (cq_Limit f),
    m_time L ''before_ts'' (cq_BeforeTS f)]"

definition dec_ChatHistory :: "codec_lib \<Rightarrow> obj \<Rightarrow> ChatHistory option" where
  "dec_ChatHistory L x = do {
    v0 \<leftarrow> f_str ''id'' x; v1 \<leftarrow> f_str ''channel'' x; v2 \<leftarrow> f_int ''limit'' x;
    v3 \<leftarrow> f_time L ''before_ts'' x;
    Some \<lparr>cq_ID = v0, cq_Channel = v1, cq_Limit = v2, cq_BeforeTS = v3\<rparr> }"

definition enc_ChatHistoryOK :: "codec_lib \<Rightarrow> ChatHistoryOK \<Rightarrow> members option" where
  "enc_ChatHistoryOK L f = fields [
    m_str_o ''id'' (ck_ID f), m_str ''channel'' (ck_Channel f),
    m_structs ''messages'' (map (enc_StoredMessageWire L) (ck_Messages f))]"

definition dec_ChatHistoryOK :: "codec_lib \<Rightarrow> obj \<Rightarrow> ChatHistoryOK option" where
  "dec_ChatHistoryOK L x = do {
    v0 \<leftarrow> f_str ''id'' x; v1 \<leftarrow> f_str ''channel'' x;
    v2 \<leftarrow> f_structs (dec_StoredMessageWire L) ''messages'' x;
    Some \<lparr>ck_ID = v0, ck_Channel = v1, ck_Messages = v2\<rparr> }"

definition enc_MembersReq :: "codec_lib \<Rightarrow> MembersReq \<Rightarrow> members option" where
  "enc_MembersReq L f = fields [
    m_str_o ''id'' (mq_ID f), m_str ''channel'' (mq_Channel f)]"

definition dec_MembersReq :: "codec_lib \<Rightarrow> obj \<Rightarrow> MembersReq option" where
  "dec_MembersReq L x = do {
    v0 \<leftarrow> f_str ''id'' x; v1 \<leftarrow> f_str ''channel'' x;
    Some \<lparr>mq_ID = v0, mq_Channel = v1\<rparr> }"

definition enc_MembersOK :: "codec_lib \<Rightarrow> MembersOK \<Rightarrow> members option" where
  "enc_MembersOK L f = fields [
    m_str_o ''id'' (mk_ID f), m_str ''channel'' (mk_Channel f),
    m_structs ''members'' (map (enc_MemberInfo L) (mk_Members f))]"

definition dec_MembersOK :: "codec_lib \<Rightarrow> obj \<Rightarrow> MembersOK option" where
  "dec_MembersOK L x = do {
    v0 \<leftarrow> f_str ''id'' x; v1 \<leftarrow> f_str ''channel'' x;
    v2 \<leftarrow> f_structs (dec_MemberInfo L) ''members'' x;
    Some \<lparr>mk_ID = v0, mk_Channel = v1, mk_Members = v2\<rparr> }"

definition enc_ChanopPauseBot :: "codec_lib \<Rightarrow> ChanopPauseBot \<Rightarrow> members option" where
  "enc_ChanopPauseBot L f = fields [
    m_str_o ''id'' (cp_ID f), m_str ''channel'' (cp_Channel f), m_str ''bot_account_id'' (cp_BotAccountID f),
    m_str_o ''reason'' (cp_Reason f)]"

definition dec_ChanopPauseBot :: "codec_lib \<Rightarrow> obj \<Rightarrow> ChanopPauseBot option" where
  "dec_ChanopPauseBot L x = do {
    v0 \<leftarrow> f_str ''id'' x; v1 \<leftarrow> f_str ''channel'' x; v2 \<leftarrow> f_str ''bot_account_id'' x;
    v3 \<leftarrow> f_str ''reason'' x;
    Some \<lparr>cp_ID = v0, cp_Channel = v1, cp_BotAccountID = v2, cp_Reason = v3\<rparr> }"

definition enc_ChanopResumeBot :: "codec_lib \<Rightarrow> ChanopResumeBot \<Rightarrow> members option" where
  "enc_ChanopResumeBot L f = fields [
    m_str_o ''id'' (cr_ID f), m_str ''channel'' (cr_Channel f), m_str ''bot_account_id'' (cr_BotAccountID f),
    m_str_o ''reason'' (cr_Reason f)]"

definition dec_ChanopResumeBot :: "codec_lib \<Rightarrow> obj \<Rightarrow> ChanopResumeBot option" where
  "dec_ChanopResumeBot L x = do {
    v0 \<leftarrow> f_str ''id'' x; v1 \<leftarrow> f_str ''channel'' x; v2 \<leftarrow> f_str ''bot_account_id'' x;
    v3 \<leftarrow> f_str ''reason'' x;
    Some \<lparr>cr_ID = v0, cr_Channel = v1, cr_BotAccountID = v2, cr_Reason = v3\<rparr> }"

definition enc_ChanopOK :: "codec_lib \<Rightarrow> ChanopOK \<Rightarrow> members option" where
  "enc_ChanopOK L f = fields [
    m_str_o ''id'' (co_ID f), m_str ''action'' (co_Action f), m_str ''channel'' (co_Channel f),
    m_str_o ''bot_account_id'' (co_BotAccountID f)]"

definition dec_ChanopOK :: "codec_lib \<Rightarrow> obj \<Rightarrow> ChanopOK option" where
  "dec_ChanopOK L x = do {
    v0 \<leftarrow> f_str ''id'' x; v1 \<leftarrow> f_str ''action'' x; v2 \<leftarrow> f_str ''channel'' x;
    v3 \<leftarrow> f_str ''bot_account_id'' x;
    Some \<lparr>co_ID = v0, co_Action = v1, co_Channel = v2, co_BotAccountID = v3\<rparr> }"

definition enc_ErrorFrame :: "codec_lib \<Rightarrow> ErrorFrame \<Rightarrow> members option" where
  "enc_ErrorFrame L f = fields [
    m_str_o ''id'' (er_ID f), m_str ''reason'' (er_Reason f), m_str_o ''detail'' (er_Detail f)]"

definition dec_ErrorFrame :: "codec_lib \<Rightarrow> obj \<Rightarrow> ErrorFrame option" where
  "dec_ErrorFrame L x = do {
    v0 \<leftarrow> f_str ''id'' x; v1 \<leftarrow> f_str ''reason'' x; v2 \<leftarrow> f_str ''detail'' x;
    Some \<lparr>er_ID = v0, er_Reason = v1, er_Detail = v2\<rparr> }"

fun enc_frame :: "codec_lib \<Rightarrow> Frame \<Rightarrow> members option" where
  "enc_frame L (FHello f) = enc_Hello L f"
| "enc_frame L (FWelcome f) = enc_Welcome L f"
| "enc_frame L (FAuthRequest f) = enc_AuthRequest L f"
| "enc_frame L (FAuthChallenge f) = enc_AuthChallenge L f"
| "enc_frame L (FAuthResponse f) = enc_AuthResponse L f"
| "enc_frame L (FAuthOK f) = enc_AuthOK L f"
| "enc_frame L (FAuthErr f) = enc_AuthErr L f"
| "enc_frame L (FJoin f) = enc_Join L f"
| "enc_frame L (FPart f) = enc_Part L f"
| "enc_frame L (FMsg f) = enc_Msg L f"
| "enc_frame L (FPresence f) = enc_Presence L f"
| "enc_frame L (FPing f) = enc_Ping L f"
| "enc_frame L (FPong f) = enc_Pong L f"
| "enc_frame L (FSubscriptionCreate f) = enc_SubscriptionCreate L f"
| "enc_frame L (FSubscriptionList f) = enc_SubscriptionList L f"
| "enc_frame L (FSubscriptionGet f) = enc_SubscriptionGet L f"
| "enc_frame L (FSubscriptionUpdate f) = enc_SubscriptionUpdate L f"
| "enc_frame L (FSubscriptionDelete f) = enc_SubscriptionDelete L f"
| "enc_frame L (FSubscriptionOK f) = enc_SubscriptionOK L f"
| "enc_frame L (FSubscriptionListOK f) = enc_SubscriptionListOK L f"
| "enc_frame L (FSubscriptionDeleted f) = enc_SubscriptionDeleted L f"
| "enc_frame L (FChatHistory f) = enc_ChatHistory L f"
| "enc_frame L (FChatHistoryOK f) = enc_ChatHistoryOK L f"
| "enc_frame L (FMembersReq f) = enc_MembersReq L f"
| "enc_frame L (FMembersOK f) = enc_MembersOK L f"
| "enc_frame L (FChanopPauseBot f) = enc_ChanopPauseBot L f"
| "enc_frame L (FChanopResumeBot f) = enc_ChanopResumeBot L f"
| "enc_frame L (FChanopOK f) = enc_ChanopOK L f"
| "enc_frame L (FError f) = enc_ErrorFrame L f"

end
