(* ===== verification/Codec.thy ===== *)
theory Codec
  imports Frames
begin

text \<open>
  The line codec (\<^verbatim>\<open>internal/proto/codec.go\<close>): marshalling a frame with its type stamped, the size
  limit on both sides, and the decoder over a stream of lines. A stream is the list of bytes up to its
  end; \<^verbatim>\<open>bufio.Scanner\<close> with a buffer of \<^verbatim>\<open>MaxFrameSize\<close> bytes finds a line only if the newline is
  within the buffer.
\<close>

definition MaxFrameSize :: nat where
  "MaxFrameSize = 64 * 1024"

datatype codec_error = ErrMarshal | ErrFrameTooLarge | ErrUnknownType | ErrDecode | ErrEOF | ErrWrite

section \<open>Encoding\<close>

definition bytesContains :: "bytes \<Rightarrow> bytes \<Rightarrow> bool" where
  "bytesContains haystack needle =
     (if needle = [] then True
      else if length haystack < length needle then False
      else list_ex (\<lambda>i. list_all (\<lambda>j. haystack ! (i + j) = needle ! j) [0..<length needle])
             [0..<Suc (length haystack - length needle)])"

definition type_needle :: "string \<Rightarrow> bytes" where
  "type_needle want = [CHR 0x22] @ ''type'' @ [CHR 0x22] @ '':'' @ [CHR 0x22] @ want @ [CHR 0x22]"

definition containsType :: "bytes \<Rightarrow> string \<Rightarrow> bool" where
  "containsType raw want = bytesContains raw (type_needle want)"

text \<open>\<^verbatim>\<open>json.Marshal\<close> of the struct, whose \<^verbatim>\<open>Type\<close> field holds \<open>ty\<close>.\<close>

definition json_Marshal :: "codec_lib \<Rightarrow> string \<Rightarrow> Frame \<Rightarrow> bytes option" where
  "json_Marshal L ty f = map_option (\<lambda>ms. object_text ((''type'', print_str ty) # ms)) (enc_frame L f)"

text \<open>A value after a round trip through \<^verbatim>\<open>map[string]any\<close>: keys sorted, a repeated key keeps its last value.\<close>

fun put_member :: "bytes \<Rightarrow> json \<Rightarrow> (bytes \<times> json) list \<Rightarrow> (bytes \<times> json) list" where
  "put_member k v [] = [(k, v)]"
| "put_member k v ((k', v') # ms) =
     (if k = k' then (k, v) # ms else if str_less k k' then (k, v) # (k', v') # ms else (k', v') # put_member k v ms)"

definition sort_members :: "(bytes \<times> json) list \<Rightarrow> (bytes \<times> json) list" where
  "sort_members ms = fold (\<lambda>(k, v). put_member k v) ms []"

fun to_any :: "(bytes \<Rightarrow> bytes option) \<Rightarrow> json \<Rightarrow> json option" where
  "to_any num (JNum n) = map_option JNum (num n)"
| "to_any num (JArr vs) = map_option JArr (those (map (to_any num) vs))"
| "to_any num (JObj ms) = map_option (\<lambda>xs. JObj (sort_members xs))
     (those (map (\<lambda>(k, v). map_option (Pair k) (to_any num v)) ms))"
| "to_any num v = Some v"

definition marshalWithType :: "codec_lib \<Rightarrow> string \<Rightarrow> Frame \<Rightarrow> codec_error + bytes" where
  "marshalWithType L ty f =
     (case json_Marshal L ty f of
        None \<Rightarrow> Inl ErrMarshal
      | Some raw \<Rightarrow>
          if containsType raw (FrameType f) then Inr raw
          else (case Option.bind (parse_json raw) (to_any (num64 L)) of
                  Some (JObj ms) \<Rightarrow> Inr (print_json (JObj (put_member ''type'' (JStr (FrameType f)) ms)))
                | _ \<Rightarrow> Inl ErrMarshal))"

definition EncodeBytes :: "codec_lib \<Rightarrow> string \<Rightarrow> Frame \<Rightarrow> codec_error + bytes" where
  "EncodeBytes L ty f =
     (case marshalWithType L ty f of
        Inl e \<Rightarrow> Inl e
      | Inr stamped \<Rightarrow> if length stamped > MaxFrameSize then Inl ErrFrameTooLarge else Inr (stamped @ [CHR 0x0A]))"

text \<open>\<^verbatim>\<open>Encode\<close> hands the same bytes to one \<open>write\<close> of the destination.\<close>

definition Encode :: "(bytes \<Rightarrow> 'w \<Rightarrow> codec_error + 'w) \<Rightarrow> codec_lib \<Rightarrow> string \<Rightarrow> Frame \<Rightarrow> 'w \<Rightarrow> codec_error + 'w" where
  "Encode write L ty f w =
     (case marshalWithType L ty f of
        Inl e \<Rightarrow> Inl e
      | Inr stamped \<Rightarrow> if length stamped > MaxFrameSize then Inl ErrFrameTooLarge else write (stamped @ [CHR 0x0A]) w)"

section \<open>Decoding\<close>

definition dropCR :: "bytes \<Rightarrow> bytes" where
  "dropCR s = (if s \<noteq> [] \<and> last s = CHR 0x0D then butlast s else s)"

datatype scan_result = ScanEOF | ScanTooLong | ScanLine bytes bytes

definition Scan :: "bytes \<Rightarrow> scan_result" where
  "Scan s =
     (if s = [] then ScanEOF
      else case IndexByte s (CHR 0x0A) of
        Some i \<Rightarrow> if i < MaxFrameSize then ScanLine (dropCR (take i s)) (drop (Suc i) s) else ScanTooLong
      | None \<Rightarrow> if length s < MaxFrameSize then ScanLine (dropCR s) [] else ScanTooLong)"

definition frameForType :: "string \<Rightarrow> (codec_lib \<Rightarrow> obj \<Rightarrow> Frame option) option" where
  "frameForType t =
     (if t = ''hello'' then Some (\<lambda>L x. map_option FHello (dec_Hello L x))
      else if t = ''welcome'' then Some (\<lambda>L x. map_option FWelcome (dec_Welcome L x))
      else if t = ''auth_request'' then Some (\<lambda>L x. map_option FAuthRequest (dec_AuthRequest L x))
      else if t = ''auth_challenge'' then Some (\<lambda>L x. map_option FAuthChallenge (dec_AuthChallenge L x))
      else if t = ''auth_response'' then Some (\<lambda>L x. map_option FAuthResponse (dec_AuthResponse L x))
      else if t = ''auth_ok'' then Some (\<lambda>L x. map_option FAuthOK (dec_AuthOK L x))
      else if t = ''auth_err'' then Some (\<lambda>L x. map_option FAuthErr (dec_AuthErr L x))
      else if t = ''join'' then Some (\<lambda>L x. map_option FJoin (dec_Join L x))
      else if t = ''part'' then Some (\<lambda>L x. map_option FPart (dec_Part L x))
      else if t = ''msg'' then Some (\<lambda>L x. map_option FMsg (dec_Msg L x))
      else if t = ''presence'' then Some (\<lambda>L x. map_option FPresence (dec_Presence L x))
      else if t = ''ping'' then Some (\<lambda>L x. map_option FPing (dec_Ping L x))
      else if t = ''pong'' then Some (\<lambda>L x. map_option FPong (dec_Pong L x))
      else if t = ''error'' then Some (\<lambda>L x. map_option FError (dec_ErrorFrame L x))
      else if t = ''subscription_create'' then Some (\<lambda>L x. map_option FSubscriptionCreate (dec_SubscriptionCreate L x))
      else if t = ''subscription_list'' then Some (\<lambda>L x. map_option FSubscriptionList (dec_SubscriptionList L x))
      else if t = ''subscription_get'' then Some (\<lambda>L x. map_option FSubscriptionGet (dec_SubscriptionGet L x))
      else if t = ''subscription_update'' then Some (\<lambda>L x. map_option FSubscriptionUpdate (dec_SubscriptionUpdate L x))
      else if t = ''subscription_delete'' then Some (\<lambda>L x. map_option FSubscriptionDelete (dec_SubscriptionDelete L x))
      else if t = ''subscription_ok'' then Some (\<lambda>L x. map_option FSubscriptionOK (dec_SubscriptionOK L x))
      else if t = ''subscription_list_ok'' then Some (\<lambda>L x. map_option FSubscriptionListOK (dec_SubscriptionListOK L x))
      else if t = ''subscription_deleted'' then Some (\<lambda>L x. map_option FSubscriptionDeleted (dec_SubscriptionDeleted L x))
      else if t = ''chathistory'' then Some (\<lambda>L x. map_option FChatHistory (dec_ChatHistory L x))
      else if t = ''chathistory_ok'' then Some (\<lambda>L x. map_option FChatHistoryOK (dec_ChatHistoryOK L x))
      else if t = ''members'' then Some (\<lambda>L x. map_option FMembersReq (dec_MembersReq L x))
      else if t = ''members_ok'' then Some (\<lambda>L x. map_option FMembersOK (dec_MembersOK L x))
      else if t = ''chanop_pause_bot'' then Some (\<lambda>L x. map_option FChanopPauseBot (dec_ChanopPauseBot L x))
      else if t = ''chanop_resume_bot'' then Some (\<lambda>L x. map_option FChanopResumeBot (dec_ChanopResumeBot L x))
      else if t = ''chanop_ok'' then Some (\<lambda>L x. map_option FChanopOK (dec_ChanopOK L x))
      else None)"

definition decode_line :: "codec_lib \<Rightarrow> bytes \<Rightarrow> codec_error + Frame" where
  "decode_line L line =
     (case read_obj line of
        None \<Rightarrow> Inl ErrDecode
      | Some x \<Rightarrow>
          (case f_str ''type'' x of
             None \<Rightarrow> Inl ErrDecode
           | Some t \<Rightarrow>
               (case frameForType t of
                  None \<Rightarrow> Inl ErrUnknownType
                | Some dec \<Rightarrow> (case dec L x of None \<Rightarrow> Inl ErrDecode | Some f \<Rightarrow> Inr f))))"

lemma IndexByte_bound: "IndexByte s c = Some i \<Longrightarrow> i < length s"
  by (induction s arbitrary: i) (auto split: if_splits)

lemma Scan_shorter: "Scan s = ScanLine l r \<Longrightarrow> length r < length s"
  by (auto simp: Scan_def split: if_splits option.splits dest: IndexByte_bound)

text \<open>\<^verbatim>\<open>Decode\<close>: the next frame and what is left of the stream; blank lines are skipped.\<close>

function Decode :: "codec_lib \<Rightarrow> bytes \<Rightarrow> (codec_error + Frame) \<times> bytes" where
  "Decode L s = (case Scan s of
       ScanEOF \<Rightarrow> (Inl ErrEOF, [])
     | ScanTooLong \<Rightarrow> (Inl ErrFrameTooLarge, s)
     | ScanLine line rest \<Rightarrow> if line = [] then Decode L rest else (decode_line L line, rest))"
  by pat_completeness auto
termination
  by (relation "measure (\<lambda>(L, s). length s)") (auto dest: Scan_shorter)

declare Decode.simps [simp del]

end
