(* ===== verification/Codec_Wire.thy ===== *)
theory Codec_Wire
  imports Codec
begin

text \<open>
  What travels on the wire: the type stamp of a frame is never mistaken, a frame that was encoded
  decodes to itself, and where the two size limits and the substring test for the type do not agree.
\<close>

section \<open>Substrings\<close>

lemma list_all_upt_nth:
  assumes "i + length n \<le> length h"
  shows "list_all (\<lambda>j. h ! (i + j) = n ! j) [0..<length n] \<longleftrightarrow> take (length n) (drop i h) = n"
proof -
  have "take (length n) (drop i h) = n \<longleftrightarrow> (\<forall>j < length n. drop i h ! j = n ! j)"
    using assms by (simp add: list_eq_iff_nth_eq)
  also have "\<dots> \<longleftrightarrow> (\<forall>j < length n. h ! (i + j) = n ! j)" using assms by simp
  finally show ?thesis by (auto simp: list_all_iff)
qed

lemma bytesContains_iff: "bytesContains h n \<longleftrightarrow> (\<exists>a b. h = a @ n @ b)"
proof
  assume c: "bytesContains h n"
  show "\<exists>a b. h = a @ n @ b"
  proof (cases "n = []")
    case False
    with c obtain i where i: "i < Suc (length h - length n)" and len: "length n \<le> length h"
      and l: "list_all (\<lambda>j. h ! (i + j) = n ! j) [0..<length n]"
      by (auto simp: bytesContains_def list_ex_iff simp del: upt_Suc split: if_splits)
    have "i + length n \<le> length h" using i len by linarith
    then have "take (length n) (drop i h) = n" using l list_all_upt_nth by blast
    then have "h = take i h @ n @ drop (length n) (drop i h)" by (metis append_take_drop_id)
    then show ?thesis by blast
  qed auto
next
  assume "\<exists>a b. h = a @ n @ b"
  then obtain a b where h: "h = a @ n @ b" by blast
  have "list_all (\<lambda>j. h ! (length a + j) = n ! j) [0..<length n]"
    by (subst list_all_upt_nth) (simp_all add: h)
  with h show "bytesContains h n" by (auto simp: bytesContains_def list_ex_iff intro!: bexI [of _ "length a"])
qed

section \<open>Quotes in string literals\<close>

abbreviation quote :: char where "quote \<equiv> CHR 0x22"

definition quoted :: "bytes \<Rightarrow> bool" where
  "quoted e \<longleftrightarrow> (\<forall>a b. e = a @ quote # b \<longrightarrow> a \<noteq> [] \<and> last a = CHR 0x5C)"

lemma quoted_append:
  assumes "quoted u" and "quoted e"
  shows "quoted (u @ e)"
  unfolding quoted_def
proof (intro allI impI)
  fix a b assume "u @ e = a @ quote # b"
  then consider (inu) us where "u = a @ quote # us" | (ine) a' where "a = u @ a'" "e = a' @ quote # b"
    by (auto simp: append_eq_append_conv2 Cons_eq_append_conv append_eq_Cons_conv)
  then show "a \<noteq> [] \<and> last a = CHR 0x5C"
  proof cases
    case inu
    with assms(1) show ?thesis by (auto simp: quoted_def)
  next
    case ine
    with assms(2) have "a' \<noteq> [] \<and> last a' = CHR 0x5C" by (auto simp: quoted_def)
    with ine show ?thesis by auto
  qed
qed

lemma quoted_plain: "quote \<notin> set u \<Longrightarrow> quoted u"
  by (auto simp: quoted_def)

lemma quoted_pair: "quoted [CHR 0x5C, c]"
  by (auto simp: quoted_def Cons_eq_append_conv)

lemma hex_char_plain: "n < 16 \<Longrightarrow> hex_char n \<noteq> quote \<and> hex_char n \<noteq> CHR 0x0A"
proof -
  assume "n < 16"
  then have "hex_val (hex_char n) = Some n" by simp
  moreover have "hex_val quote = None" "hex_val CHR 0x0A = None" by (simp_all add: hex_val_def code_def)
  ultimately show ?thesis by (metis option.distinct(1))
qed

text \<open>One character's part of an escaped string, and what is left of the string.\<close>

lemma esc_str_unit:
  "\<exists>u s'. esc_str (c # s) = u @ esc_str s' \<and> quoted u \<and> (quote \<in> set u \<longrightarrow> c = quote) \<and> CHR 0x0A \<notin> set u
     \<and> length s' \<le> length s \<and> set s' \<subseteq> set s" (is "\<exists>u s'. ?P u s'")
proof -
  define A where "A \<longleftrightarrow> c \<in> {CHR 0x22, CHR 0x5C, CHR 0x08, CHR 0x0C, CHR 0x0A, CHR 0x0D, CHR 0x09}"
  define B where "B \<longleftrightarrow> code c < 32 \<or> c = CHR ''<'' \<or> c = CHR ''>'' \<or> c = CHR ''&''"
  define C where "C x \<longleftrightarrow> c = CHR 0xE2 \<and> take 2 s = [CHR 0x80, x]" for x
  have sub: "length (drop 2 s) \<le> length s" "set (drop 2 s) \<subseteq> set s" by (simp_all add: set_drop_subset)
  consider (a) A | (b) "\<not> A" B | (c) "\<not> A" "\<not> B" "C CHR 0xA8" | (d) "\<not> A" "\<not> B" "C CHR 0xA9"
    | (e) "\<not> A" "\<not> B" "\<not> C CHR 0xA8" "\<not> C CHR 0xA9" by blast
  then show ?thesis
  proof cases
    case a
    then obtain x where "esc_str (c # s) = [CHR 0x5C, x] @ esc_str s" "x = quote \<longrightarrow> c = quote" "x \<noteq> CHR 0x0A"
      by (auto simp: A_def)
    then have "?P [CHR 0x5C, x] s" using quoted_pair by auto
    then show ?thesis by blast
  next
    case b
    then have lt: "code c div 16 < 16" "code c mod 16 < 16" by (auto simp: B_def code_def)
    let ?u = "[CHR 0x5C] @ ''u00'' @ [hex_char (code c div 16), hex_char (code c mod 16)]"
    have "quote \<notin> set ?u \<and> CHR 0x0A \<notin> set ?u"
      using hex_char_plain [OF lt(1)] hex_char_plain [OF lt(2)] by auto
    moreover have "esc_str (c # s) = ?u @ esc_str s" using b by (auto simp: A_def B_def)
    ultimately have "?P ?u s" using quoted_plain by auto
    then show ?thesis by blast
  next
    case c
    then have "?P (CHR 0x5C # ''u2028'') (drop 2 s)" using sub by (simp add: A_def B_def C_def quoted_plain)
    then show ?thesis by blast
  next
    case d
    then have "?P (CHR 0x5C # ''u2029'') (drop 2 s)" using sub by (simp add: A_def B_def C_def quoted_plain)
    then show ?thesis by blast
  next
    case e
    then have "?P [c] s" by (auto simp: A_def B_def C_def quoted_plain)
    then show ?thesis by blast
  qed
qed

lemma esc_str_facts: "quoted (esc_str s) \<and> (quote \<in> set (esc_str s) \<longrightarrow> quote \<in> set s) \<and> CHR 0x0A \<notin> set (esc_str s)"
proof (induction s rule: measure_induct_rule [of length])
  case (less s)
  show ?case
  proof (cases s)
    case (Cons c t)
    obtain u s' where u: "esc_str (c # t) = u @ esc_str s'" "quoted u" "quote \<in> set u \<longrightarrow> c = quote" "CHR 0x0A \<notin> set u"
      "length s' \<le> length t" "set s' \<subseteq> set t" using esc_str_unit [of c t] by blast
    have ih: "quoted (esc_str s') \<and> (quote \<in> set (esc_str s') \<longrightarrow> quote \<in> set s') \<and> CHR 0x0A \<notin> set (esc_str s')"
      using less.IH [of s'] u(5) Cons by simp
    have "quote \<in> set s" if "quote \<in> set (esc_str s)" using that u(1,3,6) ih Cons by auto
    moreover have "quoted (esc_str s)" using quoted_append [OF u(2)] ih u(1) Cons by simp
    ultimately show ?thesis using u(1,4) ih Cons by auto
  qed (simp add: quoted_def)
qed

lemmas quoted_esc_str = esc_str_facts [THEN conjunct1]
lemmas quote_esc_str = esc_str_facts [THEN conjunct2, THEN conjunct1, rule_format]
lemmas esc_str_one_line = esc_str_facts [THEN conjunct2, THEN conjunct2]

lemma esc_str_inj: "esc_str s = esc_str t \<Longrightarrow> s = t"
  using scan_str_esc_str [of s "[]"] scan_str_esc_str [of t "[]"] by (metis option.inject prod.inject)

section \<open>The type stamp\<close>

text \<open>The text that \<^verbatim>\<open>containsType\<close> looks for does not occur.\<close>

definition free :: "string \<Rightarrow> bytes \<Rightarrow> bool" where
  "free w r \<longleftrightarrow> \<not> (\<exists>a b. r = a @ type_needle w @ b)"

lemma free_plain: "free w r \<Longrightarrow> quote \<notin> set u \<Longrightarrow> free w (u @ r)"
proof (induction u)
  case (Cons c u)
  have "a \<noteq> []" if "c # u @ r = a @ type_needle w @ b" for a b
    using that Cons.prems by (auto simp: type_needle_def)
  then show ?case using Cons unfolding free_def by (metis append_Cons append_self_conv2 insert_iff list.inject list.set(2) neq_Nil_conv)
qed simp

lemma type_tail:
  assumes "''type'' @ quote # x = e @ quote # r" and "quoted (p @ e)"
  shows "e = ''type'' \<and> r = x"
proof -
  consider "e = ''type''" "r = x" | e' where "e = ''type'' @ quote # e'"
    using assms(1) by (auto simp: Cons_eq_append_conv append_eq_Cons_conv)
  then show ?thesis
  proof cases
    case 2
    then have "p @ e = (p @ ''type'') @ quote # e'" by simp
    with assms(2) have "last (p @ ''type'') = CHR 0x5C" unfolding quoted_def by blast
    then show ?thesis by simp
  qed simp
qed

lemma literal_tail:
  assumes "quoted e" and "e @ quote # r = a @ type_needle w @ b" and "r = [] \<or> hd r \<noteq> CHR ''t''"
  shows "(\<exists>a'. r = a' @ type_needle w @ b) \<or> (quote \<in> set e \<and> (\<exists>m. r = CHR '':'' # m))"
proof -
  from assms(2) obtain us where us: "e = a @ us \<and> us @ quote # r = type_needle w @ b \<or> e @ us = a \<and> quote # r = us @ type_needle w @ b"
    unfolding append_eq_append_conv2 by blast
  consider (inner) e2 where "e = a @ e2" "type_needle w @ b = e2 @ quote # r" "e2 \<noteq> []"
    | (close) "type_needle w @ b = quote # r" | (after) a' where "r = a' @ type_needle w @ b"
  proof (cases us)
    case Nil
    with us show ?thesis using close by auto
  next
    case (Cons c a')
    with us show ?thesis using inner [of us] after [of a'] by auto
  qed
  then show ?thesis
  proof cases
    case inner
    then obtain e3 where e3: "e2 = quote # e3" by (auto simp: type_needle_def Cons_eq_append_conv)
    with inner(2) have "''type'' @ quote # ('':'' @ quote # w @ quote # b) = e3 @ quote # r" by (simp add: type_needle_def)
    then have "r = '':'' @ quote # w @ quote # b" using type_tail [of _ e3 r "a @ [quote]"] assms(1) inner(1) e3 by simp
    then show ?thesis using inner e3 by simp
  qed (use assms(3) in \<open>auto simp: type_needle_def\<close>)
qed

lemma free_str:
  assumes "free w r" and "r = [] \<or> hd r \<in> {CHR '','', CHR ''}'', CHR '']''}"
  shows "free w (print_str s @ r)"
  unfolding free_def
proof clarify
  fix a b assume eq: "print_str s @ r = a @ type_needle w @ b"
  show False
  proof (cases a)
    case Nil
    with eq have "''type'' @ quote # ('':'' @ quote # w @ quote # b) = esc_str s @ quote # r"
      by (simp add: print_str_def type_needle_def)
    then have "r = '':'' @ quote # w @ quote # b" using type_tail [of _ "esc_str s" r "[]"] quoted_esc_str by simp
    with assms(2) show False by auto
  next
    case (Cons c a')
    with eq have "esc_str s @ quote # r = a' @ type_needle w @ b" by (auto simp: print_str_def)
    from literal_tail [OF quoted_esc_str this] assms show False by (auto simp: free_def)
  qed
qed

lemma free_key:
  assumes "free w r" and "quote \<notin> set k" and "k \<noteq> ''type''"
  shows "free w (print_str k @ CHR '':'' # r)"
  unfolding free_def
proof clarify
  fix a b assume eq: "print_str k @ CHR '':'' # r = a @ type_needle w @ b"
  have r: "free w (CHR '':'' # r)" using free_plain [OF assms(1), of "'':''"] by simp
  show False
  proof (cases a)
    case Nil
    with eq have "''type'' @ quote # ('':'' @ quote # w @ quote # b) = esc_str k @ quote # CHR '':'' # r"
      by (simp add: print_str_def type_needle_def)
    then have "esc_str k = ''type''" using type_tail [of _ "esc_str k" _ "[]"] quoted_esc_str by simp
    then have "esc_str k = esc_str ''type''" by (simp add: code_def)
    with esc_str_inj assms(3) show False by blast
  next
    case (Cons c a')
    with eq have "esc_str k @ quote # CHR '':'' # r = a' @ type_needle w @ b" by (auto simp: print_str_def)
    from literal_tail [OF quoted_esc_str this] r assms(2) quote_esc_str show False by (auto simp: free_def)
  qed
qed

text \<open>The values of the frames without nested objects: strings, integers, booleans and lists of strings.\<close>

fun flat_val :: "json \<Rightarrow> bool" where
  "flat_val (JStr s) = True"
| "flat_val (JNum n) = (\<exists>i. n = FormatInt i)"
| "flat_val (JBool b) = True"
| "flat_val (JArr vs) = list_all (\<lambda>v. \<exists>s. v = JStr s) vs"
| "flat_val _ = False"

definition ends_value :: "bytes \<Rightarrow> bool" where
  "ends_value r \<longleftrightarrow> r = [] \<or> hd r \<in> {CHR '','', CHR ''}'', CHR '']''}"

lemma digits_set: "c \<in> set (digits n) \<Longrightarrow> is_digit c"
  using digits_are_digits by (auto simp: list_all_iff)

lemma FormatInt_plain: "quote \<notin> set (FormatInt i) \<and> CHR 0x0A \<notin> set (FormatInt i)"
  by (auto simp: FormatInt_def is_digit_def dest: digits_set)

lemma free_strs:
  assumes "list_all (\<lambda>v. \<exists>s. v = JStr s) vs" and "free w r" and "ends_value r"
  shows "free w (join (map print_json vs) @ r)"
  using assms(1)
proof (induction vs rule: induct_list012)
  case 1
  show ?case using assms by simp
next
  case (2 v)
  then obtain s where "v = JStr s" by auto
  then show ?case using assms(2,3) free_str [of w r s] by (simp add: ends_value_def)
next
  case (3 v v' vs)
  then obtain s where v: "v = JStr s" by auto
  have "free w (join (map print_json (v' # vs)) @ r)" using 3 by simp
  then have "free w (CHR '','' # join (map print_json (v' # vs)) @ r)" using free_plain [of w _ "'',''"] by simp
  then show ?case using free_str [of w "CHR '','' # join (map print_json (v' # vs)) @ r" s] v by simp
qed

lemma free_value:
  assumes "flat_val v" and "free w r" and "ends_value r"
  shows "free w (print_json v @ r)"
proof (cases v)
  case (JBool b)
  then show ?thesis using free_plain [OF assms(2), of "print_json v"] by auto
next
  case (JNum n)
  then obtain i where "n = FormatInt i" using assms(1) by auto
  then show ?thesis using free_plain [OF assms(2), of n] FormatInt_plain JNum by simp
next
  case (JStr s)
  then show ?thesis using free_str assms by (simp add: ends_value_def)
next
  case (JArr vs)
  have "free w ('']'' @ r)" by (rule free_plain [OF assms(2)]) simp
  then have "free w (join (map print_json vs) @ '']'' @ r)"
    using free_strs [of vs w "'']'' @ r"] JArr assms(1) by (simp add: ends_value_def)
  then have "free w (''['' @ join (map print_json vs) @ '']'' @ r)" by (rule free_plain) simp
  with JArr show ?thesis by simp
qed (use assms in simp_all)

definition good_key :: "bytes \<Rightarrow> bool" where
  "good_key k \<longleftrightarrow> quote \<notin> set k \<and> k \<noteq> ''type'' \<and> ToLower k = k"

abbreviation member_text :: "bytes \<times> json \<Rightarrow> bytes" where
  "member_text \<equiv> \<lambda>(k, v). print_str k @ '':'' @ print_json v"

lemma free_members:
  assumes "list_all (\<lambda>(k, v). good_key k \<and> flat_val v) ms" and "free w r" and "ends_value r"
  shows "free w (join (map member_text ms) @ r)"
  using assms(1)
proof (induction ms rule: induct_list012)
  case 1
  show ?case using assms by simp
next
  case (2 m)
  obtain k v where m: "m = (k, v)" by (cases m)
  then have "free w (print_json v @ r)" using 2 assms free_value by simp
  then show ?case using free_key [of w _ k] 2 m by (simp add: good_key_def)
next
  case (3 m m' ms)
  obtain k v where m: "m = (k, v)" by (cases m)
  let ?r = "CHR '','' # join (map member_text (m' # ms)) @ r"
  have "free w (join (map member_text (m' # ms)) @ r)" using 3 by simp
  then have "free w ?r" using free_plain [of w _ "'',''"] by simp
  then have "free w (print_json v @ ?r)" using free_value [of v w ?r] 3 m by (simp add: ends_value_def)
  then have "free w (print_str k @ CHR '':'' # print_json v @ ?r)" using free_key [of w _ k] 3 m by (simp add: good_key_def)
  then show ?case by (simp add: m)
qed

lemma unstamped_free:
  assumes "list_all (\<lambda>(k, v). good_key k \<and> flat_val v) ms" and "w \<noteq> []" and "quote \<notin> set w"
  shows "free w (print_json (JObj ((''type'', JStr '''') # ms)))"
proof -
  define r where "r = (if ms = [] then [] else '','' @ join (map member_text ms)) @ ''}''"
  have "free w ''}''" by (auto simp: free_def type_needle_def Cons_eq_append_conv)
  then have "free w (join (map member_text ms) @ ''}'')" using free_members [OF assms(1)] by (simp add: ends_value_def)
  then have r: "free w r" using free_plain [of w _ "'',''"] \<open>free w ''}''\<close> by (simp add: r_def)
  have "ends_value r" by (simp add: ends_value_def r_def)
  then have v: "free w (CHR '':'' # print_str '''' @ r)"
    using free_plain [of w "print_str '''' @ r" "'':''"] free_str [OF r, of "''''"] by (simp add: ends_value_def)
  have t: "print_json (JObj ((''type'', JStr '''') # ms)) = ''{'' @ print_str ''type'' @ CHR '':'' # print_str '''' @ r"
    by (cases ms) (simp_all add: r_def)
  have "free w (print_str ''type'' @ CHR '':'' # print_str '''' @ r)"
    unfolding free_def
  proof clarify
    fix a b assume eq: "print_str ''type'' @ CHR '':'' # print_str '''' @ r = a @ type_needle w @ b"
    show False
    proof (cases a)
      case Nil
      with eq have "quote # quote # r = quote # w @ quote # b" by (simp add: print_str_def type_needle_def code_def)
      with assms(2,3) show False by (cases w) auto
    next
      case (Cons c a')
      with eq have "esc_str ''type'' @ quote # (CHR '':'' # print_str '''' @ r) = a' @ type_needle w @ b"
        by (auto simp: print_str_def Cons simp del: esc_str.simps)
      note lit = literal_tail [OF quoted_esc_str this]
      have "quote \<notin> set (esc_str ''type'')" by (simp add: code_def)
      moreover have "CHR '':'' # print_str '''' @ r = [] \<or> hd (CHR '':'' # print_str '''' @ r) \<noteq> CHR ''t''" by simp
      ultimately show False using lit v unfolding free_def by blast
    qed
  qed
  then show ?thesis unfolding t by (rule free_plain) simp
qed

section \<open>What a flat frame writes, its decoder reads\<close>

definition o_str :: "string \<Rightarrow> json option" where
  "o_str s = (if s = [] then None else Some (JStr s))"

definition o_int :: "int \<Rightarrow> json option" where
  "o_int n = (if n = 0 then None else Some (JNum (FormatInt n)))"

definition o_list :: "string list \<Rightarrow> json option" where
  "o_list xs = (if xs = [] then None else Some (JArr (map JStr xs)))"

text \<open>Integers that survive \<^verbatim>\<open>float64\<close>.\<close>

definition small :: "int \<Rightarrow> bool" where
  "small n \<longleftrightarrow> \<bar>n\<bar> \<le> 2 ^ 53"

definition time_ok :: "codec_lib \<Rightarrow> bool" where
  "time_ok L \<longleftrightarrow> (\<forall>t s. fmt_time L t = Some s \<longrightarrow> parse_time L s = Some t)"

definition num_ok :: "codec_lib \<Rightarrow> bool" where
  "num_ok L \<longleftrightarrow> (\<forall>n. small n \<longrightarrow> num64 L (FormatInt n) = Some (FormatInt n))"

fun segs :: "(bytes \<times> json option) list \<Rightarrow> (bytes \<times> json) list" where
  "segs [] = []"
| "segs ((k, vo) # kvs) = (case vo of None \<Rightarrow> segs kvs | Some v \<Rightarrow> (k, v) # segs kvs)"

abbreviation texts :: "(bytes \<times> json) list \<Rightarrow> members" where
  "texts js \<equiv> map (\<lambda>(k, v). (k, print_json v)) js"

definition keys_ok :: "(bytes \<times> json) list \<Rightarrow> bool" where
  "keys_ok ms \<longleftrightarrow> distinct (map fst ms) \<and> list_all (\<lambda>(k, v). ToLower k = k) ms"

definition reads :: "(bytes \<times> json option) list \<Rightarrow> obj \<Rightarrow> bool" where
  "reads kvs x \<longleftrightarrow> keys_ok (fst x) \<and> list_all (\<lambda>(k, vo). map_of (fst x) k = vo) kvs"

definition wires :: "members option \<Rightarrow> (bytes \<times> json option) list \<Rightarrow> (obj \<Rightarrow> 'a option) \<Rightarrow> 'a \<Rightarrow> bool" where
  "wires ms kvs dec f \<longleftrightarrow> ms \<noteq> None \<longrightarrow>
     ms = Some (texts (segs kvs)) \<and> list_all (\<lambda>(k, vo). good_key k \<and> (case vo of None \<Rightarrow> True | Some v \<Rightarrow> flat_val v)) kvs
     \<and> list_all (\<lambda>(k, vo). \<forall>n. vo = Some (JNum n) \<longrightarrow> (\<exists>i. small i \<and> n = FormatInt i)) kvs
     \<and> distinct (map fst kvs) \<and> (\<forall>x. reads kvs x \<longrightarrow> dec x = Some f)"

lemma wiresI:
  assumes "ms \<noteq> None \<Longrightarrow> ms = Some (texts (segs kvs))"
    and "list_all (\<lambda>(k, vo). good_key k \<and> (case vo of None \<Rightarrow> True | Some v \<Rightarrow> flat_val v)) kvs"
    and "list_all (\<lambda>(k, vo). \<forall>n. vo = Some (JNum n) \<longrightarrow> (\<exists>i. small i \<and> n = FormatInt i)) kvs"
    and "distinct (map fst kvs)" and "\<And>x. ms \<noteq> None \<Longrightarrow> reads kvs x \<Longrightarrow> dec x = Some f"
  shows "wires ms kvs dec f"
  using assms by (auto simp: wires_def)

lemma keyed_field:
  assumes "keys_ok ms" and "ToLower k = k"
  shows "map snd (filter (\<lambda>(k', v). EqualFold k' k) ms) = (case map_of ms k of None \<Rightarrow> [] | Some v \<Rightarrow> [v])"
proof -
  have "map snd (filter (\<lambda>(k', v). k' = k) ms) = (case map_of ms k of None \<Rightarrow> [] | Some v \<Rightarrow> [v])"
    if "distinct (map fst ms)" for ms :: "(bytes \<times> json) list"
    using that
  proof (induction ms)
    case (Cons m ms)
    have none: "filter (\<lambda>(k', v). k' = fst m) ms = []" using Cons.prems by (auto simp: filter_empty_conv intro: rev_image_eqI)
    show ?case
    proof (cases "fst m = k")
      case True
      with none show ?thesis by (cases m) simp
    next
      case False
      with Cons show ?thesis by (cases m) simp
    qed
  qed simp
  moreover have "filter (\<lambda>(k', v). EqualFold k' k) ms = filter (\<lambda>(k', v). k' = k) ms"
    using assms by (intro filter_cong) (auto simp: keys_ok_def EqualFold_def list_all_iff)
  ultimately show ?thesis using assms(1) by (simp add: keys_ok_def)
qed

lemma get_field_keyed:
  assumes "keys_ok ms" and "ToLower k = k"
  shows "get_field dec d k ms = (case map_of ms k of None \<Rightarrow> Some d | Some v \<Rightarrow> if v = JNull then Some d else dec v)"
proof -
  have "field_values k ms = filter (\<lambda>v. v \<noteq> JNull) (map snd (filter (\<lambda>(k', v). EqualFold k' k) ms))"
    by (induction ms) (auto simp: field_values_def)
  also have "\<dots> = filter (\<lambda>v. v \<noteq> JNull) (case map_of ms k of None \<Rightarrow> [] | Some v \<Rightarrow> [v])"
    by (simp only: keyed_field [OF assms])
  finally show ?thesis by (auto simp: get_field_def Let_def split: option.splits)
qed

lemma f_str_reads: "keys_ok (fst x) \<Longrightarrow> ToLower k = k \<Longrightarrow>
    f_str k x = (case map_of (fst x) k of None \<Rightarrow> Some '''' | Some v \<Rightarrow> if v = JNull then Some '''' else as_str v)"
  by (simp add: f_str_def get_field_keyed)

lemma f_int_reads: "keys_ok (fst x) \<Longrightarrow> ToLower k = k \<Longrightarrow>
    f_int k x = (case map_of (fst x) k of None \<Rightarrow> Some 0 | Some v \<Rightarrow> if v = JNull then Some 0 else as_int v)"
  by (simp add: f_int_def get_field_keyed)

lemma f_time_reads: "keys_ok (fst x) \<Longrightarrow> ToLower k = k \<Longrightarrow>
    f_time L k x = (case map_of (fst x) k of None \<Rightarrow> Some 0
      | Some v \<Rightarrow> if v = JNull then Some 0 else Option.bind (as_str v) (parse_time L))"
  by (simp add: f_time_def get_field_keyed)

lemma f_list_reads: "keys_ok (fst x) \<Longrightarrow> ToLower k = k \<Longrightarrow>
    f_list k x = (case map_of (fst x) k of None \<Rightarrow> Some [] | Some v \<Rightarrow> if v = JNull then Some [] else as_list as_str '''' v)"
  by (auto simp: f_list_def f_ptr_def keyed_field Let_def split: option.splits)

lemma those_strs: "those (map (\<lambda>v. if v = JNull then Some '''' else as_str v) (map JStr xs)) = Some xs"
  by (induction xs) (simp_all add: as_str_def)

lemma as_int_small: "small n \<Longrightarrow> as_int (JNum (FormatInt n)) = Some n"
  by (simp add: as_int_def small_def ParseInt64_FormatInt)

lemma o_reads:
  "(case o_str s of None \<Rightarrow> Some '''' | Some v \<Rightarrow> if v = JNull then Some '''' else as_str v) = Some s"
  "(case o_list xs of None \<Rightarrow> Some [] | Some v \<Rightarrow> if v = JNull then Some [] else as_list as_str '''' v) = Some xs"
  by (auto simp: o_str_def o_list_def as_str_def as_list_def those_strs [simplified])

lemma o_int_reads: "small n \<Longrightarrow>
    (case o_int n of None \<Rightarrow> Some 0 | Some v \<Rightarrow> if v = JNull then Some 0 else as_int v) = Some n"
  by (simp add: o_int_def as_int_small)

lemma o_flat:
  "(case o_str s of None \<Rightarrow> True | Some v \<Rightarrow> flat_val v)" "(case o_list xs of None \<Rightarrow> True | Some v \<Rightarrow> flat_val v)"
  "(case o_int n of None \<Rightarrow> True | Some v \<Rightarrow> flat_val v)"
  by (auto simp: o_str_def o_list_def o_int_def list_all_iff)

lemma o_nums: "o_str s \<noteq> Some (JNum b)" "o_list xs \<noteq> Some (JNum b)" "o_int n = Some (JNum b) \<Longrightarrow> b = FormatInt n"
  by (auto simp: o_str_def o_list_def o_int_def split: if_splits)

lemma m_texts:
  "m_str k s = Some (texts (segs [(k, Some (JStr s))]))"
  "m_str_o k s = Some (texts (segs [(k, o_str s)]))"
  "m_int_o k n = Some (texts (segs [(k, o_int n)]))"
  "m_list_o k xs = Some (texts (segs [(k, o_list xs)]))"
  "m_time L k t = (if fmt_time L t = None then None else Some (texts (segs [(k, Some (JStr (the (fmt_time L t))))])))"
  by (auto simp: m_str_def m_str_o_def m_int_def m_int_o_def m_list_def m_list_o_def m_time_def m_text_def o_str_def
      o_int_def o_list_def split: option.split)

lemma segs_Cons2: "segs (a # b # kvs) = segs [a] @ segs (b # kvs)"
  by (cases a) (simp split: option.split)

lemma fields_rec:
  "fields [] = Some []" "fields (None # xs) = None"
  "fields (Some a # xs) = map_option ((@) a) (fields xs)"
  by (simp_all add: fields_def option.map_comp comp_def)

lemma key_facts:
  "good_key ''account_id''"
  "good_key ''account_type''"
  "good_key ''action''"
  "good_key ''before_ts''"
  "good_key ''body''"
  "good_key ''bot_account_id''"
  "good_key ''cap_version''"
  "good_key ''capabilities''"
  "good_key ''channel''"
  "good_key ''client_name''"
  "good_key ''client_version''"
  "good_key ''detail''"
  "good_key ''display_name''"
  "good_key ''from''"
  "good_key ''from_role''"
  "good_key ''id''"
  "good_key ''kind''"
  "good_key ''limit''"
  "good_key ''method''"
  "good_key ''nonce''"
  "good_key ''params''"
  "good_key ''proof''"
  "good_key ''reason''"
  "good_key ''salt''"
  "good_key ''server_name''"
  "good_key ''server_version''"
  "good_key ''subscription_id''"
  "good_key ''tenant''"
  "good_key ''tenant_id''"
  "good_key ''to''"
  "good_key ''token''"
  "good_key ''ts''"
  "good_key ''username''"
  by code_simp+

lemmas lower_keys = key_facts [unfolded good_key_def, THEN conjunct2, THEN conjunct2]


declare segs.simps(2) [simp del]

lemmas wire_enc = fields_rec m_texts segs_Cons2
lemmas wire_dec = reads_def f_str_reads f_int_reads f_time_reads f_list_reads lower_keys o_reads o_int_reads
lemmas wire_kvs = key_facts o_flat o_nums

lemma small_num: "small n \<Longrightarrow> \<forall>b. o_int n = Some (JNum b) \<longrightarrow> (\<exists>i. small i \<and> b = FormatInt i)"
  using o_nums(3) by blast

lemma time_reads: "time_ok L \<Longrightarrow> fmt_time L t \<noteq> None \<Longrightarrow> parse_time L (the (fmt_time L t)) = Some t"
  by (auto simp: time_ok_def)

lemma wire_Hello: "wires (enc_Hello L f)
     [(''id'', o_str (hl_ID f)), (''client_name'', o_str (hl_ClientName f)),
       (''client_version'', o_str (hl_ClientVersion f)), (''cap_version'', Some (JStr (hl_CapVersion f))),
       (''capabilities'', o_list (hl_Capabilities f))] (dec_Hello L) f"
  by (rule wiresI) (simp_all add: enc_Hello_def dec_Hello_def wire_enc wire_dec wire_kvs as_str_def)

lemma wire_Welcome: "wires (enc_Welcome L f)
     [(''id'', o_str (wl_ID f)), (''server_name'', Some (JStr (wl_ServerName f))),
       (''server_version'', Some (JStr (wl_ServerVersion f))),
       (''cap_version'', Some (JStr (wl_CapVersion f))), (''capabilities'', o_list (wl_Capabilities f))] (dec_Welcome L) f"
  by (rule wiresI) (simp_all add: enc_Welcome_def dec_Welcome_def wire_enc wire_dec wire_kvs as_str_def)

lemma wire_AuthRequest: "wires (enc_AuthRequest L f)
     [(''id'', o_str (aq_ID f)), (''method'', Some (JStr (aq_Method f))), (''tenant'', o_str (aq_Tenant f)),
       (''username'', o_str (aq_Username f)), (''token'', o_str (aq_Token f))] (dec_AuthRequest L) f"
  by (rule wiresI) (simp_all add: enc_AuthRequest_def dec_AuthRequest_def wire_enc wire_dec wire_kvs as_str_def)

lemma wire_AuthChallenge: "wires (enc_AuthChallenge L f)
     [(''id'', o_str (ac_ID f)), (''salt'', Some (JStr (ac_Salt f))), (''nonce'', Some (JStr (ac_Nonce f))),
       (''params'', Some (JStr (ac_Params f)))] (dec_AuthChallenge L) f"
  by (rule wiresI) (simp_all add: enc_AuthChallenge_def dec_AuthChallenge_def wire_enc wire_dec wire_kvs as_str_def)

lemma wire_AuthResponse: "wires (enc_AuthResponse L f)
     [(''id'', o_str (ar_ID f)), (''proof'', Some (JStr (ar_Proof f)))] (dec_AuthResponse L) f"
  by (rule wiresI) (simp_all add: enc_AuthResponse_def dec_AuthResponse_def wire_enc wire_dec wire_kvs as_str_def)

lemma wire_AuthOK: "wires (enc_AuthOK L f)
     [(''id'', o_str (ao_ID f)), (''account_id'', Some (JStr (ao_AccountID f))),
       (''tenant_id'', Some (JStr (ao_TenantID f))), (''account_type'', Some (JStr (ao_AccountType f))),
       (''display_name'', Some (JStr (ao_DisplayName f)))] (dec_AuthOK L) f"
  by (rule wiresI) (simp_all add: enc_AuthOK_def dec_AuthOK_def wire_enc wire_dec wire_kvs as_str_def)

lemma wire_AuthErr: "wires (enc_AuthErr L f)
     [(''id'', o_str (ae_ID f)), (''reason'', Some (JStr (ae_Reason f))), (''detail'', o_str (ae_Detail f))] (dec_AuthErr L) f"
  by (rule wiresI) (simp_all add: enc_AuthErr_def dec_AuthErr_def wire_enc wire_dec wire_kvs as_str_def)

lemma wire_Join: "wires (enc_Join L f)
     [(''id'', o_str (jn_ID f)), (''channel'', Some (JStr (jn_Channel f)))] (dec_Join L) f"
  by (rule wiresI) (simp_all add: enc_Join_def dec_Join_def wire_enc wire_dec wire_kvs as_str_def)

lemma wire_Part: "wires (enc_Part L f)
     [(''id'', o_str (pt_ID f)), (''channel'', Some (JStr (pt_Channel f)))] (dec_Part L) f"
  by (rule wiresI) (simp_all add: enc_Part_def dec_Part_def wire_enc wire_dec wire_kvs as_str_def)

lemma wire_Msg: "time_ok L \<Longrightarrow> wires (enc_Msg L f)
     [(''id'', o_str (mg_ID f)), (''channel'', o_str (mg_Channel f)), (''to'', o_str (mg_To f)),
       (''from'', o_str (mg_From f)), (''from_role'', o_str (mg_FromRole f)),
       (''ts'', Some (JStr (the (fmt_time L (mg_TS f))))), (''body'', Some (JStr (mg_Body f)))] (dec_Msg L) f"
  by (rule wiresI) (simp_all add: enc_Msg_def dec_Msg_def wire_enc wire_dec wire_kvs as_str_def time_reads small_num split: if_splits)

lemma wire_Presence: "wires (enc_Presence L f)
     [(''id'', o_str (pr_ID f)), (''channel'', Some (JStr (pr_Channel f))),
       (''kind'', Some (JStr (pr_Kind f))), (''account_id'', Some (JStr (pr_AccountID f))),
       (''display_name'', o_str (pr_DisplayName f))] (dec_Presence L) f"
  by (rule wiresI) (simp_all add: enc_Presence_def dec_Presence_def wire_enc wire_dec wire_kvs as_str_def)

lemma wire_Ping: "wires (enc_Ping L f)
     [(''id'', o_str (pi_ID f)), (''token'', Some (JStr (pi_Token f)))] (dec_Ping L) f"
  by (rule wiresI) (simp_all add: enc_Ping_def dec_Ping_def wire_enc wire_dec wire_kvs as_str_def)

lemma wire_Pong: "wires (enc_Pong L f)
     [(''id'', o_str (po_ID f)), (''token'', Some (JStr (po_Token f)))] (dec_Pong L) f"
  by (rule wiresI) (simp_all add: enc_Pong_def dec_Pong_def wire_enc wire_dec wire_kvs as_str_def)

lemma wire_SubscriptionList: "wires (enc_SubscriptionList L f)
     [(''id'', o_str (sl_ID f))] (dec_SubscriptionList L) f"
  by (rule wiresI) (simp_all add: enc_SubscriptionList_def dec_SubscriptionList_def wire_enc wire_dec wire_kvs as_str_def)

lemma wire_SubscriptionGet: "wires (enc_SubscriptionGet L f)
     [(''id'', o_str (sg_ID f)), (''subscription_id'', Some (JStr (sg_SubscriptionID f)))] (dec_SubscriptionGet L) f"
  by (rule wiresI) (simp_all add: enc_SubscriptionGet_def dec_SubscriptionGet_def wire_enc wire_dec wire_kvs as_str_def)

lemma wire_SubscriptionDelete: "wires (enc_SubscriptionDelete L f)
     [(''id'', o_str (sd_ID f)), (''subscription_id'', Some (JStr (sd_SubscriptionID f)))] (dec_SubscriptionDelete L) f"
  by (rule wiresI) (simp_all add: enc_SubscriptionDelete_def dec_SubscriptionDelete_def wire_enc wire_dec wire_kvs as_str_def)

lemma wire_SubscriptionDeleted: "wires (enc_SubscriptionDeleted L f)
     [(''id'', o_str (sx_ID f)), (''subscription_id'', Some (JStr (sx_SubscriptionID f)))] (dec_SubscriptionDeleted L) f"
  by (rule wiresI) (simp_all add: enc_SubscriptionDeleted_def dec_SubscriptionDeleted_def wire_enc wire_dec wire_kvs as_str_def)

lemma wire_ChatHistory: "time_ok L \<Longrightarrow> small (cq_Limit f) \<Longrightarrow> wires (enc_ChatHistory L f)
     [(''id'', o_str (cq_ID f)), (''channel'', Some (JStr (cq_Channel f))), (''limit'', o_int (cq_Limit f)),
       (''before_ts'', Some (JStr (the (fmt_time L (cq_BeforeTS f)))))] (dec_ChatHistory L) f"
  by (rule wiresI) (simp_all add: enc_ChatHistory_def dec_ChatHistory_def wire_enc wire_dec wire_kvs as_str_def time_reads small_num split: if_splits)

lemma wire_MembersReq: "wires (enc_MembersReq L f)
     [(''id'', o_str (mq_ID f)), (''channel'', Some (JStr (mq_Channel f)))] (dec_MembersReq L) f"
  by (rule wiresI) (simp_all add: enc_MembersReq_def dec_MembersReq_def wire_enc wire_dec wire_kvs as_str_def)

lemma wire_ChanopPauseBot: "wires (enc_ChanopPauseBot L f)
     [(''id'', o_str (cp_ID f)), (''channel'', Some (JStr (cp_Channel f))),
       (''bot_account_id'', Some (JStr (cp_BotAccountID f))), (''reason'', o_str (cp_Reason f))] (dec_ChanopPauseBot L) f"
  by (rule wiresI) (simp_all add: enc_ChanopPauseBot_def dec_ChanopPauseBot_def wire_enc wire_dec wire_kvs as_str_def)

lemma wire_ChanopResumeBot: "wires (enc_ChanopResumeBot L f)
     [(''id'', o_str (cr_ID f)), (''channel'', Some (JStr (cr_Channel f))),
       (''bot_account_id'', Some (JStr (cr_BotAccountID f))), (''reason'', o_str (cr_Reason f))] (dec_ChanopResumeBot L) f"
  by (rule wiresI) (simp_all add: enc_ChanopResumeBot_def dec_ChanopResumeBot_def wire_enc wire_dec wire_kvs as_str_def)

lemma wire_ChanopOK: "wires (enc_ChanopOK L f)
     [(''id'', o_str (co_ID f)), (''action'', Some (JStr (co_Action f))),
       (''channel'', Some (JStr (co_Channel f))), (''bot_account_id'', o_str (co_BotAccountID f))] (dec_ChanopOK L) f"
  by (rule wiresI) (simp_all add: enc_ChanopOK_def dec_ChanopOK_def wire_enc wire_dec wire_kvs as_str_def)

lemma wire_ErrorFrame: "wires (enc_ErrorFrame L f)
     [(''id'', o_str (er_ID f)), (''reason'', Some (JStr (er_Reason f))), (''detail'', o_str (er_Detail f))] (dec_ErrorFrame L) f"
  by (rule wiresI) (simp_all add: enc_ErrorFrame_def dec_ErrorFrame_def wire_enc wire_dec wire_kvs as_str_def)

section \<open>Encoding and decoding a flat frame\<close>

text \<open>The frames without raw JSON and nested objects; a history limit is an integer that \<^verbatim>\<open>float64\<close> holds.\<close>

fun flat_frame :: "Frame \<Rightarrow> bool" where
  "flat_frame (FSubscriptionCreate _) = False"
| "flat_frame (FSubscriptionUpdate _) = False"
| "flat_frame (FSubscriptionOK _) = False"
| "flat_frame (FSubscriptionListOK _) = False"
| "flat_frame (FChatHistoryOK _) = False"
| "flat_frame (FMembersOK _) = False"
| "flat_frame (FChatHistory f) = small (cq_Limit f)"
| "flat_frame _ = True"

definition decoder :: "Frame \<Rightarrow> codec_lib \<Rightarrow> obj \<Rightarrow> Frame option" where
  "decoder f = the (frameForType (FrameType f))"

lemma wires_map: "wires ms kvs dec f \<Longrightarrow> wires ms kvs (\<lambda>x. map_option C (dec x)) (C f)"
  by (simp add: wires_def)

lemma frameForType_known: "frameForType (FrameType f) \<noteq> None"
  by (cases f) (simp_all add: frameForType_def)

lemma frame_wires:
  assumes "flat_frame f" and "time_ok L"
  shows "\<exists>kvs. wires (enc_frame L f) kvs (decoder f L) f"
  using assms
  by (cases f; simp add: decoder_def frameForType_def)
    (blast intro: wires_map wire_Hello wire_Welcome wire_AuthRequest wire_AuthChallenge wire_AuthResponse wire_AuthOK wire_AuthErr
      wire_Join wire_Part wire_Msg wire_Presence wire_Ping wire_Pong wire_SubscriptionList wire_SubscriptionGet
      wire_SubscriptionDelete wire_SubscriptionDeleted wire_ChatHistory wire_MembersReq wire_ChanopPauseBot wire_ChanopResumeBot
      wire_ChanopOK wire_ErrorFrame)+

lemma FrameType_plain: "FrameType f \<noteq> [] \<and> quote \<notin> set (FrameType f)"
  by (cases f) simp_all

lemma hd_digits: "hd (digits n) = CHR ''0'' \<Longrightarrow> n = 0"
proof (induction n rule: digits.induct)
  case (1 n)
  show ?case
  proof (cases "n < 10")
    case True
    with 1 have "digit_val (digit_char n) = 0" by (simp add: digits.simps [of n] digit_val_def)
    with True show ?thesis by (simp add: digit_val_digit_char)
  next
    case False
    with 1 have "n div 10 = 0" by (simp add: digits.simps [of n])
    with False show ?thesis by simp
  qed
qed

lemma scan_int_digits: "scan_int (digits n) = Some (digits n, [])"
proof (cases "n = 0")
  case True
  then show ?thesis by (simp add: digits.simps [of 0] scan_int_def digit_char_def) (simp add: scan_digits_def is_digit_def)
next
  case False
  obtain c cs where c: "digits n = c # cs" using digits_not_Nil [of n] by (cases "digits n") auto
  then have "c \<noteq> CHR ''0''" using hd_digits [of n] False by auto
  moreover have all: "\<forall>x \<in> set (digits n). is_digit x" using digits_set by blast
  moreover note takeWhile_all [OF all]
  ultimately show ?thesis using c by (simp add: scan_int_def scan_digits_def)
qed

lemma scan_num_FormatInt: "scan_num (FormatInt i) = Some (FormatInt i, [])"
proof (cases "i < 0")
  case True
  then show ?thesis by (simp add: FormatInt_def scan_num_def scan_int_digits scan_frac_def scan_exp_def)
next
  case False
  have "take 1 (digits (nat i)) \<noteq> ''-''"
    using digits_hd [of "nat i"] digits_not_Nil [of "nat i"] by (cases "digits (nat i)") (auto simp: is_digit_def)
  with False show ?thesis by (simp add: FormatInt_def scan_num_def scan_int_digits scan_frac_def scan_exp_def)
qed

lemma flat_wf: "flat_val v \<Longrightarrow> json_wf v \<and> json_depth v \<le> 1"
proof (cases v)
  case (JArr vs)
  assume "flat_val v"
  then have str: "\<forall>v \<in> set vs. \<exists>s. v = JStr s" using JArr by (simp add: list_all_iff)
  then have "\<forall>x \<in> set (map json_depth vs). x \<le> 0" by auto
  then have "foldr max (map json_depth vs) 0 \<le> 0" unfolding foldr_max_le .
  moreover have "list_all json_wf vs" using str by (auto simp: list_all_iff)
  moreover note JArr
  ultimately show ?thesis by simp
qed (auto simp: scan_num_FormatInt)

text \<open>The value after \<^verbatim>\<open>map[string]any\<close>.\<close>

definition steady :: "json \<Rightarrow> bool" where
  "steady v \<longleftrightarrow> flat_val v \<and> (\<forall>n. v = JNum n \<longrightarrow> (\<exists>i. small i \<and> n = FormatInt i))"

lemma those_id: "\<forall>x \<in> set xs. f x = Some x \<Longrightarrow> those (map f xs) = Some xs"
  by (induction xs) simp_all

lemma to_any_steady: "num_ok L \<Longrightarrow> steady v \<Longrightarrow> to_any (num64 L) v = Some v"
proof (cases v)
  case (JArr vs)
  assume "steady v"
  then have "\<forall>x \<in> set vs. to_any (num64 L) x = Some x" using JArr by (auto simp: steady_def list_all_iff)
  with JArr show ?thesis by (simp add: those_id)
qed (auto simp: steady_def num_ok_def)

lemma to_any_members:
  "num_ok L \<Longrightarrow> list_all (\<lambda>(k, v). steady v) ms \<Longrightarrow> to_any (num64 L) (JObj ms) = Some (JObj (sort_members ms))"
proof -
  assume "num_ok L" "list_all (\<lambda>(k, v). steady v) ms"
  then have "those (map (\<lambda>(k, v). map_option (Pair k) (to_any (num64 L) v)) ms) = Some ms"
    by (intro those_id) (auto simp: list_all_iff to_any_steady)
  then show ?thesis by simp
qed

definition sorted_members :: "(bytes \<times> json) list \<Rightarrow> bool" where
  "sorted_members ms \<longleftrightarrow> sorted_wrt (\<lambda>a b. str_less (fst a) (fst b)) ms"

lemma put_member_map_of: "map_of (put_member k v ms) = (map_of ms)(k \<mapsto> v)"
  by (induction ms) auto

lemma put_member_set: "set (put_member k v ms) \<subseteq> insert (k, v) (set ms)"
  by (induction ms) (auto split: if_splits)

lemma put_member_sorted: "sorted_members ms \<Longrightarrow> sorted_members (put_member k v ms)"
proof (induction ms)
  case (Cons m ms)
  obtain k' v' where m: "m = (k', v')" by (cases m)
  have tl: "sorted_members ms" and hd: "\<forall>x \<in> set ms. str_less k' (fst x)" using Cons.prems m by (auto simp: sorted_members_def)
  have "str_less k' k \<Longrightarrow> \<forall>x \<in> set (put_member k v ms). str_less k' (fst x)"
    using put_member_set [of k v ms] hd by auto
  moreover have "str_less k k' \<Longrightarrow> \<forall>x \<in> set ms. str_less k (fst x)" using hd str_less_trans by blast
  ultimately show ?case
    using Cons.IH [OF tl] tl hd m str_less_linear [of k k'] by (auto simp: sorted_members_def)
qed (simp add: sorted_members_def)

lemma sorted_members_distinct: "sorted_members ms \<Longrightarrow> distinct (map fst ms)"
  by (induction ms) (auto simp: sorted_members_def)

lemma sort_members_fold:
  assumes "sorted_members acc"
  shows "map_of (fold (\<lambda>(k, v). put_member k v) ms acc) = map_of (rev ms @ acc)
    \<and> sorted_members (fold (\<lambda>(k, v). put_member k v) ms acc)
    \<and> set (fold (\<lambda>(k, v). put_member k v) ms acc) \<subseteq> set ms \<union> set acc"
  using assms
proof (induction ms arbitrary: acc)
  case (Cons m ms)
  obtain k v where m: "m = (k, v)" by (cases m)
  have "map_of (put_member k v acc) = map_of ((k, v) # acc)" by (simp add: put_member_map_of)
  then have "map_of (rev ms @ put_member k v acc) = map_of (rev (m # ms) @ acc)" by (simp add: m)
  with Cons.IH [OF put_member_sorted [OF Cons.prems, of k v]] put_member_set [of k v acc] show ?case
    by (auto simp: m)
qed simp

lemma map_of_rev_distinct: "distinct (map fst ms) \<Longrightarrow> map_of (rev ms) = map_of ms"
proof (induction ms)
  case (Cons m ms)
  then have "map_of ms (fst m) = None" by (simp add: map_of_eq_None_iff)
  with Cons show ?case by (auto simp: map_add_def fun_eq_iff split: option.split)
qed simp

subsection \<open>The stamped members\<close>

text \<open>What is printed for a flat frame with members \<open>js\<close>: the stamp is set and the rest unchanged.\<close>

definition stamped :: "string \<Rightarrow> (bytes \<times> json) list \<Rightarrow> (bytes \<times> json) list \<Rightarrow> bool" where
  "stamped w js ms \<longleftrightarrow> keys_ok ms \<and> map_of ms = (map_of js)(''type'' \<mapsto> JStr w) \<and> list_all (\<lambda>(k, v). flat_val v) ms \<and> ms \<noteq> []"

lemma type_lower: "ToLower ''type'' = ''type''"
  by code_simp

lemma stamped_Cons:
  assumes "distinct (map fst js)" and "list_all (\<lambda>(k, v). good_key k \<and> steady v) js"
  shows "stamped w js ((''type'', JStr w) # js)"
  using assms by (auto simp: stamped_def keys_ok_def list_all_iff good_key_def steady_def type_lower fun_eq_iff)

lemma stamped_put:
  assumes "distinct (map fst js)" and "list_all (\<lambda>(k, v). good_key k \<and> steady v) js"
  shows "stamped w js (put_member ''type'' (JStr w) (sort_members ((''type'', JStr '''') # js)))"
proof -
  let ?js = "(''type'', JStr '''') # js" and ?ms = "sort_members ((''type'', JStr '''') # js)"
  have dist: "distinct (map fst ?js)" using assms by (auto simp: good_key_def list_all_iff)
  have srt: "sorted_members ?ms" and mp: "map_of ?ms = map_of ?js" and sub: "set ?ms \<subseteq> set ?js"
    using sort_members_fold [of "[]" ?js] map_of_rev_distinct [OF dist]
    by (auto simp: sort_members_def sorted_members_def)
  let ?out = "put_member ''type'' (JStr w) ?ms"
  have sub': "set ?out \<subseteq> insert (''type'', JStr w) (set ?js)" using put_member_set sub by blast
  have "distinct (map fst ?out)" by (rule sorted_members_distinct [OF put_member_sorted [OF srt]])
  moreover have "list_all (\<lambda>(k, v). ToLower k = k \<and> flat_val v) ?out"
  proof -
    have "\<forall>x \<in> insert (''type'', JStr w) (set ?js). case x of (k, v) \<Rightarrow> ToLower k = k \<and> flat_val v"
      using assms(2) by (auto simp: list_all_iff good_key_def steady_def type_lower)
    with sub' show ?thesis unfolding list_all_iff by blast
  qed
  moreover have "map_of ?out = (map_of js)(''type'' \<mapsto> JStr w)" by (simp add: put_member_map_of mp)
  moreover from this have "?out \<noteq> []" by (metis fun_upd_same map_of.simps(1) option.distinct(1))
  ultimately show ?thesis by (auto simp: stamped_def keys_ok_def list_all_iff)
qed

lemma stamped_wf: "stamped w js ms \<Longrightarrow> json_wf (JObj ms) \<and> json_depth (JObj ms) \<le> max_depth"
proof
  assume st: "stamped w js ms"
  then show "json_wf (JObj ms)" by (auto simp: stamped_def list_all_iff dest: flat_wf)
  have "\<forall>x \<in> set (map (\<lambda>(k, v). json_depth v) ms). x \<le> 1"
    using st flat_wf by (fastforce simp: stamped_def list_all_iff)
  then have "foldr max (map (\<lambda>(k, v). json_depth v) ms) 0 \<le> 1" unfolding foldr_max_le .
  then show "json_depth (JObj ms) \<le> max_depth" by (simp add: max_depth_def)
qed

lemma join_set: "set (join xs) \<subseteq> insert CHR '','' (\<Union> (set ` set xs))"
  by (induction xs rule: join.induct) auto

lemma print_str_one_line: "CHR 0x0A \<notin> set (print_str s)"
  using esc_str_one_line by (simp add: print_str_def)

lemma flat_one_line: "flat_val v \<Longrightarrow> CHR 0x0A \<notin> set (print_json v)"
proof (cases v)
  case (JArr vs)
  assume "flat_val v"
  then have "\<forall>t \<in> set (map print_json vs). CHR 0x0A \<notin> set t"
    using JArr print_str_one_line by (auto simp: list_all_iff)
  then have "CHR 0x0A \<notin> set (join (map print_json vs))" using join_set [of "map print_json vs"] by blast
  with JArr show ?thesis by simp
qed (use FormatInt_plain print_str_one_line in auto)

lemma stamped_one_line: "stamped w js ms \<Longrightarrow> CHR 0x0A \<notin> set (print_json (JObj ms))"
proof -
  assume "stamped w js ms"
  then have "\<forall>t \<in> set (map member_text ms). CHR 0x0A \<notin> set t"
    using print_str_one_line flat_one_line by (auto simp: stamped_def list_all_iff)
  then have "CHR 0x0A \<notin> set (join (map member_text ms))" using join_set [of "map member_text ms"] by blast
  then show ?thesis by simp
qed

lemma IndexByte_fresh: "c \<notin> set s \<Longrightarrow> IndexByte (s @ c # r) c = Some (length s)"
  by (induction s) auto

lemma Decode_line:
  assumes "CHR 0x0A \<notin> set line" and "line \<noteq> []" and "last line \<noteq> CHR 0x0D"
  shows "Decode L ((line @ [CHR 0x0A]) @ rest) =
    (if length line < MaxFrameSize then (decode_line L line, rest) else (Inl ErrFrameTooLarge, (line @ [CHR 0x0A]) @ rest))"
  using assms by (simp add: Decode.simps [of L "line @ CHR 0x0A # rest"] Scan_def IndexByte_fresh dropCR_def)

lemma read_obj_stamped:
  "stamped w js ms \<Longrightarrow> \<exists>raws. read_obj (print_json (JObj ms)) = Some (ms, raws)"
  using parse_print_json [of "JObj ms"] stamped_wf [of w js ms] by (simp add: read_obj_def del: print_json.simps)

lemma decode_stamped:
  assumes st: "stamped (FrameType f) (segs kvs) ms" and w: "wires (Some t) kvs (decoder f L) f"
  shows "decode_line L (print_json (JObj ms)) = Inr f"
proof -
  obtain raws where r: "read_obj (print_json (JObj ms)) = Some (ms, raws)" using read_obj_stamped [OF st] by blast
  have ok: "keys_ok ms" and mp: "map_of ms = (map_of (segs kvs))(''type'' \<mapsto> JStr (FrameType f))" using st by (simp_all add: stamped_def)
  have good: "list_all (\<lambda>(k, vo). good_key k) kvs" and dist: "distinct (map fst kvs)"
    and dec: "\<And>x. reads kvs x \<Longrightarrow> decoder f L x = Some f" using w by (auto simp: wires_def list_all_iff)
  have seg: "map_of (segs kvs) k = vo" if "(k, vo) \<in> set kvs" for k vo
    using that dist
  proof (induction kvs)
    case (Cons a kvs)
    obtain k' vo' where a: "a = (k', vo')" by (cases a)
    have notin: "k' \<notin> fst ` set kvs \<Longrightarrow> map_of (segs kvs) k' = None"
      by (induction kvs rule: segs.induct) (auto simp: segs.simps split: option.splits)
    show ?case
    proof (cases "k = k'")
      case True
      then have "vo = vo'" using Cons.prems a by (auto intro: rev_image_eqI)
      with True notin Cons.prems a show ?thesis by (simp add: segs.simps split: option.split)
    next
      case False
      with Cons a show ?thesis by (simp add: segs.simps split: option.split)
    qed
  qed simp
  have "f_str ''type'' (ms, raws) = Some (FrameType f)"
    using ok mp by (simp add: f_str_reads type_lower as_str_def)
  moreover have "reads kvs (ms, raws)"
    using ok good seg by (auto simp: reads_def mp list_all_iff good_key_def)
  then have "decoder f L (ms, raws) = Some f" by (rule dec)
  moreover obtain d where "frameForType (FrameType f) = Some d" using frameForType_known [of f] by blast
  ultimately show ?thesis using r by (simp add: decode_line_def decoder_def del: print_json.simps)
qed

text \<open>What marshalling does with the members of a flat frame: the raw object, and the object with its type stamped.\<close>

lemma wires_segs:
  assumes w: "wires (Some t) kvs dec f"
  shows "t = texts (segs kvs)" and "list_all (\<lambda>(k, v). good_key k \<and> steady v) (segs kvs)" and "distinct (map fst (segs kvs))"
proof -
  show "t = texts (segs kvs)" using w by (simp add: wires_def)
  have in_segs: "(k, v) \<in> set (segs kvs) \<Longrightarrow> (k, Some v) \<in> set kvs" for k v
    by (induction kvs rule: segs.induct) (auto simp: segs.simps split: option.splits)
  show "list_all (\<lambda>(k, v). good_key k \<and> steady v) (segs kvs)"
    using w in_segs unfolding wires_def steady_def by (fastforce simp: list_all_iff)
  have "distinct (map fst (segs kvs)) \<and> fst ` set (segs kvs) \<subseteq> fst ` set kvs" if "distinct (map fst kvs)" for kvs
    using that by (induction kvs rule: segs.induct) (auto simp: segs.simps split: option.splits)
  then show "distinct (map fst (segs kvs))" using w by (simp add: wires_def)
qed

lemma raw_marshal:
  assumes "enc_frame L f = Some t" and "wires (Some t) kvs dec g"
  shows "json_Marshal L ty f = Some (print_json (JObj ((''type'', JStr ty) # segs kvs)))"
  by (simp add: json_Marshal_def assms(1) wires_segs(1) [OF assms(2)] object_text_def comp_def case_prod_beta')

lemma marshal_unstamped:
  assumes "num_ok L" and "enc_frame L f = Some t" and w: "wires (Some t) kvs dec g"
  shows "marshalWithType L '''' f = Inr (print_json (JObj (put_member ''type'' (JStr (FrameType f))
    (sort_members ((''type'', JStr '''') # segs kvs)))))"
proof -
  note good = wires_segs(2) [OF w] and dist = wires_segs(3) [OF w]
  let ?js = "(''type'', JStr '''') # segs kvs"
  have flat: "list_all (\<lambda>(k, v). good_key k \<and> flat_val v) (segs kvs)" using good by (auto simp: list_all_iff steady_def)
  have "\<not> containsType (print_json (JObj ?js)) (FrameType f)"
    using unstamped_free [OF flat] FrameType_plain [of f] unfolding containsType_def bytesContains_iff free_def by blast
  moreover have "stamped '''' (segs kvs) ?js" by (rule stamped_Cons [OF dist good])
  then have "parse_json (print_json (JObj ?js)) = Some (JObj ?js)" using stamped_wf parse_print_json by blast
  moreover have "list_all (\<lambda>(k, v). steady v) ?js" using good by (auto simp: list_all_iff steady_def)
  then have "to_any (num64 L) (JObj ?js) = Some (JObj (sort_members ?js))" by (rule to_any_members [OF assms(1)])
  ultimately show ?thesis
    using raw_marshal [OF assms(2) w, of "''''"] by (simp add: marshalWithType_def del: print_json.simps to_any.simps)
qed

lemma marshal_typed:
  assumes "enc_frame L f = Some t" and w: "wires (Some t) kvs dec g"
  shows "marshalWithType L (FrameType f) f = Inr (print_json (JObj ((''type'', JStr (FrameType f)) # segs kvs)))"
proof -
  let ?ms = "(''type'', JStr (FrameType f)) # segs kvs"
  have "esc_str (FrameType f) = FrameType f" by (cases f) (simp_all add: code_def)
  then have "\<exists>b. print_json (JObj ?ms) = ''{'' @ type_needle (FrameType f) @ b"
    by (cases "segs kvs") (simp_all add: print_str_def type_needle_def code_def)
  then have "containsType (print_json (JObj ?ms)) (FrameType f)" unfolding containsType_def bytesContains_iff by blast
  then show ?thesis using raw_marshal [OF assms] by (simp add: marshalWithType_def del: print_json.simps)
qed

lemma marshal_flat:
  assumes "num_ok L" and "time_ok L" and "flat_frame f" and ty: "ty \<in> {'''', FrameType f}" and enc: "enc_frame L f = Some t"
  shows "\<exists>ms. marshalWithType L ty f = Inr (print_json (JObj ms)) \<and> CHR 0x0A \<notin> set (print_json (JObj ms))
    \<and> decode_line L (print_json (JObj ms)) = Inr f"
proof -
  obtain kvs where w: "wires (Some t) kvs (decoder f L) f" using frame_wires [OF assms(3,2)] enc by auto
  have fin: ?thesis if m: "marshalWithType L ty f = Inr (print_json (JObj ms))" and st: "stamped (FrameType f) (segs kvs) ms" for ms
    using m st stamped_one_line [OF st] decode_stamped [OF st w] by blast
  show ?thesis
  proof (cases "ty = FrameType f")
    case True
    show ?thesis by (rule fin) (use True marshal_typed [OF enc w] stamped_Cons [OF wires_segs(3,2) [OF w]] in auto)
  next
    case False
    then show ?thesis
      by (intro fin) (use ty marshal_unstamped [OF assms(1) enc w] stamped_put [OF wires_segs(3,2) [OF w]] in auto)
  qed
qed

lemma encoded_decodes:
  assumes "time_ok L" and "num_ok L" and "flat_frame f" and "ty \<in> {'''', FrameType f}" and "EncodeBytes L ty f = Inr b"
  shows "Decode L (b @ rest) = (if length b \<le> MaxFrameSize then (Inr f, rest) else (Inl ErrFrameTooLarge, b @ rest))
    \<and> length b \<le> MaxFrameSize + 1"
proof -
  obtain t where "enc_frame L f = Some t"
    using assms(5) by (auto simp: EncodeBytes_def marshalWithType_def json_Marshal_def split: option.splits)
  from marshal_flat [OF assms(2,1,3,4) this] obtain ms where
    m: "marshalWithType L ty f = Inr (print_json (JObj ms))" and one: "CHR 0x0A \<notin> set (print_json (JObj ms))"
    and dec: "decode_line L (print_json (JObj ms)) = Inr f" by blast
  define line where "line = print_json (JObj ms)"
  have ends: "line \<noteq> []" "last line \<noteq> CHR 0x0D" by (simp_all add: line_def)
  have b: "b = line @ [CHR 0x0A]" and len: "length line \<le> MaxFrameSize"
    using assms(5) m unfolding line_def by (simp_all add: EncodeBytes_def del: print_json.simps split: if_splits)
  show ?thesis
    using Decode_line [OF one [folded line_def] ends, of L rest] dec [folded line_def] b len by simp
qed

text \<open>
  Property C12. What one side encodes the other decodes. For every frame without nested JSON, whether the
  caller left the \<^verbatim>\<open>Type\<close> field empty (the encoder then stamps it through a map) or set it, the encoded bytes
  followed by anything decode to the frame itself and leave the rest of the stream, as long as the strings are valid UTF-8 and line and newline
  fit the decoder's 64 KB buffer; the one longer line the encoder lets through (exactly 64 KB before the
  newline) is refused by the decoder as too large. This holds for time formats that parse back and integers up to
  \<open>2 ^ 53\<close>.
\<close>

theorem frame_roundtrip:
  assumes "time_ok L" and "num_ok L" and "flat_frame f" and "ty \<in> {'''', FrameType f}" and "EncodeBytes L ty f = Inr b"
  shows "Decode L (b @ rest) = (if length b \<le> MaxFrameSize then (Inr f, rest) else (Inl ErrFrameTooLarge, b @ rest))
    \<and> length b \<le> MaxFrameSize + 1"
  by (rule encoded_decodes [OF assms])

definition sample_codec :: codec_lib where
  "sample_codec = \<lparr>fmt_time = (\<lambda>t. if t = 0 then Some ''1970-01-01T00:00:00Z'' else None),
     parse_time = (\<lambda>s. if s = ''1970-01-01T00:00:00Z'' then Some 0 else None), num64 = Some\<rparr>"

lemma sample_codec_ok: "time_ok sample_codec" "num_ok sample_codec"
  by (simp_all add: time_ok_def num_ok_def sample_codec_def)

definition ping_line :: "nat \<Rightarrow> bytes" where
  "ping_line n = ''{\"type\":\"ping\",\"token\":\"'' @ replicate n CHR ''a'' @ ''\"}''"

abbreviation long_ping :: "nat \<Rightarrow> Frame" where
  "long_ping n \<equiv> FPing \<lparr>pi_ID = '''', pi_Token = replicate n CHR ''a''\<rparr>"

lemma ping_marshal: "marshalWithType L ''ping'' (long_ping n) = Inr (ping_line n)"
proof -
  have e: "esc_str (replicate n CHR ''a'') = replicate n CHR ''a''" by (induction n) (simp_all add: code_def)
  have "json_Marshal L ''ping'' (long_ping n) = Some (ping_line n)"
    by (simp add: json_Marshal_def enc_Ping_def fields_def m_str_o_def m_str_def m_text_def object_text_def print_str_def e ping_line_def code_def)
  moreover have "\<exists>b. ping_line n = ''{'' @ type_needle ''ping'' @ b" by (simp add: ping_line_def type_needle_def)
  then have "containsType (ping_line n) ''ping''" unfolding containsType_def bytesContains_iff by blast
  ultimately show ?thesis by (simp add: marshalWithType_def)
qed

lemma ping_encode: "n + 26 \<le> MaxFrameSize \<Longrightarrow> EncodeBytes L ''ping'' (long_ping n) = Inr (ping_line n @ [CHR 0x0A])"
  by (simp add: EncodeBytes_def ping_marshal) (simp add: ping_line_def)

theorem frame_roundtrip_witness:
  "EncodeBytes sample_codec ''ping'' (long_ping 2) = Inr (ping_line 2 @ [CHR 0x0A])
   \<and> Decode sample_codec ((ping_line 2 @ [CHR 0x0A]) @ ''rest'') = (Inr (long_ping 2), ''rest'')
   \<and> fst (Decode sample_codec ((ping_line 65510 @ [CHR 0x0A]) @ ''rest'')) = Inl ErrFrameTooLarge"
proof -
  have e: "EncodeBytes sample_codec ''ping'' (long_ping 2) = Inr (ping_line 2 @ [CHR 0x0A])"
    "EncodeBytes sample_codec ''ping'' (long_ping 65510) = Inr (ping_line 65510 @ [CHR 0x0A])"
    by (rule ping_encode; simp add: MaxFrameSize_def)+
  have "length (ping_line n) = n + 26" for n by (simp add: ping_line_def)
  then show ?thesis
    using e frame_roundtrip [OF sample_codec_ok _ _ e(1), of "''rest''"] frame_roundtrip [OF sample_codec_ok _ _ e(2), of "''rest''"]
    by (simp add: MaxFrameSize_def)
qed


abbreviation nested_type :: Frame where
  "nested_type \<equiv> FSubscriptionCreate \<lparr>sc_ID = '''', sc_ChannelName = '''', sc_ChannelID = '''', sc_URL = '''',
     sc_Match = ''{\"type\":\"subscription_create\"}'', sc_Events = [], sc_ContextLines = 0, sc_DebounceMs = 0,
     sc_CooldownMs = 0, sc_Budget = ''''\<rparr>"

abbreviation nested_line :: bytes where
  "nested_line \<equiv> ''{\"type\":\"\",\"url\":\"\",\"match\":{\"type\":\"subscription_create\"}}''"

lemma nested_marshal: "json_Marshal L '''' nested_type = Some nested_line"
proof -
  have p: "parse_json (sc_Match (case nested_type of FSubscriptionCreate f \<Rightarrow> f)) \<noteq> None" by code_simp
  show ?thesis
  using p by (simp add: json_Marshal_def enc_SubscriptionCreate_def fields_def m_str_o_def m_str_def m_text_def m_raw_def
    m_raw_o_def m_list_o_def m_int_o_def object_text_def print_str_def code_def is_ws_def)
qed


lemma nested_decode: "fst (Decode L (nested_line @ [CHR 0x0A])) = Inl ErrUnknownType"
proof -
  have "map_option (f_str ''type'') (read_obj nested_line) = Some (Some '''')" by code_simp
  then obtain x where "read_obj nested_line = Some x" "f_str ''type'' x = Some ''''" by auto
  then have "decode_line L nested_line = Inl ErrUnknownType" by (simp add: decode_line_def frameForType_def)
  then show ?thesis using Decode_line [of nested_line L "[]"] by (simp add: MaxFrameSize_def)
qed

text \<open>
  The type of a frame is stamped by a substring test on its JSON, which raw JSON inside the frame
  can satisfy: a subscription request whose match rule holds a member \<^verbatim>\<open>"type":"subscription_create"\<close> is sent
  with an empty type, and the decoder rejects the line as an unknown frame.
\<close>

theorem nested_type_suppresses_stamp:
  "EncodeBytes L '''' nested_type = Inr (nested_line @ [CHR 0x0A])
   \<and> fst (Decode L (nested_line @ [CHR 0x0A])) = Inl ErrUnknownType"
proof -
  have "nested_line = ''{\"type\":\"\",\"url\":\"\",\"match\":{'' @ type_needle ''subscription_create'' @ ''}}''"
    by (simp add: type_needle_def)
  then have "containsType nested_line ''subscription_create''" unfolding containsType_def bytesContains_iff by blast
  then have "marshalWithType L '''' nested_type = Inr nested_line"
    by (simp only: marshalWithType_def nested_marshal FrameType.simps option.case if_True)
  then show ?thesis using nested_decode by (simp add: EncodeBytes_def MaxFrameSize_def)
qed

end
