(* ===== verification/Server_Conn.thy ===== *)
theory Server_Conn
  imports Subops Tenants Mention Codec_Wire Channels Bounded_Queue
begin

text \<open>
  The state of the realtime server (\<^verbatim>\<open>internal/server/server.go\<close>, \<^verbatim>\<open>conn.go\<close>,
  \<^verbatim>\<open>history.go\<close>): the connections with their bounded outbound queues, the asynchronous history
  writer, and the server they belong to, with the helpers every handler uses. Connections are Go
  pointers shared by the read loop and the channel registry, so the server has a heap of them,
  indexed by connection id. The socket itself (TLS, \<^verbatim>\<open>net.Conn\<close>, the buffered writer) is not part of
  the state: a queued frame is what a client is sent.
\<close>

section \<open>Connections\<close>

definition outboundQueueSize :: nat where "outboundQueueSize = 1024"
definition laggingThreshold :: nat where "laggingThreshold = 256"
definition pongCap :: nat where "pongCap = 4"

record Conn =
  cn_id :: uuid
  cn_tenantID :: uuid
  cn_accountID :: uuid
  cn_displayName :: string
  cn_authed :: bool
  cn_out :: "bytes list"
  cn_closed :: bool
  cn_closeOnce :: bool
  cn_lastPongToken :: "string option"
  cn_pongCh :: "string list"
  cn_dropCount :: nat
  cn_pendingChal :: "Challenge option"
  cn_joinedChannels :: "(string \<times> uuid) list"
  cn_joinedRoles :: "(string \<times> ChannelRole) list"

definition newConn :: "uuid \<Rightarrow> Conn" where
  "newConn i = \<lparr>cn_id = i, cn_tenantID = uuid_Nil, cn_accountID = uuid_Nil, cn_displayName = '''', cn_authed = False,
     cn_out = [], cn_closed = False, cn_closeOnce = False, cn_lastPongToken = None, cn_pongCh = [], cn_dropCount = 0, cn_pendingChal = None,
     cn_joinedChannels = [], cn_joinedRoles = []\<rparr>"

definition Enqueue :: "bytes \<Rightarrow> Conn \<Rightarrow> Conn" where
  "Enqueue frame c =
     (if cn_closed c then c
      else if length (cn_out c) < outboundQueueSize then c\<lparr>cn_out := cn_out c @ [frame]\<rparr>
      else c\<lparr>cn_dropCount := cn_dropCount c + 1\<rparr>)"

interpretation outq: bounded_queue cn_out cn_dropCount "\<lambda>c. \<not> cn_closed c" "\<lambda>_. outboundQueueSize" Enqueue
  by unfold_locales (auto simp: Enqueue_def)

definition offerPong :: "string \<Rightarrow> Conn \<Rightarrow> Conn" where
  "offerPong tok c = (if length (cn_pongCh c) < pongCap then c\<lparr>cn_pongCh := cn_pongCh c @ [tok]\<rparr> else c)"

section \<open>The history writer\<close>

definition historyWriterDepth :: nat where "historyWriterDepth = 4096"

record historyWriter =
  hw_in :: "StoredMessage list"
  hw_dropped :: nat
  hw_stop :: bool
  hw_done :: bool

definition newHistoryWriter :: historyWriter where
  "newHistoryWriter = \<lparr>hw_in = [], hw_dropped = 0, hw_stop = False, hw_done = False\<rparr>"

definition hw_enqueue :: "StoredMessage \<Rightarrow> historyWriter \<Rightarrow> historyWriter" where
  "hw_enqueue m h =
     (if length (hw_in h) < historyWriterDepth then h\<lparr>hw_in := hw_in h @ [m]\<rparr> else h\<lparr>hw_dropped := hw_dropped h + 1\<rparr>)"

interpretation histq: bounded_queue hw_in hw_dropped "\<lambda>_. True" "\<lambda>_. historyWriterDepth" hw_enqueue
  by unfold_locales (auto simp: hw_enqueue_def)

definition hw_write :: "gotime \<Rightarrow> uuid option \<Rightarrow> StoredMessage \<Rightarrow> historyWriter \<times> store \<Rightarrow> historyWriter \<times> store" where
  "hw_write now newV7 m hs =
     (case RecordMessage now newV7 m (snd hs) of
        Inl _ \<Rightarrow> ((fst hs)\<lparr>hw_dropped := hw_dropped (fst hs) + 1\<rparr>, snd hs)
      | Inr st \<Rightarrow> (fst hs, st))"

text \<open>The receiving case of \<^verbatim>\<open>run\<close>'s select.\<close>

definition hw_receive :: "gotime \<Rightarrow> uuid option \<Rightarrow> historyWriter \<times> store \<Rightarrow> historyWriter \<times> store" where
  "hw_receive now newV7 hs =
     (case hw_in (fst hs) of [] \<Rightarrow> hs | m # ms \<Rightarrow> hw_write now newV7 m ((fst hs)\<lparr>hw_in := ms\<rparr>, snd hs))"

text \<open>
  \<^verbatim>\<open>drain\<close>, given what the clock reads before each iteration and the id drawn for each write: it
  stops at the deadline or when the buffer is empty.
\<close>

fun hw_drain :: "gotime \<Rightarrow> (gotime \<times> uuid option) list \<Rightarrow> historyWriter \<times> store \<Rightarrow> historyWriter \<times> store" where
  "hw_drain end [] hs = hs"
| "hw_drain end ((now, newV7) # ticks) hs =
     (if now < end \<and> hw_in (fst hs) \<noteq> [] then hw_drain end ticks (hw_receive now newV7 hs) else hs)"

text \<open>The stopping case of \<^verbatim>\<open>run\<close>: drain for two seconds, then close \<^verbatim>\<open>done\<close>.\<close>

definition hw_finish :: "gotime \<Rightarrow> (gotime \<times> uuid option) list \<Rightarrow> historyWriter \<times> store \<Rightarrow> historyWriter \<times> store" where
  "hw_finish now ticks hs =
     (let (h, st) = hw_drain (now + 2 * Second) ticks hs in (h\<lparr>hw_done := True\<rparr>, st))"

definition hw_Close :: "historyWriter \<Rightarrow> historyWriter" where
  "hw_Close h = h\<lparr>hw_stop := True\<rparr>"

definition newStoredMessage :: "uuid \<Rightarrow> uuid \<Rightarrow> uuid \<Rightarrow> string \<Rightarrow> gotime \<Rightarrow> StoredMessage" where
  "newStoredMessage tenantID channelID from body ts = \<lparr>msg_ID = uuid_Nil, msg_TenantID = tenantID,
     msg_ChannelID = channelID, msg_FromAccountID = from, msg_Body = body, msg_TS = ts, msg_CreatedAt = 0\<rparr>"

section \<open>The server\<close>

text \<open>
  \<open>sv_touches\<close> are the goroutines of token logins that have yet to write \<^verbatim>\<open>last_used_at\<close>. A nil webhook manager
  or history writer is \<open>None\<close>.
\<close>

record Server =
  sv_store :: store
  sv_tenants :: Service
  sv_channels :: Registry
  sv_webhooks :: "Manager option"
  sv_history :: "historyWriter option"
  sv_name :: string
  sv_version :: string
  sv_conns :: "uuid \<rightharpoonup> Conn"
  sv_touches :: "uuid list"

datatype new_error = AddrRequired | CertificateRequired | StoreRequired

record server_cfg =
  scf_Addr :: string
  scf_Certificates :: "bytes list option"
  scf_Store :: "store option"
  scf_Name :: string
  scf_Version :: string
  scf_WebhookMgr :: "Manager option"

definition newServer :: "server_cfg \<Rightarrow> new_error + Server" where
  "newServer cfg =
     (if scf_Addr cfg = '''' then Inl AddrRequired
      else if scf_Certificates cfg \<in> {None, Some []} then Inl CertificateRequired
      else case scf_Store cfg of
        None \<Rightarrow> Inl StoreRequired
      | Some st \<Rightarrow> Inr \<lparr>sv_store = st, sv_tenants = newService, sv_channels = NewRegistry, sv_webhooks = scf_WebhookMgr cfg,
          sv_history = Some newHistoryWriter,
          sv_name = (if scf_Name cfg = '''' then ''prmd'' else scf_Name cfg),
          sv_version = (if scf_Version cfg = '''' then ''0.0.0-dev'' else scf_Version cfg),
          sv_conns = Map.empty, sv_touches = []\<rparr>)"

text \<open>
  What one step reads from outside: the library functions, the clock (the \<open>n\<close>-th reading of the step), the
  random source and the UUIDs it draws, and the text of an error of the subscription operations.
\<close>

record env =
  e_codec :: codec_lib
  e_sub :: subops_lib
  e_uuid_String :: "uuid \<Rightarrow> string"
  e_sha256 :: "string \<Rightarrow> bytes"
  e_b64 :: "bytes \<Rightarrow> string"
  e_b64dec :: "string \<Rightarrow> bytes option"
  e_b64raw :: "bytes \<Rightarrow> string"
  e_errText :: "subops_error \<Rightarrow> string"
  e_now :: "nat \<Rightarrow> gotime"
  e_rand :: "bytes option"
  e_newV7 :: "uuid option"
  e_fireV7 :: "uuid \<Rightarrow> uuid option"

definition with_conn :: "uuid \<Rightarrow> (Conn \<Rightarrow> Conn) \<Rightarrow> Server \<Rightarrow> Server" where
  "with_conn i f s = s\<lparr>sv_conns := (sv_conns s)(i := map_option f (sv_conns s i))\<rparr>"

definition enqueue_conn :: "uuid \<Rightarrow> bytes \<Rightarrow> Server \<Rightarrow> Server" where
  "enqueue_conn i b s = with_conn i (Enqueue b) s"

definition sendFrame :: "env \<Rightarrow> uuid \<Rightarrow> Frame \<Rightarrow> Server \<Rightarrow> Server" where
  "sendFrame E i f s = (case EncodeBytes (e_codec E) '''' f of Inl _ \<Rightarrow> s | Inr b \<Rightarrow> enqueue_conn i b s)"

definition sendError :: "env \<Rightarrow> uuid \<Rightarrow> string \<Rightarrow> string \<Rightarrow> string \<Rightarrow> Server \<Rightarrow> Server" where
  "sendError E i reason detail reqID s = sendFrame E i (FError \<lparr>er_ID = reqID, er_Reason = reason, er_Detail = detail\<rparr>) s"

definition history_enqueue :: "StoredMessage \<Rightarrow> Server \<Rightarrow> Server" where
  "history_enqueue m s = s\<lparr>sv_history := map_option (hw_enqueue m) (sv_history s)\<rparr>"

definition on_chan :: "uuid \<Rightarrow> uuid \<Rightarrow> (Channel \<Rightarrow> Channel) \<Rightarrow> Server \<Rightarrow> Server" where
  "on_chan t i f s = s\<lparr>sv_channels := on_channel t i f (sv_channels s)\<rparr>"

text \<open>Fan-out to the members of the channel as it is now.\<close>

definition broadcast :: "uuid \<Rightarrow> uuid \<Rightarrow> bytes \<Rightarrow> Server \<Rightarrow> Server" where
  "broadcast t i b s = (case Get t i (sv_channels s) of None \<Rightarrow> s | Some ch \<Rightarrow> Broadcast enqueue_conn b ch s)"

definition notify_webhooks :: "env \<Rightarrow> gotime \<Rightarrow> Event \<Rightarrow> Server \<Rightarrow> Server" where
  "notify_webhooks E now ev s =
     (case sv_webhooks s of
        None \<Rightarrow> s
      | Some m \<Rightarrow> let (m', st) = Notify (e_uuid_String E) now (e_fireV7 E) ev (m, sv_store s)
                  in s\<lparr>sv_webhooks := Some m', sv_store := st\<rparr>)"

definition canJoin :: "uuid \<Rightarrow> ChannelRow \<Rightarrow> uuid \<Rightarrow> store \<Rightarrow> bool \<times> string" where
  "canJoin tenantID channel accountID st =
     (if chn_Visibility channel = ChannelPublic then (True, '''')
      else if chn_Visibility channel = ChannelPrivate then
        (case GetChannelACL tenantID (chn_ID channel) accountID st of
           Inl _ \<Rightarrow> (False, ''not_in_acl'')
         | Inr entry \<Rightarrow> if \<not> CanJoin (acl_Role entry) then (False, ''permission_denied'') else (True, ''''))
      else (False, ''unknown_visibility''))"

definition authErrorReason :: "auth_error \<Rightarrow> string" where
  "authErrorReason err = (case err of
       ErrUnauthenticated \<Rightarrow> ''invalid_credentials''
     | ErrTenantNotFound \<Rightarrow> ''invalid_credentials''
     | ErrTenantSuspended \<Rightarrow> ''tenant_suspended''
     | ErrUnsupported \<Rightarrow> ''unsupported_method''
     | _ \<Rightarrow> ''internal'')"

section \<open>Laws of the helpers\<close>

lemma with_conn_at: "sv_conns (with_conn i f s) j = (if j = i then map_option f (sv_conns s i) else sv_conns s j)"
  by (simp add: with_conn_def)

text \<open>Sending reaches one queue; the connection is the implementation of \<^verbatim>\<open>channels.Member\<close>.\<close>

interpretation conns: member enqueue_conn "\<lambda>i s. sv_conns s i" "\<lambda>b. map_option (Enqueue b)"
  by unfold_locales (simp_all add: enqueue_conn_def with_conn_at)

definition same_core :: "Server \<Rightarrow> Server \<Rightarrow> bool" where
  "same_core s s' \<longleftrightarrow> sv_store s' = sv_store s \<and> sv_tenants s' = sv_tenants s \<and> sv_channels s' = sv_channels s
     \<and> sv_webhooks s' = sv_webhooks s \<and> sv_history s' = sv_history s \<and> sv_name s' = sv_name s
     \<and> sv_version s' = sv_version s \<and> sv_touches s' = sv_touches s"

text \<open>A connection apart from its queue and the drop counter.\<close>

definition ident :: "Conn \<Rightarrow> Conn" where
  "ident c = c\<lparr>cn_out := [], cn_dropCount := 0\<rparr>"

lemma ident_Enqueue [simp]: "ident (Enqueue b c) = ident c"
  by (simp add: ident_def Enqueue_def)

end
