(* ===== verification/Inbound.thy ===== *)
theory Inbound
  imports Json
begin

text \<open>
  Inbound events (\<^verbatim>\<open>internal/inbound/adapter.go\<close>): the shape every adapter emits.
\<close>

record InboundEvent =
  ie_Source :: string
  ie_Service :: string
  ie_Severity :: string
  ie_Summary :: string
  ie_Fields :: "(bytes \<times> json) list"
  ie_OccurredAt :: gotime
  ie_Raw :: bytes

definition SeverityInfo :: string where "SeverityInfo = ''info''"
definition SeverityWarn :: string where "SeverityWarn = ''warn''"
definition SeverityError :: string where "SeverityError = ''error''"
definition SeverityCritical :: string where "SeverityCritical = ''critical''"

end
