(* ===== verification/Server_Handlers.thy ===== *)
theory Server_Handlers
  imports Server_Conn Inbound
begin

text \<open>
  The handlers of the realtime server (\<^verbatim>\<open>internal/server/conn.go\<close>, \<^verbatim>\<open>chanop.go\<close>,
  \<^verbatim>\<open>members.go\<close>, \<^verbatim>\<open>history.go\<close>, \<^verbatim>\<open>subscriptions.go\<close>, \<^verbatim>\<open>publish.go\<close>). A handler
  gets the connection \<open>c\<close> as it is when the frame arrives and changes the one in the heap; only the read loop
  of a connection writes the fields that \<open>c\<close> is read for. Handling one frame is one step.
\<close>

section \<open>Handshake\<close>

definition handlePong :: "Conn \<Rightarrow> Pong \<Rightarrow> Server \<Rightarrow> Server" where
  "handlePong c p s = with_conn (cn_id c) (offerPong (po_Token p)) s"

definition handlePing :: "env \<Rightarrow> Conn \<Rightarrow> Ping \<Rightarrow> Server \<Rightarrow> Server" where
  "handlePing E c p s = sendFrame E (cn_id c) (FPong \<lparr>po_ID = pi_ID p, po_Token = pi_Token p\<rparr>) s"

definition handleHello :: "env \<Rightarrow> Conn \<Rightarrow> Hello \<Rightarrow> Server \<Rightarrow> Server" where
  "handleHello E c h s = sendFrame E (cn_id c) (FWelcome \<lparr>wl_ID = hl_ID h, wl_ServerName = sv_name s,
     wl_ServerVersion = sv_version s, wl_CapVersion = ''0.1'', wl_Capabilities = [''presence'', ''ping'']\<rparr>) s"

definition sendAuthErr :: "env \<Rightarrow> Conn \<Rightarrow> string \<Rightarrow> string \<Rightarrow> string \<Rightarrow> Server \<Rightarrow> Server" where
  "sendAuthErr E c reqID reason detail s =
     sendFrame E (cn_id c) (FAuthErr \<lparr>ae_ID = reqID, ae_Reason = reason, ae_Detail = detail\<rparr>) s"

definition authenticate :: "env \<Rightarrow> Conn \<Rightarrow> string \<Rightarrow> Account \<Rightarrow> Tenant \<Rightarrow> Server \<Rightarrow> Server" where
  "authenticate E c reqID acc ten s = sendFrame E (cn_id c)
     (FAuthOK \<lparr>ao_ID = reqID, ao_AccountID = e_uuid_String E (acc_ID acc), ao_TenantID = e_uuid_String E (ten_ID ten),
        ao_AccountType = acc_Type acc, ao_DisplayName = acc_DisplayName acc\<rparr>)
     (with_conn (cn_id c) (\<lambda>c. c\<lparr>cn_tenantID := ten_ID ten, cn_accountID := acc_ID acc,
        cn_displayName := acc_DisplayName acc, cn_authed := True\<rparr>) s)"

definition handlePasswordAuthRequest :: "env \<Rightarrow> Conn \<Rightarrow> AuthRequest \<Rightarrow> Server \<Rightarrow> Server" where
  "handlePasswordAuthRequest E c r s =
     (if aq_Tenant r = '''' \<or> aq_Username r = ''''
      then sendAuthErr E c (aq_ID r) ''invalid_request'' ''tenant and username are required for password method'' s
      else case BeginPasswordAuth (e_rand E) (aq_Tenant r) (aq_Username r) (sv_store s) of
        Inl err \<Rightarrow> sendAuthErr E c (aq_ID r) (authErrorReason err) '''' s
      | Inr (chal, _) \<Rightarrow> sendFrame E (cn_id c)
          (FAuthChallenge \<lparr>ac_ID = aq_ID r, ac_Salt = e_b64 E (cl_Salt chal), ac_Nonce = e_b64 E (cl_Nonce chal),
             ac_Params = cl_Params chal\<rparr>)
          (with_conn (cn_id c) (\<lambda>c. c\<lparr>cn_pendingChal := Some chal\<rparr>) s))"

definition handleTokenAuthRequest :: "env \<Rightarrow> Conn \<Rightarrow> AuthRequest \<Rightarrow> Server \<Rightarrow> Server" where
  "handleTokenAuthRequest E c r s =
     (if aq_Token r = '''' then sendAuthErr E c (aq_ID r) ''invalid_request'' ''token is required for token method'' s
      else case AuthenticateToken (e_sha256 E) (aq_Token r) (sv_store s) of
        Inl _ \<Rightarrow> sendAuthErr E c (aq_ID r) ''internal'' '''' s
      | Inr (AuthRefused reason, _) \<Rightarrow> sendAuthErr E c (aq_ID r) reason '''' s
      | Inr (AuthOK acc ten, tok) \<Rightarrow> authenticate E c (aq_ID r) acc ten
          (case tok of None \<Rightarrow> s | Some t \<Rightarrow> s\<lparr>sv_touches := sv_touches s @ [tok_ID t]\<rparr>))"

definition handleAuthRequest :: "env \<Rightarrow> Conn \<Rightarrow> AuthRequest \<Rightarrow> Server \<Rightarrow> Server" where
  "handleAuthRequest E c r s =
     (if aq_Method r = AuthMethodPassword then handlePasswordAuthRequest E c r s
      else if aq_Method r = AuthMethodToken then handleTokenAuthRequest E c r s
      else sendAuthErr E c (aq_ID r) ''unsupported_method'' ''supported methods: password, token'' s)"

definition handleAuthResponse :: "env \<Rightarrow> Conn \<Rightarrow> AuthResponse \<Rightarrow> Server \<Rightarrow> Server" where
  "handleAuthResponse E c r s =
     (case cn_pendingChal c of
        None \<Rightarrow> sendAuthErr E c (ar_ID r) ''no_challenge'' ''send AuthRequest before AuthResponse'' s
      | Some chal \<Rightarrow>
          let res = CompletePasswordAuth (e_b64dec E) chal (ar_Proof r) (sv_store s);
              s1 = with_conn (cn_id c) (\<lambda>c. c\<lparr>cn_pendingChal := None\<rparr>) s
          in case res of
               Inl _ \<Rightarrow> sendAuthErr E c (ar_ID r) ''internal'' '''' s1
             | Inr (AuthRefused reason) \<Rightarrow> sendAuthErr E c (ar_ID r) reason '''' s1
             | Inr (AuthOK acc ten) \<Rightarrow> authenticate E c (ar_ID r) acc ten s1)"

section \<open>Channels\<close>

definition presence :: "env \<Rightarrow> Conn \<Rightarrow> string \<Rightarrow> string \<Rightarrow> bytes" where
  "presence E c channel kind =
     (case EncodeBytes (e_codec E) '''' (FPresence \<lparr>pr_ID = '''', pr_Channel = channel, pr_Kind = kind,
        pr_AccountID = e_uuid_String E (cn_accountID c), pr_DisplayName = cn_displayName c\<rparr>) of
        Inl _ \<Rightarrow> [] | Inr b \<Rightarrow> b)"

text \<open>The part of \<^verbatim>\<open>handleJoin\<close> after the access check.\<close>

definition enter_channel :: "env \<Rightarrow> Conn \<Rightarrow> string \<Rightarrow> uuid \<Rightarrow> ChannelRole \<Rightarrow> Server \<Rightarrow> Server" where
  "enter_channel E c name chanID role s =
     (let s1 = with_conn (cn_id c) (\<lambda>d. d\<lparr>cn_joinedChannels := AList.update name chanID (cn_joinedChannels d),
                 cn_joinedRoles := AList.update name role (cn_joinedRoles d)\<rparr>) s;
          s2 = s1\<lparr>sv_channels := fst (GetOrCreate (cn_tenantID c) chanID name (sv_channels s1))\<rparr>;
          ch = snd (GetOrCreate (cn_tenantID c) chanID name (sv_channels s1));
          s3 = on_chan (cn_tenantID c) chanID (\<lambda>ch. fst (AddMember (cn_id c) ch)) s2
      in if snd (AddMember (cn_id c) ch) then broadcast (cn_tenantID c) chanID (presence E c name PresenceJoin) s3 else s3)"

definition handleJoin :: "env \<Rightarrow> Conn \<Rightarrow> Join \<Rightarrow> Server \<Rightarrow> Server" where
  "handleJoin E c j s =
     (if jn_Channel j = '''' then sendError E (cn_id c) ''invalid_request'' ''channel is required'' (jn_ID j) s
      else case GetChannelByName (cn_tenantID c) (jn_Channel j) (sv_store s) of
        Inl _ \<Rightarrow> sendError E (cn_id c) ''channel_not_found'' ''no such channel in this tenant'' (jn_ID j) s
      | Inr channel \<Rightarrow>
          let (allowed, reason) = canJoin (cn_tenantID c) channel (cn_accountID c) (sv_store s)
          in if \<not> allowed then sendError E (cn_id c) reason ''not permitted to join this channel'' (jn_ID j) s
             else enter_channel E c (jn_Channel j) (chn_ID channel)
               (case GetChannelACL (cn_tenantID c) (chn_ID channel) (cn_accountID c) (sv_store s) of
                  Inl _ \<Rightarrow> '''' | Inr entry \<Rightarrow> acl_Role entry) s)"

definition handlePart :: "env \<Rightarrow> Conn \<Rightarrow> Part \<Rightarrow> Server \<Rightarrow> Server" where
  "handlePart E c p s =
     (if pt_Channel p = '''' then sendError E (cn_id c) ''invalid_request'' ''channel is required'' (pt_ID p) s
      else case map_of (cn_joinedChannels c) (pt_Channel p) of
        None \<Rightarrow> s
      | Some chanID \<Rightarrow>
          let s1 = with_conn (cn_id c) (\<lambda>c. c\<lparr>cn_joinedChannels := AList.delete (pt_Channel p) (cn_joinedChannels c),
                     cn_joinedRoles := AList.delete (pt_Channel p) (cn_joinedRoles c)\<rparr>) s
          in case Get (cn_tenantID c) chanID (sv_channels s1) of
               None \<Rightarrow> s1
             | Some ch \<Rightarrow>
                 let s2 = on_chan (cn_tenantID c) chanID (\<lambda>ch. fst (RemoveMember (cn_id c) ch)) s1
                 in if snd (RemoveMember (cn_id c) ch)
                    then broadcast (cn_tenantID c) chanID (presence E c (pt_Channel p) PresencePart) s2 else s2)"

definition displayFromRole :: "ChannelRole \<Rightarrow> string" where
  "displayFromRole r = (if r = RoleOwner \<or> r = RoleAdmin \<or> r = RoleChannelOp then r else '''')"

definition joined_role :: "Conn \<Rightarrow> string \<Rightarrow> ChannelRole" where
  "joined_role c channel = (case map_of (cn_joinedRoles c) channel of None \<Rightarrow> '''' | Some r \<Rightarrow> r)"

definition handleMsg :: "env \<Rightarrow> Conn \<Rightarrow> Msg \<Rightarrow> Server \<Rightarrow> Server" where
  "handleMsg E c m s =
     (if mg_Channel m = '''' then sendError E (cn_id c) ''invalid_request'' ''channel is required'' (mg_ID m) s
      else if mg_Body m = '''' then s
      else case map_of (cn_joinedChannels c) (mg_Channel m) of
        None \<Rightarrow> sendError E (cn_id c) ''not_in_channel'' ''join the channel before sending'' (mg_ID m) s
      | Some chanID \<Rightarrow>
          case Get (cn_tenantID c) chanID (sv_channels s) of
            None \<Rightarrow> sendError E (cn_id c) ''not_in_channel'' ''channel no longer in memory; rejoin'' (mg_ID m)
              (with_conn (cn_id c) (\<lambda>c. c\<lparr>cn_joinedChannels := AList.delete (mg_Channel m) (cn_joinedChannels c)\<rparr>) s)
          | Some ch \<Rightarrow>
              let now = e_now E 0;
                  frame = FMsg \<lparr>mg_ID = '''', mg_Channel = mg_Channel m, mg_To = '''',
                    mg_From = e_uuid_String E (cn_accountID c), mg_FromRole = displayFromRole (joined_role c (mg_Channel m)),
                    mg_TS = now, mg_Body = mg_Body m\<rparr>
              in case EncodeBytes (e_codec E) '''' frame of
                   Inl _ \<Rightarrow> sendError E (cn_id c) ''internal'' '''' (mg_ID m) s
                 | Inr b \<Rightarrow>
                     let hist = (if sv_webhooks s = None then [] else RecentMessages 32 ch);
                         s1 = broadcast (cn_tenantID c) chanID b s;
                         s2 = on_chan (cn_tenantID c) chanID (AppendHistory \<lparr>he_From = cn_accountID c,
                                he_DisplayName = cn_displayName c, he_TS = now, he_Body = mg_Body m\<rparr>) s1;
                         s3 = history_enqueue (newStoredMessage (cn_tenantID c) chanID (cn_accountID c) (mg_Body m) now) s2
                     in notify_webhooks E (e_now E 1) \<lparr>ev_TenantID = cn_tenantID c, ev_ChannelID = chanID,
                          ev_ChannelName = mg_Channel m, ev_From = cn_accountID c, ev_DisplayName = cn_displayName c,
                          ev_Body = mg_Body m, ev_TS = now,
                          ev_Mentions = Resolve (lib_uuid_Parse (e_sub E)) (cn_tenantID c) (mg_Body m) (sv_store s3),
                          ev_Context = hist\<rparr> s3)"

section \<open>Chat history and members\<close>

definition wire_message :: "env \<Rightarrow> StoredMessage \<Rightarrow> StoredMessageWire" where
  "wire_message E sm = \<lparr>sm_ID = e_uuid_String E (msg_ID sm), sm_From = e_uuid_String E (msg_FromAccountID sm),
     sm_TS = msg_TS sm, sm_Body = msg_Body sm\<rparr>"

definition handleChatHistory :: "env \<Rightarrow> Conn \<Rightarrow> ChatHistory \<Rightarrow> Server \<Rightarrow> Server" where
  "handleChatHistory E c m s =
     (if cq_Channel m = '''' then sendError E (cn_id c) ''invalid_request'' ''channel is required'' (cq_ID m) s
      else case GetChannelByName (cn_tenantID c) (cq_Channel m) (sv_store s) of
        Inl _ \<Rightarrow> sendError E (cn_id c) ''channel_not_found'' ''no such channel in this tenant'' (cq_ID m) s
      | Inr ch \<Rightarrow>
          case ListMessages (cn_tenantID c) (chn_ID ch) (if cq_Limit m \<le> 0 then 50 else cq_Limit m) (cq_BeforeTS m) (sv_store s) of
            Inl _ \<Rightarrow> sendError E (cn_id c) ''internal'' ''list messages'' (cq_ID m) s
          | Inr list \<Rightarrow> sendFrame E (cn_id c) (FChatHistoryOK
              \<lparr>ck_ID = cq_ID m, ck_Channel = cq_Channel m, ck_Messages = map (wire_message E) list\<rparr>) s)"

text \<open>The live accounts in the order of their first connection, each with its display name and count.\<close>

fun live_aggr :: "(uuid \<rightharpoonup> Conn) \<Rightarrow> uuid list \<Rightarrow> (uuid \<times> string \<times> int) list \<Rightarrow> (uuid \<times> string \<times> int) list" where
  "live_aggr conns [] live = live"
| "live_aggr conns (m # ms) live =
     (case conns m of
        None \<Rightarrow> live_aggr conns ms live
      | Some mem \<Rightarrow> live_aggr conns ms
          (case map_of live (cn_accountID mem) of
             None \<Rightarrow> AList.update (cn_accountID mem) (cn_displayName mem, 1) live
           | Some (name, n) \<Rightarrow> AList.update (cn_accountID mem) (name, n + 1) live))"

definition ghost_ids :: "(uuid \<times> string \<times> int) list \<Rightarrow> Subscription list \<Rightarrow> uuid list" where
  "ghost_ids live subs = remdups (map sub_AccountID (filter (\<lambda>s. map_of live (sub_AccountID s) = None) subs))"

definition isPaused :: "uuid \<Rightarrow> uuid \<Rightarrow> string \<Rightarrow> Server \<Rightarrow> bool" where
  "isPaused chanID accountID accType s =
     (accType = AccountBot \<and> (case sv_webhooks s of None \<Rightarrow> False | Some m \<Rightarrow> IsBotPaused chanID accountID m))"

definition live_info :: "env \<Rightarrow> uuid \<Rightarrow> uuid \<Rightarrow> Server \<Rightarrow> uuid \<times> string \<times> int \<Rightarrow> MemberInfo" where
  "live_info E tenantID chanID s p =
     (case p of (accountID, name, n) \<Rightarrow>
        let (accountType, displayName) =
          (case GetAccountByID tenantID accountID (sv_store s) of
             Inl _ \<Rightarrow> (AccountHuman, name)
           | Inr acc \<Rightarrow> (acc_Type acc, if name = '''' then acc_DisplayName acc else name))
        in \<lparr>mi_AccountID = e_uuid_String E accountID, mi_DisplayName = displayName, mi_AccountType = accountType,
            mi_IsGhost = False, mi_ConnCount = n, mi_Paused = isPaused chanID accountID accountType s\<rparr>)"

definition ghost_info :: "env \<Rightarrow> uuid \<Rightarrow> uuid \<Rightarrow> Server \<Rightarrow> uuid \<Rightarrow> MemberInfo option" where
  "ghost_info E tenantID chanID s accountID =
     (case GetAccountByID tenantID accountID (sv_store s) of
        Inl _ \<Rightarrow> None
      | Inr acc \<Rightarrow> Some \<lparr>mi_AccountID = e_uuid_String E accountID, mi_DisplayName = acc_DisplayName acc,
          mi_AccountType = acc_Type acc, mi_IsGhost = True, mi_ConnCount = 0,
          mi_Paused = isPaused chanID accountID (acc_Type acc) s\<rparr>)"

definition member_less :: "MemberInfo \<Rightarrow> MemberInfo \<Rightarrow> bool" where
  "member_less a b =
     (if mi_IsGhost a \<noteq> mi_IsGhost b then \<not> mi_IsGhost a
      else if mi_DisplayName a \<noteq> mi_DisplayName b then str_less (mi_DisplayName a) (mi_DisplayName b)
      else str_less (mi_AccountID a) (mi_AccountID b))"

text \<open>\<^verbatim>\<open>sort.SliceStable\<close> by insertion: an element goes before the first one that is not smaller.\<close>

fun insert_member :: "MemberInfo \<Rightarrow> MemberInfo list \<Rightarrow> MemberInfo list" where
  "insert_member x [] = [x]"
| "insert_member x (y # ys) = (if member_less y x then y # insert_member x ys else x # y # ys)"

definition sortMembers :: "MemberInfo list \<Rightarrow> MemberInfo list" where
  "sortMembers infos = foldr insert_member infos []"

definition handleMembers :: "env \<Rightarrow> Conn \<Rightarrow> MembersReq \<Rightarrow> Server \<Rightarrow> Server" where
  "handleMembers E c m s =
     (if mq_Channel m = '''' then sendError E (cn_id c) ''invalid_request'' ''channel is required'' (mq_ID m) s
      else case GetChannelByName (cn_tenantID c) (mq_Channel m) (sv_store s) of
        Inl _ \<Rightarrow> sendError E (cn_id c) ''channel_not_found'' ''no such channel in this tenant'' (mq_ID m) s
      | Inr ch \<Rightarrow>
          let (allowed, reason) = canJoin (cn_tenantID c) ch (cn_accountID c) (sv_store s)
          in if \<not> allowed
             then sendError E (cn_id c) reason (''not permitted to view this channel'' @ [CHR 0x27] @ ''s members'') (mq_ID m) s
             else
              let live = (case Get (cn_tenantID c) (chn_ID ch) (sv_channels s) of
                            None \<Rightarrow> [] | Some chState \<Rightarrow> live_aggr (sv_conns s) (Members chState) [])
              in case ListSubscriptionsByChannel (cn_tenantID c) (chn_ID ch) (sv_store s) of
                   Inl _ \<Rightarrow> sendError E (cn_id c) ''internal'' ''list subscriptions'' (mq_ID m) s
                 | Inr subs \<Rightarrow> sendFrame E (cn_id c) (FMembersOK \<lparr>mk_ID = mq_ID m, mk_Channel = mq_Channel m,
                     mk_Members = sortMembers (map (live_info E (cn_tenantID c) (chn_ID ch) s) live
                       @ List.map_filter (ghost_info E (cn_tenantID c) (chn_ID ch) s) (ghost_ids live subs))\<rparr>) s)"

section \<open>Channel operators\<close>

definition resolveChanopTarget :: "env \<Rightarrow> Conn \<Rightarrow> string \<Rightarrow> string \<Rightarrow> string \<Rightarrow> Server \<Rightarrow> Server + Account \<times> ChannelRow" where
  "resolveChanopTarget E c reqID channelName botAccountIDStr s =
     (let fail = (\<lambda>reason detail. Inl (sendError E (cn_id c) reason detail reqID s))
      in if channelName = '''' then fail ''invalid_request'' ''channel is required''
         else if botAccountIDStr = '''' then fail ''invalid_request'' ''bot_account_id is required''
         else case map_of (cn_joinedChannels c) channelName of
           None \<Rightarrow> fail ''not_in_channel'' ''join the channel before issuing operator commands''
         | Some chanID \<Rightarrow>
             if \<not> CanModerate (joined_role c channelName)
             then fail ''permission_denied'' ''requires owner, admin, or channel_op role''
             else case lib_uuid_Parse (e_sub E) botAccountIDStr of
               None \<Rightarrow> fail ''invalid_request'' ''bot_account_id must be a UUID''
             | Some botID \<Rightarrow>
                 case GetAccountByID (cn_tenantID c) botID (sv_store s) of
                   Inl _ \<Rightarrow> fail ''not_found'' ''no such account in this tenant''
                 | Inr target \<Rightarrow>
                     if acc_Type target \<noteq> AccountBot then fail ''not_a_bot'' ''target account is not a bot''
                     else case GetChannelByID (cn_tenantID c) chanID (sv_store s) of
                       Inl _ \<Rightarrow> fail ''channel_not_found'' ''channel no longer exists''
                     | Inr ch \<Rightarrow> Inr (target, ch))"

definition strconvQuote :: "string \<Rightarrow> string" where
  "strconvQuote s = [CHR 0x22] @ s @ [CHR 0x22]"

definition formatReason :: "string \<Rightarrow> string" where
  "formatReason reason = (if reason = '''' then '''' else '': '' @ strconvQuote reason)"

definition recordChanopAudit :: "env \<Rightarrow> Conn \<Rightarrow> uuid \<Rightarrow> uuid \<Rightarrow> string \<Rightarrow> string \<Rightarrow> Server \<Rightarrow> Server" where
  "recordChanopAudit E c chID targetID action reason s =
     (case RecordModerationEvent (e_now E 1) (e_newV7 E) \<lparr>mod_ID = uuid_Nil, mod_TenantID = cn_tenantID c, mod_ChannelID = chID,
        mod_ActorID = cn_accountID c, mod_TargetID = targetID, mod_Action = action, mod_Reason = reason, mod_At = 0\<rparr> (sv_store s) of
        Inl _ \<Rightarrow> s
      | Inr st \<Rightarrow> s\<lparr>sv_store := st\<rparr>)"

definition emitChanopSystemMsg :: "env \<Rightarrow> Conn \<Rightarrow> string \<Rightarrow> uuid \<Rightarrow> string \<Rightarrow> Server \<Rightarrow> Server" where
  "emitChanopSystemMsg E c channelName chanID body s =
     (case Get (cn_tenantID c) chanID (sv_channels s) of
        None \<Rightarrow> s
      | Some _ \<Rightarrow>
          let now = e_now E 2
          in case EncodeBytes (e_codec E) '''' (FMsg \<lparr>mg_ID = '''', mg_Channel = channelName, mg_To = '''',
               mg_From = e_uuid_String E (cn_accountID c), mg_FromRole = FromRoleChannelOp, mg_TS = now, mg_Body = body\<rparr>) of
               Inl _ \<Rightarrow> s
             | Inr b \<Rightarrow> history_enqueue (newStoredMessage (cn_tenantID c) chanID (cn_accountID c) body now)
                 (on_chan (cn_tenantID c) chanID (AppendHistory \<lparr>he_From = cn_accountID c, he_DisplayName = cn_displayName c,
                    he_TS = now, he_Body = body\<rparr>) (broadcast (cn_tenantID c) chanID b s)))"

text \<open>What pausing and resuming share once the row is written: cache, audit, notice, acknowledgement.\<close>

definition chanop_effects :: "env \<Rightarrow> Conn \<Rightarrow> string \<Rightarrow> string \<Rightarrow> Account \<Rightarrow> ChannelRow \<Rightarrow> bool \<Rightarrow> string \<Rightarrow> string \<Rightarrow> string
    \<Rightarrow> Server \<Rightarrow> Server" where
  "chanop_effects E c reqID channel target ch paused action verb reason s =
     (let s1 = s\<lparr>sv_webhooks := map_option (SetBotPaused (chn_ID ch) (acc_ID target) paused) (sv_webhooks s)\<rparr>;
          s2 = recordChanopAudit E c (chn_ID ch) (acc_ID target) action reason s1;
          s3 = emitChanopSystemMsg E c channel (chn_ID ch)
                 (''[op] '' @ cn_displayName c @ verb @ acc_DisplayName target @ formatReason reason) s2
      in sendFrame E (cn_id c) (FChanopOK \<lparr>co_ID = reqID, co_Action = action, co_Channel = channel,
           co_BotAccountID = e_uuid_String E (acc_ID target)\<rparr>) s3)"

definition handleChanopPauseBot :: "env \<Rightarrow> Conn \<Rightarrow> ChanopPauseBot \<Rightarrow> Server \<Rightarrow> Server" where
  "handleChanopPauseBot E c m s =
     (case resolveChanopTarget E c (cp_ID m) (cp_Channel m) (cp_BotAccountID m) s of
        Inl s1 \<Rightarrow> s1
      | Inr (target, ch) \<Rightarrow>
          case SetChannelBotPause (e_now E 0) \<lparr>pau_TenantID = cn_tenantID c, pau_ChannelID = chn_ID ch,
              pau_BotAccountID = acc_ID target, pau_PausedBy = cn_accountID c, pau_PausedAt = 0, pau_Reason = cp_Reason m\<rparr> (sv_store s) of
            Inl _ \<Rightarrow> sendError E (cn_id c) ''internal'' ''persist pause failed'' (cp_ID m) s
          | Inr st \<Rightarrow> chanop_effects E c (cp_ID m) (cp_Channel m) target ch True ModActionPauseBot '' paused bot @''
              (cp_Reason m) (s\<lparr>sv_store := st\<rparr>))"

definition handleChanopResumeBot :: "env \<Rightarrow> Conn \<Rightarrow> ChanopResumeBot \<Rightarrow> Server \<Rightarrow> Server" where
  "handleChanopResumeBot E c m s =
     (case resolveChanopTarget E c (cr_ID m) (cr_Channel m) (cr_BotAccountID m) s of
        Inl s1 \<Rightarrow> s1
      | Inr (target, ch) \<Rightarrow>
          let effects = chanop_effects E c (cr_ID m) (cr_Channel m) target ch False ModActionResumeBot '' resumed bot @'' (cr_Reason m)
          in case RemoveChannelBotPause (cn_tenantID c) (chn_ID ch) (acc_ID target) (sv_store s) of
               Inl e \<Rightarrow> if e \<noteq> ErrNotFound then sendError E (cn_id c) ''internal'' ''remove pause failed'' (cr_ID m) s
                        else effects s
             | Inr st \<Rightarrow> effects (s\<lparr>sv_store := st\<rparr>))"

section \<open>Subscriptions\<close>

definition requireBot :: "env \<Rightarrow> Conn \<Rightarrow> string \<Rightarrow> Server \<Rightarrow> Server + Tenant \<times> Account" where
  "requireBot E c reqID s =
     (case GetTenantByID (cn_tenantID c) (sv_store s) of
        Inl _ \<Rightarrow> Inl (sendError E (cn_id c) ''internal'' ''tenant lookup'' reqID s)
      | Inr tenant \<Rightarrow>
          case GetAccountByID (cn_tenantID c) (cn_accountID c) (sv_store s) of
            Inl _ \<Rightarrow> Inl (sendError E (cn_id c) ''internal'' ''account lookup'' reqID s)
          | Inr acct \<Rightarrow>
              if acc_Type acct \<noteq> AccountBot
              then Inl (sendError E (cn_id c) ''not_a_bot'' ''subscription management requires a bot account'' reqID s)
              else Inr (tenant, acct))"

definition sendSubopsError :: "env \<Rightarrow> Conn \<Rightarrow> subops_error \<Rightarrow> string \<Rightarrow> Server \<Rightarrow> Server" where
  "sendSubopsError E c err reqID s = sendError E (cn_id c)
     (case err of SubBadRequest \<Rightarrow> ''bad_request'' | SubNotFound \<Rightarrow> ''not_found'' | SubNotOwner \<Rightarrow> ''not_owner''
        | SubInternal \<Rightarrow> ''internal'') (e_errText E err) reqID s"

definition subInfo :: "env \<Rightarrow> Subscription \<Rightarrow> bool \<Rightarrow> SubscriptionInfo" where
  "subInfo E sub includeSecret = \<lparr>si_ID = e_uuid_String E (sub_ID sub), si_TenantID = e_uuid_String E (sub_TenantID sub),
     si_AccountID = e_uuid_String E (sub_AccountID sub), si_ChannelID = e_uuid_String E (sub_ChannelID sub), si_URL = sub_URL sub,
     si_Secret = (if includeSecret then e_b64raw E (sub_Secret sub) else ''''), si_Match = sub_MatchJSON sub, si_Events = sub_Events sub,
     si_ContextLines = sub_ContextLines sub, si_DebounceMs = sub_DebounceMs sub, si_CooldownMs = sub_CooldownMs sub,
     si_Budget = sub_BudgetJSON sub,
     si_DisabledAt = (if IsZero (sub_DisabledAt sub) then None else Some (sub_DisabledAt sub)), si_CreatedAt = sub_CreatedAt sub\<rparr>"

text \<open>A call of a subscription operation on the server's store and manager.\<close>

definition sub_world :: "Server \<Rightarrow> world" where
  "sub_world s = (sv_store s, sv_webhooks s)"

definition put_world :: "world \<Rightarrow> Server \<Rightarrow> Server" where
  "put_world w s = s\<lparr>sv_store := fst w, sv_webhooks := snd w\<rparr>"

definition raw_opt :: "bytes \<Rightarrow> bytes option" where
  "raw_opt b = (if b = [] then None else Some b)"

definition handleSubscriptionCreate :: "env \<Rightarrow> Conn \<Rightarrow> SubscriptionCreate \<Rightarrow> Server \<Rightarrow> Server" where
  "handleSubscriptionCreate E c m s =
     (case requireBot E c (sc_ID m) s of
        Inl s1 \<Rightarrow> s1
      | Inr (tenant, acct) \<Rightarrow>
          case Create_sub (e_sub E) (e_now E 0) (e_newV7 E) (e_rand E) tenant acct
              \<lparr>ci_ChannelName = sc_ChannelName m, ci_ChannelID = sc_ChannelID m, ci_URL = sc_URL m, ci_Match = sc_Match m,
               ci_Events = sc_Events m, ci_ContextLines = sc_ContextLines m, ci_DebounceMs = sc_DebounceMs m,
               ci_CooldownMs = sc_CooldownMs m, ci_Budget = sc_Budget m\<rparr> (sub_world s) of
            (w, Inl err) \<Rightarrow> sendSubopsError E c err (sc_ID m) (put_world w s)
          | (w, Inr sub) \<Rightarrow> sendFrame E (cn_id c) (FSubscriptionOK \<lparr>so_ID = sc_ID m, so_Subscription = subInfo E sub True\<rparr>)
              (put_world w s))"

definition handleSubscriptionList :: "env \<Rightarrow> Conn \<Rightarrow> SubscriptionList \<Rightarrow> Server \<Rightarrow> Server" where
  "handleSubscriptionList E c m s =
     (case requireBot E c (sl_ID m) s of
        Inl s1 \<Rightarrow> s1
      | Inr (tenant, acct) \<Rightarrow>
          case List_sub tenant acct (sv_store s) of
            Inl err \<Rightarrow> sendSubopsError E c err (sl_ID m) s
          | Inr list \<Rightarrow> sendFrame E (cn_id c) (FSubscriptionListOK
              \<lparr>sk_ID = sl_ID m, sk_Subscriptions = map (\<lambda>sub. subInfo E sub False) list\<rparr>) s)"

definition handleSubscriptionGet :: "env \<Rightarrow> Conn \<Rightarrow> SubscriptionGet \<Rightarrow> Server \<Rightarrow> Server" where
  "handleSubscriptionGet E c m s =
     (case requireBot E c (sg_ID m) s of
        Inl s1 \<Rightarrow> s1
      | Inr (tenant, acct) \<Rightarrow>
          case Get_sub (e_sub E) tenant acct (sg_SubscriptionID m) (sv_store s) of
            Inl err \<Rightarrow> sendSubopsError E c err (sg_ID m) s
          | Inr sub \<Rightarrow> sendFrame E (cn_id c) (FSubscriptionOK \<lparr>so_ID = sg_ID m, so_Subscription = subInfo E sub False\<rparr>) s)"

definition handleSubscriptionUpdate :: "env \<Rightarrow> Conn \<Rightarrow> SubscriptionUpdate \<Rightarrow> Server \<Rightarrow> Server" where
  "handleSubscriptionUpdate E c m s =
     (case requireBot E c (su_ID m) s of
        Inl s1 \<Rightarrow> s1
      | Inr (tenant, acct) \<Rightarrow>
          case Update_sub (e_sub E) (e_now E 0) tenant acct (su_SubscriptionID m)
              \<lparr>ui_URL = su_URL m, ui_Match = raw_opt (su_Match m), ui_Events = su_Events m, ui_ContextLines = su_ContextLines m,
               ui_DebounceMs = su_DebounceMs m, ui_CooldownMs = su_CooldownMs m, ui_Budget = raw_opt (su_Budget m),
               ui_Disabled = su_Disabled m\<rparr> (sub_world s) of
            (w, Inl err) \<Rightarrow> sendSubopsError E c err (su_ID m) (put_world w s)
          | (w, Inr sub) \<Rightarrow> sendFrame E (cn_id c) (FSubscriptionOK \<lparr>so_ID = su_ID m, so_Subscription = subInfo E sub False\<rparr>)
              (put_world w s))"

definition handleSubscriptionDelete :: "env \<Rightarrow> Conn \<Rightarrow> SubscriptionDelete \<Rightarrow> Server \<Rightarrow> Server" where
  "handleSubscriptionDelete E c m s =
     (case requireBot E c (sd_ID m) s of
        Inl s1 \<Rightarrow> s1
      | Inr (tenant, acct) \<Rightarrow>
          case Delete_sub (e_sub E) tenant acct (sd_SubscriptionID m) (sub_world s) of
            (w, Some err) \<Rightarrow> sendSubopsError E c err (sd_ID m) (put_world w s)
          | (w, None) \<Rightarrow> sendFrame E (cn_id c) (FSubscriptionDeleted
              \<lparr>sx_ID = sd_ID m, sx_SubscriptionID = sd_SubscriptionID m\<rparr>) (put_world w s))"

section \<open>Dispatch\<close>

definition dispatch :: "env \<Rightarrow> Conn \<Rightarrow> Frame \<Rightarrow> Server \<Rightarrow> Server" where
  "dispatch E c f s =
     (if \<not> cn_authed c then
        (case f of
           FHello v \<Rightarrow> handleHello E c v s
         | FAuthRequest v \<Rightarrow> handleAuthRequest E c v s
         | FAuthResponse v \<Rightarrow> handleAuthResponse E c v s
         | FPong v \<Rightarrow> handlePong c v s
         | FPing v \<Rightarrow> handlePing E c v s
         | _ \<Rightarrow> sendError E (cn_id c) ''not_authenticated'' ''complete auth before sending other frames'' '''' s)
      else
        (case f of
           FJoin v \<Rightarrow> handleJoin E c v s
         | FPart v \<Rightarrow> handlePart E c v s
         | FMsg v \<Rightarrow> handleMsg E c v s
         | FPing v \<Rightarrow> handlePing E c v s
         | FPong v \<Rightarrow> handlePong c v s
         | FSubscriptionCreate v \<Rightarrow> handleSubscriptionCreate E c v s
         | FSubscriptionList v \<Rightarrow> handleSubscriptionList E c v s
         | FSubscriptionGet v \<Rightarrow> handleSubscriptionGet E c v s
         | FSubscriptionUpdate v \<Rightarrow> handleSubscriptionUpdate E c v s
         | FSubscriptionDelete v \<Rightarrow> handleSubscriptionDelete E c v s
         | FChatHistory v \<Rightarrow> handleChatHistory E c v s
         | FMembersReq v \<Rightarrow> handleMembers E c v s
         | FChanopPauseBot v \<Rightarrow> handleChanopPauseBot E c v s
         | FChanopResumeBot v \<Rightarrow> handleChanopResumeBot E c v s
         | _ \<Rightarrow> sendError E (cn_id c) ''unsupported'' (''verb '' @ strconvQuote (FrameType f) @ '' not supported'') '''' s))"

text \<open>
  One iteration of a connection's read loop on the bytes it has received: the frame is decoded and dispatched, a
  decoding error ends the loop. \<open>None\<close> is the end of the loop.
\<close>

definition readStep :: "env \<Rightarrow> uuid \<Rightarrow> bytes \<Rightarrow> Server \<Rightarrow> (bytes \<times> Server) option" where
  "readStep E i stream s =
     (case Decode (e_codec E) stream of
        (Inl _, _) \<Rightarrow> None
      | (Inr f, rest) \<Rightarrow> (case sv_conns s i of None \<Rightarrow> None | Some c \<Rightarrow> Some (rest, dispatch E c f s)))"

text \<open>The connection's context is cancelled: the socket closes under the loops. Then \<^verbatim>\<open>close\<close> runs, once.\<close>

definition cancel_conn :: "uuid \<Rightarrow> Server \<Rightarrow> Server" where
  "cancel_conn i s = with_conn i (\<lambda>c. c\<lparr>cn_closed := True\<rparr>) s"

definition close_conn :: "uuid \<Rightarrow> Server \<Rightarrow> Server" where
  "close_conn i s =
     (case sv_conns s i of
        None \<Rightarrow> s
      | Some c \<Rightarrow>
          if cn_closeOnce c then s
          else (with_conn i (\<lambda>c. c\<lparr>cn_closeOnce := True, cn_closed := True\<rparr>) s)
                 \<lparr>sv_channels := RemoveMemberFromAll i (sv_channels s)\<rparr>)"

definition accept :: "uuid \<Rightarrow> Server \<Rightarrow> Server" where
  "accept i s = s\<lparr>sv_conns := (sv_conns s)(i \<mapsto> newConn i)\<rparr>"

definition touch_token :: "gotime \<Rightarrow> Server \<Rightarrow> Server" where
  "touch_token now s =
     (case sv_touches s of
        [] \<Rightarrow> s
      | t # ts \<Rightarrow> s\<lparr>sv_touches := ts,
          sv_store := (case TouchTokenLastUsed now t (sv_store s) of Inl _ \<Rightarrow> sv_store s | Inr st \<Rightarrow> st)\<rparr>)"

section \<open>The write and ping loops\<close>

text \<open>
  The receiving case of \<^verbatim>\<open>writeLoop\<close>, given whether the socket write succeeds: the bytes written, if any, and
  whether the loop goes on. A write error and a lagging connection end the loop without closing the connection.
\<close>

definition writeLoop_recv :: "bool \<Rightarrow> Conn \<Rightarrow> (bytes option \<times> bool) \<times> Conn" where
  "writeLoop_recv write_ok c =
     (case cn_out c of
        [] \<Rightarrow> ((None, True), c)
      | b # bs \<Rightarrow>
          if \<not> write_ok then ((None, False), c\<lparr>cn_out := bs\<rparr>)
          else ((Some b, \<not> cn_dropCount c > laggingThreshold), c\<lparr>cn_out := bs\<rparr>))"

definition pingLoop_tick :: "env \<Rightarrow> string \<Rightarrow> uuid \<Rightarrow> Server \<Rightarrow> Server" where
  "pingLoop_tick E tok i s = sendFrame E i (FPing \<lparr>pi_ID = '''', pi_Token = tok\<rparr>)
     (with_conn i (\<lambda>c. c\<lparr>cn_lastPongToken := Some tok\<rparr>) s)"

text \<open>The inner select of \<^verbatim>\<open>pingLoop\<close>: \<open>None\<close> while it waits, else whether the loop goes on.\<close>

definition pingLoop_await :: "string \<Rightarrow> bool \<Rightarrow> Conn \<Rightarrow> bool option \<times> Conn" where
  "pingLoop_await tok timed_out c =
     (case cn_pongCh c of
        got # rest \<Rightarrow> (Some (got = tok), c\<lparr>cn_pongCh := rest\<rparr>)
      | [] \<Rightarrow> (if timed_out then Some False else None, c))"

section \<open>Inbound events\<close>

definition FormatEventBody :: "InboundEvent \<Rightarrow> string" where
  "FormatEventBody ev =
     (let sev = (if ie_Severity ev = '''' then SeverityInfo else ie_Severity ev);
          src = (if ie_Source ev = '''' then ''inbound'' else ie_Source ev);
          prefix = ''['' @ sev @ ''] '' @ src @ (if ie_Service ev \<noteq> '''' then ''/'' @ ie_Service ev else '''')
      in if ie_Summary ev = '''' then prefix else prefix @ '': '' @ ie_Summary ev)"

definition PublishInbound :: "env \<Rightarrow> uuid \<Rightarrow> uuid \<Rightarrow> uuid \<Rightarrow> InboundEvent \<Rightarrow> Server \<Rightarrow> (store_error + codec_error) option \<times> Server" where
  "PublishInbound E tenantID channelID fromAccountID ev s =
     (case GetChannelByID tenantID channelID (sv_store s) of
        Inl e \<Rightarrow> (Some (Inl e), s)
      | Inr ch \<Rightarrow>
          let body = FormatEventBody ev;
              ts = (if IsZero (ie_OccurredAt ev) then e_now E 0 else ie_OccurredAt ev)
          in case EncodeBytes (e_codec E) '''' (FMsg \<lparr>mg_ID = '''', mg_Channel = chn_Name ch, mg_To = '''',
               mg_From = e_uuid_String E fromAccountID, mg_FromRole = '''', mg_TS = ts, mg_Body = body\<rparr>) of
               Inl e \<Rightarrow> (Some (Inr e), s)
             | Inr b \<Rightarrow>
                 let (reg, chState) = GetOrCreate tenantID channelID (chn_Name ch) (sv_channels s);
                     hist = (if sv_webhooks s = None then [] else RecentMessages 32 chState);
                     s1 = broadcast tenantID channelID b (s\<lparr>sv_channels := reg\<rparr>);
                     s2 = on_chan tenantID channelID (AppendHistory \<lparr>he_From = fromAccountID, he_DisplayName = ie_Source ev,
                            he_TS = ts, he_Body = body\<rparr>) s1;
                     s3 = history_enqueue (newStoredMessage tenantID channelID fromAccountID body ts) s2
                 in (None, notify_webhooks E (e_now E 1) \<lparr>ev_TenantID = tenantID, ev_ChannelID = channelID,
                      ev_ChannelName = chn_Name ch, ev_From = fromAccountID, ev_DisplayName = ie_Source ev, ev_Body = body,
                      ev_TS = ts, ev_Mentions = [], ev_Context = hist\<rparr> s3))"

end
