(* ===== verification/Server_Safety.thy ===== *)
theory Server_Safety
  imports Server_Handlers
begin

text \<open>
  What the realtime server keeps safe. The invariant \<open>server_ok\<close> ties the channel registry to the
  connections; \<open>acts c\<close> is the contract of everything an authenticated connection \<open>c\<close> may do in one
  step, closed under composition, so that a handler satisfies it when its parts do.
\<close>

section \<open>The invariant\<close>

definition members_of :: "Server \<Rightarrow> uuid \<Rightarrow> uuid \<Rightarrow> uuid set" where
  "members_of s t k = (case Get t k (sv_channels s) of None \<Rightarrow> {} | Some ch \<Rightarrow> set (ch_members ch))"

definition conn_ok :: "uuid \<Rightarrow> Conn \<Rightarrow> bool" where
  "conn_ok i c \<longleftrightarrow> cn_id c = i \<and> length (cn_out c) \<le> outboundQueueSize \<and> length (cn_pongCh c) \<le> pongCap
     \<and> (\<not> cn_authed c \<longrightarrow> cn_joinedChannels c = [] \<and> cn_joinedRoles c = [])"

definition hist_ok :: "Server \<Rightarrow> bool" where
  "hist_ok s \<longleftrightarrow> (\<forall>h. sv_history s = Some h \<longrightarrow> length (hw_in h) \<le> historyWriterDepth)"

definition server_ok :: "Server \<Rightarrow> bool" where
  "server_ok s \<longleftrightarrow> reg_ok (sv_channels s) \<and> hist_ok s \<and> (\<forall>i c. sv_conns s i = Some c \<longrightarrow> conn_ok i c)
     \<and> (\<forall>t k m. m \<in> members_of s t k \<longrightarrow>
          (\<exists>c. sv_conns s m = Some c \<and> cn_authed c \<and> cn_tenantID c = t \<and> \<not> cn_closeOnce c))"

lemma server_okD:
  assumes "server_ok s"
  shows "reg_ok (sv_channels s)" "hist_ok s" "sv_conns s i = Some c \<Longrightarrow> conn_ok i c"
    "m \<in> members_of s t k \<Longrightarrow> \<exists>c. sv_conns s m = Some c \<and> cn_authed c \<and> cn_tenantID c = t \<and> \<not> cn_closeOnce c"
  using assms by (auto simp: server_ok_def)

section \<open>The contract of a step\<close>

definition who :: "Conn \<Rightarrow> uuid \<times> uuid \<times> uuid \<times> string \<times> bool \<times> bool" where
  "who c = (cn_id c, cn_tenantID c, cn_accountID c, cn_displayName c, cn_authed c, cn_closeOnce c)"

text \<open>A connection that is not \<open>i\<close> changes at most in its queue, and only if it is of tenant \<open>t\<close>.\<close>

definition only_queue :: "uuid \<Rightarrow> Conn \<Rightarrow> Conn \<Rightarrow> bool" where
  "only_queue t d d' \<longleftrightarrow> ident d' = ident d \<and> (d' = d \<or> cn_authed d \<and> cn_tenantID d = t)"

definition confined :: "uuid \<Rightarrow> uuid \<Rightarrow> Server \<Rightarrow> Server \<Rightarrow> bool" where
  "confined t i s s' \<longleftrightarrow> (\<forall>j. j \<noteq> i \<longrightarrow> rel_option (only_queue t) (sv_conns s j) (sv_conns s' j))
     \<and> (\<forall>t' k. t' \<noteq> t \<longrightarrow> Get t' k (sv_channels s') = Get t' k (sv_channels s))"

definition seated :: "Conn \<Rightarrow> Server \<Rightarrow> bool" where
  "seated c s \<longleftrightarrow> map_option who (sv_conns s (cn_id c)) = Some (who c) \<and> cn_authed c \<and> \<not> cn_closeOnce c"

definition acts :: "Conn \<Rightarrow> Server \<Rightarrow> Server \<Rightarrow> bool" where
  "acts c s s' \<longleftrightarrow> (server_ok s \<and> seated c s \<longrightarrow>
     server_ok s' \<and> seated c s' \<and> confined (cn_tenantID c) (cn_id c) s s')"

lemma ident_who: "ident d = ident d' \<Longrightarrow> who d = who d'"
proof -
  assume "ident d = ident d'"
  then have "cn_id (ident d) = cn_id (ident d')" "cn_tenantID (ident d) = cn_tenantID (ident d')"
    "cn_accountID (ident d) = cn_accountID (ident d')" "cn_displayName (ident d) = cn_displayName (ident d')"
    "cn_authed (ident d) = cn_authed (ident d')" "cn_closeOnce (ident d) = cn_closeOnce (ident d')" by simp_all
  then show ?thesis by (simp add: who_def ident_def)
qed

lemma only_queue_refl [simp]: "only_queue t d d"
  by (simp add: only_queue_def)

lemma only_queue_trans: "only_queue t d d' \<Longrightarrow> only_queue t d' d'' \<Longrightarrow> only_queue t d d''"
  using ident_who [of d' d] by (auto simp: only_queue_def who_def)

lemma confined_refl [simp]: "confined t i s s"
  by (simp add: confined_def option.rel_refl)

lemma confined_trans: "confined t i s s' \<Longrightarrow> confined t i s' s'' \<Longrightarrow> confined t i s s''"
proof -
  have *: "rel_option (only_queue t) x z" if "rel_option (only_queue t) x y" "rel_option (only_queue t) y z" for x y z
    using that only_queue_trans by (cases x; cases y; cases z) auto
  assume "confined t i s s'" "confined t i s' s''"
  then show ?thesis unfolding confined_def using * by (metis (no_types))
qed

lemma acts_refl [simp]: "acts c s s"
  by (simp add: acts_def)

lemma acts_trans [trans]: "acts c s s' \<Longrightarrow> acts c s' s'' \<Longrightarrow> acts c s s''"
  using confined_trans [of "cn_tenantID c" "cn_id c" s s' s''] by (auto simp: acts_def)

lemma actsI:
  assumes "\<And>d. server_ok s \<Longrightarrow> seated c s \<Longrightarrow> sv_conns s (cn_id c) = Some d \<Longrightarrow> who d = who c \<Longrightarrow>
    cn_authed c \<Longrightarrow> \<not> cn_closeOnce c \<Longrightarrow> server_ok s' \<and> seated c s' \<and> confined (cn_tenantID c) (cn_id c) s s'"
  shows "acts c s s'"
  using assms by (auto simp: acts_def seated_def)

section \<open>The parts of a handler\<close>

lemma acts_same:
  assumes "sv_conns s' = sv_conns s" and "sv_channels s' = sv_channels s" and "hist_ok s \<Longrightarrow> hist_ok s'"
  shows "acts c s s'"
  using assms by (auto simp: acts_def server_ok_def seated_def confined_def members_of_def option.rel_refl)

lemma members_of_with_conn [simp]: "members_of (with_conn i f s) = members_of s"
  by (simp add: members_of_def with_conn_def fun_eq_iff)

lemma with_conn_fields [simp]:
  "sv_channels (with_conn i f s) = sv_channels s" "sv_store (with_conn i f s) = sv_store s"
  "sv_webhooks (with_conn i f s) = sv_webhooks s" "sv_history (with_conn i f s) = sv_history s"
  "sv_name (with_conn i f s) = sv_name s" "sv_version (with_conn i f s) = sv_version s"
  "sv_touches (with_conn i f s) = sv_touches s" "sv_tenants (with_conn i f s) = sv_tenants s"
  by (simp_all add: with_conn_def)

lemma acts_with_conn:
  assumes "\<And>d. who (f d) = who d" and "\<And>d. conn_ok (cn_id c) d \<Longrightarrow> cn_authed d \<Longrightarrow> conn_ok (cn_id c) (f d)"
  shows "acts c s (with_conn (cn_id c) f s)"
proof (rule actsI)
  fix d assume ok: "server_ok s" and d: "sv_conns s (cn_id c) = Some d" "who d = who c" "cn_authed c" "\<not> cn_closeOnce c"
  have w: "cn_authed d" "cn_tenantID d = cn_tenantID c" "\<not> cn_closeOnce d" using d by (auto simp: who_def)
  then have f: "cn_authed (f d)" "cn_tenantID (f d) = cn_tenantID d" "\<not> cn_closeOnce (f d)"
    using assms(1) [of d] by (auto simp: who_def)
  have "conn_ok (cn_id c) (f d)" using assms(2) server_okD(3) [OF ok d(1)] w(1) by blast
  moreover have "\<exists>c'. sv_conns (with_conn (cn_id c) f s) m = Some c' \<and> cn_authed c' \<and> cn_tenantID c' = t \<and> \<not> cn_closeOnce c'"
    if "m \<in> members_of s t k" for t k m
    using server_okD(4) [OF ok that] d(1) f w by (auto simp: with_conn_at)
  ultimately have "server_ok (with_conn (cn_id c) f s)"
    using ok d(1) by (auto simp: server_ok_def hist_ok_def with_conn_at)
  then show "server_ok (with_conn (cn_id c) f s) \<and> seated c (with_conn (cn_id c) f s)
      \<and> confined (cn_tenantID c) (cn_id c) s (with_conn (cn_id c) f s)"
    using d assms(1) [of d] by (simp add: seated_def confined_def with_conn_at option.rel_refl)
qed

lemma conn_ok_Enqueue [simp]: "conn_ok i d \<Longrightarrow> conn_ok i (Enqueue b d)"
  using outq.enq_bound [of d b] by (auto simp: conn_ok_def) (simp_all add: Enqueue_def split: if_splits)

lemma Enqueue_fields [simp]:
  "cn_id (Enqueue b d) = cn_id d" "cn_authed (Enqueue b d) = cn_authed d" "cn_tenantID (Enqueue b d) = cn_tenantID d"
  "cn_closeOnce (Enqueue b d) = cn_closeOnce d" "cn_accountID (Enqueue b d) = cn_accountID d" "cn_displayName (Enqueue b d) = cn_displayName d"
  "cn_joinedChannels (Enqueue b d) = cn_joinedChannels d" "cn_joinedRoles (Enqueue b d) = cn_joinedRoles d"
  by (simp_all add: Enqueue_def)

lemma who_Enqueue [simp]: "who (Enqueue b d) = who d"
  by (simp add: who_def Enqueue_def)

lemma acts_send [simp]: "acts c s (enqueue_conn (cn_id c) b s)" "acts c s (sendFrame E (cn_id c) f s)"
    "acts c s (sendError E (cn_id c) r d i s)"
  by (auto simp: enqueue_conn_def sendFrame_def sendError_def intro!: acts_with_conn split: sum.split)


lemma same_Broadcast:
  "sv_channels (Broadcast enqueue_conn b ch s) = sv_channels s" "sv_store (Broadcast enqueue_conn b ch s) = sv_store s"
  "sv_webhooks (Broadcast enqueue_conn b ch s) = sv_webhooks s" "sv_history (Broadcast enqueue_conn b ch s) = sv_history s"
  "sv_touches (Broadcast enqueue_conn b ch s) = sv_touches s"
proof -
  have "sv_channels (fold (\<lambda>m. enqueue_conn m b) ms s) = sv_channels s \<and> sv_store (fold (\<lambda>m. enqueue_conn m b) ms s) = sv_store s
    \<and> sv_webhooks (fold (\<lambda>m. enqueue_conn m b) ms s) = sv_webhooks s \<and> sv_history (fold (\<lambda>m. enqueue_conn m b) ms s) = sv_history s
    \<and> sv_touches (fold (\<lambda>m. enqueue_conn m b) ms s) = sv_touches s" for ms
    by (induction ms arbitrary: s) (simp_all add: enqueue_conn_def)
  then show "sv_channels (Broadcast enqueue_conn b ch s) = sv_channels s" "sv_store (Broadcast enqueue_conn b ch s) = sv_store s"
    "sv_webhooks (Broadcast enqueue_conn b ch s) = sv_webhooks s" "sv_history (Broadcast enqueue_conn b ch s) = sv_history s"
    "sv_touches (Broadcast enqueue_conn b ch s) = sv_touches s"
    by (simp_all add: Broadcast_def)
qed

lemma same_broadcast [simp]:
  "sv_channels (broadcast t k b s) = sv_channels s" "sv_store (broadcast t k b s) = sv_store s"
  "sv_webhooks (broadcast t k b s) = sv_webhooks s" "sv_history (broadcast t k b s) = sv_history s"
  "sv_touches (broadcast t k b s) = sv_touches s" "members_of (broadcast t k b s) = members_of s"
  by (auto simp: broadcast_def same_Broadcast members_of_def fun_eq_iff split: option.split)

text \<open>Fan-out reaches exactly the members, each once.\<close>

lemma broadcast_conns:
  assumes "reg_ok (sv_channels s)"
  shows "sv_conns (broadcast t k b s) m =
    (if m \<in> members_of s t k then map_option (Enqueue b) (sv_conns s m) else sv_conns s m)"
proof (cases "Get t k (sv_channels s)")
  case (Some ch)
  then have "channel_ok ch" using flat_ok [OF assms] by (simp add: Get_flat)
  with Some show ?thesis using conns.broadcast_queue by (simp add: broadcast_def members_of_def)
qed (simp add: broadcast_def members_of_def)

lemma broadcast_server_ok:
  assumes "server_ok s"
  shows "server_ok (broadcast t k b s)"
proof -
  have "\<exists>c. sv_conns (broadcast t k b s) m = Some c \<and> cn_authed c \<and> cn_tenantID c = t' \<and> \<not> cn_closeOnce c"
    if "m \<in> members_of s t' k'" for m t' k'
    using server_okD(4) [OF assms that] by (auto simp: broadcast_conns server_okD(1) [OF assms])
  then show ?thesis
    using assms by (auto simp: server_ok_def hist_ok_def broadcast_conns split: if_splits)
qed

lemma acts_broadcast [simp]: "acts c s (broadcast (cn_tenantID c) k b s)"
proof (rule actsI)
  fix d assume ok: "server_ok s" and d: "sv_conns s (cn_id c) = Some d" "who d = who c" "cn_authed c" "\<not> cn_closeOnce c"
  have "rel_option (only_queue (cn_tenantID c)) (sv_conns s j) (sv_conns (broadcast (cn_tenantID c) k b s) j)" for j
    using server_okD(4) [OF ok, of j "cn_tenantID c" k]
    by (auto simp: broadcast_conns server_okD(1) [OF ok] only_queue_def option.rel_refl)
  then show "server_ok (broadcast (cn_tenantID c) k b s) \<and> seated c (broadcast (cn_tenantID c) k b s)
      \<and> confined (cn_tenantID c) (cn_id c) s (broadcast (cn_tenantID c) k b s)"
    using d ok by (simp add: broadcast_server_ok seated_def confined_def broadcast_conns server_okD(1))
qed

text \<open>Changes of one channel of the registry.\<close>

definition chan_fun :: "uuid \<Rightarrow> (Channel \<Rightarrow> Channel) \<Rightarrow> bool" where
  "chan_fun i f \<longleftrightarrow> (\<forall>ch. channel_ok ch \<longrightarrow> channel_ok (f ch) \<and> ch_TenantID (f ch) = ch_TenantID ch \<and> ch_ID (f ch) = ch_ID ch
     \<and> set (ch_members (f ch)) \<subseteq> insert i (set (ch_members ch)))"

lemma chan_fun_ops [simp]: "chan_fun i (AppendHistory e)" "chan_fun i (\<lambda>ch. fst (AddMember i ch))"
    "chan_fun i (\<lambda>ch. fst (RemoveMember m ch))"
  by (auto simp: chan_fun_def channel_oks)

lemma on_chan_fields [simp]:
  "sv_conns (on_chan t k f s) = sv_conns s" "sv_store (on_chan t k f s) = sv_store s"
  "sv_webhooks (on_chan t k f s) = sv_webhooks s" "sv_history (on_chan t k f s) = sv_history s"
  "sv_touches (on_chan t k f s) = sv_touches s"
  by (simp_all add: on_chan_def)

lemma Get_on_chan:
  "reg_ok (sv_channels s) \<Longrightarrow> Get t' k' (sv_channels (on_chan t k f s)) =
     (if (t', k') = (t, k) then map_option f (Get t k (sv_channels s)) else Get t' k' (sv_channels s))"
  by (auto simp: on_chan_def Get_flat flat_on_channel)

lemma reg_ok_on_chan: "reg_ok (sv_channels s) \<Longrightarrow> chan_fun i f \<Longrightarrow> reg_ok (sv_channels (on_chan t k f s))"
  unfolding on_chan_def by (auto simp: chan_fun_def intro!: reg_ok_on_channel)

lemma members_of_on_chan:
  assumes "reg_ok (sv_channels s)" and "chan_fun i f" and "m \<in> members_of (on_chan t k f s) t' k'"
  shows "m \<in> members_of s t' k' \<or> m = i \<and> t' = t \<and> k' = k"
proof (cases "Get t' k' (sv_channels s)")
  case (Some ch)
  then have "channel_ok ch" using flat_ok [OF assms(1)] by (simp add: Get_flat)
  then show ?thesis using assms Some by (auto simp: members_of_def Get_on_chan chan_fun_def split: if_splits)
next
  case None
  then show ?thesis using assms by (auto simp: members_of_def Get_on_chan split: if_splits)
qed

lemma server_ok_channels:
  assumes ok: "server_ok s" and "reg_ok r" and "\<And>t k m. m \<in> members_of (s\<lparr>sv_channels := r\<rparr>) t k \<Longrightarrow>
    m \<in> members_of s t k \<or> (\<exists>c. sv_conns s m = Some c \<and> cn_authed c \<and> cn_tenantID c = t \<and> \<not> cn_closeOnce c)"
  shows "server_ok (s\<lparr>sv_channels := r\<rparr>)"
  using assms server_okD(4) [OF ok] by (auto simp: server_ok_def hist_ok_def) blast

lemma acts_on_chan:
  assumes "chan_fun (cn_id c) f"
  shows "acts c s (on_chan (cn_tenantID c) k f s)"
proof (rule actsI)
  fix d assume ok: "server_ok s" and d: "sv_conns s (cn_id c) = Some d" "who d = who c" "cn_authed c" "\<not> cn_closeOnce c"
  note reg = server_okD(1) [OF ok]
  have "server_ok (on_chan (cn_tenantID c) k f s)"
    unfolding on_chan_def
    by (rule server_ok_channels [OF ok]) (use reg_ok_on_chan [OF reg assms, of "cn_tenantID c" k]
      members_of_on_chan [OF reg assms, of _ "cn_tenantID c" k] d in \<open>auto simp: on_chan_def who_def\<close>)
  then show "server_ok (on_chan (cn_tenantID c) k f s) \<and> seated c (on_chan (cn_tenantID c) k f s)
      \<and> confined (cn_tenantID c) (cn_id c) s (on_chan (cn_tenantID c) k f s)"
    using d by (simp add: seated_def confined_def Get_on_chan reg option.rel_refl)
qed

lemma Get_GetOrCreate:
  "reg_ok r \<Longrightarrow> Get t' k' (fst (GetOrCreate t k n r)) =
     (if (t', k') = (t, k) then Some (snd (GetOrCreate t k n r)) else Get t' k' r)"
  using flat_GetOrCreate [of r t k n] by (auto simp: Get_flat)

lemma snd_GetOrCreate: "snd (GetOrCreate t k n r) = (case Get t k r of None \<Rightarrow> newChannel t k n | Some ch \<Rightarrow> ch)"
  by (auto simp: GetOrCreate_def Let_def split: option.split)

lemma members_of_GetOrCreate: "reg_ok (sv_channels s) \<Longrightarrow>
    members_of (s\<lparr>sv_channels := fst (GetOrCreate t k n (sv_channels s))\<rparr>) = members_of s"
  by (auto simp: members_of_def fun_eq_iff Get_GetOrCreate snd_GetOrCreate newChannel_def split: option.split)

lemma acts_GetOrCreate [simp]: "acts c s (s\<lparr>sv_channels := fst (GetOrCreate (cn_tenantID c) k n (sv_channels s))\<rparr>)"
proof (rule actsI)
  fix d assume ok: "server_ok s" and d: "sv_conns s (cn_id c) = Some d" "who d = who c" "cn_authed c" "\<not> cn_closeOnce c"
  note reg = server_okD(1) [OF ok]
  let ?s = "s\<lparr>sv_channels := fst (GetOrCreate (cn_tenantID c) k n (sv_channels s))\<rparr>"
  have "server_ok ?s"
    by (rule server_ok_channels [OF ok]) (use reg in \<open>auto simp: members_of_GetOrCreate reg_ok_GetOrCreate\<close>)
  then show "server_ok ?s \<and> seated c ?s \<and> confined (cn_tenantID c) (cn_id c) s ?s"
    using d by (simp add: seated_def confined_def Get_GetOrCreate reg option.rel_refl)
qed


section \<open>Every handler keeps the contract\<close>

lemma acts_history_enqueue [simp]: "acts c s (history_enqueue m s)"
  by (rule acts_same) (auto simp: history_enqueue_def hist_ok_def intro!: histq.enq_bound)

lemma acts_notify [simp]: "acts c s (notify_webhooks E now ev s)"
  by (rule acts_same) (auto simp: notify_webhooks_def hist_ok_def Let_def split: option.split prod.split)

lemma acts_world [simp]: "acts c s (put_world w s)" "acts c s (s\<lparr>sv_store := st\<rparr>)" "acts c s (s\<lparr>sv_webhooks := w'\<rparr>)"
  by (rule acts_same; simp add: put_world_def hist_ok_def)+

lemma acts_audit [simp]: "acts c s (recordChanopAudit E c ch t a r s)"
  by (auto simp: recordChanopAudit_def split: sum.split)

lemma acts_joined [simp]:
  "acts c s (with_conn (cn_id c) (\<lambda>d. d\<lparr>cn_joinedChannels := f d, cn_joinedRoles := g d\<rparr>) s)"
  "acts c s (with_conn (cn_id c) (\<lambda>d. d\<lparr>cn_joinedChannels := f d\<rparr>) s)"
  by (rule acts_with_conn; simp add: who_def conn_ok_def)+

lemma acts_Ping: "acts c s (handlePing E c p s)" "acts c s (handlePong c q s)"
  by (auto simp: handlePing_def handlePong_def who_def conn_ok_def offerPong_def intro!: acts_with_conn)

lemma acts_enter: "acts c s (enter_channel E c n k r s)"
proof -
  have "acts c s (on_chan (cn_tenantID c) k (\<lambda>ch. fst (AddMember (cn_id c) ch))
      (s1\<lparr>sv_channels := fst (GetOrCreate (cn_tenantID c) k n (sv_channels s1))\<rparr>))"
    if "acts c s s1" for s1
    by (rule acts_trans [OF acts_trans [OF that acts_GetOrCreate] acts_on_chan]) simp
  note entered = this [OF acts_joined(1)]
  show ?thesis unfolding enter_channel_def Let_def by (simp only: entered acts_trans [OF entered acts_broadcast] if_split simp_thms)
qed

lemma acts_Join: "acts c s (handleJoin E c j s)"
  by (simp add: handleJoin_def acts_enter split: sum.split prod.split)

lemma acts_Part: "acts c s (handlePart E c p s)"
  by (auto simp: handlePart_def Let_def intro!: acts_trans [OF _ acts_broadcast] acts_trans [OF acts_joined(1) acts_on_chan]
      split: option.split)

lemma acts_say: "acts c s (history_enqueue m (on_chan (cn_tenantID c) k (AppendHistory e) (broadcast (cn_tenantID c) k b s)))"
  by (intro acts_trans [OF acts_trans [OF acts_broadcast acts_on_chan] acts_history_enqueue]) simp

lemma acts_Msg: "acts c s (handleMsg E c m s)"
proof -
  have "acts c s (sendError E (cn_id c) r d i (with_conn (cn_id c) (\<lambda>d. d\<lparr>cn_joinedChannels := f d\<rparr>) s))" for r d i f
    by (rule acts_trans [OF acts_joined(2) acts_send(3)])
  moreover have "acts c s (notify_webhooks E n ev (history_enqueue m (on_chan (cn_tenantID c) k (AppendHistory e) (broadcast (cn_tenantID c) k b s))))"
    for n ev m k e b by (rule acts_trans [OF acts_say acts_notify])
  ultimately show ?thesis by (simp add: handleMsg_def Let_def split: option.split sum.split)
qed

lemma acts_system_msg: "acts c s (emitChanopSystemMsg E c n k b s)"
  by (simp add: emitChanopSystemMsg_def Let_def acts_say split: option.split sum.split)

lemma acts_chanop: "acts c s (chanop_effects E c i n tg ch p a v r s)"
  unfolding chanop_effects_def Let_def
  by (intro acts_trans [OF acts_trans [OF acts_trans [OF acts_world(3) acts_audit] acts_system_msg] acts_send(2)])

lemma acts_resolve: "resolveChanopTarget E c i n b s = Inl s' \<Longrightarrow> acts c s s'"
  by (auto simp: resolveChanopTarget_def Let_def split: if_splits option.splits sum.splits)

lemma acts_Pause: "acts c s (handleChanopPauseBot E c m s)" "acts c s (handleChanopResumeBot E c m' s)"
  by (auto simp: handleChanopPauseBot_def handleChanopResumeBot_def Let_def acts_resolve
      intro!: acts_trans [OF acts_world(2) acts_chanop] acts_chanop split: sum.split prod.split)

lemma acts_requireBot: "requireBot E c i s = Inl s' \<Longrightarrow> acts c s s'"
  by (auto simp: requireBot_def split: if_splits sum.splits)

lemma acts_Subscription:
  "acts c s (handleSubscriptionCreate E c m1 s)" "acts c s (handleSubscriptionList E c m2 s)" "acts c s (handleSubscriptionGet E c m3 s)"
  "acts c s (handleSubscriptionUpdate E c m4 s)" "acts c s (handleSubscriptionDelete E c m5 s)"
  by (auto simp: handleSubscriptionCreate_def handleSubscriptionList_def handleSubscriptionGet_def handleSubscriptionUpdate_def
      handleSubscriptionDelete_def sendSubopsError_def acts_requireBot intro!: acts_trans [OF acts_world(1) acts_send(2)]
      acts_trans [OF acts_world(1) acts_send(3)] split: sum.split prod.split option.split)

lemma acts_read: "acts c s (handleChatHistory E c q s)" "acts c s (handleMembers E c m s)"
  by (auto simp: handleChatHistory_def handleMembers_def Let_def split: sum.split prod.split bool.split)

lemma acts_dispatch: "cn_authed c \<Longrightarrow> acts c s (dispatch E c f s)"
  by (cases f) (simp_all add: dispatch_def acts_Ping acts_Join acts_Part acts_Msg acts_Subscription acts_read acts_Pause)


section \<open>Before authentication\<close>

text \<open>The step changes the connection itself and the pending token touches only.\<close>

definition own_only :: "uuid \<Rightarrow> Server \<Rightarrow> Server \<Rightarrow> bool" where
  "own_only i s s' \<longleftrightarrow> (\<forall>j. j \<noteq> i \<longrightarrow> sv_conns s' j = sv_conns s j) \<and> sv_channels s' = sv_channels s \<and> sv_store s' = sv_store s
     \<and> sv_webhooks s' = sv_webhooks s \<and> sv_history s' = sv_history s \<and> sv_tenants s' = sv_tenants s"

lemma own_only_refl [simp]: "own_only i s s"
  by (simp add: own_only_def)

lemma own_only_trans: "own_only i s s' \<Longrightarrow> own_only i s' s'' \<Longrightarrow> own_only i s s''"
  by (simp add: own_only_def)

lemma own_only_with_conn [simp]: "own_only i s (with_conn i f s)"
  by (simp add: own_only_def with_conn_at)

lemma own_only_send [simp]: "own_only i s (sendFrame E i f s)" "own_only i s (sendError E i r d q s)"
  by (simp_all add: sendFrame_def sendError_def enqueue_conn_def split: sum.split)

lemma own_only_send_after: "own_only i s s' \<Longrightarrow> own_only i s (sendFrame E i f s')"
  by (rule own_only_trans [OF _ own_only_send(1)])

lemma own_only_authenticate: "own_only (cn_id c) s s' \<Longrightarrow> own_only (cn_id c) s (authenticate E c q a t s')"
  unfolding authenticate_def by (rule own_only_send_after, rule own_only_trans [OF _ own_only_with_conn])

lemma own_only_touches: "own_only i s (s\<lparr>sv_touches := ts\<rparr>)"
  by (simp add: own_only_def)

lemma own_only_dispatch: "\<not> cn_authed c \<Longrightarrow> own_only (cn_id c) s (dispatch E c f s)"
  by (cases f) (auto simp: dispatch_def handleHello_def handlePing_def handlePong_def handleAuthRequest_def sendAuthErr_def
      handlePasswordAuthRequest_def handleTokenAuthRequest_def handleAuthResponse_def Let_def
      intro!: own_only_authenticate own_only_touches own_only_send_after split: sum.split option.split prod.split auth_result.split)

text \<open>The connection itself: its queue and pongs stay bounded, and it joins nothing.\<close>

definition conn_step :: "uuid \<Rightarrow> Server \<Rightarrow> Server \<Rightarrow> bool" where
  "conn_step i s s' \<longleftrightarrow> (\<forall>c. sv_conns s i = Some c \<longrightarrow> (\<exists>c'. sv_conns s' i = Some c' \<and> (conn_ok i c \<longrightarrow> conn_ok i c')
     \<and> cn_closeOnce c' = cn_closeOnce c \<and> cn_joinedChannels c' = cn_joinedChannels c \<and> cn_joinedRoles c' = cn_joinedRoles c
     \<and> (cn_authed c \<longrightarrow> cn_authed c')))"

lemma conn_step_refl [simp]: "conn_step i s s"
  by (simp add: conn_step_def)

lemma conn_step_trans: "conn_step i s s' \<Longrightarrow> conn_step i s' s'' \<Longrightarrow> conn_step i s s''"
  unfolding conn_step_def by metis

lemma conn_step_touches: "conn_step i s s' \<Longrightarrow> conn_step i s (s'\<lparr>sv_touches := ts\<rparr>)"
  by (simp add: conn_step_def)

lemma conn_step_with_conn:
  assumes "\<And>c. conn_ok i c \<Longrightarrow> conn_ok i (f c)" "\<And>c. cn_closeOnce (f c) = cn_closeOnce c" "\<And>c. cn_authed c \<Longrightarrow> cn_authed (f c)"
    "\<And>c. cn_joinedChannels (f c) = cn_joinedChannels c \<and> cn_joinedRoles (f c) = cn_joinedRoles c"
  shows "conn_step i s (with_conn i f s)"
  using assms by (auto simp: conn_step_def with_conn_at)

lemma conn_step_send: "conn_step i s s' \<Longrightarrow> conn_step i s (sendFrame E i f s')"
  unfolding sendFrame_def enqueue_conn_def
  by (auto split: sum.split intro: conn_step_trans [OF _ conn_step_with_conn])

lemma conn_step_authenticate: "conn_step (cn_id c) s s' \<Longrightarrow> conn_step (cn_id c) s (authenticate E c q a t s')"
  unfolding authenticate_def
  by (rule conn_step_send, erule conn_step_trans, rule conn_step_with_conn) (auto simp: conn_ok_def)

lemma conn_step_fields [simp]: "conn_step i s (with_conn i (\<lambda>c. c\<lparr>cn_pendingChal := ch\<rparr>) s)"
    "conn_step i s (with_conn i (offerPong tok) s)"
  by (rule conn_step_with_conn; auto simp: conn_ok_def offerPong_def)+

lemma conn_step_dispatch: "\<not> cn_authed c \<Longrightarrow> conn_step (cn_id c) s (dispatch E c f s)"
  by (cases f) (auto simp: dispatch_def handleHello_def handlePing_def handlePong_def handleAuthRequest_def sendAuthErr_def sendError_def
      handlePasswordAuthRequest_def handleTokenAuthRequest_def handleAuthResponse_def Let_def
      intro!: conn_step_authenticate conn_step_touches conn_step_send split: sum.split option.split prod.split auth_result.split)

end
