(* ===== verification/Server_Runs.thy ===== *)
theory Server_Runs
  imports Server_Safety
begin

text \<open>
  Runs of the realtime server: the steps of its goroutines as a transition relation, and what holds in
  every state they reach. Between the frames of the connections anything else of the program (the REST
  plane, the webhook workers) may change the store, the manager and the tenant cache in any way.
\<close>

section \<open>Steps\<close>

inductive server_step :: "Server \<Rightarrow> Server \<Rightarrow> bool" where
  accepted: "sv_conns s i = None \<Longrightarrow> server_step s (accept i s)"
| received: "sv_conns s i = Some c \<Longrightarrow> \<not> cn_closeOnce c \<Longrightarrow> server_step s (dispatch E c f s)"
| cancelled: "server_step s (cancel_conn i s)"
| closed: "server_step s (close_conn i s)"
| written: "server_step s (with_conn i (\<lambda>c. snd (writeLoop_recv ok c)) s)"
| pinged: "server_step s (pingLoop_tick E tok i s)"
| awaited: "server_step s (with_conn i (\<lambda>c. snd (pingLoop_await tok late c)) s)"
| published: "server_step s (snd (PublishInbound E t k a ev s))"
| recorded: "sv_history s = Some h \<Longrightarrow> hw_receive now newV7 (h, sv_store s) = (h', st) \<Longrightarrow>
    server_step s (s\<lparr>sv_history := Some h', sv_store := st\<rparr>)"
| touched: "server_step s (touch_token now s)"
| elsewhere: "server_step s (s\<lparr>sv_store := st, sv_webhooks := m, sv_tenants := tv\<rparr>)"

inductive reachable :: "Server \<Rightarrow> bool" where
  started: "newServer cfg = Inr s \<Longrightarrow> reachable s"
| stepped: "reachable s \<Longrightarrow> server_step s s' \<Longrightarrow> reachable s'"

section \<open>The invariant holds in every reachable state\<close>

lemma server_ok_same:
  "server_ok s \<Longrightarrow> sv_conns s' = sv_conns s \<Longrightarrow> sv_channels s' = sv_channels s \<Longrightarrow> hist_ok s' \<Longrightarrow> server_ok s'"
  by (simp add: server_ok_def members_of_def)

lemma server_ok_new: "newServer cfg = Inr s \<Longrightarrow> server_ok s"
  by (auto simp: newServer_def server_ok_def reg_ok_NewRegistry hist_ok_def newHistoryWriter_def members_of_def Get_flat
      flat_NewRegistry split: if_splits option.splits)

lemma server_ok_own:
  assumes "server_ok s" and "own_only i s s'" and "conn_step i s s'" and d: "sv_conns s i = Some d" "\<not> cn_authed d"
  shows "server_ok s'"
proof -
  have m: "members_of s' = members_of s" using assms(2) by (simp add: members_of_def own_only_def fun_eq_iff)
  have other: "sv_conns s' j = sv_conns s j" if "j \<noteq> i" for j using assms(2) that by (simp add: own_only_def)
  from assms(3) d obtain c' where c': "sv_conns s' i = Some c'" "conn_ok i d \<longrightarrow> conn_ok i c'" by (auto simp: conn_step_def)
  have "conn_ok j c" if "sv_conns s' j = Some c" for j c
    using that c' other [of j] server_okD(3) [OF assms(1)] d by (cases "j = i") auto
  moreover have "\<exists>c. sv_conns s' m = Some c \<and> cn_authed c \<and> cn_tenantID c = t \<and> \<not> cn_closeOnce c" if "m \<in> members_of s t k" for m t k
    using server_okD(4) [OF assms(1) that] d other [of m] by (metis option.inject)
  ultimately show ?thesis
    using server_okD(1,2) [OF assms(1)] assms(2) by (simp add: server_ok_def m hist_ok_def own_only_def)
qed

text \<open>A change of one connection that keeps its identity.\<close>

lemma server_ok_with_conn:
  assumes "server_ok s" and "\<And>c. who (f c) = who c" and "\<And>c. conn_ok i c \<Longrightarrow> conn_ok i (f c)"
  shows "server_ok (with_conn i f s)"
proof -
  have "cn_authed (f c) = cn_authed c \<and> cn_tenantID (f c) = cn_tenantID c \<and> cn_closeOnce (f c) = cn_closeOnce c" for c
    using assms(2) [of c] by (simp add: who_def)
  then have "\<exists>c. sv_conns (with_conn i f s) m = Some c \<and> cn_authed c \<and> cn_tenantID c = t \<and> \<not> cn_closeOnce c"
    if "m \<in> members_of s t k" for m t k
    using server_okD(4) [OF assms(1) that] by (auto simp: with_conn_at)
  moreover have "conn_ok j c" if "sv_conns (with_conn i f s) j = Some c" for j c
    using that assms(3) server_okD(3) [OF assms(1)] by (auto simp: with_conn_at split: if_splits)
  ultimately show ?thesis using server_okD(1,2) [OF assms(1)] by (simp add: server_ok_def hist_ok_def)
qed

lemma server_ok_send: "server_ok s \<Longrightarrow> server_ok (sendFrame E i f s)"
  by (auto simp: sendFrame_def enqueue_conn_def intro!: server_ok_with_conn split: sum.split)

lemma server_ok_on_chan:
  assumes "server_ok s" and "\<And>i. chan_fun i f"
  shows "server_ok (on_chan t k f s)"
proof -
  note reg = server_okD(1) [OF assms(1)]
  have "m \<in> members_of s t' k'" if "m \<in> members_of (on_chan t k f s) t' k'" for m t' k'
    using members_of_on_chan [OF reg assms(2), of m t k t' k' "m + 1"] that by auto
  then show ?thesis
    unfolding on_chan_def
    by (intro server_ok_channels [OF assms(1)]) (use reg_ok_on_chan [OF reg assms(2), of t k] in \<open>auto simp: on_chan_def\<close>)
qed

lemma server_ok_publish: "server_ok s \<Longrightarrow> server_ok (snd (PublishInbound E t k a ev s))"
proof -
  assume ok: "server_ok s"
  have reg: "server_ok (s\<lparr>sv_channels := fst (GetOrCreate t k n (sv_channels s))\<rparr>)" for n
    by (rule server_ok_channels [OF ok])
      (use server_okD(1) [OF ok] in \<open>auto simp: members_of_GetOrCreate reg_ok_GetOrCreate\<close>)
  have "server_ok (notify_webhooks E now e (history_enqueue m (on_chan t k (AppendHistory h)
      (broadcast t k b (s\<lparr>sv_channels := fst (GetOrCreate t k n (sv_channels s))\<rparr>)))))"
    for now e m h b n
  proof -
    let ?s = "on_chan t k (AppendHistory h) (broadcast t k b (s\<lparr>sv_channels := fst (GetOrCreate t k n (sv_channels s))\<rparr>))"
    have s1: "server_ok ?s" by (intro server_ok_on_chan broadcast_server_ok reg) simp
    then have s2: "server_ok (history_enqueue m ?s)"
      by (rule server_ok_same) (use server_okD(2) [OF s1] in \<open>auto simp: history_enqueue_def hist_ok_def intro!: histq.enq_bound\<close>)
    show ?thesis
      by (rule server_ok_same [OF s2]) (use server_okD(2) [OF s2] in
        \<open>auto simp: notify_webhooks_def hist_ok_def Let_def split: option.split prod.split\<close>)
  qed
  then show ?thesis using ok by (auto simp: PublishInbound_def Let_def case_prod_beta split: sum.split)
qed

lemma server_ok_close: "server_ok s \<Longrightarrow> server_ok (close_conn i s)"
proof -
  assume ok: "server_ok s"
  let ?s = "(with_conn i (\<lambda>c. c\<lparr>cn_closeOnce := True, cn_closed := True\<rparr>) s)\<lparr>sv_channels := RemoveMemberFromAll i (sv_channels s)\<rparr>"
  note reg = server_okD(1) [OF ok]
  have m: "members_of ?s t k = members_of s t k - {i}" for t k
    by (auto simp: members_of_def Get_flat flat_RemoveMemberFromAll reg split: option.split)
  have "\<exists>c. sv_conns ?s m = Some c \<and> cn_authed c \<and> cn_tenantID c = t \<and> \<not> cn_closeOnce c" if "m \<in> members_of ?s t k" for m t k
    using server_okD(4) [OF ok, of m t k] that unfolding m by (auto simp: with_conn_at)
  moreover have "conn_ok j c" if "sv_conns ?s j = Some c" for j c
    using that server_okD(3) [OF ok] by (auto simp: with_conn_at conn_ok_def split: if_splits)
  ultimately have "server_ok ?s"
    using reg_ok_RemoveMemberFromAll [OF reg] server_okD(2) [OF ok] by (simp add: server_ok_def hist_ok_def)
  with ok show ?thesis by (simp add: close_conn_def split: option.split)
qed

lemma who_loops: "who (snd (writeLoop_recv w c)) = who c" "who (snd (pingLoop_await tok late c)) = who c"
  by (auto simp: who_def writeLoop_recv_def pingLoop_await_def split: list.split)

lemma conn_ok_loops: "conn_ok i c \<Longrightarrow> conn_ok i (snd (writeLoop_recv w c))" "conn_ok i c \<Longrightarrow> conn_ok i (snd (pingLoop_await tok late c))"
  by (auto simp: conn_ok_def writeLoop_recv_def pingLoop_await_def split: list.split)

lemma hw_receive_bound: "hw_receive now nv (h, st) = (h', st') \<Longrightarrow> length (hw_in h') \<le> length (hw_in h)"
  by (auto simp: hw_receive_def hw_write_def split: list.splits sum.splits)

lemma server_step_ok:
  assumes "server_step s s'" and ok: "server_ok s"
  shows "server_ok s'"
  using assms
proof cases
  case (accepted i)
  have "m \<noteq> i" if "m \<in> members_of s t k" for m t k using server_okD(4) [OF ok that] accepted by auto
  then show ?thesis using ok accepted
    by (auto simp: accept_def server_ok_def hist_ok_def members_of_def conn_ok_def newConn_def split: option.splits if_splits)
next
  case (received i c E f)
  then have i: "cn_id c = i" using server_okD(3) [OF ok] by (auto simp: conn_ok_def)
  show ?thesis
  proof (cases "cn_authed c")
    case True
    with received i have "seated c s" by (simp add: seated_def)
    with True received ok acts_dispatch [of c s E f] show ?thesis by (simp add: acts_def)
  next
    case False
    with received i show ?thesis
      using server_ok_own [OF ok, of i "dispatch E c f s" c] own_only_dispatch [of c s E f] conn_step_dispatch [of c s E f] by simp
  qed
next
  case (cancelled i)
  then show ?thesis using ok by (auto simp: cancel_conn_def who_def conn_ok_def intro!: server_ok_with_conn)
next
  case (pinged E tok i)
  then show ?thesis using ok by (auto simp: pingLoop_tick_def who_def conn_ok_def intro!: server_ok_send server_ok_with_conn)
next
  case (recorded h now nv h' st)
  have "length (hw_in h') \<le> historyWriterDepth"
    using server_okD(2) [OF ok] recorded(2) hw_receive_bound [OF recorded(3)] by (auto simp: hist_ok_def)
  then show ?thesis using recorded ok by (auto simp: hist_ok_def intro: server_ok_same)
next
  case (touched now)
  then show ?thesis using server_okD(2) [OF ok]
    by (auto simp: touch_token_def hist_ok_def intro!: server_ok_same [OF ok] split: list.split)
next
  case (elsewhere st m tv)
  then show ?thesis using server_okD(2) [OF ok] by (auto simp: hist_ok_def intro!: server_ok_same [OF ok])
qed (auto simp: ok server_ok_close server_ok_publish who_loops conn_ok_loops intro!: server_ok_with_conn)

lemma server_reachable_ok: "reachable s \<Longrightarrow> server_ok s"
  by (induction rule: reachable.induct) (auto intro: server_ok_new server_step_ok)


section \<open>What sending changes\<close>

definition queued :: "env \<Rightarrow> Frame \<Rightarrow> Conn \<Rightarrow> Conn" where
  "queued E f c = (case EncodeBytes (e_codec E) '''' f of Inl _ \<Rightarrow> c | Inr b \<Rightarrow> Enqueue b c)"

lemma sv_conns_send: "sv_conns (sendFrame E i f s) j = (if j = i then map_option (queued E f) (sv_conns s i) else sv_conns s j)"
  by (cases "EncodeBytes (e_codec E) '''' f"; cases "sv_conns s i") (auto simp: sendFrame_def enqueue_conn_def with_conn_at queued_def)

lemma who_queued [simp]: "who (queued E f c) = who c" "cn_joinedChannels (queued E f c) = cn_joinedChannels c"
    "cn_joinedRoles (queued E f c) = cn_joinedRoles c" "cn_id (queued E f c) = cn_id c" "cn_authed (queued E f c) = cn_authed c"
    "cn_tenantID (queued E f c) = cn_tenantID c" "cn_accountID (queued E f c) = cn_accountID c" "cn_closeOnce (queued E f c) = cn_closeOnce c"
  by (simp_all add: queued_def split: sum.split)

lemma send_fields [simp]:
  "sv_channels (sendFrame E i f s) = sv_channels s" "sv_store (sendFrame E i f s) = sv_store s"
  "sv_webhooks (sendFrame E i f s) = sv_webhooks s" "sv_history (sendFrame E i f s) = sv_history s"
  "members_of (sendFrame E i f s) = members_of s"
  by (auto simp: sendFrame_def enqueue_conn_def split: sum.split)

section \<open>Samples\<close>

text \<open>
  A server with one tenant, a human with a token, a bot, and a private channel whose operator is the human; and
  the runs in which connection 7 logs in and joins while connection 8 stays unauthenticated.
\<close>

definition chat_store :: store where
  "chat_store = login_store
     \<lparr>st_accounts := st_accounts login_store @ [\<lparr>acc_ID = 21, acc_TenantID = 1, acc_Username = ''bot'', acc_DisplayName = ''Bot'',
        acc_Type = AccountBot, acc_PasswordHash = [], acc_PasswordSalt = [], acc_PasswordParams = '''', acc_RecoveryEmail = '''', acc_CreatedAt = 0\<rparr>],
      st_tokens := [\<lparr>tok_ID = 40, tok_TenantID = 1, tok_AccountID = 20, tok_Hash = ''tok'', tok_Label = ''ci'', tok_CreatedAt = 0,
        tok_LastUsedAt = 0, tok_RevokedAt = 0\<rparr>],
      st_channels := [\<lparr>chn_ID = 3, chn_TenantID = 1, chn_Name = ''ops'', chn_OwnerID = 20, chn_Visibility = ChannelPrivate, chn_CreatedAt = 0\<rparr>],
      st_acl := [\<lparr>acl_TenantID = 1, acl_ChannelID = 3, acl_AccountID = 20, acl_Role = RoleChannelOp, acl_GrantedAt = 0, acl_GrantedBy = 20\<rparr>]\<rparr>"

definition chat_env :: env where
  "chat_env = \<lparr>e_codec = \<lparr>fmt_time = (\<lambda>t. if t = 0 then Some ''1970-01-01T00:00:00Z'' else None),
       parse_time = (\<lambda>s. if s = ''1970-01-01T00:00:00Z'' then Some 0 else None), num64 = Some\<rparr>,
     e_sub = \<lparr>lib_uuid_Parse = (\<lambda>s. if s = ''bot'' then Some 21 else None), lib_url_Parse = (\<lambda>_. None), lib_regexp = (\<lambda>_. None)\<rparr>,
     e_uuid_String = (\<lambda>_. ''u''), e_sha256 = id, e_b64 = id, e_b64dec = Some, e_b64raw = id, e_errText = (\<lambda>_. ''''),
     e_now = (\<lambda>_. 0), e_rand = Some ''r'', e_newV7 = Some 50, e_fireV7 = (\<lambda>_. None)\<rparr>"

definition chat_start :: Server where
  "chat_start = \<lparr>sv_store = chat_store, sv_tenants = newService, sv_channels = NewRegistry,
     sv_webhooks = Some (NewManager \<lparr>cf_Workers = 0, cf_QueueDepth = 0, cf_HTTPTimeout = 0, cf_MaxRetries = 0, cf_AutoDisable4xx = 0\<rparr>),
     sv_history = Some newHistoryWriter, sv_name = ''prmd'', sv_version = ''0.0.0-dev'', sv_conns = Map.empty, sv_touches = []\<rparr>"

definition chat_open :: Server where
  "chat_open = accept 8 (accept 7 chat_start)"

definition chat_login :: Frame where
  "chat_login = FAuthRequest \<lparr>aq_ID = '''', aq_Method = AuthMethodToken, aq_Tenant = '''', aq_Username = '''', aq_Token = ''tok''\<rparr>"

definition chat_authed :: Server where
  "chat_authed = dispatch chat_env (newConn 7) chat_login chat_open"

lemma chat_open_reachable: "reachable chat_open"
proof -
  have "newServer \<lparr>scf_Addr = '':1'', scf_Certificates = Some [''c''], scf_Store = Some chat_store, scf_Name = '''', scf_Version = '''',
      scf_WebhookMgr = sv_webhooks chat_start\<rparr> = Inr chat_start"
    by (simp add: newServer_def chat_start_def)
  then have "reachable chat_start" by (rule reachable.started)
  then have "reachable (accept 7 chat_start)" by (rule reachable.stepped) (rule server_step.accepted, simp add: chat_start_def)
  then show ?thesis unfolding chat_open_def
    by (rule reachable.stepped) (rule server_step.accepted, simp add: chat_start_def accept_def)
qed

lemma chat_authed_reachable: "reachable chat_authed"
  unfolding chat_authed_def
  by (rule reachable.stepped [OF chat_open_reachable], rule server_step.received [of _ 7])
    (simp_all add: chat_open_def accept_def newConn_def)

lemma chat_login_ok: "AuthenticateToken (e_sha256 chat_env) ''tok'' (sv_store chat_open)
    = Inr (AuthOK login_account login_tenant, Some (scanToken (hd (st_tokens chat_store))))"
  by (simp add: AuthenticateToken_def chat_env_def chat_open_def accept_def chat_start_def chat_store_def GetTokenByHash_def login_eval
      scanToken_def scan_nullable_def)

definition chat_conn :: Conn where
  "chat_conn = the (sv_conns chat_authed 7)"

lemma chat_conn_facts:
  "sv_conns chat_authed 7 = Some chat_conn" "sv_conns chat_authed 8 = Some (newConn 8)"
  "cn_id chat_conn = 7" "cn_authed chat_conn" "cn_tenantID chat_conn = 1" "cn_accountID chat_conn = 20" "\<not> cn_closeOnce chat_conn"
  "sv_store chat_authed = chat_store" "sv_channels chat_authed = NewRegistry" "sv_history chat_authed = Some newHistoryWriter"
proof -
  have d: "chat_authed = authenticate chat_env (newConn 7) '''' login_account login_tenant (chat_open\<lparr>sv_touches := [40]\<rparr>)"
    unfolding chat_authed_def chat_login_def
    by (simp add: dispatch_def handleAuthRequest_def handleTokenAuthRequest_def AuthMethodPassword_def AuthMethodToken_def newConn_def
        chat_login_ok) (simp add: chat_open_def accept_def chat_start_def chat_store_def scanToken_def)
  show "sv_conns chat_authed 7 = Some chat_conn" "sv_conns chat_authed 8 = Some (newConn 8)"
    "cn_id chat_conn = 7" "cn_authed chat_conn" "cn_tenantID chat_conn = 1" "cn_accountID chat_conn = 20" "\<not> cn_closeOnce chat_conn"
    "sv_store chat_authed = chat_store" "sv_channels chat_authed = NewRegistry" "sv_history chat_authed = Some newHistoryWriter"
    by (simp_all add: chat_conn_def d authenticate_def sv_conns_send with_conn_at chat_open_def accept_def chat_start_def
        login_account_def login_tenant_def newConn_def)
qed

section \<open>Properties\<close>

text \<open>
  Property C21. In every state the server reaches, the registry and its channels are well formed, every queue
  is within its bound (1024 frames outbound, 4 pongs, 4096 history records), an unauthenticated connection has joined
  nothing, and every member of a channel is an authenticated connection of that channel's tenant that is not closed.
\<close>

theorem reachable_server_ok: "reachable s \<Longrightarrow> server_ok s"
  by (rule server_reachable_ok)

theorem reachable_server_ok_witness: "server_ok chat_authed"
  by (rule reachable_server_ok [OF chat_authed_reachable])

text \<open>
  Property C2. Tenants are confined on the live path: whatever frame an authenticated connection sends, a connection
  of another tenant, and one that is not authenticated, is left exactly as it was; a connection of the same tenant gets at
  most frames queued; no channel of another tenant changes; and the sender keeps its identity.
\<close>

theorem tenant_confinement:
  assumes "reachable s" and "sv_conns s i = Some c" and "cn_authed c" and "\<not> cn_closeOnce c"
  shows "(\<forall>j d. j \<noteq> i \<longrightarrow> sv_conns s j = Some d \<longrightarrow> (\<exists>d'. sv_conns (dispatch E c f s) j = Some d' \<and> ident d' = ident d
           \<and> (d' = d \<or> cn_authed d \<and> cn_tenantID d = cn_tenantID c)))
    \<and> (\<forall>t k. t \<noteq> cn_tenantID c \<longrightarrow> Get t k (sv_channels (dispatch E c f s)) = Get t k (sv_channels s))
    \<and> (\<exists>c'. sv_conns (dispatch E c f s) i = Some c' \<and> who c' = who c)"
proof -
  have ok: "server_ok s" by (rule server_reachable_ok [OF assms(1)])
  then have i: "cn_id c = i" using server_okD(3) [OF _ assms(2)] by (simp add: conn_ok_def)
  have "seated c s" using assms i by (simp add: seated_def)
  with ok acts_dispatch [OF assms(3), of s E f] i
  have s': "seated c (dispatch E c f s)" "confined (cn_tenantID c) i s (dispatch E c f s)" by (simp_all add: acts_def)
  have "\<exists>d'. sv_conns (dispatch E c f s) j = Some d' \<and> only_queue (cn_tenantID c) d d'" if "j \<noteq> i" "sv_conns s j = Some d" for j d
    using s'(2) that unfolding confined_def by (metis option_rel_Some1)
  with s' i show ?thesis by (auto simp: confined_def seated_def only_queue_def)
qed

theorem tenant_confinement_witness:
  "sv_conns (dispatch chat_env chat_conn (FJoin \<lparr>jn_ID = '''', jn_Channel = ''ops''\<rparr>) chat_authed) 8 = Some (newConn 8)"
proof -
  let ?f = "FJoin \<lparr>jn_ID = '''', jn_Channel = ''ops''\<rparr>"
  note * = tenant_confinement [OF chat_authed_reachable chat_conn_facts(1,4,7), of chat_env ?f, THEN conjunct1, rule_format,
    OF _ chat_conn_facts(2)]
  have "\<exists>d'. sv_conns (dispatch chat_env chat_conn ?f chat_authed) 8 = Some d' \<and> (d' = newConn 8 \<or> cn_authed (newConn 8))"
    using * by auto
  then show ?thesis by (auto simp: newConn_def)
qed


subsection \<open>Authentication\<close>

definition accepted_as :: "env \<Rightarrow> Conn \<Rightarrow> Frame \<Rightarrow> store \<Rightarrow> Account \<Rightarrow> Tenant \<Rightarrow> bool" where
  "accepted_as E c f st acc ten \<longleftrightarrow>
     (\<exists>r tok. f = FAuthRequest r \<and> aq_Method r = AuthMethodToken \<and> AuthenticateToken (e_sha256 E) (aq_Token r) st = Inr (AuthOK acc ten, tok))
     \<or> (\<exists>r ch. f = FAuthResponse r \<and> cn_pendingChal c = Some ch \<and> CompletePasswordAuth (e_b64dec E) ch (ar_Proof r) st = Inr (AuthOK acc ten))"

text \<open>The step leaves the connection unauthenticated, or the frame was accepted as that identity.\<close>

definition login_step :: "env \<Rightarrow> Conn \<Rightarrow> Frame \<Rightarrow> Server \<Rightarrow> Server \<Rightarrow> bool" where
  "login_step E c f s s' \<longleftrightarrow> (\<forall>c'. sv_conns s' (cn_id c) = Some c' \<longrightarrow> cn_authed c' \<longrightarrow>
     (\<exists>acc ten. accepted_as E c f (sv_store s) acc ten \<and> cn_tenantID c' = ten_ID ten \<and> cn_accountID c' = acc_ID acc
        \<and> cn_displayName c' = acc_DisplayName acc))"

lemma login_step_send: "login_step E c f s (sendFrame E' (cn_id c) g s') \<longleftrightarrow> login_step E c f s s'"
  using who_queued(1) by (fastforce simp: login_step_def sv_conns_send who_def)

lemma login_step_quiet:
  "sv_conns s (cn_id c) = Some c \<Longrightarrow> \<not> cn_authed c \<Longrightarrow> login_step E c f s s"
  "sv_conns s (cn_id c) = Some c \<Longrightarrow> \<not> cn_authed c \<Longrightarrow> login_step E c f s (with_conn (cn_id c) (\<lambda>d. d\<lparr>cn_pendingChal := ch\<rparr>) s)"
  "sv_conns s (cn_id c) = Some c \<Longrightarrow> \<not> cn_authed c \<Longrightarrow> login_step E c f s (with_conn (cn_id c) (offerPong tok) s)"
  by (auto simp: login_step_def with_conn_at offerPong_def)

lemma login_step_authenticate:
  "accepted_as E c f (sv_store s) acc ten \<Longrightarrow> login_step E c f s (authenticate E c q acc ten s')"
  unfolding authenticate_def login_step_send
  by (auto simp: login_step_def with_conn_at intro!: exI [of _ acc] exI [of _ ten])

lemma login_step_dispatch:
  assumes "sv_conns s (cn_id c) = Some c" and "\<not> cn_authed c"
  shows "login_step E c f s (dispatch E c f s)"
proof (cases f)
  case (FAuthRequest r)
  then show ?thesis using assms
    by (auto simp: dispatch_def handleAuthRequest_def handlePasswordAuthRequest_def handleTokenAuthRequest_def sendAuthErr_def
        login_step_send login_step_quiet accepted_as_def intro!: login_step_authenticate
        split: sum.split prod.split auth_result.split)
next
  case (FAuthResponse r)
  then show ?thesis using assms
    by (auto simp: dispatch_def handleAuthResponse_def sendAuthErr_def Let_def
        login_step_send login_step_quiet accepted_as_def intro!: login_step_authenticate
        split: sum.split option.split auth_result.split)
qed (use assms in \<open>auto simp: dispatch_def handleHello_def handlePing_def handlePong_def sendError_def login_step_send login_step_quiet\<close>)

text \<open>
  Property C3. Before it has authenticated a connection acts on nothing but itself: whatever it sends, the store, the
  channels, the webhook manager, the history queue and every other connection stay as they are, and it becomes
  authenticated only by a token that \<^verbatim>\<open>AuthenticateToken\<close> accepts or a proof that completes its pending challenge, and
  then as exactly that account of that tenant.
\<close>

theorem unauthenticated_acts_on_itself:
  assumes "reachable s" and "sv_conns s i = Some c" and "\<not> cn_authed c"
  shows "(\<forall>j. j \<noteq> i \<longrightarrow> sv_conns (dispatch E c f s) j = sv_conns s j)
    \<and> sv_store (dispatch E c f s) = sv_store s \<and> sv_channels (dispatch E c f s) = sv_channels s
    \<and> sv_webhooks (dispatch E c f s) = sv_webhooks s \<and> sv_history (dispatch E c f s) = sv_history s
    \<and> (\<forall>c'. sv_conns (dispatch E c f s) i = Some c' \<longrightarrow> cn_authed c' \<longrightarrow>
         (\<exists>acc ten. accepted_as E c f (sv_store s) acc ten \<and> cn_tenantID c' = ten_ID ten \<and> cn_accountID c' = acc_ID acc
            \<and> cn_displayName c' = acc_DisplayName acc))"
proof -
  have i: "cn_id c = i"
    using server_okD(3) [OF server_reachable_ok [OF assms(1)] assms(2)] by (simp add: conn_ok_def)
  then show ?thesis
    using own_only_dispatch [OF assms(3), of s E f] login_step_dispatch [of s c E f] assms(2,3)
    by (simp add: own_only_def login_step_def)
qed

theorem unauthenticated_acts_on_itself_witness:
  "accepted_as chat_env (newConn 7) chat_login chat_store login_account login_tenant
   \<and> sv_conns (dispatch chat_env (newConn 7) chat_login chat_open) 8 = Some (newConn 8)
   \<and> sv_store (dispatch chat_env (newConn 7) chat_login chat_open) = chat_store"
proof -
  have "sv_conns chat_open 7 = Some (newConn 7)" "\<not> cn_authed (newConn 7)" "sv_store chat_open = chat_store"
    "sv_conns chat_open 8 = Some (newConn 8)"
    by (simp_all add: chat_open_def accept_def newConn_def chat_start_def)
  then show ?thesis
    using unauthenticated_acts_on_itself [OF chat_open_reachable, of 7 "newConn 7" chat_env chat_login] chat_login_ok
    by (auto simp: accepted_as_def chat_login_def)
qed

subsection \<open>Who enters a channel\<close>

text \<open>A step after which no channel has a new member.\<close>

definition no_new :: "Server \<Rightarrow> Server \<Rightarrow> bool" where
  "no_new s s' \<longleftrightarrow> (reg_ok (sv_channels s) \<longrightarrow> reg_ok (sv_channels s') \<and> (\<forall>t k. members_of s' t k \<subseteq> members_of s t k))"

lemma no_new_refl [simp]: "no_new s s"
  by (simp add: no_new_def)

lemma no_new_trans: "no_new s s' \<Longrightarrow> no_new s' s'' \<Longrightarrow> no_new s s''"
  unfolding no_new_def by (meson order_trans)

lemma no_new_same: "sv_channels s' = sv_channels s \<Longrightarrow> no_new s s'"
  by (simp add: no_new_def members_of_def)

lemma no_new_on_chan: "(\<And>i. chan_fun i f) \<Longrightarrow> no_new s (on_chan t k f s)"
  using members_of_on_chan [of s "m + 1" f m t k for m] reg_ok_on_chan [of s 0 f t k] by (fastforce simp: no_new_def)

lemma channels_simps [simp]:
  "sv_channels (sendError E i r d q s) = sv_channels s" "sv_channels (history_enqueue m s) = sv_channels s"
  "sv_channels (notify_webhooks E n ev s) = sv_channels s" "sv_channels (recordChanopAudit E c k t a r s) = sv_channels s"
  "sv_channels (put_world w s) = sv_channels s" "sv_channels (sendSubopsError E c e q s) = sv_channels s"
  by (auto simp: sendError_def history_enqueue_def notify_webhooks_def recordChanopAudit_def put_world_def sendSubopsError_def Let_def
      split: option.split sum.split prod.split)


lemma no_new_send [simp]:
  "no_new s (sendFrame E i f s') \<longleftrightarrow> no_new s s'" "no_new s (sendError E i r d q s') \<longleftrightarrow> no_new s s'"
  "no_new s (history_enqueue m s') \<longleftrightarrow> no_new s s'" "no_new s (notify_webhooks E n ev s') \<longleftrightarrow> no_new s s'"
  "no_new s (recordChanopAudit E c k t a r s') \<longleftrightarrow> no_new s s'" "no_new s (with_conn i g s') \<longleftrightarrow> no_new s s'"
  "no_new s (broadcast t k b s') \<longleftrightarrow> no_new s s'" "no_new s (put_world w s') \<longleftrightarrow> no_new s s'"
  "no_new s (sendSubopsError E c e q s') \<longleftrightarrow> no_new s s'" "no_new s (s'\<lparr>sv_store := st\<rparr>) \<longleftrightarrow> no_new s s'"
  "no_new s (s'\<lparr>sv_webhooks := wh\<rparr>) \<longleftrightarrow> no_new s s'"
  by (simp_all add: no_new_def members_of_def)

lemma no_new_append: "no_new s s' \<Longrightarrow> no_new s (on_chan t k (AppendHistory e) s')"
  by (rule no_new_trans [OF _ no_new_on_chan]) simp_all

lemma no_new_remove: "no_new s s' \<Longrightarrow> no_new s (on_chan t k (\<lambda>ch. fst (RemoveMember m ch)) s')"
  by (rule no_new_trans [OF _ no_new_on_chan]) simp_all

lemma no_new_system_msg: "no_new s s' \<Longrightarrow> no_new s (emitChanopSystemMsg E c n k b s')"
  by (simp add: emitChanopSystemMsg_def Let_def no_new_append split: option.split sum.split)

lemma no_new_resolve: "resolveChanopTarget E c i n b s = Inl s' \<Longrightarrow> no_new s s'"
  by (auto simp: resolveChanopTarget_def Let_def split: if_splits option.splits sum.splits)

lemma no_new_requireBot: "requireBot E c i s = Inl s' \<Longrightarrow> no_new s s'"
  by (auto simp: requireBot_def split: if_splits sum.splits)

lemma no_new_chanop: "no_new s s' \<Longrightarrow> no_new s (chanop_effects E c i n tg ch p a v r s')"
  by (simp add: chanop_effects_def Let_def no_new_system_msg)

lemma no_new_dispatch:
  assumes "\<forall>j. f \<noteq> FJoin j" and "cn_authed c"
  shows "no_new s (dispatch E c f s)"
proof -
  have "no_new s (handleChanopPauseBot E c v s)" "no_new s (handleChanopResumeBot E c v' s)" for v v'
    by (auto simp: handleChanopPauseBot_def handleChanopResumeBot_def Let_def no_new_resolve no_new_chanop split: sum.split prod.split)
  moreover have "no_new s (handleSubscriptionCreate E c m1 s)" "no_new s (handleSubscriptionList E c m2 s)" "no_new s (handleSubscriptionGet E c m3 s)"
    "no_new s (handleSubscriptionUpdate E c m4 s)" "no_new s (handleSubscriptionDelete E c m5 s)" for m1 m2 m3 m4 m5
    by (auto simp: handleSubscriptionCreate_def handleSubscriptionList_def handleSubscriptionGet_def handleSubscriptionUpdate_def
        handleSubscriptionDelete_def no_new_requireBot split: sum.split prod.split option.split)
  moreover have "no_new s (handleMsg E c m s)" "no_new s (handlePart E c p s)" "no_new s (handleChatHistory E c q s)"
    "no_new s (handleMembers E c r s)" for m p q r
    by (simp_all add: handleMsg_def handlePart_def handleChatHistory_def handleMembers_def Let_def no_new_append no_new_remove
        split: sum.split prod.split option.split)
  ultimately show ?thesis using assms by (cases f) (simp_all add: dispatch_def handlePing_def handlePong_def)
qed

lemma enter_members:
  assumes "reg_ok (sv_channels s)" and "m \<in> members_of (enter_channel E c n k r s) t' k'" and "m \<notin> members_of s t' k'"
  shows "m = cn_id c \<and> t' = cn_tenantID c \<and> k' = k"
proof -
  define s1 where "s1 = with_conn (cn_id c) (\<lambda>d. d\<lparr>cn_joinedChannels := AList.update n k (cn_joinedChannels d),
    cn_joinedRoles := AList.update n r (cn_joinedRoles d)\<rparr>) s"
  define s2 where "s2 = s1\<lparr>sv_channels := fst (GetOrCreate (cn_tenantID c) k n (sv_channels s1))\<rparr>"
  have reg: "reg_ok (sv_channels s1)" using assms(1) by (simp add: s1_def)
  then have s2: "reg_ok (sv_channels s2)" "members_of s2 = members_of s"
    using members_of_GetOrCreate [OF reg] by (simp_all add: s2_def reg_ok_GetOrCreate) (simp add: s1_def)
  have "m \<in> members_of (on_chan (cn_tenantID c) k (\<lambda>ch. fst (AddMember (cn_id c) ch)) s2) t' k'"
    using assms(2) by (simp add: enter_channel_def Let_def s1_def [symmetric] s2_def [symmetric] split: if_splits)
  then show ?thesis
    using members_of_on_chan [OF s2(1) chan_fun_ops(2), of m "cn_tenantID c" k "cn_id c" t' k'] assms(3) unfolding s2(2) by simp
qed

text \<open>
  Property C4. The access list is enforced at the door: in every reachable state, if handling a frame makes a connection
  a member of a channel it was not in, then the frame is a join by that connection itself of a channel its own tenant
  has under that name, and the channel is public or its access list gives the account a role that may join.
\<close>

theorem join_requires_permission:
  assumes "reachable s" and "sv_conns s i = Some c" and "\<not> cn_closeOnce c"
    and "m \<in> members_of (dispatch E c f s) t k" and "m \<notin> members_of s t k"
  shows "cn_authed c \<and> m = i \<and> t = cn_tenantID c \<and> (\<exists>j row. f = FJoin j \<and> GetChannelByName t (jn_Channel j) (sv_store s) = Inr row
    \<and> k = chn_ID row \<and> (chn_Visibility row = ChannelPublic
       \<or> chn_Visibility row = ChannelPrivate \<and> (\<exists>e. GetChannelACL t k (cn_accountID c) (sv_store s) = Inr e \<and> CanJoin (acl_Role e))))"
proof -
  have ok: "server_ok s" by (rule server_reachable_ok [OF assms(1)])
  then have i: "cn_id c = i" using server_okD(3) [OF _ assms(2)] by (simp add: conn_ok_def)
  have authed: "cn_authed c"
    using own_only_dispatch [of c s E f] assms(4,5) unfolding own_only_def members_of_def by metis
  then obtain j where f: "f = FJoin j"
    using no_new_dispatch [of f c s E] server_okD(1) [OF ok] assms(4,5) by (auto simp: no_new_def)
  then have j: "m \<in> members_of (handleJoin E c j s) t k" using assms(4) authed by (simp add: dispatch_def)
  then obtain row where row: "GetChannelByName (cn_tenantID c) (jn_Channel j) (sv_store s) = Inr row"
    and can: "fst (canJoin (cn_tenantID c) row (cn_accountID c) (sv_store s))"
    using assms(5) by (auto simp: handleJoin_def sendError_def split: if_splits sum.splits prod.splits)
  obtain r where "m \<in> members_of (enter_channel E c (jn_Channel j) (chn_ID row) r s) t k"
    using j row can assms(5) by (auto simp: handleJoin_def sendError_def split: if_splits prod.splits)
  from enter_members [OF server_okD(1) [OF ok] this assms(5)] i row can authed f show ?thesis
    by (auto simp: canJoin_def split: if_splits sum.splits)
qed


definition chat_join :: Frame where
  "chat_join = FJoin \<lparr>jn_ID = '''', jn_Channel = ''ops''\<rparr>"

definition chat_joined :: Server where
  "chat_joined = dispatch chat_env chat_conn chat_join chat_authed"

lemma chat_joined_reachable: "reachable chat_joined"
  unfolding chat_joined_def
  by (rule reachable.stepped [OF chat_authed_reachable], rule server_step.received [of _ 7]) (simp_all add: chat_conn_facts)

lemmas chat_store_eval = chat_store_def login_eval GetChannelByName_def scanChannel_def GetChannelACL_def scanChannelACL_def
  GetChannelByID_def ChannelPrivate_def ChannelPublic_def

lemma chat_store_facts:
  "\<exists>row. GetChannelByName 1 ''ops'' chat_store = Inr row \<and> chn_ID row = 3 \<and> chn_Visibility row = ChannelPrivate"
  "\<exists>e. GetChannelACL 1 3 20 chat_store = Inr e \<and> acl_Role e = RoleChannelOp"
  by (simp_all add: chat_store_eval)

lemma chat_joined_enter: "chat_joined = enter_channel chat_env chat_conn ''ops'' 3 RoleChannelOp chat_authed"
proof -
  obtain row e where *: "GetChannelByName 1 ''ops'' chat_store = Inr row" "chn_ID row = 3" "chn_Visibility row = ChannelPrivate"
    "GetChannelACL 1 3 20 chat_store = Inr e" "acl_Role e = RoleChannelOp" using chat_store_facts by blast
  then have "canJoin 1 row 20 chat_store = (True, '''')"
    by (simp add: canJoin_def ChannelPrivate_def ChannelPublic_def CanJoin_def)
  with * show ?thesis
    by (simp add: chat_joined_def chat_join_def dispatch_def chat_conn_facts handleJoin_def)
qed

lemma chat_joined_facts:
  "members_of chat_joined 1 3 = {7}" "sv_store chat_joined = chat_store" "sv_history chat_joined = Some newHistoryWriter"
  "\<exists>c. sv_conns chat_joined 7 = Some c \<and> who c = who chat_conn \<and> map_of (cn_joinedChannels c) ''ops'' = Some 3
     \<and> map_of (cn_joinedRoles c) ''ops'' = Some RoleChannelOp"
proof -
  define s1 where "s1 = with_conn 7 (\<lambda>d. d\<lparr>cn_joinedChannels := AList.update ''ops'' 3 (cn_joinedChannels d),
    cn_joinedRoles := AList.update ''ops'' RoleChannelOp (cn_joinedRoles d)\<rparr>) chat_authed"
  define s2 where "s2 = on_chan 1 3 (\<lambda>ch. fst (AddMember 7 ch)) (s1\<lparr>sv_channels := fst (GetOrCreate 1 3 ''ops'' NewRegistry)\<rparr>)"
  have ch: "snd (GetOrCreate 1 3 ''ops'' NewRegistry) = newChannel 1 3 ''ops''"
    by (simp add: snd_GetOrCreate Get_flat flat_NewRegistry)
  have s: "chat_joined = broadcast 1 3 (presence chat_env chat_conn ''ops'' PresenceJoin) s2"
    unfolding chat_joined_enter enter_channel_def Let_def chat_conn_facts with_conn_fields s2_def s1_def ch
    by (simp add: AddMember_def newChannel_def)
  have reg: "reg_ok (fst (GetOrCreate 1 3 ''ops'' NewRegistry))" by (simp add: reg_ok_GetOrCreate reg_ok_NewRegistry)
  then have g: "Get 1 3 (sv_channels s2) = Some (fst (AddMember 7 (newChannel 1 3 ''ops'')))"
    by (simp add: s2_def Get_on_chan Get_GetOrCreate reg_ok_NewRegistry ch)
  have regs: "reg_ok (sv_channels s2)" unfolding s2_def by (rule reg_ok_on_chan [OF _ chan_fun_ops(2)]) (simp add: reg)
  show "members_of chat_joined 1 3 = {7}" by (simp add: s) (simp add: members_of_def g newChannel_def)
  show "sv_store chat_joined = chat_store" "sv_history chat_joined = Some newHistoryWriter"
    by (simp_all add: s s2_def s1_def chat_conn_facts)
  have "sv_conns s2 7 = sv_conns s1 7" by (simp add: s2_def)
  also have "\<dots> = Some (chat_conn\<lparr>cn_joinedChannels := AList.update ''ops'' 3 (cn_joinedChannels chat_conn),
      cn_joinedRoles := AList.update ''ops'' RoleChannelOp (cn_joinedRoles chat_conn)\<rparr>)"
    by (simp add: s1_def with_conn_at chat_conn_facts)
  finally show "\<exists>c. sv_conns chat_joined 7 = Some c \<and> who c = who chat_conn \<and> map_of (cn_joinedChannels c) ''ops'' = Some 3
      \<and> map_of (cn_joinedRoles c) ''ops'' = Some RoleChannelOp"
    by (simp add: s broadcast_conns [OF regs] update_conv' who_def)
qed

theorem join_requires_permission_witness:
  "7 \<in> members_of (dispatch chat_env chat_conn chat_join chat_authed) 1 3 \<and> 7 \<notin> members_of chat_authed 1 3
   \<and> (\<exists>e. GetChannelACL 1 3 20 chat_store = Inr e \<and> CanJoin (acl_Role e))"
proof -
  have m: "7 \<in> members_of (dispatch chat_env chat_conn chat_join chat_authed) 1 3" "7 \<notin> members_of chat_authed 1 3"
    using chat_joined_facts(1) by (simp_all add: chat_joined_def [symmetric]) (simp add: members_of_def chat_conn_facts Get_flat flat_NewRegistry)
  from join_requires_permission [OF chat_authed_reachable chat_conn_facts(1,7) m] chat_store_facts(1) m show ?thesis
    by (auto simp: chat_conn_facts chat_join_def ChannelPrivate_def ChannelPublic_def)
qed

end
