(* ===== verification/Server_Messages.thy ===== *)
theory Server_Messages
  imports Server_Runs "HOL-Library.Sublist"
begin

text \<open>
  What the handlers of the realtime server achieve: a message reaches exactly the members of its channel with the
  sender stamped by the server, moderation is authorized and audited, the history writer loses nothing
  unaccounted, and the roster of a channel is exact and sorted.
\<close>

section \<open>Messages\<close>

definition sent_msg :: "env \<Rightarrow> Conn \<Rightarrow> Msg \<Rightarrow> Msg" where
  "sent_msg E c m = \<lparr>mg_ID = '''', mg_Channel = mg_Channel m, mg_To = '''', mg_From = e_uuid_String E (cn_accountID c),
     mg_FromRole = displayFromRole (joined_role c (mg_Channel m)), mg_TS = e_now E 0, mg_Body = mg_Body m\<rparr>"

lemma notify_fields [simp]:
  "sv_conns (notify_webhooks E n ev s) = sv_conns s" "sv_history (notify_webhooks E n ev s) = sv_history s"
  by (auto simp: notify_webhooks_def Let_def split: option.split prod.split)

lemma history_fields [simp]:
  "sv_conns (history_enqueue m s) = sv_conns s" "sv_history (history_enqueue m s) = map_option (hw_enqueue m) (sv_history s)"
  by (simp_all add: history_enqueue_def)

text \<open>
  Property C6. A message an authenticated connection sends to a channel it has joined is encoded once, and that one
  line is queued for exactly the connections that are members of the channel; it is appended to the channel's history
  ring and offered to the history writer; and what a recipient decodes names the sender's own account, the role cached at
  the join and the server's clock, whatever the sender wrote into those fields.
\<close>

theorem message_fanout:
  assumes "reachable s" and "sv_conns s i = Some c" and "cn_authed c" and "mg_Channel m \<noteq> ''''" and "mg_Body m \<noteq> ''''"
    and k: "map_of (cn_joinedChannels c) (mg_Channel m) = Some k" and ch: "Get (cn_tenantID c) k (sv_channels s) = Some ch"
    and b: "EncodeBytes (e_codec E) '''' (FMsg (sent_msg E c m)) = Inr b" and "time_ok (e_codec E)" and "num_ok (e_codec E)"
    and "length b \<le> MaxFrameSize"
  shows "(\<forall>j. sv_conns (dispatch E c (FMsg m) s) j =
           (if j \<in> set (ch_members ch) then map_option (Enqueue b) (sv_conns s j) else sv_conns s j))
    \<and> Get (cn_tenantID c) k (sv_channels (dispatch E c (FMsg m) s)) = Some (AppendHistory \<lparr>he_From = cn_accountID c,
        he_DisplayName = cn_displayName c, he_TS = e_now E 0, he_Body = mg_Body m\<rparr> ch)
    \<and> sv_history (dispatch E c (FMsg m) s) =
        map_option (hw_enqueue (newStoredMessage (cn_tenantID c) k (cn_accountID c) (mg_Body m) (e_now E 0))) (sv_history s)
    \<and> Decode (e_codec E) (b @ rest) = (Inr (FMsg (sent_msg E c m)), rest)"
proof -
  have reg: "reg_ok (sv_channels s)" by (rule server_okD(1) [OF server_reachable_ok [OF assms(1)]])
  have "\<exists>n ev. dispatch E c (FMsg m) s = notify_webhooks E n ev
      (history_enqueue (newStoredMessage (cn_tenantID c) k (cn_accountID c) (mg_Body m) (e_now E 0))
        (on_chan (cn_tenantID c) k (AppendHistory \<lparr>he_From = cn_accountID c, he_DisplayName = cn_displayName c,
           he_TS = e_now E 0, he_Body = mg_Body m\<rparr>) (broadcast (cn_tenantID c) k b s)))"
    using assms(3-5) k ch b by (simp add: dispatch_def handleMsg_def sent_msg_def Let_def) blast
  moreover have "members_of s (cn_tenantID c) k = set (ch_members ch)" using ch by (simp add: members_of_def)
  ultimately show ?thesis
    using encoded_decodes [OF assms(9,10) _ _ b, of rest] assms(11) reg ch
    by (auto simp: broadcast_conns Get_on_chan)
qed

definition chat_member :: Conn where
  "chat_member = the (sv_conns chat_joined 7)"

lemma chat_member_facts:
  "sv_conns chat_joined 7 = Some chat_member" "who chat_member = who chat_conn"
  "map_of (cn_joinedChannels chat_member) ''ops'' = Some 3" "joined_role chat_member ''ops'' = RoleChannelOp"
  using chat_joined_facts(4) by (auto simp: chat_member_def joined_role_def)

lemma chat_member_who: "cn_id chat_member = 7" "cn_authed chat_member" "cn_tenantID chat_member = 1" "cn_accountID chat_member = 20"
    "\<not> cn_closeOnce chat_member"
  using chat_member_facts(2) chat_conn_facts by (auto simp: who_def)

definition chat_msg :: Msg where
  "chat_msg = \<lparr>mg_ID = '''', mg_Channel = ''ops'', mg_To = '''', mg_From = ''forged'', mg_FromRole = '''', mg_TS = 9, mg_Body = ''hi''\<rparr>"

definition chat_line :: bytes where
  "chat_line = print_json (JObj [(''body'', JStr ''hi''), (''channel'', JStr ''ops''), (''from'', JStr ''u''),
     (''from_role'', JStr ''channel_op''), (''ts'', JStr ''1970-01-01T00:00:00Z''), (''type'', JStr ''msg'')])"

lemma chat_codec: "e_codec chat_env = sample_codec"
  by (simp add: chat_env_def sample_codec_def)

lemma chat_sent: "sent_msg chat_env chat_member chat_msg = \<lparr>mg_ID = '''', mg_Channel = ''ops'', mg_To = '''', mg_From = ''u'',
    mg_FromRole = ''channel_op'', mg_TS = 0, mg_Body = ''hi''\<rparr>"
  by (simp add: sent_msg_def chat_msg_def chat_member_facts displayFromRole_def go_simps chat_env_def)

lemma chat_encodes: "EncodeBytes (e_codec chat_env) '''' (FMsg (sent_msg chat_env chat_member chat_msg)) = Inr (chat_line @ [CHR 0x0A])"
proof -
  let ?f = "sent_msg chat_env chat_member chat_msg"
  obtain t where t: "enc_frame sample_codec (FMsg ?f) = Some t"
    by (simp add: chat_sent enc_Msg_def sample_codec_def Frames.fields_def m_str_o_def m_str_def m_text_def m_time_def)
  have "wires (Some t) [(''id'', o_str (mg_ID ?f)), (''channel'', o_str (mg_Channel ?f)), (''to'', o_str (mg_To ?f)),
      (''from'', o_str (mg_From ?f)), (''from_role'', o_str (mg_FromRole ?f)),
      (''ts'', Some (JStr (the (fmt_time sample_codec (mg_TS ?f))))), (''body'', Some (JStr (mg_Body ?f)))] (dec_Msg sample_codec) ?f"
    using wire_Msg [OF sample_codec_ok(1), of ?f] t by simp
  from marshal_unstamped [OF sample_codec_ok(2) t this]
  have "marshalWithType sample_codec '''' (FMsg ?f) = Inr chat_line"
    by (simp add: chat_sent o_str_def segs.simps sort_members_def sample_codec_def chat_line_def del: print_json.simps)
  moreover have "length chat_line \<le> MaxFrameSize"
    by (simp add: chat_line_def MaxFrameSize_def print_str_def code_def)
  ultimately show ?thesis by (simp add: EncodeBytes_def chat_codec)
qed

theorem message_fanout_witness:
  "sv_conns (dispatch chat_env chat_member (FMsg chat_msg) chat_joined) 7 = Some (Enqueue (chat_line @ [CHR 0x0A]) chat_member)
   \<and> mg_From chat_msg = ''forged''
   \<and> fst (Decode (e_codec chat_env) ((chat_line @ [CHR 0x0A]) @ [])) = Inr (FMsg (sent_msg chat_env chat_member chat_msg))"
proof -
  obtain ch where ch: "Get 1 3 (sv_channels chat_joined) = Some ch" "set (ch_members ch) = {7}"
    using chat_joined_facts(1) by (auto simp: members_of_def split: option.splits)
  have "length (chat_line @ [CHR 0x0A]) \<le> MaxFrameSize" by (simp add: chat_line_def MaxFrameSize_def print_str_def code_def)
  from message_fanout [OF chat_joined_reachable chat_member_facts(1) chat_member_who(2) _ _ _ _ chat_encodes _ _ this, of 3 ch "[]"]
  show ?thesis
    using ch sample_codec_ok by (simp add: chat_member_facts chat_member_who chat_codec chat_msg_def)
qed


section \<open>Moderation\<close>

text \<open>What moderation may change: the pauses in the store and in the manager, and the audit log.\<close>

definition mod_part :: "store \<Rightarrow> ChannelBotPause list \<times> ModerationEvent list" where
  "mod_part st = (st_pauses st, st_mods st)"

definition mod_state :: "Server \<Rightarrow> (ChannelBotPause list \<times> ModerationEvent list) \<times> (uuid \<times> uuid list) list option" where
  "mod_state s = (mod_part (sv_store s), map_option mg_pauses (sv_webhooks s))"

lemma mod_simps [simp]:
  "mod_state (sendFrame E i f s) = mod_state s" "mod_state (sendError E i r d q s) = mod_state s"
  "mod_state (with_conn i g s) = mod_state s" "mod_state (broadcast t k b s) = mod_state s"
  "mod_state (history_enqueue m s) = mod_state s" "mod_state (on_chan t k h s) = mod_state s"
  "mod_state (s\<lparr>sv_channels := r'\<rparr>) = mod_state s" "mod_state (sendSubopsError E c e q s) = mod_state s"
  by (simp_all add: mod_state_def sendError_def sendSubopsError_def history_enqueue_def)

lemma mod_record_row: "mod_part (record_row now nv f st) = mod_part st"
  by (auto simp: record_row_def RecordSubscriptionFire_def mod_part_def split: sum.split option.split)

lemma pauses_enqueue: "mg_pauses (enqueue_opt t m) = mg_pauses m"
  by (simp add: enqueue_opt_def enqueue_def split: option.split)

lemma mod_notify_one: "mg_pauses (fst (notify_one us now nv ev p r ms)) = mg_pauses (fst ms) \<and> mod_part (snd (notify_one us now nv ev p r ms)) = mod_part (snd ms)"
  by (cases ms) (auto simp: notify_one_def handleMatch_def recordPausedFire_def Let_def mod_record_row pauses_enqueue split: prod.split)

lemma mod_notify [simp]: "mod_state (notify_webhooks E now ev s) = mod_state s"
proof -
  have fold: "mg_pauses (fst (fold (notify_one us now nv ev p) rs ms)) = mg_pauses (fst ms)
      \<and> mod_part (snd (fold (notify_one us now nv ev p) rs ms)) = mod_part (snd ms)" for us nv p rs ms
  proof (induction rs arbitrary: ms)
    case (Cons r rs)
    then show ?case using mod_notify_one [of us now nv ev p r ms] by simp
  qed simp
  show ?thesis
    using fold by (auto simp: notify_webhooks_def mod_state_def Notify_def Let_def case_prod_beta split: option.split)
qed

lemma pauses_cache: "mg_pauses (Remove_sub i m) = mg_pauses m" "AddOrUpdate up re sub m = Inr m' \<Longrightarrow> mg_pauses m' = mg_pauses m"
  by (auto simp: Remove_sub_def AddOrUpdate_def install_def indexByChannel_def stop_timer_def Let_def split: option.splits sum.splits if_splits)

lemma mod_cache_sub: "map_option mg_pauses (cache_sub L sub mgr) = map_option mg_pauses mgr"
  by (auto simp: cache_sub_def pauses_cache split: option.split sum.split)

lemma mod_subops:
  "Create_sub L now nv sec t a input w = (w', r) \<Longrightarrow> mod_part (fst w') = mod_part (fst w) \<and> map_option mg_pauses (snd w') = map_option mg_pauses (snd w)"
  "Update_sub L now t a i up w = (w', r) \<Longrightarrow> mod_part (fst w') = mod_part (fst w) \<and> map_option mg_pauses (snd w') = map_option mg_pauses (snd w)"
  "Delete_sub L t a i w = (w', x) \<Longrightarrow> mod_part (fst w') = mod_part (fst w) \<and> map_option mg_pauses (snd w') = map_option mg_pauses (snd w)"
  by (auto simp: Create_sub_def Update_sub_def Delete_sub_def CreateSubscription_def UpdateSubscription_def DeleteSubscription_def
      mod_part_def mod_cache_sub option.map_comp comp_def pauses_cache Let_def split: if_splits sum.splits option.splits prod.splits)

lemma mod_put_world: "mod_part (fst w) = mod_part (sv_store s) \<Longrightarrow> map_option mg_pauses (snd w) = map_option mg_pauses (sv_webhooks s)
    \<Longrightarrow> mod_state (put_world w s) = mod_state s"
  by (simp add: mod_state_def put_world_def)

lemma mod_requireBot: "requireBot E c q s = Inl s' \<Longrightarrow> mod_state s' = mod_state s"
  by (auto simp: requireBot_def split: if_splits sum.splits)

lemma mod_Subscription:
  "mod_state (handleSubscriptionCreate E c m1 s) = mod_state s" "mod_state (handleSubscriptionList E c m2 s) = mod_state s"
  "mod_state (handleSubscriptionGet E c m3 s) = mod_state s" "mod_state (handleSubscriptionUpdate E c m4 s) = mod_state s"
  "mod_state (handleSubscriptionDelete E c m5 s) = mod_state s"
  by (auto simp: handleSubscriptionCreate_def handleSubscriptionList_def handleSubscriptionGet_def handleSubscriptionUpdate_def
      handleSubscriptionDelete_def mod_requireBot sub_world_def dest!: mod_subops intro!: mod_put_world
      split: sum.split prod.split option.split)


lemma mod_dispatch:
  assumes "\<forall>v. f \<noteq> FChanopPauseBot v" and "\<forall>v. f \<noteq> FChanopResumeBot v" and "cn_authed c"
  shows "mod_state (dispatch E c f s) = mod_state s"
proof -
  have "mod_state (handleJoin E c j s) = mod_state s" "mod_state (handlePart E c p s) = mod_state s" "mod_state (handleMsg E c m s) = mod_state s"
    "mod_state (handleChatHistory E c q s) = mod_state s" "mod_state (handleMembers E c r s) = mod_state s" for j p m q r
    by (simp_all add: handleJoin_def enter_channel_def handlePart_def handleMsg_def handleChatHistory_def handleMembers_def Let_def
        split: sum.split prod.split option.split)
  then show ?thesis using assms by (cases f) (simp_all add: dispatch_def handlePing_def handlePong_def mod_Subscription)
qed

lemma resolve_Inr:
  assumes "resolveChanopTarget E c q name botStr s = Inr (target, ch)"
  shows "\<exists>k botID. map_of (cn_joinedChannels c) name = Some k \<and> CanModerate (joined_role c name)
    \<and> lib_uuid_Parse (e_sub E) botStr = Some botID \<and> GetAccountByID (cn_tenantID c) botID (sv_store s) = Inr target
    \<and> acc_Type target = AccountBot \<and> chn_ID ch = k"
  using assms by (auto simp: resolveChanopTarget_def Let_def GetChannelByID_def query_row_Inr scanChannel_def
      split: if_splits option.splits sum.splits dest: find_SomeD)

lemma resolve_Inl: "resolveChanopTarget E c q name botStr s = Inl s' \<Longrightarrow> mod_state s' = mod_state s"
  by (auto simp: resolveChanopTarget_def Let_def split: if_splits option.splits sum.splits)

lemma emit_store [simp]: "sv_store (emitChanopSystemMsg E c n k b s) = sv_store s"
  by (auto simp: emitChanopSystemMsg_def history_enqueue_def Let_def split: option.split sum.split)

lemma effects_audit:
  assumes "cn_tenantID c \<noteq> uuid_Nil" "cn_accountID c \<noteq> uuid_Nil" "chn_ID ch \<noteq> uuid_Nil" "action \<noteq> ''''" "e_newV7 E = Some u"
    "u \<notin> mod_ID ` set (st_mods (sv_store s))" "cn_tenantID c \<in> ten_ID ` set (st_tenants (sv_store s))" "\<not> st_down (sv_store s)"
  shows "st_mods (sv_store (chanop_effects E c q n target ch p action v reason s)) = st_mods (sv_store s) @
    [\<lparr>mod_ID = u, mod_TenantID = cn_tenantID c, mod_ChannelID = chn_ID ch, mod_ActorID = cn_accountID c, mod_TargetID = acc_ID target,
      mod_Action = action, mod_Reason = reason, mod_At = UnixMicro (e_now E 1)\<rparr>]"
  using assms by (auto simp: chanop_effects_def Let_def recordChanopAudit_def RecordModerationEvent_def or_new_def or_now_def exec_insert_def
      any_error_def IsZero_def)

text \<open>The verb of a channel operator in a frame: channel, bot, reason and the action it is recorded as.\<close>

fun chanop_verb :: "Frame \<Rightarrow> (string \<times> string \<times> string \<times> string) option" where
  "chanop_verb (FChanopPauseBot v) = Some (cp_Channel v, cp_BotAccountID v, cp_Reason v, ModActionPauseBot)"
| "chanop_verb (FChanopResumeBot v) = Some (cr_Channel v, cr_BotAccountID v, cr_Reason v, ModActionResumeBot)"
| "chanop_verb _ = None"

definition audit_ready :: "env \<Rightarrow> Conn \<Rightarrow> uuid \<Rightarrow> uuid \<Rightarrow> store \<Rightarrow> bool" where
  "audit_ready E c k u st \<longleftrightarrow> cn_tenantID c \<noteq> uuid_Nil \<and> cn_accountID c \<noteq> uuid_Nil \<and> k \<noteq> uuid_Nil \<and> e_newV7 E = Some u
     \<and> u \<notin> mod_ID ` set (st_mods st) \<and> cn_tenantID c \<in> ten_ID ` set (st_tenants st) \<and> \<not> st_down st"

lemma chanop_dispatch:
  assumes "cn_authed c" and "chanop_verb f = Some (name, botStr, reason, action)" and "mod_state (dispatch E c f s) \<noteq> mod_state s"
  shows "\<exists>q target ch p v st. resolveChanopTarget E c q name botStr s = Inr (target, ch)
    \<and> dispatch E c f s = chanop_effects E c q name target ch p action v reason (s\<lparr>sv_store := st\<rparr>)
    \<and> st_mods st = st_mods (sv_store s) \<and> st_tenants st = st_tenants (sv_store s) \<and> st_down st = st_down (sv_store s)
    \<and> action \<noteq> ''''"
proof -
  have self: "s = s\<lparr>sv_store := sv_store s\<rparr>" by simp
  have set: "SetChannelBotPause now pau st = Inr st' \<Longrightarrow> st_mods st' = st_mods st \<and> st_tenants st' = st_tenants st \<and> st_down st' = st_down st"
    and rem: "RemoveChannelBotPause t k b st = Inr st' \<Longrightarrow> st_mods st' = st_mods st \<and> st_tenants st' = st_tenants st \<and> st_down st' = st_down st"
    for now pau st st' t k b
    by (auto simp: SetChannelBotPause_def RemoveChannelBotPause_def Let_def split: if_splits)
  show ?thesis
  proof (cases f)
    case (FChanopPauseBot v)
    then show ?thesis using assms set
      by (auto simp: dispatch_def handleChanopPauseBot_def resolve_Inl ModActionPauseBot_def split: sum.splits prod.splits)
        blast
  next
    case (FChanopResumeBot v)
    then show ?thesis using assms rem
      apply (auto simp: dispatch_def handleChanopResumeBot_def resolve_Inl ModActionResumeBot_def Let_def split: sum.splits prod.splits if_splits)
       apply (metis self)
      by blast
  qed (use assms in auto)
qed

text \<open>
  Property C7. Moderation is authorized and audited: if handling a frame changes the pauses of bots (in the store or in
  the webhook manager) or the audit log, then the frame is a pause or a resume by an authenticated connection that has
  joined the channel with a role that may moderate, its target is a bot account of the same tenant, and an audit row that
  names actor, target, action and reason is appended whenever the store can take it (it is up, the tenant row exists and a
  fresh id was drawn).
\<close>

theorem moderation_authorized_and_audited:
  assumes "reachable s" and "sv_conns s i = Some c" and "mod_state (dispatch E c f s) \<noteq> mod_state s"
  shows "\<exists>name botStr reason action k botID target. cn_authed c \<and> chanop_verb f = Some (name, botStr, reason, action)
    \<and> map_of (cn_joinedChannels c) name = Some k \<and> CanModerate (joined_role c name)
    \<and> lib_uuid_Parse (e_sub E) botStr = Some botID \<and> GetAccountByID (cn_tenantID c) botID (sv_store s) = Inr target
    \<and> acc_Type target = AccountBot
    \<and> (\<forall>u. audit_ready E c k u (sv_store s) \<longrightarrow> st_mods (sv_store (dispatch E c f s)) = st_mods (sv_store s) @
         [\<lparr>mod_ID = u, mod_TenantID = cn_tenantID c, mod_ChannelID = k, mod_ActorID = cn_accountID c, mod_TargetID = acc_ID target,
           mod_Action = action, mod_Reason = reason, mod_At = UnixMicro (e_now E 1)\<rparr>])"
proof -
  have a: "cn_authed c" using assms(3) own_only_dispatch [of c s E f] unfolding mod_state_def own_only_def by metis
  then obtain name botStr reason action where v: "chanop_verb f = Some (name, botStr, reason, action)"
    using assms(3) mod_dispatch [of f c E s] by (cases "chanop_verb f") (cases f; auto)+
  obtain q target ch p vb st where r: "resolveChanopTarget E c q name botStr s = Inr (target, ch)"
    and d: "dispatch E c f s = chanop_effects E c q name target ch p action vb reason (s\<lparr>sv_store := st\<rparr>)"
    and st: "st_mods st = st_mods (sv_store s)" "st_tenants st = st_tenants (sv_store s)" "st_down st = st_down (sv_store s)" "action \<noteq> ''''"
    using chanop_dispatch [OF a v assms(3)] by blast
  obtain k botID where res: "map_of (cn_joinedChannels c) name = Some k" "CanModerate (joined_role c name)"
    "lib_uuid_Parse (e_sub E) botStr = Some botID" "GetAccountByID (cn_tenantID c) botID (sv_store s) = Inr target"
    "acc_Type target = AccountBot" "chn_ID ch = k"
    using resolve_Inr [OF r] by blast
  have "st_mods (sv_store (dispatch E c f s)) = st_mods (sv_store s) @
         [\<lparr>mod_ID = u, mod_TenantID = cn_tenantID c, mod_ChannelID = k, mod_ActorID = cn_accountID c, mod_TargetID = acc_ID target,
           mod_Action = action, mod_Reason = reason, mod_At = UnixMicro (e_now E 1)\<rparr>]" if "audit_ready E c k u (sv_store s)" for u
    unfolding d using effects_audit [of c ch action E u "s\<lparr>sv_store := st\<rparr>"] that st res(6) by (simp add: audit_ready_def)
  with a v res show ?thesis by blast
qed

definition chat_pause :: Frame where
  "chat_pause = FChanopPauseBot \<lparr>cp_ID = '''', cp_Channel = ''ops'', cp_BotAccountID = ''bot'', cp_Reason = ''noisy''\<rparr>"

lemma chat_target: "\<exists>target ch. resolveChanopTarget chat_env chat_member '''' ''ops'' ''bot'' chat_joined = Inr (target, ch)
    \<and> acc_ID target = 21 \<and> chn_ID ch = 3"
proof -
  obtain target ch where "GetAccountByID 1 21 chat_store = Inr target" "acc_ID target = 21" "acc_Type target = AccountBot"
    "GetChannelByID 1 3 chat_store = Inr ch" "chn_ID ch = 3"
    by (simp add: chat_store_eval)
  moreover have "lib_uuid_Parse (e_sub chat_env) ''bot'' = Some 21" by (simp add: chat_env_def)
  ultimately show ?thesis
    by (simp add: resolveChanopTarget_def Let_def chat_member_facts chat_member_who chat_joined_facts CanModerate_def)
qed

lemma chat_pause_changes: "mod_state (dispatch chat_env chat_member chat_pause chat_joined) \<noteq> mod_state chat_joined"
proof -
  obtain target ch where r: "resolveChanopTarget chat_env chat_member '''' ''ops'' ''bot'' chat_joined = Inr (target, ch)"
    "acc_ID target = 21" "chn_ID ch = 3" using chat_target by blast
  have st: "st_pauses chat_store = []" "\<not> st_down chat_store" "1 \<in> ten_ID ` set (st_tenants chat_store)"
    by (simp_all add: chat_store_eval)
  obtain st' where st': "SetChannelBotPause (e_now chat_env 0) \<lparr>pau_TenantID = 1, pau_ChannelID = 3, pau_BotAccountID = 21, pau_PausedBy = 20,
      pau_PausedAt = 0, pau_Reason = ''noisy''\<rparr> chat_store = Inr st'" "st_pauses st' \<noteq> []"
    using st by (simp add: SetChannelBotPause_def Let_def)
  have p: "st_pauses (sv_store (chanop_effects chat_env chat_member '''' ''ops'' target ch True a v q s)) = st_pauses (sv_store s)" for a v q s
    by (auto simp: chanop_effects_def recordChanopAudit_def RecordModerationEvent_def Let_def split: sum.split option.split)
  show ?thesis
    using r st st' by (simp add: chat_pause_def dispatch_def handleChanopPauseBot_def chat_member_who chat_joined_facts mod_state_def mod_part_def p)
qed

theorem moderation_authorized_and_audited_witness:
  "CanModerate (joined_role chat_member ''ops'') \<and> (\<exists>row. st_mods (sv_store (dispatch chat_env chat_member chat_pause chat_joined)) = [row]
     \<and> mod_ActorID row = 20 \<and> mod_Action row = ModActionPauseBot \<and> mod_Reason row = ''noisy'')"
proof -
  have "audit_ready chat_env chat_member 3 50 (sv_store chat_joined)"
    by (simp add: audit_ready_def chat_member_who chat_joined_facts) (simp add: chat_env_def chat_store_eval)
  moreover have "st_mods (sv_store chat_joined) = []" by (simp add: chat_joined_facts) (simp add: chat_store_eval)
  ultimately show ?thesis
    using moderation_authorized_and_audited [OF chat_joined_reachable chat_member_facts(1) chat_pause_changes] chat_member_facts(3)
    by (auto simp: chat_pause_def chat_member_who)
qed


section \<open>The history writer\<close>

definition payload_of :: "StoredMessage \<Rightarrow> uuid \<times> uuid \<times> uuid \<times> string" where
  "payload_of m = (msg_TenantID m, msg_ChannelID m, msg_FromAccountID m, msg_Body m)"

lemma RecordMessage_appends: "RecordMessage now nv m st = Inr st' \<Longrightarrow> \<exists>row. st_msgs st' = st_msgs st @ [row] \<and> payload_of row = payload_of m"
  by (auto simp: RecordMessage_def Let_def payload_of_def split: option.splits sum.splits)

lemma hw_drain_all:
  assumes "length (hw_in h) \<le> length ticks" and "list_all (\<lambda>(now, _). now < deadline) ticks"
    and "hw_drain deadline ticks (h, st) = (h', st')"
  shows "hw_in h' = [] \<and> (\<exists>rows. st_msgs st' = st_msgs st @ rows \<and> hw_dropped h' + length rows = hw_dropped h + length (hw_in h)
    \<and> subseq (map payload_of rows) (map payload_of (hw_in h)))"
  using assms
proof (induction ticks arbitrary: h st)
  case (Cons tick ticks)
  obtain now nv where tick: "tick = (now, nv)" by force
  show ?case
  proof (cases "hw_in h")
    case Nil
    then show ?thesis using Cons.prems by (auto simp: tick)
  next
    case (Cons m ms)
    obtain h1 st1 where 1: "hw_receive now nv (h, st) = (h1, st1)" by force
    have late: "now < deadline" "list_all (\<lambda>(now, _). now < deadline) ticks" using Cons.prems by (simp_all add: tick)
    have q: "hw_in h1 = ms" and rows: "(hw_dropped h1 = Suc (hw_dropped h) \<and> st_msgs st1 = st_msgs st)
        \<or> (hw_dropped h1 = hw_dropped h \<and> (\<exists>row. st_msgs st1 = st_msgs st @ [row] \<and> payload_of row = payload_of m))"
      using 1 Cons RecordMessage_appends by (auto simp: hw_receive_def hw_write_def split: sum.splits)
    have "hw_drain deadline ticks (h1, st1) = (h', st')" using Cons.prems Cons 1 late by (simp add: tick)
    then have "hw_in h' = [] \<and> (\<exists>rows. st_msgs st' = st_msgs st1 @ rows \<and> hw_dropped h' + length rows = hw_dropped h1 + length ms
        \<and> subseq (map payload_of rows) (map payload_of ms))"
      using Cons.IH [of h1 st1] Cons.prems(1) Cons late q by simp
    then obtain rs where rs: "hw_in h' = []" "st_msgs st' = st_msgs st1 @ rs" "hw_dropped h' + length rs = hw_dropped h1 + length ms"
      "subseq (map payload_of rs) (map payload_of ms)" by blast
    from rows show ?thesis
    proof
      assume "hw_dropped h1 = Suc (hw_dropped h) \<and> st_msgs st1 = st_msgs st"
      then show ?thesis using rs Cons by (auto intro!: exI [of _ rs] subseq_order.trans [OF rs(4)])
    next
      assume "hw_dropped h1 = hw_dropped h \<and> (\<exists>row. st_msgs st1 = st_msgs st @ [row] \<and> payload_of row = payload_of m)"
      then obtain row where "hw_dropped h1 = hw_dropped h" "st_msgs st1 = st_msgs st @ [row]" "payload_of row = payload_of m" by blast
      then show ?thesis using rs Cons by (intro conjI exI [of _ "row # rs"]) auto
    qed
  qed
qed auto

text \<open>
  Property C30. The history writer loses nothing unaccounted: of any burst of messages offered to an empty writer, once a
  drain with enough time has run, the buffer is empty, the rows added to the message log are the messages in the order
  they were offered with some left out, and the rows and the drop counter together account for every message.
\<close>

theorem history_writer_accounts_for_all:
  assumes "length msgs \<le> length ticks" and "list_all (\<lambda>(now, _). now < deadline) ticks"
    and "hw_drain deadline ticks (fold hw_enqueue msgs newHistoryWriter, st) = (h, st')"
  shows "hw_in h = [] \<and> (\<exists>rows. st_msgs st' = st_msgs st @ rows \<and> hw_dropped h + length rows = length msgs
    \<and> subseq (map payload_of rows) (map payload_of msgs))"
proof -
  let ?h = "fold hw_enqueue msgs newHistoryWriter"
  have q: "hw_in ?h = take historyWriterDepth msgs"
    using histq.enqs_items [of newHistoryWriter msgs] by (simp add: newHistoryWriter_def)
  have n: "length (hw_in ?h) + hw_dropped ?h = length msgs"
    using histq.enqs_conservation [of newHistoryWriter msgs] by (simp add: newHistoryWriter_def)
  have sub: "subseq (map payload_of (hw_in ?h)) (map payload_of msgs)"
    unfolding q take_map [symmetric] by (metis append_take_drop_id list_emb_append2 subseq_order.refl subseq_rev_drop_many)
  from hw_drain_all [OF _ assms(2,3)] q assms(1) n sub show ?thesis
    by (fastforce intro: subseq_order.trans)
qed

theorem history_writer_accounts_for_all_witness:
  "hw_in (fst (hw_drain 10 [(1, Some 5)] (fold hw_enqueue [newStoredMessage 1 3 20 ''hi'' 7] newHistoryWriter, login_store))) = []
   \<and> map payload_of (st_msgs (snd (hw_drain 10 [(1, Some 5)] (fold hw_enqueue [newStoredMessage 1 3 20 ''hi'' 7] newHistoryWriter, login_store))))
     = [(1, 3, 20, ''hi'')]"
proof -
  let ?r = "hw_drain 10 [(1, Some 5)] (fold hw_enqueue [newStoredMessage 1 3 20 ''hi'' 7] newHistoryWriter, login_store)"
  have "hw_in (fst ?r) = []"
    using history_writer_accounts_for_all [of "[newStoredMessage 1 3 20 ''hi'' 7]" "[(1, Some 5)]" 10 login_store "fst ?r" "snd ?r"] by simp
  moreover have "map payload_of (st_msgs (snd ?r)) = [(1, 3, 20, ''hi'')]"
    by (simp add: hw_enqueue_def newHistoryWriter_def historyWriterDepth_def hw_receive_def hw_write_def RecordMessage_def newStoredMessage_def
        or_new_def or_now_def any_error_def exec_insert_def payload_of_def Let_def login_store_def Migrate_def)
  ultimately show ?thesis by simp
qed

section \<open>Keep-alive\<close>

text \<open>
  A pong the server did not ask for stays in the channel, so the next ping is answered by it: the ping loop sees a token
  that is not its own and ends, and the connection is never probed again.
\<close>

lemma unsolicited_pong_ends_ping_loop:
  assumes "sv_conns s i = Some c" and "cn_id c = i" and "cn_pongCh c = []" and "po_Token p \<noteq> tok"
  shows "\<exists>c'. sv_conns (pingLoop_tick E tok i (handlePong c p s)) i = Some c' \<and> fst (pingLoop_await tok late c') = Some False"
  using assms by (auto simp: pingLoop_tick_def handlePong_def sv_conns_send with_conn_at offerPong_def pongCap_def pingLoop_await_def
      queued_def Enqueue_def split: sum.split)


section \<open>The roster of a channel\<close>

lemma member_less_trans: "\<not> member_less b a \<Longrightarrow> \<not> member_less d b \<Longrightarrow> \<not> member_less d a"
proof -
  have le: "\<not> str_less y x \<longleftrightarrow> x = y \<or> str_less x y" for x y using str_less_linear [of x y] str_less_asym [of x y] by auto
  assume "\<not> member_less b a" "\<not> member_less d b"
  then show ?thesis by (auto simp: member_less_def le split: if_split_asm dest: str_less_trans)
qed

lemma set_sortMembers [simp]: "set (sortMembers xs) = set xs"
proof -
  have "set (insert_member x ys) = insert x (set ys)" for x ys by (induction ys) auto
  then show ?thesis unfolding sortMembers_def by (induction xs) auto
qed

lemma sorted_sortMembers: "sorted_wrt (\<lambda>a b. \<not> member_less b a) (sortMembers xs)"
proof -
  have set: "set (insert_member x ys) = insert x (set ys)" for x ys by (induction ys) auto
  have asym: "member_less b a \<Longrightarrow> \<not> member_less a b" for a b by (auto simp: member_less_def dest: str_less_asym split: if_splits)
  have ins: "sorted_wrt (\<lambda>a b. \<not> member_less b a) ys \<Longrightarrow> sorted_wrt (\<lambda>a b. \<not> member_less b a) (insert_member x ys)" for x ys
  proof (induction ys)
    case (Cons y ys)
    show ?case
    proof (cases "member_less y x")
      case True
      with Cons asym show ?thesis by (simp add: set)
    next
      case False
      with Cons.prems have "\<not> member_less z x" if "z \<in> set ys" for z using that member_less_trans [of y x z] by simp
      with False Cons.prems show ?thesis by simp
    qed
  qed simp
  show ?thesis unfolding sortMembers_def by (induction xs) (auto intro: ins)
qed

text \<open>How many of the connections in a list belong to an account.\<close>

definition conn_count :: "(uuid \<rightharpoonup> Conn) \<Rightarrow> uuid list \<Rightarrow> uuid \<Rightarrow> nat" where
  "conn_count conns ms a = length (filter (\<lambda>m. \<exists>c. conns m = Some c \<and> cn_accountID c = a) ms)"

lemma live_aggr_count:
  "map_option snd (map_of (live_aggr conns ms live) a) =
     (case map_of live a of
        None \<Rightarrow> if conn_count conns ms a = 0 then None else Some (int (conn_count conns ms a))
      | Some (_, n) \<Rightarrow> Some (n + int (conn_count conns ms a)))"
  by (induction conns ms live rule: live_aggr.induct)
    (auto simp: conn_count_def update_conv' split: option.splits prod.splits)

lemma live_aggr_distinct: "distinct (map fst live) \<Longrightarrow> distinct (map fst (live_aggr conns ms live))"
  by (induction conns ms live rule: live_aggr.induct) (auto simp: distinct_update split: option.splits prod.splits)

definition live_of :: "Server \<Rightarrow> uuid \<Rightarrow> uuid \<Rightarrow> (uuid \<times> string \<times> int) list" where
  "live_of s t k = (case Get t k (sv_channels s) of None \<Rightarrow> [] | Some chState \<Rightarrow> live_aggr (sv_conns s) (Members chState) [])"

definition conns_of :: "Server \<Rightarrow> uuid \<Rightarrow> uuid \<Rightarrow> uuid \<Rightarrow> uuid set" where
  "conns_of s t k a = {m \<in> members_of s t k. \<exists>c. sv_conns s m = Some c \<and> cn_accountID c = a}"

lemma live_of_exact:
  assumes "reg_ok (sv_channels s)"
  shows "(\<exists>name. (a, name, n) \<in> set (live_of s t k)) \<longleftrightarrow> n = int (card (conns_of s t k a)) \<and> conns_of s t k a \<noteq> {}"
proof (cases "Get t k (sv_channels s)")
  case (Some ch)
  then have "distinct (ch_members ch)" using flat_ok [OF assms] by (simp add: Get_flat channel_ok_def)
  moreover have "conns_of s t k a = set (filter (\<lambda>m. \<exists>c. sv_conns s m = Some c \<and> cn_accountID c = a) (ch_members ch))"
    using Some by (auto simp: conns_of_def members_of_def)
  ultimately have c: "conn_count (sv_conns s) (ch_members ch) a = card (conns_of s t k a)" "finite (conns_of s t k a)"
    by (simp_all add: conn_count_def distinct_card del: set_filter)
  have "(\<exists>name. (a, name, n) \<in> set (live_of s t k)) \<longleftrightarrow> map_option snd (map_of (live_of s t k) a) = Some n"
    using live_aggr_distinct [of "[]" "sv_conns s" "ch_members ch"] Some by (auto simp: live_of_def Members_def)
  also have "\<dots> \<longleftrightarrow> n = int (card (conns_of s t k a)) \<and> conns_of s t k a \<noteq> {}"
    using live_aggr_count [of "sv_conns s" "ch_members ch" "[]" a] Some c by (auto simp: live_of_def Members_def)
  finally show ?thesis .
qed (simp add: live_of_def conns_of_def members_of_def)

lemma live_info_simps [simp]:
  "mi_IsGhost (live_info E t k s p) = False" "mi_AccountID (live_info E t k s p) = e_uuid_String E (fst p)"
  "mi_ConnCount (live_info E t k s p) = snd (snd p)"
  by (auto simp: live_info_def Let_def split: prod.splits sum.splits)

lemma ghost_info_Some: "ghost_info E t k s a = Some g \<Longrightarrow> mi_IsGhost g \<and> mi_AccountID g = e_uuid_String E a"
  by (auto simp: ghost_info_def split: sum.splits)

lemma ghost_info_exists: "(\<exists>g. ghost_info E t k s a = Some g) \<longleftrightarrow> (\<exists>acc. GetAccountByID t a (sv_store s) = Inr acc)"
  by (auto simp: ghost_info_def split: sum.splits)

lemma distinct_sortMembers: "distinct (map f (sortMembers xs)) \<longleftrightarrow> distinct (map f xs)"
proof -
  have set: "set (insert_member x ys) = insert x (set ys)" for x ys by (induction ys) auto
  have ins: "distinct (map f (insert_member x ys)) \<longleftrightarrow> f x \<notin> f ` set ys \<and> distinct (map f ys)" for x ys
    by (induction ys) (auto simp: set)
  have "set (sortMembers ys) = set ys" for ys unfolding sortMembers_def by (induction ys) (auto simp: set)
  then show ?thesis unfolding sortMembers_def by (induction xs) (simp_all add: ins)
qed

lemma roster_ids:
  assumes "distinct (map fst live)" and "inj (e_uuid_String E)"
  shows "distinct (map mi_AccountID (map (live_info E t k s) live @ List.map_filter (ghost_info E t k s) (ghost_ids live subs)))"
proof -
  have ghosts: "map mi_AccountID (List.map_filter (ghost_info E t k s) as) = map (e_uuid_String E) (filter (\<lambda>a. ghost_info E t k s a \<noteq> None) as)" for as
    by (induction as) (auto simp: List.map_filter_def dest: ghost_info_Some)
  have lives: "map mi_AccountID (map (live_info E t k s) live) = map (e_uuid_String E) (map fst live)" by simp
  have disj: "a \<notin> fst ` set live" if "a \<in> set (ghost_ids live subs)" for a
    using that by (auto simp: ghost_ids_def map_of_eq_None_iff)
  have "distinct (ghost_ids live subs)" by (simp add: ghost_ids_def)
  moreover have "inj_on (e_uuid_String E) A" for A by (rule inj_on_subset [OF assms(2)]) simp
  ultimately show ?thesis
    unfolding map_append lives ghosts
    using assms(1) disj by (subst distinct_append) (auto simp: distinct_map [of "e_uuid_String E"] simp del: map_map dest: injD [OF assms(2)])
qed

text \<open>
  Property C31. The roster a permitted caller gets is exact: sorted with the live accounts before the ghosts, then by
  display name and account id; an account is listed as live, with its number of connections, exactly when it has
  connections in the channel; and as a ghost exactly when it has an active subscription on the channel, no connection in
  it, and its account row exists. No account is listed twice, be it with several connections, with several subscriptions, or
  with both.
\<close>

theorem roster_exact:
  assumes "reachable s" and "inj (e_uuid_String E)" and "mq_Channel m \<noteq> ''''"
    and "GetChannelByName (cn_tenantID c) (mq_Channel m) (sv_store s) = Inr ch"
    and "fst (canJoin (cn_tenantID c) ch (cn_accountID c) (sv_store s))"
    and "ListSubscriptionsByChannel (cn_tenantID c) (chn_ID ch) (sv_store s) = Inr subs"
  shows "\<exists>R. handleMembers E c m s = sendFrame E (cn_id c) (FMembersOK \<lparr>mk_ID = mq_ID m, mk_Channel = mq_Channel m, mk_Members = R\<rparr>) s
    \<and> sorted_wrt (\<lambda>a b. \<not> member_less b a) R
    \<and> distinct (map mi_AccountID R)
    \<and> (\<forall>a n. (\<exists>x \<in> set R. \<not> mi_IsGhost x \<and> mi_AccountID x = e_uuid_String E a \<and> mi_ConnCount x = n)
         \<longleftrightarrow> n = int (card (conns_of s (cn_tenantID c) (chn_ID ch) a)) \<and> conns_of s (cn_tenantID c) (chn_ID ch) a \<noteq> {})
    \<and> (\<forall>a. (\<exists>x \<in> set R. mi_IsGhost x \<and> mi_AccountID x = e_uuid_String E a)
         \<longleftrightarrow> a \<in> sub_AccountID ` set subs \<and> conns_of s (cn_tenantID c) (chn_ID ch) a = {}
           \<and> (\<exists>acc. GetAccountByID (cn_tenantID c) a (sv_store s) = Inr acc))"
proof -
  define t k where "t = cn_tenantID c" and "k = chn_ID ch"
  define R where "R = sortMembers (map (live_info E t k s) (live_of s t k)
    @ List.map_filter (ghost_info E t k s) (ghost_ids (live_of s t k) subs))"
  note live = live_of_exact [OF server_okD(1) [OF server_reachable_ok [OF assms(1)]], of _ _ t k]
  have eq: "e_uuid_String E x = e_uuid_String E y \<longleftrightarrow> x = y" for x y using assms(2) by (auto dest: injD)
  have R: "set R = live_info E t k s ` set (live_of s t k)
      \<union> {g. \<exists>a \<in> set (ghost_ids (live_of s t k) subs). ghost_info E t k s a = Some g}"
    by (auto simp: R_def map_filter_def image_iff) force
  have none: "map_of (live_of s t k) a = None \<longleftrightarrow> conns_of s t k a = {}" for a
  proof -
    have "map_of (live_of s t k) a = None \<longleftrightarrow> (\<forall>n name. (a, name, n) \<notin> set (live_of s t k))"
      by (force simp: map_of_eq_None_iff)
    also have "\<dots> \<longleftrightarrow> conns_of s t k a = {}" using live [of a] by metis
    finally show ?thesis .
  qed
  have "handleMembers E c m s = sendFrame E (cn_id c) (FMembersOK \<lparr>mk_ID = mq_ID m, mk_Channel = mq_Channel m, mk_Members = R\<rparr>) s"
    using assms(3-6) by (auto simp: handleMembers_def R_def t_def k_def live_of_def Let_def split: prod.splits)
  moreover have "(\<exists>x \<in> set R. \<not> mi_IsGhost x \<and> mi_AccountID x = e_uuid_String E a \<and> mi_ConnCount x = n)
      \<longleftrightarrow> (\<exists>name. (a, name, n) \<in> set (live_of s t k))" for a n
    unfolding R by (auto simp: eq dest!: ghost_info_Some) force
  moreover have "(\<exists>x \<in> set R. mi_IsGhost x \<and> mi_AccountID x = e_uuid_String E a)
      \<longleftrightarrow> a \<in> set (ghost_ids (live_of s t k) subs) \<and> (\<exists>acc. GetAccountByID t a (sv_store s) = Inr acc)" for a
    unfolding R ghost_info_exists [of E t k, symmetric] using ghost_info_Some eq by fastforce
  moreover have "a \<in> set (ghost_ids (live_of s t k) subs) \<longleftrightarrow> a \<in> sub_AccountID ` set subs \<and> conns_of s t k a = {}" for a
    by (auto simp: ghost_ids_def none)
  moreover have "distinct (map mi_AccountID R)"
    unfolding R_def distinct_sortMembers
    by (rule roster_ids) (simp_all add: assms(2) live_of_def live_aggr_distinct split: option.split)
  ultimately show ?thesis
    unfolding t_def [symmetric] k_def [symmetric] using sorted_sortMembers live by (intro exI [of _ R]) (auto simp: R_def)
qed


definition roster_env :: env where
  "roster_env = chat_env\<lparr>e_uuid_String := (\<lambda>u. replicate (unat u) CHR ''a'')\<rparr>"

definition roster_req :: MembersReq where
  "roster_req = \<lparr>mq_ID = '''', mq_Channel = ''ops''\<rparr>"

theorem roster_exact_witness:
  "\<exists>R. handleMembers roster_env chat_member roster_req chat_joined
       = sendFrame roster_env 7 (FMembersOK \<lparr>mk_ID = '''', mk_Channel = ''ops'', mk_Members = R\<rparr>) chat_joined
     \<and> (\<exists>x \<in> set R. \<not> mi_IsGhost x \<and> mi_AccountID x = e_uuid_String roster_env 20 \<and> mi_ConnCount x = 1)
     \<and> distinct (map mi_AccountID R)"
proof -
  have inj: "inj (e_uuid_String roster_env)" by (auto simp: roster_env_def inj_def replicate_eq_replicate word_unat_eq_iff)
  obtain row e where row: "GetChannelByName 1 ''ops'' chat_store = Inr row" "chn_ID row = 3" "chn_Visibility row = ChannelPrivate"
    "GetChannelACL 1 3 20 chat_store = Inr e" "acl_Role e = RoleChannelOp" using chat_store_facts by blast
  then have can: "fst (canJoin 1 row 20 chat_store)" by (simp add: canJoin_def ChannelPrivate_def ChannelPublic_def CanJoin_def)
  have subs: "ListSubscriptionsByChannel 1 3 chat_store = Inr []"
    by (simp add: ListSubscriptionsByChannel_def query_rows_def chat_store_eval)
  have "conns_of chat_joined 1 3 20 = {7}"
    using chat_joined_facts(1) chat_member_facts(1) chat_member_who(4) by (auto simp: conns_of_def)
  then show ?thesis
    using roster_exact [OF chat_joined_reachable inj, of roster_req chat_member row "[]"] row can subs
    by (auto simp: roster_req_def chat_member_who chat_joined_facts)
qed

end
