(* ===== verification/Adapters.thy ===== *)
theory Adapters
  imports Inbound Matcher Codec "HOL-Library.Monad_Syntax"
begin

text \<open>
  The inbound adapters (\<^verbatim>\<open>internal/inbound/adapter.go\<close>, \<^verbatim>\<open>internal/inbound/adapters/\<close>): the
  registry, the helpers the adapters share and the five implementations, each a function from the request to
  an event or an error. The result \<open>None\<close> is a run-time panic, which only the generic adapter's path lookup
  can raise.

  A Go value of type \<^verbatim>\<open>any\<close> is a \<open>json\<close> value: nil is \<open>JNull\<close>, a \<^verbatim>\<open>float64\<close> is \<open>JNum\<close> with the text that
  \<^verbatim>\<open>%v\<close> prints for it (\<open>fmt_float\<close>, \<open>None\<close> when the literal is out of range), a map is an object with
  its keys sorted and a repeated key at its last value (\<open>to_any\<close>). Times are read by the \<^verbatim>\<open>time\<close> package: as
  JSON (\<open>parse_stamp\<close>) and by its two layouts.
\<close>

section \<open>Errors, headers and the adapter interface\<close>

datatype adapter_error = ErrAdapterUnknown | ErrAdapterBadInput | ErrAdapterMissing | ErrAdapterRateLimit

record adapter_lib =
  parse_stamp :: "string \<Rightarrow> gotime option"
  parse_RFC3339Nano :: "string \<Rightarrow> gotime option"
  parse_RFC3339 :: "string \<Rightarrow> gotime option"
  fmt_float :: "bytes \<Rightarrow> bytes option"

text \<open>\<^verbatim>\<open>http.Header\<close>: canonical keys with their values; \<^verbatim>\<open>Get\<close> of a canonical key.\<close>

type_synonym headers = "(string \<times> string list) list"

definition header_Get :: "headers \<Rightarrow> string \<Rightarrow> string" where
  "header_Get h k = (case map_of h k of Some (v # _) \<Rightarrow> v | _ \<Rightarrow> '''')"

type_synonym normalize = "adapter_lib \<Rightarrow> gotime \<Rightarrow> bytes \<Rightarrow> headers \<Rightarrow> bytes \<Rightarrow> (adapter_error + InboundEvent) option"

record Adapter =
  ad_Name :: string
  ad_Normalize :: normalize

section \<open>Registry\<close>

type_synonym registry = "(string \<times> Adapter) list"

definition Register :: "Adapter \<Rightarrow> registry \<Rightarrow> registry" where
  "Register a reg = AList.update (ad_Name a) a reg"

definition Lookup :: "string \<Rightarrow> registry \<Rightarrow> adapter_error + Adapter" where
  "Lookup name reg = (case map_of reg name of None \<Rightarrow> Inl ErrAdapterUnknown | Some a \<Rightarrow> Inr a)"

definition ListNames :: "registry \<Rightarrow> string list" where
  "ListNames reg = map fst reg"

section \<open>Shared helpers\<close>

text \<open>\<^verbatim>\<open>[]rune(s)\<close> and \<^verbatim>\<open>string(r)\<close>.\<close>

function runes :: "bytes \<Rightarrow> nat list" where
  "runes s = (if s = [] then [] else fst (decode_rune s) # runes (drop (snd (decode_rune s)) s))"
  by pat_completeness auto
termination
  by (relation "measure length") (auto intro!: diff_less simp: decode_rune_pos)

declare runes.simps [simp del]

definition runes_string :: "nat list \<Rightarrow> bytes" where
  "runes_string rs = concat (map utf8 rs)"

text \<open>\<open>None\<close> is the panic of the slice expression \<^verbatim>\<open>r[:n-3]\<close> with a negative bound.\<close>

definition Truncate :: "bytes \<Rightarrow> int \<Rightarrow> bytes option" where
  "Truncate s n =
     (if n \<le> 0 \<or> int (length s) \<le> n then Some s
      else if int (length (runes s)) \<le> n then Some s
      else if n - 3 < 0 then None
      else Some (runes_string (take (nat (n - 3)) (runes s)) @ ''...''))"

definition NormalizeSeverity :: "string \<Rightarrow> string" where
  "NormalizeSeverity raw =
     (let l = ToLower (TrimSpace raw)
      in if l \<in> {''info'', ''informational'', ''notice'', ''low''} then SeverityInfo
         else if l \<in> {''warn'', ''warning'', ''medium''} then SeverityWarn
         else if l \<in> {''err'', ''error'', ''high''} then SeverityError
         else if l \<in> {''crit'', ''critical'', ''fatal'', ''emerg'', ''emergency''} then SeverityCritical
         else SeverityWarn)"

section \<open>Decoding payloads\<close>

text \<open>
  A struct with a document at top level: \<^verbatim>\<open>null\<close> leaves it zero, anything but an object is an error.
  A nested struct collects the members of every object its key is given. A map is emptied by
  \<^verbatim>\<open>null\<close> and otherwise extended.
\<close>

definition top_members :: "bytes \<Rightarrow> (bytes \<times> json) list option" where
  "top_members s = (case parse_json s of
       None \<Rightarrow> None
     | Some v \<Rightarrow> if v = JNull then Some [] else as_obj v)"

definition struct_field :: "bytes \<Rightarrow> (bytes \<times> json) list \<Rightarrow> (bytes \<times> json) list option" where
  "struct_field k ms = map_option concat (those (map as_obj (field_values k ms)))"

definition map_field :: "(json \<Rightarrow> 'a option) \<Rightarrow> bytes \<Rightarrow> (bytes \<times> json) list \<Rightarrow> (bytes \<times> 'a) list option" where
  "map_field dec k ms = fold (\<lambda>(k', v) acc.
      if \<not> EqualFold k' k then acc
      else Option.bind acc (\<lambda>m. case v of
          JNull \<Rightarrow> Some []
        | JObj kvs \<Rightarrow> map_option (\<lambda>xs. fold (\<lambda>(a, b). AList.update a b) xs m)
                        (those (map (\<lambda>(a, b). map_option (Pair a) (dec b)) kvs))
        | _ \<Rightarrow> None)) ms (Some [])"

definition str_field :: "bytes \<Rightarrow> (bytes \<times> json) list \<Rightarrow> string option" where
  "str_field k ms = get_field as_str '''' k ms"

text \<open>
  Settings whose decoding error is thrown away: a syntax error changes nothing, a value of the wrong type is
  passed over.
\<close>

definition lenient_str :: "bytes \<Rightarrow> bytes \<Rightarrow> string" where
  "lenient_str k settings =
     (if settings = [] then ''''
      else case parse_json settings of
        Some (JObj ms) \<Rightarrow> (case rev (List.map_filter as_str (field_values k ms)) of [] \<Rightarrow> '''' | s # _ \<Rightarrow> s)
      | _ \<Rightarrow> '''')"

text \<open>\<^verbatim>\<open>fmt.Sprintf("%v", v)\<close> and the type assertions on values of type \<^verbatim>\<open>any\<close>.\<close>

fun join_sp :: "bytes list \<Rightarrow> bytes" where
  "join_sp [] = []"
| "join_sp [x] = x"
| "join_sp (x # y # xs) = x @ '' '' @ join_sp (y # xs)"

fun Sprint_v :: "json \<Rightarrow> bytes" where
  "Sprint_v JNull = ''<nil>''"
| "Sprint_v (JBool b) = (if b then ''true'' else ''false'')"
| "Sprint_v (JNum t) = t"
| "Sprint_v (JStr s) = s"
| "Sprint_v (JArr vs) = ''['' @ join_sp (map Sprint_v vs) @ '']''"
| "Sprint_v (JObj ms) = ''map['' @ join_sp (map (\<lambda>(k, v). k @ '':'' @ Sprint_v v) ms) @ '']''"

definition any_at :: "bytes \<Rightarrow> (bytes \<times> json) list \<Rightarrow> json" where
  "any_at k m = (case map_of m k of None \<Rightarrow> JNull | Some v \<Rightarrow> v)"

section \<open>Generic adapter\<close>

record genericSettings =
  gs_ServicePath :: string
  gs_SeverityPath :: string
  gs_SummaryPath :: string
  gs_OccurredAtPath :: string
  gs_SeverityMap :: "(string \<times> string) list"
  gs_IncludeRaw :: bool

definition decode_genericSettings :: "bytes \<Rightarrow> genericSettings option" where
  "decode_genericSettings b = do {
     ms \<leftarrow> (if b = [] then Some [] else top_members b);
     svc \<leftarrow> str_field ''service_path'' ms;
     sev \<leftarrow> str_field ''severity_path'' ms;
     sm \<leftarrow> str_field ''summary_path'' ms;
     occ \<leftarrow> str_field ''occurred_at_path'' ms;
     smap \<leftarrow> map_field (\<lambda>v. if v = JNull then Some '''' else as_str v) ''severity_map'' ms;
     raw \<leftarrow> get_field as_bool False ''include_raw'' ms;
     Some \<lparr>gs_ServicePath = svc, gs_SeverityPath = sev, gs_SummaryPath = sm, gs_OccurredAtPath = occ,
           gs_SeverityMap = smap, gs_IncludeRaw = raw\<rparr> }"

text \<open>The accumulator is a 64-bit \<^verbatim>\<open>int\<close>: it wraps around.\<close>

fun parseUint_from :: "int \<Rightarrow> bytes \<Rightarrow> int option" where
  "parseUint_from n [] = Some n"
| "parseUint_from n (c # cs) =
     (if code c < 48 \<or> 57 < code c then None
      else parseUint_from (int64 (int64 (n * 10) + int (code c - 48))) cs)"

definition parseUint :: "bytes \<Rightarrow> int option" where
  "parseUint s = parseUint_from 0 s"

text \<open>The walk along the parts of a path; \<open>None\<close> is the panic of an index out of range.\<close>

fun path_walk :: "bytes list \<Rightarrow> json \<Rightarrow> json option" where
  "path_walk [] cur = Some cur"
| "path_walk (p # ps) cur = (case cur of
       JObj m \<Rightarrow> path_walk ps (any_at p m)
     | JArr v \<Rightarrow>
         (case parseUint p of
            None \<Rightarrow> Some JNull
          | Some i \<Rightarrow>
              if int (length v) \<le> i then Some JNull
              else if i < 0 then None
              else path_walk ps (v ! nat i))
     | _ \<Rightarrow> Some JNull)"

definition pathLookup :: "json \<Rightarrow> bytes \<Rightarrow> json option" where
  "pathLookup root path =
     (if path = '''' \<or> path = ''$'' then Some root
      else if \<not> HasPrefix path ''$.'' then Some JNull
      else path_walk (Split (TrimPrefix path ''$.'') CHR ''.'') root)"

definition pathToString :: "json \<Rightarrow> bytes \<Rightarrow> bytes option" where
  "pathToString root path = map_option (\<lambda>v. case v of JNull \<Rightarrow> '''' | JStr x \<Rightarrow> x | _ \<Rightarrow> Sprint_v v) (pathLookup root path)"

definition generic_severity :: "genericSettings \<Rightarrow> json \<Rightarrow> string option" where
  "generic_severity s root =
     (if gs_SeverityPath s = '''' then Some ''''
      else map_option (\<lambda>raw. case map_of (gs_SeverityMap s) raw of
            Some mapped \<Rightarrow> NormalizeSeverity mapped
          | None \<Rightarrow> NormalizeSeverity raw) (pathToString root (gs_SeverityPath s)))"

definition generic_ts :: "adapter_lib \<Rightarrow> gotime \<Rightarrow> genericSettings \<Rightarrow> json \<Rightarrow> gotime option" where
  "generic_ts L now s root =
     (if gs_OccurredAtPath s = '''' then Some now
      else map_option (\<lambda>str.
          if str = '''' then now
          else case parse_RFC3339Nano L str of
            Some t \<Rightarrow> t
          | None \<Rightarrow> (case parse_RFC3339 L str of Some t \<Rightarrow> t | None \<Rightarrow> now)) (pathToString root (gs_OccurredAtPath s)))"

definition Generic_Name :: string where "Generic_Name = ''generic''"

definition Generic_Normalize :: normalize where
  "Generic_Normalize L now body hdrs settingsJSON =
     (case decode_genericSettings settingsJSON of
        None \<Rightarrow> Some (Inl ErrAdapterBadInput)
      | Some s \<Rightarrow>
          if gs_SummaryPath s = '''' then Some (Inl ErrAdapterMissing)
          else (case Option.bind (parse_json body) (to_any (fmt_float L)) of
            None \<Rightarrow> Some (Inl ErrAdapterBadInput)
          | Some root \<Rightarrow> do {
              summary \<leftarrow> pathToString root (gs_SummaryPath s);
              if summary = '''' then Some (Inl ErrAdapterMissing)
              else do {
                summary \<leftarrow> Truncate summary 200;
                service \<leftarrow> (if gs_ServicePath s \<noteq> '''' then pathToString root (gs_ServicePath s) else Some '''');
                severity \<leftarrow> generic_severity s root;
                ts \<leftarrow> generic_ts L now s root;
                Some (Inr \<lparr>ie_Source = ''generic'', ie_Service = service, ie_Severity = severity, ie_Summary = summary,
                  ie_Fields = (case root of JObj m \<Rightarrow> m | _ \<Rightarrow> [(''body'', root)]),
                  ie_OccurredAt = ts, ie_Raw = (if gs_IncludeRaw s then body else [])\<rparr>) } }))"


section \<open>Graylog adapter\<close>

record graylogInner =
  gi_Timestamp :: gotime
  gi_Message :: string
  gi_Fields :: "(bytes \<times> json) list"
  gi_Priority :: int

record graylogPayload =
  gp_EventDefinitionID :: string
  gp_EventDefinitionType :: string
  gp_EventDefinitionTitle :: string
  gp_Event :: graylogInner

definition decode_graylogPayload :: "adapter_lib \<Rightarrow> bytes \<Rightarrow> graylogPayload option" where
  "decode_graylogPayload L body = do {
     ms \<leftarrow> top_members body;
     did \<leftarrow> str_field ''event_definition_id'' ms;
     dtype \<leftarrow> str_field ''event_definition_type'' ms;
     dtitle \<leftarrow> str_field ''event_definition_title'' ms;
     ev \<leftarrow> struct_field ''event'' ms;
     ts \<leftarrow> get_field (\<lambda>v. Option.bind (as_str v) (parse_stamp L)) 0 ''timestamp'' ev;
     msg \<leftarrow> str_field ''message'' ev;
     fs \<leftarrow> map_field (to_any (fmt_float L)) ''fields'' ev;
     pr \<leftarrow> get_field as_int 0 ''priority'' ev;
     Some \<lparr>gp_EventDefinitionID = did, gp_EventDefinitionType = dtype, gp_EventDefinitionTitle = dtitle,
           gp_Event = \<lparr>gi_Timestamp = ts, gi_Message = msg, gi_Fields = fs, gi_Priority = pr\<rparr>\<rparr> }"

definition graylogPriorityToSeverity :: "int \<Rightarrow> string" where
  "graylogPriorityToSeverity p =
     (if p = 1 then SeverityInfo else if p = 2 then SeverityWarn else if p = 3 then SeverityError else SeverityWarn)"

text \<open>\<open>fields[k] = v\<close> when \<open>v\<close> is not the empty string.\<close>

definition set_nonempty :: "bytes \<Rightarrow> string \<Rightarrow> (bytes \<times> json) list \<Rightarrow> (bytes \<times> json) list" where
  "set_nonempty k v m = (if v \<noteq> '''' then AList.update k (JStr v) m else m)"

definition Graylog_Name :: string where "Graylog_Name = ''graylog''"

definition Graylog_Normalize :: normalize where
  "Graylog_Normalize L now body hdrs settingsJSON =
     (case decode_graylogPayload L body of
        None \<Rightarrow> Some (Inl ErrAdapterBadInput)
      | Some p \<Rightarrow>
          if gi_Message (gp_Event p) = '''' \<and> gp_EventDefinitionTitle p = '''' then Some (Inl ErrAdapterMissing)
          else
            let sf = lenient_str ''service_field'' settingsJSON;
                serviceKey = (if sf = '''' then ''service'' else sf);
                fs = gi_Fields (gp_Event p);
                service = (case any_at serviceKey fs of JStr v \<Rightarrow> v | _ \<Rightarrow> '''');
                severity = (case any_at ''level'' fs of JStr v \<Rightarrow> NormalizeSeverity v
                            | _ \<Rightarrow> graylogPriorityToSeverity (gi_Priority (gp_Event p)));
                msg = (if gi_Message (gp_Event p) = '''' then gp_EventDefinitionTitle p else gi_Message (gp_Event p));
                fields = AList.update ''priority'' (JNum (FormatInt (gi_Priority (gp_Event p))))
                          (set_nonempty ''event_definition_title'' (gp_EventDefinitionTitle p)
                          (set_nonempty ''event_definition_type'' (gp_EventDefinitionType p)
                          (set_nonempty ''event_definition_id'' (gp_EventDefinitionID p) fs)));
                ts = gi_Timestamp (gp_Event p)
            in map_option (\<lambda>summary. Inr \<lparr>ie_Source = ''graylog'', ie_Service = service, ie_Severity = severity,
                 ie_Summary = summary, ie_Fields = fields, ie_OccurredAt = (if IsZero ts then now else ts), ie_Raw = body\<rparr>)
               (Truncate msg 200))"

section \<open>Splunk adapter\<close>

record splunkPayload =
  sp_SID :: string
  sp_SearchName :: string
  sp_App :: string
  sp_Owner :: string
  sp_ResultsLink :: string
  sp_Result :: "(bytes \<times> json) list"

definition decode_splunkPayload :: "adapter_lib \<Rightarrow> bytes \<Rightarrow> splunkPayload option" where
  "decode_splunkPayload L body = do {
     ms \<leftarrow> top_members body;
     sid \<leftarrow> str_field ''sid'' ms;
     name \<leftarrow> str_field ''search_name'' ms;
     app \<leftarrow> str_field ''app'' ms;
     own \<leftarrow> str_field ''owner'' ms;
     lnk \<leftarrow> str_field ''results_link'' ms;
     res \<leftarrow> map_field (to_any (fmt_float L)) ''result'' ms;
     Some \<lparr>sp_SID = sid, sp_SearchName = name, sp_App = app, sp_Owner = own, sp_ResultsLink = lnk, sp_Result = res\<rparr> }"

text \<open>
  The loop of \<^verbatim>\<open>toLower\<close> ranges over the runes of the string, so only the first byte of each is
  written; the others keep the zero of the fresh slice.
\<close>

function toLower :: "bytes \<Rightarrow> bytes" where
  "toLower s = (if s = [] then []
     else let w = snd (decode_rune s)
          in lower_char (hd s) # replicate (length (take w s) - 1) (CHR 0x00) @ toLower (drop w s))"
  by pat_completeness auto
termination
  by (relation "measure length") (auto intro!: diff_less simp: decode_rune_pos)

declare toLower.simps [simp del]

text \<open>The loops of \<^verbatim>\<open>contains\<close>: the needle compared at offset \<open>i\<close>, then the offsets from \<open>i\<close> on.\<close>

function contains_at :: "bytes \<Rightarrow> bytes \<Rightarrow> nat \<Rightarrow> nat \<Rightarrow> bool" where
  "contains_at haystack needle i j =
     (if j < length needle
      then (if haystack ! (i + j) \<noteq> needle ! j then False else contains_at haystack needle i (Suc j))
      else True)"
  by pat_completeness auto
termination
  by (relation "measure (\<lambda>(h, n, i, j). length n - j)") auto

function contains_from :: "bytes \<Rightarrow> bytes \<Rightarrow> nat \<Rightarrow> bool" where
  "contains_from haystack needle i =
     (if i \<le> length haystack - length needle
      then (if contains_at haystack needle i 0 then True else contains_from haystack needle (Suc i))
      else False)"
  by pat_completeness auto
termination
  by (relation "measure (\<lambda>(h, n, i). Suc (length h) - i)") auto

declare contains_at.simps [simp del] contains_from.simps [simp del]

definition contains :: "bytes \<Rightarrow> bytes \<Rightarrow> bool" where
  "contains haystack needle =
     (if length needle = 0 then True
      else if length haystack < length needle then False
      else contains_from haystack needle 0)"

definition deriveSplunkSeverity :: "string \<Rightarrow> string" where
  "deriveSplunkSeverity name =
     (let low = toLower name
      in if contains low ''critical'' \<or> contains low ''fatal'' \<or> contains low ''outage'' \<or> contains low ''down''
         then SeverityCritical
         else if contains low ''error'' \<or> contains low ''5xx'' \<or> contains low ''failure'' then SeverityError
         else if contains low ''warn'' \<or> contains low ''anomaly'' \<or> contains low ''spike'' then SeverityWarn
         else SeverityInfo)"

definition splunk_severity :: "splunkPayload \<Rightarrow> string \<Rightarrow> string" where
  "splunk_severity p severityField =
     (let sev = (if severityField \<noteq> '''' then
                   (case any_at severityField (sp_Result p) of JStr v \<Rightarrow> NormalizeSeverity v | _ \<Rightarrow> '''') else '''')
      in if sev = '''' then deriveSplunkSeverity (sp_SearchName p) else sev)"

definition Splunk_Name :: string where "Splunk_Name = ''splunk''"

definition Splunk_Normalize :: normalize where
  "Splunk_Normalize L now body hdrs settingsJSON =
     (case decode_splunkPayload L body of
        None \<Rightarrow> Some (Inl ErrAdapterBadInput)
      | Some p \<Rightarrow>
          if sp_SearchName p = '''' then Some (Inl ErrAdapterMissing)
          else
            let sf = lenient_str ''service_field'' settingsJSON;
                serviceKey = (if sf = '''' then ''service'' else sf);
                service = (case any_at serviceKey (sp_Result p) of JStr v \<Rightarrow> v | _ \<Rightarrow> '''');
                severity = splunk_severity p (lenient_str ''severity_field'' settingsJSON);
                summary = (case map_of (sp_Result p) ''count'' of
                    Some v \<Rightarrow> sp_SearchName p @ '' (count='' @ Sprint_v v @ '')''
                  | None \<Rightarrow> sp_SearchName p);
                fields = set_nonempty ''results_link'' (sp_ResultsLink p)
                          (set_nonempty ''owner'' (sp_Owner p)
                          (set_nonempty ''app'' (sp_App p)
                          (set_nonempty ''sid'' (sp_SID p) (sp_Result p))))
            in map_option (\<lambda>sm. Inr \<lparr>ie_Source = ''splunk'', ie_Service = service, ie_Severity = severity,
                 ie_Summary = sm, ie_Fields = fields, ie_OccurredAt = now, ie_Raw = body\<rparr>)
               (Truncate summary 200))"

section \<open>Datadog adapter\<close>

record datadogPayload =
  dd_ID :: string
  dd_AlertType :: string
  dd_AlertTitle :: string
  dd_Title :: string
  dd_Body :: string
  dd_Date :: string
  dd_EventMsg :: string
  dd_EventType :: string
  dd_Hostname :: string
  dd_Tags :: string
  dd_OrgID :: string
  dd_OrgName :: string
  dd_Link :: string

definition decode_datadogPayload :: "bytes \<Rightarrow> datadogPayload option" where
  "decode_datadogPayload body = do {
     ms \<leftarrow> top_members body;
     i \<leftarrow> str_field ''id'' ms;
     at \<leftarrow> str_field ''alert_type'' ms;
     ati \<leftarrow> str_field ''alert_title'' ms;
     ti \<leftarrow> str_field ''title'' ms;
     b \<leftarrow> str_field ''body'' ms;
     d \<leftarrow> str_field ''date'' ms;
     em \<leftarrow> str_field ''event_msg'' ms;
     et \<leftarrow> str_field ''event_type'' ms;
     h \<leftarrow> str_field ''hostname'' ms;
     tg \<leftarrow> str_field ''tags'' ms;
     org \<leftarrow> struct_field ''org'' ms;
     oi \<leftarrow> str_field ''id'' org;
     oname \<leftarrow> str_field ''name'' org;
     lnk \<leftarrow> str_field ''link'' ms;
     Some \<lparr>dd_ID = i, dd_AlertType = at, dd_AlertTitle = ati, dd_Title = ti, dd_Body = b, dd_Date = d, dd_EventMsg = em,
           dd_EventType = et, dd_Hostname = h, dd_Tags = tg, dd_OrgID = oi, dd_OrgName = oname, dd_Link = lnk\<rparr> }"

definition datadogAlertTypeToSeverity :: "string \<Rightarrow> string" where
  "datadogAlertTypeToSeverity t =
     (if t = ''error'' then SeverityError else if t = ''warning'' then SeverityWarn
      else if t = ''success'' then SeverityInfo else if t = ''info'' then SeverityInfo else SeverityWarn)"

text \<open>One round of the loop over the positions of \<open>tags\<close>, the end included: where the pair began, and the map so far.\<close>

definition ddtags_step :: "string \<Rightarrow> nat \<Rightarrow> nat \<times> (string \<times> string) list \<Rightarrow> nat \<times> (string \<times> string) list" where
  "ddtags_step tags i = (\<lambda>(start, out).
     if i = length tags \<or> tags ! i = CHR '','' then
       let pair = take (i - start) (drop start tags)
       in if pair = '''' then (Suc i, out)
          else (case IndexByte pair CHR '':'' of
              None \<Rightarrow> (Suc i, out)
            | Some colon \<Rightarrow> (Suc i, AList.update (take colon pair) (drop (Suc colon) pair) out))
     else (start, out))"

definition parseDDTags :: "string \<Rightarrow> (string \<times> string) list" where
  "parseDDTags tags =
     (if tags = '''' then [] else snd (fold (ddtags_step tags) [0..<Suc (length tags)] (0, [])))"

fun firstLine :: "string \<Rightarrow> string" where
  "firstLine [] = []"
| "firstLine (c # cs) = (if c = CHR 0x0A then [] else c # firstLine cs)"

definition datadog_summary :: "datadogPayload \<Rightarrow> string" where
  "datadog_summary p =
     (if dd_Title p \<noteq> '''' then dd_Title p
      else if dd_AlertTitle p \<noteq> '''' then dd_AlertTitle p
      else if dd_EventMsg p \<noteq> '''' then dd_EventMsg p
      else firstLine (dd_Body p))"

definition Datadog_Name :: string where "Datadog_Name = ''datadog''"

definition Datadog_Normalize :: normalize where
  "Datadog_Normalize L now body hdrs settingsJSON =
     (case decode_datadogPayload body of
        None \<Rightarrow> Some (Inl ErrAdapterBadInput)
      | Some p \<Rightarrow>
          if datadog_summary p = '''' then Some (Inl ErrAdapterMissing)
          else
            let st = lenient_str ''service_tag'' settingsJSON;
                tagKey = (if st = '''' then ''service'' else st);
                tagMap = parseDDTags (dd_Tags p);
                service = (case map_of tagMap tagKey of Some v \<Rightarrow> v | None \<Rightarrow> '''');
                ts = (if dd_Date p \<noteq> '''' then (case parse_RFC3339 L (dd_Date p) of Some t \<Rightarrow> t | None \<Rightarrow> now) else now);
                fields = set_nonempty ''link'' (dd_Link p) (set_nonempty ''org_name'' (dd_OrgName p)
                  [(''alert_type'', JStr (dd_AlertType p)), (''event_type'', JStr (dd_EventType p)),
                   (''hostname'', JStr (dd_Hostname p)), (''tags'', JObj (map (\<lambda>(k, v). (k, JStr v)) tagMap)),
                   (''event_id'', JStr (dd_ID p))])
            in map_option (\<lambda>sm. Inr \<lparr>ie_Source = ''datadog'', ie_Service = service,
                 ie_Severity = datadogAlertTypeToSeverity (dd_AlertType p), ie_Summary = sm, ie_Fields = fields,
                 ie_OccurredAt = ts, ie_Raw = body\<rparr>)
               (Truncate (datadog_summary p) 200))"

section \<open>GitHub adapter\<close>

definition stringField :: "(bytes \<times> json) list \<Rightarrow> bytes \<Rightarrow> string" where
  "stringField m k = (case any_at k m of JStr v \<Rightarrow> v | _ \<Rightarrow> '''')"

definition nestedString :: "(bytes \<times> json) list \<Rightarrow> bytes \<Rightarrow> bytes \<Rightarrow> string" where
  "nestedString m k1 k2 = (case any_at k1 m of
       JObj s \<Rightarrow> (case any_at k2 s of JStr v \<Rightarrow> v | _ \<Rightarrow> '''')
     | _ \<Rightarrow> '''')"

definition nestedBool :: "(bytes \<times> json) list \<Rightarrow> bytes \<Rightarrow> bytes \<Rightarrow> bool" where
  "nestedBool m k1 k2 = (case any_at k1 m of
       JObj s \<Rightarrow> (case any_at k2 s of JBool v \<Rightarrow> v | _ \<Rightarrow> False)
     | _ \<Rightarrow> False)"

definition nestedAny :: "(bytes \<times> json) list \<Rightarrow> bytes \<Rightarrow> bytes \<Rightarrow> json" where
  "nestedAny m k1 k2 = (case any_at k1 m of JObj s \<Rightarrow> any_at k2 s | _ \<Rightarrow> JNull)"

text \<open>The summary, the severity and the fields of one event type; an unknown type has an empty summary.\<close>

definition githubEventDetails :: "string \<Rightarrow> (bytes \<times> json) list \<Rightarrow> string \<times> string \<times> (bytes \<times> json) list" where
  "githubEventDetails event p =
     (if event = ''push'' then
        let who0 = nestedString p ''pusher'' ''name'';
            who = (if who0 = '''' then nestedString p ''sender'' ''login'' else who0);
            ref = stringField p ''ref'';
            commits = (case any_at ''commits'' p of JArr c \<Rightarrow> int (length c) | _ \<Rightarrow> 0)
        in (who @ '' pushed '' @ FormatInt commits @ '' commit(s) to '' @ ref, SeverityInfo,
            [(''pusher'', JStr who), (''ref'', JStr ref), (''commits'', JNum (FormatInt commits))])
      else if event = ''pull_request'' then
        let action = stringField p ''action'';
            number = nestedAny p ''pull_request'' ''number'';
            title = nestedString p ''pull_request'' ''title'';
            actor = nestedString p ''sender'' ''login''
        in (if action = ''closed'' \<and> nestedBool p ''pull_request'' ''merged''
            then ''PR #'' @ Sprint_v number @ '' merged by '' @ actor @ '': '' @ title
            else ''PR #'' @ Sprint_v number @ '' '' @ action @ '' by '' @ actor @ '': '' @ title, SeverityInfo,
            [(''action'', JStr action), (''number'', number), (''actor'', JStr actor)])
      else if event = ''deployment_status'' then
        let state = nestedString p ''deployment_status'' ''state'';
            environ = nestedString p ''deployment'' ''environment'';
            actor = nestedString p ''sender'' ''login''
        in (''deployment to '' @ environ @ '': '' @ state @ '' (by '' @ actor @ '')'',
            if state = ''failure'' \<or> state = ''error'' then SeverityError
            else if state = ''success'' then SeverityInfo else SeverityWarn,
            [(''state'', JStr state), (''environment'', JStr environ), (''actor'', JStr actor)])
      else if event = ''issues'' then
        let action = stringField p ''action'';
            number = nestedAny p ''issue'' ''number'';
            title = nestedString p ''issue'' ''title'';
            actor = nestedString p ''sender'' ''login''
        in (''issue #'' @ Sprint_v number @ '' '' @ action @ '' by '' @ actor @ '': '' @ title, SeverityInfo,
            [(''action'', JStr action), (''number'', number), (''actor'', JStr actor)])
      else if event = ''release'' then
        let action = stringField p ''action'';
            tag = nestedString p ''release'' ''tag_name'';
            actor = nestedString p ''sender'' ''login''
        in (''release '' @ tag @ '' '' @ action @ '' by '' @ actor, SeverityInfo,
            [(''action'', JStr action), (''tag'', JStr tag), (''actor'', JStr actor)])
      else ('''', SeverityInfo, []))"

definition GitHub_Name :: string where "GitHub_Name = ''github''"

text \<open>The header's canonical key is \<^verbatim>\<open>X-Github-Event\<close>.\<close>

definition GitHub_Normalize :: normalize where
  "GitHub_Normalize L now body hdrs settingsJSON =
     (let event = header_Get hdrs ''X-Github-Event''
      in if event = '''' then Some (Inl ErrAdapterMissing)
         else (case map_option JObj (top_members body) \<bind> to_any (fmt_float L) \<bind> as_obj of
            None \<Rightarrow> Some (Inl ErrAdapterBadInput)
          | Some generic \<Rightarrow>
              let repoName = nestedString generic ''repository'' ''full_name'';
                  (summary0, severity, fields0) = githubEventDetails event generic;
                  summary = (if summary0 = '''' then ''github '' @ event @ '' in '' @ repoName else summary0);
                  fields = AList.update ''github_event'' (JStr event)
                    (if repoName \<noteq> '''' then AList.update ''repository'' (JStr repoName) fields0 else fields0)
              in map_option (\<lambda>sm. Inr \<lparr>ie_Source = ''github'', ie_Service = repoName, ie_Severity = severity,
                   ie_Summary = sm, ie_Fields = fields, ie_OccurredAt = now, ie_Raw = body\<rparr>)
                 (Truncate summary 200)))"

section \<open>The registered adapters\<close>

definition Datadog :: Adapter where "Datadog = \<lparr>ad_Name = Datadog_Name, ad_Normalize = Datadog_Normalize\<rparr>"
definition Generic :: Adapter where "Generic = \<lparr>ad_Name = Generic_Name, ad_Normalize = Generic_Normalize\<rparr>"
definition GitHub :: Adapter where "GitHub = \<lparr>ad_Name = GitHub_Name, ad_Normalize = GitHub_Normalize\<rparr>"
definition Graylog :: Adapter where "Graylog = \<lparr>ad_Name = Graylog_Name, ad_Normalize = Graylog_Normalize\<rparr>"
definition Splunk :: Adapter where "Splunk = \<lparr>ad_Name = Splunk_Name, ad_Normalize = Splunk_Normalize\<rparr>"

text \<open>The registry after the \<^verbatim>\<open>init\<close> functions of the package, run in the order of the file names.\<close>

definition init_registry :: registry where
  "init_registry = fold Register [Datadog, Generic, GitHub, Graylog, Splunk] []"

end
