(* ===== verification/Adapter_Laws.thy ===== *)
theory Adapter_Laws
  imports Adapters
begin

text \<open>
  What the inbound adapters promise: the contract every adapter keeps (\<open>inbound_adapter\<close>), interpreted on
  the five implementations; the rune arithmetic behind \<^verbatim>\<open>Truncate\<close>; the hand-written string routines
  against the \<^verbatim>\<open>strings\<close> package; the paths of the generic adapter.
\<close>

section \<open>UTF-8\<close>

definition scalar :: "nat \<Rightarrow> bool" where
  "scalar r \<longleftrightarrow> r < 1114112 \<and> \<not> surrogate r"

lemma scalar_ascii [simp]: "r < 128 \<Longrightarrow> scalar r"
  by (simp add: scalar_def surrogate_def)

lemma three_byte_scalar:
  assumes "b < 16" and "x < 64" and "y < 64" and "b = 13 \<longrightarrow> x < 32"
  shows "scalar (b * 4096 + x * 64 + y)"
proof -
  have "b < 13 \<or> b = 13 \<or> 14 \<le> b" by linarith
  with assms show ?thesis by (auto simp: scalar_def surrogate_def)
qed

lemma decode_rune_scalar: "scalar (fst (decode_rune s))"
proof -
  define b where "b = code (s ! 0)"
  have two: "scalar ((b - 192) * 64 + (code (s ! 1) - 128))" if "b < 224" "cont s 1"
    using that by (auto simp: scalar_def surrogate_def cont_def)
  have three: "scalar ((b - 224) * 4096 + (code (s ! 1) - 128) * 64 + (code (s ! 2) - 128))"
    if "224 \<le> b" "b < 240" "cont s 1" "cont s 2" "b = 237 \<longrightarrow> code (s ! 1) < 160"
    using that by (intro three_byte_scalar) (auto simp: cont_def)
  have four: "scalar ((b - 240) * 262144 + (code (s ! 1) - 128) * 4096 + (code (s ! 2) - 128) * 64 + (code (s ! 3) - 128))"
    if "240 \<le> b" "b < 245" "cont s 1" "cont s 2" "cont s 3" "b = 240 \<longrightarrow> 144 \<le> code (s ! 1)" "b = 244 \<longrightarrow> code (s ! 1) < 144"
  proof -
    have "b = 240 \<or> 240 < b \<and> b < 244 \<or> b = 244" using that by linarith
    with that show ?thesis by (auto simp: scalar_def surrogate_def cont_def)
  qed
  have "scalar 65533" by (simp add: scalar_def surrogate_def)
  with two three four show ?thesis by (simp add: decode_rune_def Let_def b_def)
qed

lemma utf8_not_Nil [simp]: "utf8 r \<noteq> []"
  by (simp add: utf8_def)

text \<open>The digits to base 64.\<close>

lemma digits64:
  fixes r :: nat
  shows "r = r div 64 * 64 + r mod 64" and "r mod 64 < 64"
    and "r div 4096 = r div 64 div 64" and "r div 262144 = r div 64 div 64 div 64"
  using div_mult2_eq [of r 64 64] div_mult2_eq [of "r div 64" 64 64] div_mult2_eq [of r 64 4096] by simp_all

lemma decode_utf8_3:
  assumes "a < 16" "b < 64" "c < 64" "a = 0 \<Longrightarrow> 32 \<le> b" "a = 13 \<Longrightarrow> b < 32"
  shows "decode_rune ([char_of (224 + a), char_of (128 + b), char_of (128 + c)] @ t) = (a * 4096 + b * 64 + c, 3)"
  using assms by (simp add: decode_rune_def Let_def cont_def)

lemma decode_utf8_4:
  assumes "a < 5" "b < 64" "c < 64" "d < 64" "a = 0 \<Longrightarrow> 16 \<le> b" "a = 4 \<Longrightarrow> b < 16"
  shows "decode_rune ([char_of (240 + a), char_of (128 + b), char_of (128 + c), char_of (128 + d)] @ t) =
         (a * 262144 + b * 4096 + c * 64 + d, 4)"
  using assms by (simp add: decode_rune_def Let_def cont_def)

lemma decode_rune_utf8:
  assumes "scalar r"
  shows "decode_rune (utf8 r @ t) = (r, length (utf8 r))"
proof -
  define q where "q = r div 64"
  note r = digits64(1,2) [of r, folded q_def] and q = digits64(1,2) [of q] and p = digits64(1,2) [of "q div 64"]
  consider "r < 128" | "128 \<le> r" "r < 2048" | "2048 \<le> r" "r < 65536" | "65536 \<le> r" "r < 1114112"
    using assms unfolding scalar_def by linarith
  then show ?thesis
  proof cases
    case 1
    then show ?thesis by (simp add: decode_rune_def utf8_def Let_def)
  next
    case 2
    with r have "2 \<le> q" "q < 32" by linarith+
    then show ?thesis using 2 r by (simp add: utf8_def q_def [symmetric] decode_rune_def Let_def cont_def)
  next
    case 3
    have "decode_rune ([char_of (224 + q div 64), char_of (128 + q mod 64), char_of (128 + r mod 64)] @ t) = (r, 3)"
    proof (rule trans [OF decode_utf8_3])
      show "q div 64 < 16" "q div 64 = 0 \<Longrightarrow> 32 \<le> q mod 64" using 3 r q by linarith+
      show "q div 64 = 13 \<Longrightarrow> q mod 64 < 32" using assms r q unfolding scalar_def surrogate_def by linarith
      show "(q div 64 * 4096 + q mod 64 * 64 + r mod 64, 3) = (r, 3)"
        unfolding prod.inject using r q by (intro conjI refl) linarith
    qed simp_all
    then show ?thesis using 3 by (simp add: utf8_def digits64(3) q_def [symmetric])
  next
    case 4
    have "decode_rune ([char_of (240 + q div 64 div 64), char_of (128 + q div 64 mod 64), char_of (128 + q mod 64),
            char_of (128 + r mod 64)] @ t) = (r, 4)"
    proof (rule trans [OF decode_utf8_4])
      show "q div 64 div 64 < 5" "q div 64 div 64 = 0 \<Longrightarrow> 16 \<le> q div 64 mod 64"
        "q div 64 div 64 = 4 \<Longrightarrow> q div 64 mod 64 < 16" using 4 r q p by linarith+
      show "(q div 64 div 64 * 262144 + q div 64 mod 64 * 4096 + q mod 64 * 64 + r mod 64, 4) = (r, 4)"
        unfolding prod.inject using r q p by (intro conjI refl) linarith
    qed simp_all
    then show ?thesis using 4 by (simp add: utf8_def digits64(3,4) q_def [symmetric])
  qed
qed

lemma runes_Nil [simp]: "runes [] = []"
  by (simp add: runes.simps)

lemma runes_utf8: "scalar r \<Longrightarrow> runes (utf8 r @ t) = r # runes t"
  by (subst runes.simps) (simp add: decode_rune_utf8)

lemma runes_runes_string: "list_all scalar rs \<Longrightarrow> runes (runes_string rs @ t) = rs @ runes t"
  by (induction rs) (auto simp: runes_string_def runes_utf8)

lemma runes_scalar: "list_all scalar (runes s)"
proof (induction s rule: runes.induct)
  case (1 s)
  then show ?case by (subst runes.simps) (auto simp: decode_rune_scalar)
qed

lemma runes_ascii: "list_all (\<lambda>c. code c < 128) s \<Longrightarrow> runes s = map code s"
proof (induction s)
  case (Cons c s)
  then have "utf8 (code c) = [c]" by (simp add: utf8_def)
  with Cons runes_utf8 [of "code c" s] show ?case by simp
qed simp

lemma length_runes_le: "length (runes s) \<le> length s"
proof (induction s rule: runes.induct)
  case (1 s)
  show ?case
  proof (cases "s = []")
    case False
    with 1 decode_rune_pos [OF False] show ?thesis
      by (subst runes.simps) (cases "length s - snd (decode_rune s) = 0"; auto simp: Suc_le_eq)
  qed simp
qed

lemma runes_eq_Nil_iff [simp]: "runes s = [] \<longleftrightarrow> s = []"
  by (subst runes.simps) simp

section \<open>Truncation\<close>

lemma Truncate_total: "3 \<le> n \<Longrightarrow> Truncate s n \<noteq> None"
  by (simp add: Truncate_def)

lemma Truncate_Some:
  assumes "Truncate s n = Some t" and "3 \<le> n"
  shows "t = s \<and> int (length (runes s)) \<le> n \<or>
         int (length (runes s)) > n \<and> runes t = take (nat (n - 3)) (runes s) @ map code ''...''"
proof -
  have dots: "runes ''...'' = map code ''...''" by (rule runes_ascii) (simp add: code_def)
  have "list_all scalar (take (nat (n - 3)) (runes s))"
    using runes_scalar [of s] by (metis append_take_drop_id list_all_append)
  note trunc = runes_runes_string [OF this, of "''...''", unfolded dots]
  show ?thesis
    using assms length_runes_le [of s] trunc by (auto simp: Truncate_def split: if_splits)
qed

lemma Truncate_bound: "Truncate s n = Some t \<Longrightarrow> 3 \<le> n \<Longrightarrow> int (length (runes t)) \<le> n"
  by (drule (1) Truncate_Some) (auto simp: min_def)

lemma Truncate_not_Nil: "Truncate s n = Some t \<Longrightarrow> s \<noteq> [] \<Longrightarrow> t \<noteq> []"
  by (auto simp: Truncate_def split: if_splits)


section \<open>The string routines of the adapters\<close>

subsection \<open>contains\<close>

lemma contains_at_iff: "contains_at h n i j \<longleftrightarrow> (\<forall>k. j \<le> k \<and> k < length n \<longrightarrow> h ! (i + k) = n ! k)"
proof (induction h n i j rule: contains_at.induct)
  case (1 h n i j)
  have "(\<forall>k. j \<le> k \<and> k < length n \<longrightarrow> h ! (i + k) = n ! k) \<longleftrightarrow>
        (j < length n \<longrightarrow> h ! (i + j) = n ! j \<and> (\<forall>k. Suc j \<le> k \<and> k < length n \<longrightarrow> h ! (i + k) = n ! k))"
    by (auto simp: Suc_le_eq dest: le_neq_implies_less)
  with 1 show ?case by (subst contains_at.simps) auto
qed

lemma contains_from_iff:
  "contains_from h n i \<longleftrightarrow> (\<exists>k. i \<le> k \<and> k \<le> length h - length n \<and> contains_at h n k 0)"
proof (induction h n i rule: contains_from.induct)
  case (1 h n i)
  have "(\<exists>k. i \<le> k \<and> k \<le> length h - length n \<and> contains_at h n k 0) \<longleftrightarrow>
        i \<le> length h - length n \<and>
        (contains_at h n i 0 \<or> (\<exists>k. Suc i \<le> k \<and> k \<le> length h - length n \<and> contains_at h n k 0))"
    by (auto simp: Suc_le_eq dest: le_neq_implies_less intro: less_imp_le)
  with 1 show ?case by (subst contains_from.simps) auto
qed

lemma occurs_iff_nth:
  assumes "length n \<le> length h"
  shows "(\<exists>a b. h = a @ n @ b) \<longleftrightarrow> (\<exists>k \<le> length h - length n. \<forall>j < length n. h ! (k + j) = n ! j)"
    (is "?L \<longleftrightarrow> ?R")
proof
  assume ?L
  then obtain a b where h: "h = a @ n @ b" by blast
  then have "\<forall>j < length n. h ! (length a + j) = n ! j" by (simp add: nth_append)
  with h show ?R by (intro exI [of _ "length a"]) simp
next
  assume ?R
  then obtain k where k: "k \<le> length h - length n" "\<forall>j < length n. h ! (k + j) = n ! j" by blast
  have "take (length n) (drop k h) = n"
    using k assms by (intro nth_equalityI) auto
  then have "h = take k h @ n @ drop (length n) (drop k h)" by (metis append_take_drop_id)
  then show ?L by blast
qed

lemma contains_Contains: "contains h n = Contains h n"
proof (cases "n = [] \<or> length h < length n")
  case True
  then show ?thesis by (auto simp: contains_def Contains_iff)
next
  case False
  then show ?thesis
    by (simp add: contains_def contains_from_iff contains_at_iff Contains_iff occurs_iff_nth)
qed

subsection \<open>toLower\<close>

lemma decode_rune_conts: "1 \<le> k \<Longrightarrow> k < snd (decode_rune s) \<Longrightarrow> cont s k"
proof -
  assume "1 \<le> k" and k: "k < snd (decode_rune s)"
  moreover have "snd (decode_rune s) \<le> 4" by (simp add: decode_rune_def Let_def)
  ultimately have "k = 1 \<or> k = 2 \<or> k = 3" by linarith
  with k show ?thesis by (auto simp: decode_rune_def Let_def split: if_splits)
qed

lemma decode_rune_le: "snd (decode_rune s) \<le> length s"
proof (cases "snd (decode_rune s) \<le> 1")
  case True
  then show ?thesis by (cases s) (auto simp: decode_rune_def)
next
  case False
  then have "cont s (snd (decode_rune s) - 1)" by (intro decode_rune_conts) auto
  then show ?thesis by (auto simp: cont_def)
qed

text \<open>The result of \<^verbatim>\<open>toLower\<close> differs from the lower-cased string only where a byte above 127 became zero.\<close>

definition masked :: "char \<Rightarrow> char \<Rightarrow> bool" where
  "masked x y \<longleftrightarrow> x = y \<or> x = CHR 0x00 \<and> 128 \<le> code y"

lemma masked_refl [simp]: "masked x x"
  by (simp add: masked_def)

lemma lower_char_high: "128 \<le> code c \<Longrightarrow> lower_char c = c"
  by (simp add: lower_char_def code_def)

lemma toLower_masked: "list_all2 masked (toLower s) (ToLower s)"
proof (induction s rule: toLower.induct)
  case (1 s)
  show ?case
  proof (cases s)
    case (Cons c t)
    define w where "w = snd (decode_rune s)"
    have w: "0 < w" "w \<le> length s" using decode_rune_pos [of s] decode_rune_le [of s] Cons by (auto simp: w_def)
    have "list_all2 masked (replicate (w - 1) (CHR 0x00)) (map lower_char (take (w - 1) t))"
    proof (rule list_all2_all_nthI)
      show "length (replicate (w - 1) (CHR 0x00)) = length (map lower_char (take (w - 1) t))" using w Cons by simp
    next
      fix j assume "j < length (replicate (w - 1) (CHR 0x00))"
      then have "cont s (Suc j)" using decode_rune_conts [of "Suc j" s] by (simp add: w_def)
      then have "128 \<le> code (t ! j)" "j < length t" by (auto simp: cont_def Cons)
      then show "masked (replicate (w - 1) (CHR 0x00) ! j) (map lower_char (take (w - 1) t) ! j)"
        using \<open>j < length (replicate (w - 1) (CHR 0x00))\<close> by (simp add: masked_def lower_char_high)
    qed
    moreover have "list_all2 masked (toLower (drop w s)) (ToLower (drop w s))"
      using 1 [OF _ w_def] Cons by simp
    moreover have "ToLower s = lower_char c # map lower_char (take (w - 1) t) @ ToLower (drop w s)"
      using w Cons by (cases w) (auto simp: ToLower_def append_take_drop_id simp flip: map_append)
    moreover have "toLower s = lower_char c # replicate (w - 1) (CHR 0x00) @ toLower (drop w s)"
      using w Cons by (subst toLower.simps) (simp add: Let_def w_def min_def)
    ultimately show ?thesis by (simp add: list_all2_appendI)
  qed (simp add: toLower.simps ToLower_def)
qed

definition plain_ascii :: "bytes \<Rightarrow> bool" where
  "plain_ascii n \<longleftrightarrow> list_all (\<lambda>c. 0 < code c \<and> code c < 128) n"

lemma masked_eq: "masked x y \<Longrightarrow> 0 < code c \<Longrightarrow> code c < 128 \<Longrightarrow> x = c \<longleftrightarrow> y = c"
  by (auto simp: masked_def code_def)

lemma masked_HasPrefix: "list_all2 masked a b \<Longrightarrow> plain_ascii n \<Longrightarrow> HasPrefix a n = HasPrefix b n"
proof (induction n arbitrary: a b)
  case (Cons c n)
  show ?case
  proof (cases a)
    case a: (Cons x a')
    with Cons.prems obtain y b' where b: "b = y # b'" by (cases b) auto
    from Cons.prems a b have "x = c \<longleftrightarrow> y = c" by (intro masked_eq) (auto simp: plain_ascii_def)
    moreover have "HasPrefix a' n = HasPrefix b' n" using Cons a b by (auto simp: plain_ascii_def)
    ultimately show ?thesis using a b by (auto simp: HasPrefix_def)
  qed (use Cons.prems in \<open>auto simp: HasPrefix_def\<close>)
qed (simp add: HasPrefix_def)

lemma masked_Contains: "list_all2 masked a b \<Longrightarrow> plain_ascii n \<Longrightarrow> Contains a n = Contains b n"
proof (induction a b rule: list_all2_induct)
  case (Cons x xs y ys)
  then have "HasPrefix (x # xs) n = HasPrefix (y # ys) n" by (intro masked_HasPrefix) auto
  with Cons show ?case by simp
qed simp

lemma contains_toLower: "plain_ascii n \<Longrightarrow> contains (toLower s) n = Contains (ToLower s) n"
  by (simp add: contains_Contains masked_Contains [OF toLower_masked])

subsection \<open>parseDDTags\<close>

definition add_tag :: "string \<Rightarrow> (string \<times> string) list \<Rightarrow> (string \<times> string) list" where
  "add_tag pair out = (case IndexByte pair CHR '':'' of
      None \<Rightarrow> out
    | Some colon \<Rightarrow> AList.update (take colon pair) (drop (Suc colon) pair) out)"

lemma ddtags_step_comma:
  "i = length tags \<or> tags ! i = CHR '','' \<Longrightarrow>
   ddtags_step tags i (start, out) = (Suc i, add_tag (take (i - start) (drop start tags)) out)"
  by (auto simp: ddtags_step_def add_tag_def Let_def split: option.split)

lemma ddtags_step_other:
  "i \<noteq> length tags \<Longrightarrow> tags ! i \<noteq> CHR '','' \<Longrightarrow> ddtags_step tags i (start, out) = (start, out)"
  by (simp add: ddtags_step_def)

lemma ddtags_fold:
  assumes "start \<le> i" and "i \<le> length tags" and "CHR '','' \<notin> set (take (i - start) (drop start tags))"
  shows "snd (fold (ddtags_step tags) [i..<Suc (length tags)] (start, out)) =
         fold add_tag (Split (drop start tags) CHR '','') out"
  using assms
proof (induction "length tags - i" arbitrary: i start out)
  case 0
  then have "i = length tags" by simp
  with 0 show ?case by (simp add: ddtags_step_comma Split_no_sep)
next
  case (Suc d)
  then have i: "i < length tags" "[i..<Suc (length tags)] = i # [Suc i..<Suc (length tags)]"
    by (simp_all add: upt_rec)
  have next_char: "drop start tags = take (i - start) (drop start tags) @ tags ! i # drop (Suc i) tags"
    using Suc.prems(1) i(1) by (metis Cons_nth_drop_Suc append_take_drop_id drop_drop le_add_diff_inverse2)
  show ?case
  proof (cases "tags ! i = CHR '',''")
    case True
    have "Split (drop start tags) CHR '','' = take (i - start) (drop start tags) # Split (drop (Suc i) tags) CHR '',''"
      using Split_append_sep [OF Suc.prems(3), of "drop (Suc i) tags"] next_char True by simp
    then show ?thesis
      using Suc.hyps(1) [of "Suc i" "Suc i" "add_tag (take (i - start) (drop start tags)) out"] Suc.hyps(2) i True
      by (simp add: ddtags_step_comma del: upt_Suc)
  next
    case False
    have "take (Suc i - start) (drop start tags) = take (i - start) (drop start tags) @ [tags ! i]"
      using Suc.prems(1) i(1) by (simp add: Suc_diff_le take_Suc_conv_app_nth)
    then show ?thesis
      using Suc.hyps(1) [of "Suc i" start out] Suc.hyps(2) Suc.prems False i
      by (simp add: ddtags_step_other del: upt_Suc)
  qed
qed

lemma parseDDTags_Split: "parseDDTags tags = fold add_tag (Split tags CHR '','') []"
  using ddtags_fold [of 0 0 tags "[]"] by (simp add: parseDDTags_def add_tag_def del: upt_Suc)


section \<open>Paths of the generic adapter\<close>

lemma int64_int64_add [simp]: "int64 (int64 a + b) = int64 (a + b)"
  by (simp add: int64_def)

lemma int64_int64_mult [simp]: "int64 (int64 a * b) = int64 (a * b)"
  by (simp add: int64_def)

lemma parseUint_from_digits:
  "parseUint_from (int64 (int n)) s =
     (if list_all is_digit s then Some (int64 (int (foldl (\<lambda>n c. n * 10 + digit_val c) n s))) else None)"
proof (induction s arbitrary: n)
  case (Cons c s)
  have d: "code c - 48 = digit_val c" by (simp add: digit_val_def code_def)
  have "int64 (int64 (int64 (int n) * 10) + int (code c - 48)) = int64 (int (n * 10 + digit_val c))"
    unfolding d by simp
  with Cons.IH [of "n * 10 + digit_val c"] show ?case
    by (auto simp: is_digit_def code_def digit_val_def)
qed simp

text \<open>The index parser reads the decimal value modulo \<open>2\<^sup>6\<^sup>4\<close>, as a signed number.\<close>

lemma parseUint_wraps:
  "parseUint s = (if list_all is_digit s then Some (int64 (int (digits_val s))) else None)"
  using parseUint_from_digits [of 0 s] by (simp add: parseUint_def digits_val_def int64_id)

lemma digits_val_less: "list_all is_digit s \<Longrightarrow> digits_val s < 10 ^ length s"
proof (induction s rule: rev_induct)
  case (snoc c s)
  then have "digits_val s + 1 \<le> 10 ^ length s" and "digit_val c < 10"
    by (auto simp: is_digit_def digit_val_def Suc_le_eq)
  then have "digits_val s * 10 + digit_val c < 10 ^ length s * 10" by linarith
  then show ?case by (simp add: digits_val_append mult.commute)
qed (simp add: digits_val_def)

lemma parseUint_short:
  assumes "length s \<le> 18" and "parseUint s = Some i"
  shows "0 \<le> i"
proof -
  have d: "list_all is_digit s" and i: "i = int64 (int (digits_val s))"
    using assms(2) by (auto simp: parseUint_wraps split: if_splits)
  have "digits_val s < 10 ^ length s" using d by (rule digits_val_less)
  also have "\<dots> \<le> 10 ^ 18" using assms(1) by (intro power_increasing) auto
  finally have "int (digits_val s) < 2 ^ 63" by simp
  then show ?thesis unfolding i by (subst int64_id) auto
qed

lemma path_walk_short: "\<forall>p \<in> set ps. length p \<le> 18 \<Longrightarrow> path_walk ps cur \<noteq> None"
proof (induction ps arbitrary: cur)
  case (Cons p ps)
  then have "path_walk ps v \<noteq> None" for v by simp
  then show ?case
    using parseUint_short [of p] Cons.prems by (fastforce split: json.splits option.splits)
qed simp

definition short_path :: "bytes \<Rightarrow> bool" where
  "short_path path \<longleftrightarrow> (\<forall>p \<in> set (Split (TrimPrefix path ''$.'') CHR ''.''). length p \<le> 18)"

lemma pathToString_short: "short_path path \<Longrightarrow> \<exists>v. pathToString root path = Some v"
  using path_walk_short [of "Split (TrimPrefix path ''$.'') CHR ''.''" root]
  by (auto simp: pathToString_def pathLookup_def short_path_def)

lemma Generic_total:
  assumes "\<And>s. decode_genericSettings st = Some s \<Longrightarrow> short_path (gs_SummaryPath s) \<and> short_path (gs_ServicePath s) \<and>
             short_path (gs_SeverityPath s) \<and> short_path (gs_OccurredAtPath s)"
  shows "Generic_Normalize L now body hdrs st \<noteq> None"
proof (cases "decode_genericSettings st")
  case (Some s)
  show ?thesis
  proof (cases "Option.bind (parse_json body) (to_any (fmt_float L))")
    case root: (Some root)
    obtain sm where sm: "pathToString root (gs_SummaryPath s) = Some sm" using assms [OF Some] pathToString_short by blast
    obtain svc where svc: "pathToString root (gs_ServicePath s) = Some svc" using assms [OF Some] pathToString_short by blast
    obtain sev where sev: "pathToString root (gs_SeverityPath s) = Some sev" using assms [OF Some] pathToString_short by blast
    obtain ts where ts: "pathToString root (gs_OccurredAtPath s) = Some ts" using assms [OF Some] pathToString_short by blast
    obtain t where "Truncate sm 200 = Some t" using Truncate_total [of 200 sm] by auto
    with sm svc sev ts show ?thesis
      by (simp add: Generic_Normalize_def Some root generic_severity_def generic_ts_def)
  qed (simp add: Generic_Normalize_def Some)
qed (simp add: Generic_Normalize_def)

section \<open>The adapter contract\<close>

definition severities :: "string list" where
  "severities = ['''', SeverityInfo, SeverityWarn, SeverityError, SeverityCritical]"

lemma NormalizeSeverity_canonical [simp]: "NormalizeSeverity raw \<in> set severities"
  by (simp add: NormalizeSeverity_def severities_def Let_def)

lemma NormalizeSeverity_not_empty [simp]: "NormalizeSeverity raw \<noteq> ''''"
  by (simp add: NormalizeSeverity_def SeverityInfo_def SeverityWarn_def SeverityError_def SeverityCritical_def Let_def)

lemma canonical_severities [simp]:
  "SeverityInfo \<in> set severities" "SeverityWarn \<in> set severities" "SeverityError \<in> set severities"
  "SeverityCritical \<in> set severities" "'''' \<in> set severities"
  by (simp_all add: severities_def)

text \<open>The event an adapter called \<open>nm\<close> may make of \<open>body\<close>.\<close>

definition event_ok :: "string \<Rightarrow> bytes \<Rightarrow> InboundEvent \<Rightarrow> bool" where
  "event_ok nm body e \<longleftrightarrow> ie_Source e = nm \<and> ie_Summary e \<noteq> '''' \<and> length (runes (ie_Summary e)) \<le> 200 \<and>
     ie_Severity e \<in> set severities \<and> (ie_Raw e = body \<or> ie_Raw e = [])"

locale inbound_adapter =
  fixes nm :: string and norm :: normalize
  assumes event: "norm L now body hdrs st = Some (Inr e) \<Longrightarrow> event_ok nm body e"
    and errors: "norm L now body hdrs st = Some (Inl er) \<Longrightarrow> er = ErrAdapterBadInput \<or> er = ErrAdapterMissing"
begin

lemma outcome:
  assumes "norm L now body hdrs st = Some r"
  shows "(\<exists>e. r = Inr e \<and> event_ok nm body e) \<or> r = Inl ErrAdapterBadInput \<or> r = Inl ErrAdapterMissing"
  using assms event errors by (cases r) blast+

end

text \<open>An adapter that no request and no settings can make panic.\<close>

locale total_adapter = inbound_adapter +
  assumes total: "norm L now body hdrs st \<noteq> None"
begin

lemma answers: "\<exists>r. norm L now body hdrs st = Some r \<and>
    ((\<exists>e. r = Inr e \<and> event_ok nm body e) \<or> r = Inl ErrAdapterBadInput \<or> r = Inl ErrAdapterMissing)"
  using total [of L now body hdrs st] outcome by blast

end

lemma Truncate_200: "Truncate s 200 = Some t \<Longrightarrow> s \<noteq> '''' \<Longrightarrow> t \<noteq> '''' \<and> length (runes t) \<le> 200"
  using Truncate_bound [of s 200 t] Truncate_not_Nil [of s 200 t] by auto

lemma Truncate_200_total [simp]: "\<exists>t. Truncate s 200 = Some t"
  using Truncate_total [of 200 s] by auto

lemma generic_severity_canonical: "generic_severity s root = Some sev \<Longrightarrow> sev \<in> set severities"
  by (auto simp: generic_severity_def split: if_splits option.splits)

interpretation generic: inbound_adapter Generic_Name Generic_Normalize
proof
  fix L now body hdrs st e
  assume "Generic_Normalize L now body hdrs st = Some (Inr e)"
  then obtain s root sm t sev where "sm \<noteq> ''''" "Truncate sm 200 = Some t" "generic_severity s root = Some sev"
    and "ie_Source e = ''generic''" "ie_Summary e = t" "ie_Severity e = sev" "ie_Raw e = body \<or> ie_Raw e = []"
    unfolding Generic_Normalize_def by (auto simp: bind_eq_Some_conv split: option.split_asm if_split_asm)
  then show "event_ok Generic_Name body e"
    using Truncate_200 [of sm t] generic_severity_canonical [of s root sev] by (auto simp: event_ok_def Generic_Name_def)
next
  fix L now body hdrs st er
  assume "Generic_Normalize L now body hdrs st = Some (Inl er)"
  then show "er = ErrAdapterBadInput \<or> er = ErrAdapterMissing"
    unfolding Generic_Normalize_def by (auto simp: bind_eq_Some_conv split: option.split_asm if_split_asm)
qed

lemma graylog_severity_canonical [simp]:
  "(case v of JStr l \<Rightarrow> NormalizeSeverity l | _ \<Rightarrow> graylogPriorityToSeverity p) \<in> set severities"
  by (simp add: graylogPriorityToSeverity_def split: json.split)

interpretation graylog: total_adapter Graylog_Name Graylog_Normalize
proof
  show "Graylog_Normalize L now body hdrs st \<noteq> None" for L now body hdrs st
    by (simp add: Graylog_Normalize_def Let_def split: option.split)
qed (auto simp: Graylog_Normalize_def Graylog_Name_def event_ok_def Let_def
    split: option.split_asm if_split_asm dest: Truncate_200)

lemma deriveSplunkSeverity_canonical [simp]: "deriveSplunkSeverity name \<in> set severities"
  by (simp add: deriveSplunkSeverity_def Let_def)

lemma splunk_severity_canonical [simp]: "splunk_severity p f \<in> set severities"
  by (auto simp: splunk_severity_def Let_def split: json.splits)

interpretation splunk: total_adapter Splunk_Name Splunk_Normalize
proof
  show "Splunk_Normalize L now body hdrs st \<noteq> None" for L now body hdrs st
    by (simp add: Splunk_Normalize_def Let_def split: option.split)
qed (auto simp: Splunk_Normalize_def Splunk_Name_def event_ok_def Let_def
    split: option.split_asm if_split_asm dest: Truncate_200)

lemma datadog_severity_canonical [simp]: "datadogAlertTypeToSeverity t \<in> set severities"
  by (simp add: datadogAlertTypeToSeverity_def)

interpretation datadog: total_adapter Datadog_Name Datadog_Normalize
proof
  show "Datadog_Normalize L now body hdrs st \<noteq> None" for L now body hdrs st
    by (simp add: Datadog_Normalize_def Let_def split: option.split)
qed (auto simp: Datadog_Normalize_def Datadog_Name_def event_ok_def Let_def
    split: option.split_asm if_split_asm dest: Truncate_200)

lemma github_severity_canonical: "fst (snd (githubEventDetails event p)) \<in> set severities"
  by (simp add: githubEventDetails_def Let_def)

interpretation github: total_adapter GitHub_Name GitHub_Normalize
proof
  fix L now body hdrs st e
  assume "GitHub_Normalize L now body hdrs st = Some (Inr e)"
  then show "event_ok GitHub_Name body e"
    using github_severity_canonical [of "header_Get hdrs ''X-Github-Event''"]
    by (auto simp: GitHub_Normalize_def GitHub_Name_def event_ok_def Let_def case_prod_beta
        split: option.split_asm if_split_asm dest: Truncate_200)
next
  show "GitHub_Normalize L now body hdrs st \<noteq> None" for L now body hdrs st
    by (simp add: GitHub_Normalize_def Let_def case_prod_beta split: option.split)
qed (auto simp: GitHub_Normalize_def Let_def case_prod_beta split: option.split_asm if_split_asm)


section \<open>The registry\<close>

lemma Lookup_Register:
  "Lookup name (Register a reg) = (if name = ad_Name a then Inr a else Lookup name reg)"
  by (simp add: Lookup_def Register_def update_conv')

lemma Lookup_ListNames: "(\<exists>a. Lookup name reg = Inr a) \<longleftrightarrow> name \<in> set (ListNames reg)"
  using dom_map_of_conv_image_fst [of reg] by (cases "map_of reg name") (auto simp: Lookup_def ListNames_def)

lemma Lookup_init:
  "Lookup name init_registry = Inr a \<Longrightarrow>
   a \<in> {Datadog, Generic, GitHub, Graylog, Splunk} \<and> ad_Name a = name"
  by (auto simp: init_registry_def Lookup_Register split: if_split_asm) (simp_all add: Lookup_def)

lemma registered_adapter:
  assumes "Lookup name init_registry = Inr a"
  shows "inbound_adapter name (ad_Normalize a)"
proof -
  from Lookup_init [OF assms] have "ad_Name a = name" and
    "a = Datadog \<or> a = Generic \<or> a = GitHub \<or> a = Graylog \<or> a = Splunk" by auto
  then show ?thesis
    using datadog.inbound_adapter_axioms generic.inbound_adapter_axioms github.inbound_adapter_axioms
      graylog.inbound_adapter_axioms splunk.inbound_adapter_axioms
    by (auto simp: Datadog_def Generic_def GitHub_def Graylog_def Splunk_def)
qed

lemma registered_answers:
  assumes "Lookup name init_registry = Inr a"
    and "\<And>s. decode_genericSettings st = Some s \<Longrightarrow> short_path (gs_SummaryPath s) \<and> short_path (gs_ServicePath s) \<and>
           short_path (gs_SeverityPath s) \<and> short_path (gs_OccurredAtPath s)"
  shows "\<exists>r. ad_Normalize a L now body hdrs st = Some r"
proof -
  from Lookup_init [OF assms(1)] have "a = Datadog \<or> a = Generic \<or> a = GitHub \<or> a = Graylog \<or> a = Splunk" by auto
  then show ?thesis
    using Generic_total [of st L now body hdrs, OF assms(2)] datadog.total github.total graylog.total splunk.total
    by (auto simp: Datadog_def Generic_def GitHub_def Graylog_def Splunk_def)
qed

section \<open>Properties\<close>

definition sample_adapter_lib :: adapter_lib where
  "sample_adapter_lib = \<lparr>parse_stamp = (\<lambda>_. None), parse_RFC3339Nano = (\<lambda>_. None), parse_RFC3339 = (\<lambda>_. None), fmt_float = Some\<rparr>"

definition sample_alert :: bytes where
  "sample_alert = print_json (JObj [(''search_name'', JStr ''Auth 5xx''), (''result'', JObj [(''count'', JNum ''47'')])])"

definition sample_event :: "gotime \<Rightarrow> InboundEvent" where
  "sample_event now = \<lparr>ie_Source = ''splunk'', ie_Service = '''', ie_Severity = SeverityError, ie_Summary = ''Auth 5xx (count=47)'',
     ie_Fields = [(''count'', JNum ''47'')], ie_OccurredAt = now, ie_Raw = sample_alert\<rparr>"

lemma sample_normalized: "ad_Normalize Splunk sample_adapter_lib now sample_alert hdrs [] = Some (Inr (sample_event now))"
proof -
  let ?p = "\<lparr>sp_SID = '''', sp_SearchName = ''Auth 5xx'', sp_App = '''', sp_Owner = '''', sp_ResultsLink = '''',
    sp_Result = [(''count'', JNum ''47'')]\<rparr>"
  have "decode_splunkPayload sample_adapter_lib sample_alert = Some ?p" by code_simp
  moreover have "splunk_severity ?p '''' = SeverityError" by code_simp
  ultimately show ?thesis
    by (simp add: Splunk_def Splunk_Normalize_def lenient_str_def set_nonempty_def any_at_def Truncate_def sample_event_def)
qed

text \<open>
  Property C40. Whatever request and settings reach a registered adapter, the event it emits names that adapter as
  its source, has a summary of 1 to 200 runes, a severity that is one of the four normalized ones or empty, and the
  request body or nothing as its raw payload; the only errors are bad input and a missing field.
\<close>

theorem adapter_outcome:
  assumes "Lookup name init_registry = Inr a" and "ad_Normalize a L now body hdrs st = Some r"
  shows "(\<exists>e. r = Inr e \<and> event_ok name body e) \<or> r = Inl ErrAdapterBadInput \<or> r = Inl ErrAdapterMissing"
  using registered_adapter [OF assms(1)] assms(2) by (rule inbound_adapter.outcome)

theorem adapter_outcome_witness: "event_ok ''splunk'' sample_alert (sample_event 7)"
proof -
  have "Lookup ''splunk'' init_registry = Inr Splunk"
    by (simp add: init_registry_def Lookup_Register Splunk_def Splunk_Name_def)
  then show ?thesis using adapter_outcome [OF _ sample_normalized] by blast
qed

text \<open>
  Property C38. The summary cut: for a cap of at least three, \<^verbatim>\<open>Truncate\<close> never panics; a string of at most
  \<open>n\<close> runes comes back unchanged, a longer one keeps exactly its first \<open>n - 3\<close> runes, re-encoded, before the dots,
  so that the result has exactly \<open>n\<close> runes and no rune is split.
\<close>

theorem Truncate_spec:
  assumes "3 \<le> n"
  shows "\<exists>t. Truncate s n = Some t \<and>
    (if int (length (runes s)) \<le> n then t = s
     else runes t = take (nat (n - 3)) (runes s) @ map code ''...'' \<and> int (length (runes t)) = n)"
proof -
  obtain t where t: "Truncate s n = Some t" using Truncate_total [OF assms] by auto
  then show ?thesis using Truncate_Some [OF t assms] assms by (auto simp: min_def)
qed

theorem Truncate_spec_witness: "\<exists>t. Truncate ''abcdef'' 4 = Some t \<and> int (length (runes t)) = 4"
  using Truncate_spec [of 4 "''abcdef''"] runes_ascii [of "''abcdef''"] by (auto simp: code_def)

text \<open>
  The severity that the Splunk adapter derives from a search name is the one the \<^verbatim>\<open>strings\<close>
  package would give: the hand-written \<^verbatim>\<open>contains\<close> is the substring test, and although \<^verbatim>\<open>toLower\<close>
  zeroes every continuation byte of a multi-byte rune, no search name is classified differently because of it.
\<close>

theorem deriveSplunkSeverity_spec:
  "deriveSplunkSeverity name =
     (let low = ToLower name
      in if Contains low ''critical'' \<or> Contains low ''fatal'' \<or> Contains low ''outage'' \<or> Contains low ''down''
         then SeverityCritical
         else if Contains low ''error'' \<or> Contains low ''5xx'' \<or> Contains low ''failure'' then SeverityError
         else if Contains low ''warn'' \<or> Contains low ''anomaly'' \<or> Contains low ''spike'' then SeverityWarn
         else SeverityInfo)"
  by (simp add: deriveSplunkSeverity_def Let_def contains_toLower plain_ascii_def code_def)

text \<open>
  The index loop of the Datadog tag parser is the obvious one: split at the commas, and let every part
  with a colon set the key before its first colon, later parts overriding earlier ones.
\<close>

theorem parseDDTags_spec: "parseDDTags tags = fold add_tag (Split tags CHR '','') []"
  by (rule parseDDTags_Split)

text \<open>
  An index of a generic adapter path is read modulo \<open>2\<^sup>6\<^sup>4\<close>: looking it up in an array panics exactly
  when its value wraps to a negative number, which the bounds check does not stop, and never when it has at most 18
  digits.
\<close>

theorem index_overflow_panics:
  assumes "list_all is_digit p" and "p \<noteq> ''''"
  shows "(pathLookup (JArr v) (''$.'' @ p) = None \<longleftrightarrow> int64 (int (digits_val p)) < 0) \<and>
         (length p \<le> 18 \<longrightarrow> pathLookup (JArr v) (''$.'' @ p) \<noteq> None)"
proof -
  have "CHR ''.'' \<notin> set p" using assms(1) by (auto simp: list_all_iff is_digit_def)
  then have "Split p CHR ''.'' = [p]" by (rule Split_no_sep)
  then have "pathLookup (JArr v) (''$.'' @ p) = path_walk [p] (JArr v)"
    using TrimPrefix_append [of "''$.''" p] HasPrefix_append [of "''$.''" p] assms(2) by (simp add: pathLookup_def)
  then show ?thesis using assms(1) path_walk_short [of "[p]" "JArr v"] by (simp add: parseUint_wraps)
qed

theorem index_overflow_panics_witness: "pathLookup (JArr [JNull]) ''$.9223372036854775808'' = None"
proof -
  have "list_all is_digit ''9223372036854775808''" by code_simp
  moreover have "int64 (int (digits_val ''9223372036854775808'')) < 0"
  proof -
    have "digits_val ''9223372036854775808'' = 9223372036854775808"
      by (simp add: digits_val_def digit_val_def)
    then show ?thesis by (simp add: int64_def)
  qed
  ultimately show ?thesis using index_overflow_panics [of "''9223372036854775808''" "[JNull]"] by simp
qed

end
