(* ===== verification/Rest.thy ===== *)
theory Rest
  imports Server_Runs Adapter_Laws
begin

text \<open>
  The HTTP control plane (\<^verbatim>\<open>internal/rest/rest.go\<close>, \<^verbatim>\<open>inbound.go\<close>, \<^verbatim>\<open>match_validate.go\<close>):
  routing, bearer authentication, the subscription handlers over \<^verbatim>\<open>subops\<close> and the inbound endpoint. The
  store and the webhook manager are those of the realtime server \<open>rs_rt\<close>, as \<^verbatim>\<open>prmd\<close> wires them, and that
  server is the publisher of inbound events.

  A request is what \<^verbatim>\<open>net/http\<close> hands over: the method, the unescaped segments of the cleaned path, the
  headers, the body up to its end or a read error. The texts of library errors are arguments (\<open>rest_lib\<close>). A
  handler's result \<open>None\<close> is a panic, which \<^verbatim>\<open>net/http\<close> answers by dropping the connection.
\<close>

section \<open>State, requests and responses\<close>

record RestServer =
  rs_healthy :: bool
  rs_publisher :: bool
  rs_touches :: "uuid list"
  rs_adapters :: registry
  rs_rt :: Server

record Request =
  rq_Method :: string
  rq_Path :: "string list"
  rq_Header :: headers
  rq_Body :: bytes
  rq_BodyErr :: bool
  rq_ContentLength :: int

record Response =
  rp_Status :: nat
  rp_ContentType :: string
  rp_Body :: bytes

record rest_lib =
  rl_env :: env
  rl_adapter :: adapter_lib
  rl_jsonErr :: "bytes \<Rightarrow> string"
  rl_uuidErr :: "string \<Rightarrow> string"
  rl_readErr :: string
  rl_adapterErr :: "adapter_error \<Rightarrow> string"

record rest_cfg =
  rc_Addr :: string
  rc_Certificates :: "bytes list option"
  rc_Store :: "Server option"
  rc_publisher :: bool

text \<open>\<open>rc_Store\<close> stands for the store and the manager of the configuration together, \<open>None\<close> for a nil store.\<close>

definition New_rest :: "registry \<Rightarrow> rest_cfg \<Rightarrow> new_error + RestServer" where
  "New_rest reg cfg =
     (if rc_Addr cfg = '''' then Inl AddrRequired
      else if rc_Certificates cfg \<in> {None, Some []} then Inl CertificateRequired
      else case rc_Store cfg of
        None \<Rightarrow> Inl StoreRequired
      | Some rt \<Rightarrow> Inr \<lparr>rs_healthy = False, rs_publisher = rc_publisher cfg, rs_touches = [], rs_adapters = reg, rs_rt = rt\<rparr>)"

definition markHealthy :: "bool \<Rightarrow> RestServer \<Rightarrow> RestServer" where
  "markHealthy v s = s\<lparr>rs_healthy := v\<rparr>"

text \<open>The start of \<^verbatim>\<open>Serve\<close>: \<open>None\<close> when the listener cannot be opened.\<close>

definition Serve_listen :: "bool \<Rightarrow> RestServer \<Rightarrow> RestServer option" where
  "Serve_listen listen_ok s = (if listen_ok then Some (markHealthy True s) else None)"

section \<open>Writing responses\<close>

text \<open>
  \<^verbatim>\<open>json.Indent\<close> with an empty prefix and two spaces, on text without white space: nesting depth, whether a
  bracket has just been opened, whether in a string, whether after a backslash.
\<close>

definition newline_indent :: "nat \<Rightarrow> bytes" where
  "newline_indent d = CHR 0x0A # concat (replicate d ''  '')"

fun indent_json :: "nat \<Rightarrow> bool \<Rightarrow> bool \<Rightarrow> bool \<Rightarrow> bytes \<Rightarrow> bytes" where
  "indent_json d opened instr esc [] = []"
| "indent_json d opened instr esc (c # cs) =
     (if instr then c # indent_json d opened (esc \<or> c \<noteq> CHR 0x22) (\<not> esc \<and> c = CHR 0x5C) cs
      else if c = CHR ''}'' \<or> c = CHR '']'' then
        (if opened then c # indent_json d False False False cs
         else newline_indent (d - 1) @ c # indent_json (d - 1) False False False cs)
      else
        let d' = (if opened then d + 1 else d);
            pre = (if opened then newline_indent (d + 1) else [])
        in pre @ (if c = CHR ''{'' \<or> c = CHR ''['' then c # indent_json d' True False False cs
                  else if c = CHR '','' then c # newline_indent d' @ indent_json d' False False False cs
                  else if c = CHR '':'' then c # CHR '' '' # indent_json d' False False False cs
                  else c # indent_json d' False (c = CHR 0x22) False cs))"

text \<open>The status goes out before the body is encoded; a value that cannot be encoded leaves the body empty.\<close>

definition writeJSON :: "nat \<Rightarrow> members option \<Rightarrow> Response" where
  "writeJSON status body = \<lparr>rp_Status = status, rp_ContentType = ''application/json'',
     rp_Body = (case body of None \<Rightarrow> [] | Some ms \<Rightarrow> indent_json 0 False False False (object_text ms) @ [CHR 0x0A])\<rparr>"

definition writeError :: "nat \<Rightarrow> string \<Rightarrow> string \<Rightarrow> Response" where
  "writeError status errCode message =
     writeJSON status (m_struct ''error'' (Frames.fields [m_str ''code'' errCode, m_str_o ''message'' message]))"

definition writeHeader :: "nat \<Rightarrow> Response" where
  "writeHeader status = \<lparr>rp_Status = status, rp_ContentType = '''', rp_Body = []\<rparr>"

definition writeSubopsError :: "rest_lib \<Rightarrow> subops_error \<Rightarrow> Response" where
  "writeSubopsError L err =
     (let text = e_errText (rl_env L) err
      in case err of
           SubBadRequest \<Rightarrow> writeError 400 ''bad_request'' text
         | SubNotFound \<Rightarrow> writeError 404 ''not_found'' text
         | SubNotOwner \<Rightarrow> writeError 403 ''not_owner'' text
         | SubInternal \<Rightarrow> writeError 500 ''internal'' text)"

section \<open>Authentication\<close>

definition bearer :: "Request \<Rightarrow> string option" where
  "bearer r =
     (let hdr = header_Get (rq_Header r) ''Authorization''
      in if \<not> HasPrefix hdr ''Bearer '' then None else Some (TrimSpace (TrimPrefix hdr ''Bearer '')))"

text \<open>The middleware: the refusal, or the caller with the pending write of its token's last use.\<close>

definition auth :: "rest_lib \<Rightarrow> Request \<Rightarrow> RestServer \<Rightarrow> Response + Account \<times> Tenant \<times> RestServer" where
  "auth L r s =
     (let st = sv_store (rs_rt s)
      in case bearer r of
        None \<Rightarrow> Inl (writeError 401 ''missing_bearer'' ''Authorization: Bearer <token> required'')
      | Some plaintext \<Rightarrow>
          if plaintext = '''' then Inl (writeError 401 ''empty_token'' ''empty bearer token'')
          else case GetTokenByHash (e_sha256 (rl_env L) plaintext) st of
            Inl _ \<Rightarrow> Inl (writeError 401 ''invalid_token'' ''token is unknown, revoked, or malformed'')
          | Inr tok \<Rightarrow>
              case GetTenantByID (tok_TenantID tok) st of
                Inl _ \<Rightarrow> Inl (writeError 401 ''invalid_token'' ''token references unknown tenant'')
              | Inr tenant \<Rightarrow>
                  if ten_Status tenant = TenantSuspended
                  then Inl (writeError 403 ''tenant_suspended'' ''tenant is suspended'')
                  else case GetAccountByID (tok_TenantID tok) (tok_AccountID tok) st of
                    Inl _ \<Rightarrow> Inl (writeError 401 ''invalid_token'' ''token references unknown account'')
                  | Inr acc \<Rightarrow>
                      if acc_Type acc \<noteq> AccountBot
                      then Inl (writeError 403 ''not_a_bot'' ''REST control plane is for bot accounts only'')
                      else Inr (acc, tenant, s\<lparr>rs_touches := rs_touches s @ [tok_ID tok]\<rparr>))"

text \<open>One of the goroutines that \<^verbatim>\<open>auth\<close> has started.\<close>

definition rest_touch :: "gotime \<Rightarrow> RestServer \<Rightarrow> RestServer" where
  "rest_touch now s =
     (case rs_touches s of
        [] \<Rightarrow> s
      | t # ts \<Rightarrow> s\<lparr>rs_touches := ts, rs_rt := (rs_rt s)\<lparr>sv_store :=
          (case TouchTokenLastUsed now t (sv_store (rs_rt s)) of Inl _ \<Rightarrow> sv_store (rs_rt s) | Inr st \<Rightarrow> st)\<rparr>\<rparr>)"

definition handleHealthz :: "RestServer \<Rightarrow> Response" where
  "handleHealthz s =
     (if \<not> rs_healthy s then writeError 503 ''not_ready'' ''starting up or shutting down''
      else writeJSON 200 (m_str ''status'' ''ok''))"

section \<open>Subscriptions\<close>

record createSubscriptionRequest =
  cq_ChannelName :: string
  cq_ChannelID :: string
  cq_URL :: string
  cq_Match :: bytes
  cq_Events :: "string list"
  cq_ContextLines :: int
  cq_DebounceMs :: int
  cq_CooldownMs :: int
  cq_Budget :: bytes

record updateSubscriptionRequest =
  uq_URL :: "string option"
  uq_Match :: bytes
  uq_Events :: "string list option"
  uq_ContextLines :: "int option"
  uq_DebounceMs :: "int option"
  uq_CooldownMs :: "int option"
  uq_Budget :: bytes
  uq_Disabled :: "bool option"

record subscriptionResponse =
  sr_ID :: string
  sr_TenantID :: string
  sr_AccountID :: string
  sr_ChannelID :: string
  sr_URL :: string
  sr_Secret :: string
  sr_Match :: bytes
  sr_Events :: "string list"
  sr_ContextLines :: int
  sr_DebounceMs :: int
  sr_CooldownMs :: int
  sr_Budget :: bytes
  sr_DisabledAt :: "gotime option"
  sr_CreatedAt :: gotime

text \<open>\<^verbatim>\<open>json.NewDecoder(r.Body).Decode\<close>: the first value of the body; what follows it is not read.\<close>

definition first_object :: "bytes \<Rightarrow> obj option" where
  "first_object s = (case parse_val (2 * length s + 2) max_depth s of
       None \<Rightarrow> None
     | Some (_, rest) \<Rightarrow> read_obj (take (length s - length rest) s))"

definition dec_createRequest :: "bytes \<Rightarrow> createSubscriptionRequest option" where
  "dec_createRequest b = do {
    x \<leftarrow> first_object b;
    v1 \<leftarrow> f_str ''channel_name'' x; v2 \<leftarrow> f_str ''channel_id'' x;
    v3 \<leftarrow> f_str ''url'' x; v4 \<leftarrow> f_raw ''match'' x; v5 \<leftarrow> f_list ''events'' x;
    v6 \<leftarrow> f_int ''context_lines'' x; v7 \<leftarrow> f_int ''debounce_ms'' x;
    v8 \<leftarrow> f_int ''cooldown_ms'' x; v9 \<leftarrow> f_raw ''budget'' x;
    Some \<lparr>cq_ChannelName = v1, cq_ChannelID = v2, cq_URL = v3, cq_Match = v4, cq_Events = v5,
      cq_ContextLines = v6, cq_DebounceMs = v7, cq_CooldownMs = v8, cq_Budget = v9\<rparr> }"

definition dec_updateRequest :: "bytes \<Rightarrow> updateSubscriptionRequest option" where
  "dec_updateRequest b = do {
    x \<leftarrow> first_object b;
    v2 \<leftarrow> f_ptr as_str ''url'' x; v3 \<leftarrow> f_raw ''match'' x;
    v4 \<leftarrow> f_ptr (as_list as_str '''') ''events'' x; v5 \<leftarrow> f_ptr as_int ''context_lines'' x;
    v6 \<leftarrow> f_ptr as_int ''debounce_ms'' x; v7 \<leftarrow> f_ptr as_int ''cooldown_ms'' x;
    v8 \<leftarrow> f_raw ''budget'' x; v9 \<leftarrow> f_ptr as_bool ''disabled'' x;
    Some \<lparr>uq_URL = v2, uq_Match = v3, uq_Events = v4, uq_ContextLines = v5, uq_DebounceMs = v6,
      uq_CooldownMs = v7, uq_Budget = v8, uq_Disabled = v9\<rparr> }"

definition enc_subscriptionResponse :: "codec_lib \<Rightarrow> subscriptionResponse \<Rightarrow> members option" where
  "enc_subscriptionResponse L f = Frames.fields [
    m_str ''id'' (sr_ID f), m_str ''tenant_id'' (sr_TenantID f), m_str ''account_id'' (sr_AccountID f),
    m_str ''channel_id'' (sr_ChannelID f), m_str ''url'' (sr_URL f), m_str_o ''secret'' (sr_Secret f),
    m_raw ''match'' (sr_Match f), m_list ''events'' (sr_Events f), m_int ''context_lines'' (sr_ContextLines f),
    m_int ''debounce_ms'' (sr_DebounceMs f), m_int ''cooldown_ms'' (sr_CooldownMs f),
    m_raw_o ''budget'' (sr_Budget f), m_ptr (m_time L ''disabled_at'') (sr_DisabledAt f),
    m_time L ''created_at'' (sr_CreatedAt f)]"

definition toResponse :: "env \<Rightarrow> Subscription \<Rightarrow> bool \<Rightarrow> subscriptionResponse" where
  "toResponse E sub includeSecret = \<lparr>sr_ID = e_uuid_String E (sub_ID sub), sr_TenantID = e_uuid_String E (sub_TenantID sub),
     sr_AccountID = e_uuid_String E (sub_AccountID sub), sr_ChannelID = e_uuid_String E (sub_ChannelID sub), sr_URL = sub_URL sub,
     sr_Secret = (if includeSecret then e_b64raw E (sub_Secret sub) else ''''), sr_Match = sub_MatchJSON sub, sr_Events = sub_Events sub,
     sr_ContextLines = sub_ContextLines sub, sr_DebounceMs = sub_DebounceMs sub, sr_CooldownMs = sub_CooldownMs sub,
     sr_Budget = sub_BudgetJSON sub,
     sr_DisabledAt = (if IsZero (sub_DisabledAt sub) then None else Some (sub_DisabledAt sub)), sr_CreatedAt = sub_CreatedAt sub\<rparr>"

definition sub_json :: "rest_lib \<Rightarrow> Subscription \<Rightarrow> bool \<Rightarrow> members option" where
  "sub_json L sub includeSecret = enc_subscriptionResponse (e_codec (rl_env L)) (toResponse (rl_env L) sub includeSecret)"

abbreviation rest_world :: "RestServer \<Rightarrow> world" where
  "rest_world s \<equiv> sub_world (rs_rt s)"

definition put_rest :: "world \<Rightarrow> RestServer \<Rightarrow> RestServer" where
  "put_rest w s = s\<lparr>rs_rt := put_world w (rs_rt s)\<rparr>"

definition handleCreateSubscription :: "rest_lib \<Rightarrow> Account \<Rightarrow> Tenant \<Rightarrow> Request \<Rightarrow> RestServer \<Rightarrow> RestServer \<times> Response" where
  "handleCreateSubscription L acct tenant r s =
     (case dec_createRequest (rq_Body r) of
        None \<Rightarrow> (s, writeError 400 ''bad_json'' (rl_jsonErr L (rq_Body r)))
      | Some q \<Rightarrow>
          case Create_sub (e_sub (rl_env L)) (e_now (rl_env L) 0) (e_newV7 (rl_env L)) (e_rand (rl_env L)) tenant acct
              \<lparr>ci_ChannelName = cq_ChannelName q, ci_ChannelID = cq_ChannelID q, ci_URL = cq_URL q, ci_Match = cq_Match q,
               ci_Events = cq_Events q, ci_ContextLines = cq_ContextLines q, ci_DebounceMs = cq_DebounceMs q,
               ci_CooldownMs = cq_CooldownMs q, ci_Budget = cq_Budget q\<rparr> (rest_world s) of
            (w, Inl err) \<Rightarrow> (put_rest w s, writeSubopsError L err)
          | (w, Inr sub) \<Rightarrow> (put_rest w s, writeJSON 201 (sub_json L sub True)))"

definition handleListSubscriptions :: "rest_lib \<Rightarrow> Account \<Rightarrow> Tenant \<Rightarrow> RestServer \<Rightarrow> RestServer \<times> Response" where
  "handleListSubscriptions L acct tenant s =
     (case List_sub tenant acct (sv_store (rs_rt s)) of
        Inl err \<Rightarrow> (s, writeSubopsError L err)
      | Inr list \<Rightarrow> (s, writeJSON 200 (m_structs ''subscriptions'' (map (\<lambda>sub. sub_json L sub False) list))))"

definition handleGetSubscription :: "rest_lib \<Rightarrow> Account \<Rightarrow> Tenant \<Rightarrow> string \<Rightarrow> RestServer \<Rightarrow> RestServer \<times> Response" where
  "handleGetSubscription L acct tenant i s =
     (case Get_sub (e_sub (rl_env L)) tenant acct i (sv_store (rs_rt s)) of
        Inl err \<Rightarrow> (s, writeSubopsError L err)
      | Inr sub \<Rightarrow> (s, writeJSON 200 (sub_json L sub False)))"

definition handleUpdateSubscription :: "rest_lib \<Rightarrow> Account \<Rightarrow> Tenant \<Rightarrow> string \<Rightarrow> Request \<Rightarrow> RestServer \<Rightarrow> RestServer \<times> Response" where
  "handleUpdateSubscription L acct tenant i r s =
     (case dec_updateRequest (rq_Body r) of
        None \<Rightarrow> (s, writeError 400 ''bad_json'' (rl_jsonErr L (rq_Body r)))
      | Some q \<Rightarrow>
          case Update_sub (e_sub (rl_env L)) (e_now (rl_env L) 0) tenant acct i
              \<lparr>ui_URL = uq_URL q, ui_Match = raw_opt (uq_Match q), ui_Events = uq_Events q, ui_ContextLines = uq_ContextLines q,
               ui_DebounceMs = uq_DebounceMs q, ui_CooldownMs = uq_CooldownMs q, ui_Budget = raw_opt (uq_Budget q),
               ui_Disabled = uq_Disabled q\<rparr> (rest_world s) of
            (w, Inl err) \<Rightarrow> (put_rest w s, writeSubopsError L err)
          | (w, Inr sub) \<Rightarrow> (put_rest w s, writeJSON 200 (sub_json L sub False)))"

definition handleDeleteSubscription :: "rest_lib \<Rightarrow> Account \<Rightarrow> Tenant \<Rightarrow> string \<Rightarrow> RestServer \<Rightarrow> RestServer \<times> Response" where
  "handleDeleteSubscription L acct tenant i s =
     (case Delete_sub (e_sub (rl_env L)) tenant acct i (rest_world s) of
        (w, Some err) \<Rightarrow> (put_rest w s, writeSubopsError L err)
      | (w, None) \<Rightarrow> (put_rest w s, writeHeader 204))"

definition validateMatchJSON :: "subops_lib \<Rightarrow> bytes \<Rightarrow> match_error option" where
  "validateMatchJSON L raw = (case lib_Compile L raw of Inl e \<Rightarrow> Some e | Inr _ \<Rightarrow> None)"

definition validateMatch :: "subops_lib \<Rightarrow> bytes \<Rightarrow> match_error option" where
  "validateMatch L raw = validateMatchJSON L raw"

section \<open>Inbound events\<close>

definition MaxInboundBodyBytes :: nat where "MaxInboundBodyBytes = 65536"

definition mapInboundReason :: "adapter_error \<Rightarrow> string" where
  "mapInboundReason err = (case err of
       ErrAdapterMissing \<Rightarrow> ''missing_field''
     | ErrAdapterBadInput \<Rightarrow> ''bad_input''
     | ErrAdapterRateLimit \<Rightarrow> ''rate_limited''
     | _ \<Rightarrow> ''adapter_error'')"

text \<open>The integration a request is for: its token's, when the path names it and its tenant is not suspended.\<close>

definition inbound_auth :: "rest_lib \<Rightarrow> string \<Rightarrow> Request \<Rightarrow> RestServer \<Rightarrow> Response + Integration" where
  "inbound_auth L i r s =
     (let st = sv_store (rs_rt s)
      in case lib_uuid_Parse (e_sub (rl_env L)) i of
        None \<Rightarrow> Inl (writeError 400 ''bad_id'' (rl_uuidErr L i))
      | Some pathID \<Rightarrow>
          case bearer r of
            None \<Rightarrow> Inl (writeError 401 ''missing_bearer'' ''Authorization: Bearer <integration-token> required'')
          | Some plaintext \<Rightarrow>
              if plaintext = '''' then Inl (writeError 401 ''empty_token'' '''')
              else case GetIntegrationByTokenHash (e_sha256 (rl_env L) plaintext) st of
                Inl _ \<Rightarrow> Inl (writeError 401 ''invalid_token'' ''unknown / revoked / disabled integration token'')
              | Inr integ \<Rightarrow>
                  if int_ID integ \<noteq> pathID then Inl (writeError 401 ''invalid_token'' ''token does not match path id'')
                  else case GetTenantByID (int_TenantID integ) st of
                    Inl _ \<Rightarrow> Inl (writeError 401 ''invalid_token'' ''token references unknown tenant'')
                  | Inr tenant \<Rightarrow>
                      if ten_Status tenant = TenantSuspended then Inl (writeError 403 ''tenant_suspended'' '''')
                      else Inr integ)"

text \<open>The capped read of the body.\<close>

definition inbound_body :: "rest_lib \<Rightarrow> Request \<Rightarrow> Response + bytes" where
  "inbound_body L r =
     (let body = take (MaxInboundBodyBytes + 1) (rq_Body r);
          too_large = writeError 413 ''payload_too_large'' (''body exceeds '' @ FormatInt (int MaxInboundBodyBytes) @ '' bytes'')
      in if rq_ContentLength r > int MaxInboundBodyBytes then Inl too_large
         else if rq_BodyErr r \<and> length (rq_Body r) \<le> MaxInboundBodyBytes then Inl (writeError 400 ''read_body'' (rl_readErr L))
         else if length body > MaxInboundBodyBytes then Inl too_large
         else Inr body)"

definition handleInbound :: "rest_lib \<Rightarrow> string \<Rightarrow> Request \<Rightarrow> RestServer \<Rightarrow> (RestServer \<times> Response) option" where
  "handleInbound L i r s =
     (if \<not> rs_publisher s
      then Some (s, writeError 501 ''no_publisher'' ''inbound endpoint not wired (no EventPublisher in Config)'')
      else case inbound_auth L i r s of
        Inl resp \<Rightarrow> Some (s, resp)
      | Inr integ \<Rightarrow>
          case inbound_body L r of
            Inl resp \<Rightarrow> Some (s, resp)
          | Inr body \<Rightarrow>
              case Lookup (int_Adapter integ) (rs_adapters s) of
                Inl _ \<Rightarrow> Some (s, writeError 500 ''adapter_unavailable'' '''')
              | Inr adapter \<Rightarrow>
                  map_option (\<lambda>res. case res of
                      Inl err \<Rightarrow> (s, writeError 400 (mapInboundReason err) (rl_adapterErr L err))
                    | Inr ev \<Rightarrow>
                        (case PublishInbound (rl_env L) (int_TenantID integ) (int_ChannelID integ) (int_AccountID integ) ev (rs_rt s) of
                           (Some _, rt) \<Rightarrow> (s\<lparr>rs_rt := rt\<rparr>, writeError 500 ''publish_failed'' '''')
                         | (None, rt) \<Rightarrow> (s\<lparr>rs_rt := rt\<rparr>, writeHeader 202)))
                    (ad_Normalize adapter (rl_adapter L) (e_now (rl_env L) 2) body (rq_Header r) (int_SettingsJSON integ)))"

section \<open>Routing\<close>

datatype route = RHealthz | RCreate | RList | RGet string | RUpdate string | RDelete string | RInbound string

text \<open>The patterns of \<^verbatim>\<open>routes\<close> that match a path, with their methods; a GET pattern also matches HEAD.\<close>

fun patterns :: "string list \<Rightarrow> (string \<times> route) list" where
  "patterns [a] = (if a = ''healthz'' then [(''GET'', RHealthz)] else [])"
| "patterns [a, b] = (if a = ''v1'' \<and> b = ''subscriptions'' then [(''POST'', RCreate), (''GET'', RList)] else [])"
| "patterns [a, b, i] =
     (if i = '''' then []
      else if a = ''v1'' \<and> b = ''subscriptions'' then [(''GET'', RGet i), (''PATCH'', RUpdate i), (''DELETE'', RDelete i)]
      else if a = ''v1'' \<and> b = ''inbound'' then [(''POST'', RInbound i)]
      else [])"
| "patterns _ = []"

definition routes :: "Request \<Rightarrow> nat + route" where
  "routes r =
     (let m = (if rq_Method r = ''HEAD'' then ''GET'' else rq_Method r)
      in case map_of (patterns (rq_Path r)) m of
           Some h \<Rightarrow> Inr h
         | None \<Rightarrow> Inl (if patterns (rq_Path r) = [] then 404 else 405))"

definition authed :: "rest_lib \<Rightarrow> Request \<Rightarrow> RestServer \<Rightarrow> (Account \<Rightarrow> Tenant \<Rightarrow> RestServer \<Rightarrow> RestServer \<times> Response)
    \<Rightarrow> (RestServer \<times> Response) option" where
  "authed L r s h = Some (case auth L r s of Inl resp \<Rightarrow> (s, resp) | Inr (acc, tenant, s1) \<Rightarrow> h acc tenant s1)"

definition serve :: "rest_lib \<Rightarrow> Request \<Rightarrow> RestServer \<Rightarrow> (RestServer \<times> Response) option" where
  "serve L r s =
     (case routes r of
        Inl status \<Rightarrow> Some (s, writeHeader status)
      | Inr RHealthz \<Rightarrow> Some (s, handleHealthz s)
      | Inr RCreate \<Rightarrow> authed L r s (\<lambda>acct tenant. handleCreateSubscription L acct tenant r)
      | Inr RList \<Rightarrow> authed L r s (handleListSubscriptions L)
      | Inr (RGet i) \<Rightarrow> authed L r s (\<lambda>acct tenant. handleGetSubscription L acct tenant i)
      | Inr (RUpdate i) \<Rightarrow> authed L r s (\<lambda>acct tenant. handleUpdateSubscription L acct tenant i r)
      | Inr (RDelete i) \<Rightarrow> authed L r s (\<lambda>acct tenant. handleDeleteSubscription L acct tenant i)
      | Inr (RInbound i) \<Rightarrow> handleInbound L i r s)"

end
