(* ===== verification/Rest_Laws.thy ===== *)
theory Rest_Laws
  imports Rest
begin

text \<open>
  What the control plane guarantees: who reaches a handler, what an error response leaves unchanged, what a caller
  may touch and see, that the subscription verbs do what the realtime ones do, and where an inbound event goes.
\<close>

section \<open>Responses\<close>

lemma status_simps [simp]:
  "rp_Status (writeJSON n b) = n" "rp_Status (writeError n e m) = n" "rp_Status (writeHeader n) = n"
  by (simp_all add: writeJSON_def writeError_def writeHeader_def)

lemma status_subops [simp]: "400 \<le> rp_Status (writeSubopsError L e)"
  by (cases e) (simp_all add: writeSubopsError_def)

lemma put_world_same [simp]: "put_world (sub_world rt) rt = rt"
  by (simp add: put_world_def sub_world_def)

lemma put_rest_same [simp]: "put_rest (rest_world s) s = s"
  by (simp add: put_rest_def)

lemma put_rest_fields [simp]:
  "rs_rt (put_rest w s) = put_world w (rs_rt s)" "sub_world (put_world w rt) = w"
  by (simp_all add: put_rest_def put_world_def sub_world_def)

section \<open>Authentication\<close>

text \<open>The request carries the text of a live token of a bot account whose tenant is not suspended.\<close>

definition bot_caller :: "rest_lib \<Rightarrow> Request \<Rightarrow> store \<Rightarrow> Account \<Rightarrow> Tenant \<Rightarrow> bool" where
  "bot_caller L r st acc tenant \<longleftrightarrow>
     (\<exists>plaintext. bearer r = Some plaintext \<and> plaintext \<noteq> '''' \<and>
        (\<exists>row \<in> set (st_tokens st). tok_Hash row = e_sha256 (rl_env L) plaintext \<and> tok_RevokedAt row = 0 \<and>
           tok_TenantID row = ten_ID tenant \<and> tok_AccountID row = acc_ID acc)) \<and>
     acc_Type acc = AccountBot \<and> acc_TenantID acc = ten_ID tenant \<and> ten_Status tenant \<noteq> TenantSuspended"

lemma auth_Inr:
  assumes "auth L r s = Inr (acc, tenant, s1)"
  shows "bot_caller L r (sv_store (rs_rt s)) acc tenant \<and> rs_rt s1 = rs_rt s \<and>
         GetTenantByID (ten_ID tenant) (sv_store (rs_rt s)) = Inr tenant \<and>
         GetAccountByID (ten_ID tenant) (acc_ID acc) (sv_store (rs_rt s)) = Inr acc"
proof -
  obtain plaintext tok where steps: "bearer r = Some plaintext" "plaintext \<noteq> ''''"
    "GetTokenByHash (e_sha256 (rl_env L) plaintext) (sv_store (rs_rt s)) = Inr tok"
    "GetTenantByID (tok_TenantID tok) (sv_store (rs_rt s)) = Inr tenant" "ten_Status tenant \<noteq> TenantSuspended"
    "GetAccountByID (tok_TenantID tok) (tok_AccountID tok) (sv_store (rs_rt s)) = Inr acc" "acc_Type acc = AccountBot"
    and s1: "rs_rt s1 = rs_rt s"
    using assms by (auto simp: auth_def Let_def split: option.split_asm if_split_asm sum.split_asm)
  obtain row where "row \<in> set (st_tokens (sv_store (rs_rt s)))" "tok_Hash row = e_sha256 (rl_env L) plaintext"
    "tok_RevokedAt row = 0" "tok = scanToken row"
    using steps(3) by (auto simp: GetTokenByHash_def query_row_Inr dest: find_SomeD)
  moreover have "ten_ID tenant = tok_TenantID tok"
    using steps(4) by (auto simp: GetTenantByID_def query_row_Inr scanTenant_def dest: find_SomeD)
  ultimately show ?thesis
    using steps s1 GetAccountByID_Inr [OF steps(6)] by (auto simp: bot_caller_def scanToken_def)
qed

lemma auth_Inl: "auth L r s = Inl resp \<Longrightarrow> 400 \<le> rp_Status resp"
  by (auto simp: auth_def Let_def split: option.split_asm if_split_asm sum.split_asm)

section \<open>What a subscription request does\<close>

text \<open>A request that is not for an integration: how it was routed.\<close>

definition control :: "Request \<Rightarrow> bool" where
  "control r \<longleftrightarrow> (\<forall>i. routes r \<noteq> Inr (RInbound i))"

lemma Create_sub_effect: "(\<exists>e. Create_sub K now nv sec t a input w = (w, Inl e)) \<or>
    (\<exists>sub. snd (Create_sub K now nv sec t a input w) = Inr sub)"
  using Create_sub_cases [of K now nv sec t a input w] by auto

lemma Update_sub_effect: "(\<exists>e. Update_sub K now t a i input w = (w, Inl e)) \<or>
    (\<exists>sub. snd (Update_sub K now t a i input w) = Inr sub)"
  by (auto simp: Update_sub_def split: sum.split)

lemma Delete_sub_effect: "(\<exists>e. Delete_sub K t a i w = (w, Some e)) \<or> snd (Delete_sub K t a i w) = None"
  by (auto simp: Delete_sub_def split: sum.split)

text \<open>
  Every outcome of a control request: an error that leaves the server as it was (but for the pending touch of the
  token), a read, or one subscription operation of the authenticated caller, with a status below 400.
\<close>

definition outcome :: "rest_lib \<Rightarrow> Account \<Rightarrow> Tenant \<Rightarrow> RestServer \<Rightarrow> RestServer \<times> Response \<Rightarrow> bool" where
  "outcome L acc tenant s1 out \<longleftrightarrow>
     rs_rt (fst out) = rs_rt s1 \<or>
     rp_Status (snd out) < 400 \<and>
       (\<exists>c. rs_rt (fst out) = put_world (exec_sub (e_sub (rl_env L)) (tenant, acc, c) (rest_world s1)) (rs_rt s1))"

lemma outcome_create: "outcome L a t s (handleCreateSubscription L a t r s)"
proof (cases "dec_createRequest (rq_Body r)")
  case (Some q)
  define input where "input = \<lparr>ci_ChannelName = cq_ChannelName q, ci_ChannelID = cq_ChannelID q, ci_URL = cq_URL q,
    ci_Match = cq_Match q, ci_Events = cq_Events q, ci_ContextLines = cq_ContextLines q, ci_DebounceMs = cq_DebounceMs q,
    ci_CooldownMs = cq_CooldownMs q, ci_Budget = cq_Budget q\<rparr>"
  let ?E = "rl_env L"
  let ?op = "Create_sub (e_sub ?E) (e_now ?E 0) (e_newV7 ?E) (e_rand ?E) t a input (rest_world s)"
  have h: "handleCreateSubscription L a t r s = (case ?op of (w, Inl err) \<Rightarrow> (put_rest w s, writeSubopsError L err)
      | (w, Inr sub) \<Rightarrow> (put_rest w s, writeJSON 201 (sub_json L sub True)))"
    by (simp add: handleCreateSubscription_def Some input_def)
  have "fst ?op = exec_sub (e_sub ?E) (t, a, SCreate (e_now ?E 0) (e_newV7 ?E) (e_rand ?E) input) (rest_world s)" by simp
  then show ?thesis
    using Create_sub_effect [of "e_sub ?E" "e_now ?E 0" "e_newV7 ?E" "e_rand ?E" t a input "rest_world s"]
    unfolding outcome_def h by (cases ?op) (auto simp del: exec_sub.simps)
qed (simp add: handleCreateSubscription_def outcome_def)

lemma outcome_update: "outcome L a t s (handleUpdateSubscription L a t i r s)"
proof (cases "dec_updateRequest (rq_Body r)")
  case (Some q)
  define input where "input = \<lparr>ui_URL = uq_URL q, ui_Match = raw_opt (uq_Match q), ui_Events = uq_Events q,
    ui_ContextLines = uq_ContextLines q, ui_DebounceMs = uq_DebounceMs q, ui_CooldownMs = uq_CooldownMs q,
    ui_Budget = raw_opt (uq_Budget q), ui_Disabled = uq_Disabled q\<rparr>"
  let ?E = "rl_env L"
  let ?op = "Update_sub (e_sub ?E) (e_now ?E 0) t a i input (rest_world s)"
  have h: "handleUpdateSubscription L a t i r s = (case ?op of (w, Inl err) \<Rightarrow> (put_rest w s, writeSubopsError L err)
      | (w, Inr sub) \<Rightarrow> (put_rest w s, writeJSON 200 (sub_json L sub False)))"
    by (simp add: handleUpdateSubscription_def Some input_def)
  have "fst ?op = exec_sub (e_sub ?E) (t, a, SUpdate (e_now ?E 0) i input) (rest_world s)" by simp
  then show ?thesis
    using Update_sub_effect [of "e_sub ?E" "e_now ?E 0" t a i input "rest_world s"]
    unfolding outcome_def h by (cases ?op) (auto simp del: exec_sub.simps)
qed (simp add: handleUpdateSubscription_def outcome_def)

lemma outcome_delete: "outcome L a t s (handleDeleteSubscription L a t i s)"
proof -
  let ?op = "Delete_sub (e_sub (rl_env L)) t a i (rest_world s)"
  have "fst ?op = exec_sub (e_sub (rl_env L)) (t, a, SDelete i) (rest_world s)" by simp
  then show ?thesis
    using Delete_sub_effect [of "e_sub (rl_env L)" t a i "rest_world s"]
    unfolding outcome_def handleDeleteSubscription_def by (cases ?op) (auto simp del: exec_sub.simps)
qed

lemma outcome_reads: "outcome L a t s (handleListSubscriptions L a t s)" "outcome L a t s (handleGetSubscription L a t i s)"
  by (auto simp: outcome_def handleListSubscriptions_def handleGetSubscription_def split: sum.split)

lemmas outcomes = outcome_create outcome_update outcome_delete outcome_reads

lemma control_cases:
  assumes "serve L r s = Some (s', resp)" and "control r"
  obtains (refused) "s' = s" "400 \<le> rp_Status resp"
  | (health) "routes r = Inr RHealthz" "s' = s"
  | (caller) acc tenant s1 where "auth L r s = Inr (acc, tenant, s1)" "outcome L acc tenant s1 (s', resp)"
proof -
  have authed: thesis if "authed L r s h = Some (s', resp)" and "\<And>a t s1. outcome L a t s1 (h a t s1)" for h
  proof (cases "auth L r s")
    case (Inl e)
    with that(1) auth_Inl [OF Inl] show ?thesis by (intro refused) (auto simp: authed_def)
  next
    case (Inr x)
    obtain a t s1 where x: "x = (a, t, s1)" by (cases x) auto
    with Inr that(1) have "h a t s1 = (s', resp)" by (simp add: authed_def)
    with that(2) [of a t s1] Inr x show ?thesis by (intro caller [of a t s1]) auto
  qed
  show thesis
  proof (cases "routes r")
    case (Inl n)
    then have "n = 404 \<or> n = 405" by (auto simp: routes_def Let_def split: option.splits if_splits)
    with Inl assms(1) show ?thesis by (intro refused) (auto simp: serve_def)
  next
    case (Inr h)
    show ?thesis
    proof (cases h)
      case RHealthz
      with Inr assms(1) show ?thesis by (intro health) (auto simp: serve_def)
    next
      case (RInbound i)
      with Inr assms(2) show ?thesis by (simp add: control_def)
    qed (use Inr assms(1) in \<open>auto simp: serve_def intro!: authed outcomes\<close>)
  qed
qed


section \<open>Inbound requests\<close>

lemma PublishInbound_error: "PublishInbound E t k a ev rt = (Some e, rt') \<Longrightarrow> rt' = rt"
  by (auto simp: PublishInbound_def Let_def case_prod_beta split: sum.split_asm)

lemma inbound_auth_Inl: "inbound_auth L i r s = Inl resp \<Longrightarrow> 400 \<le> rp_Status resp"
  by (auto simp: inbound_auth_def Let_def split: option.split_asm if_split_asm sum.split_asm)

lemma inbound_body_Inl: "inbound_body L r = Inl resp \<Longrightarrow> 400 \<le> rp_Status resp"
  by (auto simp: inbound_body_def Let_def split: if_split_asm)

lemma inbound_body_Inr: "inbound_body L r = Inr body \<Longrightarrow> body = rq_Body r \<and> length body \<le> MaxInboundBodyBytes"
  by (auto simp: inbound_body_def Let_def min_def split: if_split_asm)

lemma inbound_auth_Inr:
  assumes "inbound_auth L i r s = Inr integ"
  obtains plaintext row tenant where "bearer r = Some plaintext" "plaintext \<noteq> ''''"
    "row \<in> set (st_integs (sv_store (rs_rt s)))" "integ = scanIntegration row"
    "int_TokenHash row = e_sha256 (rl_env L) plaintext" "int_DisabledAt row = 0"
    "lib_uuid_Parse (e_sub (rl_env L)) i = Some (int_ID row)"
    "GetTenantByID (int_TenantID row) (sv_store (rs_rt s)) = Inr tenant" "ten_Status tenant \<noteq> TenantSuspended"
proof -
  from assms obtain plaintext tenant where "bearer r = Some plaintext" "plaintext \<noteq> ''''"
    "GetIntegrationByTokenHash (e_sha256 (rl_env L) plaintext) (sv_store (rs_rt s)) = Inr integ"
    "lib_uuid_Parse (e_sub (rl_env L)) i = Some (int_ID integ)"
    "GetTenantByID (int_TenantID integ) (sv_store (rs_rt s)) = Inr tenant" "ten_Status tenant \<noteq> TenantSuspended"
    by (auto simp: inbound_auth_def Let_def split: option.split_asm if_split_asm sum.split_asm)
  moreover from this(3) obtain row where "row \<in> set (st_integs (sv_store (rs_rt s)))" "integ = scanIntegration row"
    "int_TokenHash row = e_sha256 (rl_env L) plaintext" "int_DisabledAt row = 0"
    by (auto simp: GetIntegrationByTokenHash_def query_row_Inr dest: find_SomeD)
  ultimately show thesis by (intro that [of plaintext row tenant]) (auto simp: scanIntegration_def)
qed

text \<open>An accepted event was published, whole, on the channel of the integration; any other answer changes nothing.\<close>

lemma handleInbound_cases:
  assumes "handleInbound L i r s = Some (s', resp)"
  obtains (refused) "s' = s" "400 \<le> rp_Status resp"
  | (accepted) integ a ev rt where "inbound_auth L i r s = Inr integ" "length (rq_Body r) \<le> MaxInboundBodyBytes"
      "Lookup (int_Adapter integ) (rs_adapters s) = Inr a"
      "ad_Normalize a (rl_adapter L) (e_now (rl_env L) 2) (rq_Body r) (rq_Header r) (int_SettingsJSON integ) = Some (Inr ev)"
      "PublishInbound (rl_env L) (int_TenantID integ) (int_ChannelID integ) (int_AccountID integ) ev (rs_rt s) = (None, rt)"
      "s' = s\<lparr>rs_rt := rt\<rparr>" "resp = writeHeader 202"
proof (cases "rs_publisher s")
  case pub: True
  show thesis
  proof (cases "inbound_auth L i r s")
    case (Inl e)
    with assms pub inbound_auth_Inl [OF Inl] show ?thesis by (intro refused) (auto simp: handleInbound_def)
  next
    case integ: (Inr integ)
    show ?thesis
    proof (cases "inbound_body L r")
      case (Inl e)
      with assms pub integ inbound_body_Inl [OF Inl] show ?thesis by (intro refused) (auto simp: handleInbound_def)
    next
      case body: (Inr body)
      show ?thesis
      proof (cases "Lookup (int_Adapter integ) (rs_adapters s)")
        case (Inl e)
        with assms pub integ body show ?thesis by (intro refused) (auto simp: handleInbound_def)
      next
        case a: (Inr a)
        from assms pub integ body a obtain res where
          res: "ad_Normalize a (rl_adapter L) (e_now (rl_env L) 2) body (rq_Header r) (int_SettingsJSON integ) = Some res"
          by (auto simp: handleInbound_def)
        show ?thesis
        proof (cases res)
          case (Inl e)
          with assms pub integ body a res show ?thesis by (intro refused) (auto simp: handleInbound_def)
        next
          case (Inr ev)
          obtain err rt where p: "PublishInbound (rl_env L) (int_TenantID integ) (int_ChannelID integ) (int_AccountID integ) ev (rs_rt s) = (err, rt)"
            by force
          show ?thesis
          proof (cases err)
            case None
            with assms pub integ body a res Inr p inbound_body_Inr [OF body] show ?thesis
              by (intro accepted [of integ a ev rt]) (auto simp: handleInbound_def)
          next
            case (Some e)
            with assms pub integ body a res Inr p PublishInbound_error [of "rl_env L"] show ?thesis
              by (intro refused) (auto simp: handleInbound_def)
          qed
        qed
      qed
    qed
  qed
next
  case False
  with assms show thesis by (intro refused) (auto simp: handleInbound_def)
qed

text \<open>Publishing queues at the connections of the event's tenant only.\<close>

lemma PublishInbound_confined:
  assumes "server_ok rt" and "sv_conns rt j = Some d" and "cn_tenantID d \<noteq> t"
  shows "sv_conns (snd (PublishInbound E t k a ev rt)) j = Some d"
proof -
  let ?reg = "\<lambda>n. rt\<lparr>sv_channels := fst (GetOrCreate t k n (sv_channels rt))\<rparr>"
  have reg: "reg_ok (sv_channels (?reg n))" and mem: "members_of (?reg n) t k = members_of rt t k" for n
    using server_okD(1) [OF assms(1)] by (auto simp: reg_ok_GetOrCreate members_of_GetOrCreate)
  have "j \<notin> members_of rt t k" using server_okD(4) [OF assms(1), of j t k] assms(2,3) by auto
  then have "sv_conns (broadcast t k b (?reg n)) j = Some d" for b n
    using assms(2) by (simp add: broadcast_conns [OF reg] mem)
  moreover have "sv_conns (notify_webhooks E' now e s) = sv_conns s" for E' now e s
    by (auto simp: notify_webhooks_def Let_def case_prod_beta split: option.split)
  ultimately show ?thesis using assms(2)
    by (auto simp: PublishInbound_def Let_def case_prod_beta history_enqueue_def split: sum.split)
qed


section \<open>Reading without secrets\<close>

text \<open>The server with other subscription secrets.\<close>

definition reseal :: "(Subscription \<Rightarrow> bytes) \<Rightarrow> Subscription \<Rightarrow> Subscription" where
  "reseal f b = b\<lparr>sub_Secret := f b\<rparr>"

definition resealed :: "(Subscription \<Rightarrow> bytes) \<Rightarrow> RestServer \<Rightarrow> RestServer" where
  "resealed f s = s\<lparr>rs_rt := (rs_rt s)\<lparr>sv_store := (sv_store (rs_rt s))\<lparr>st_subs := map (reseal f) (st_subs (sv_store (rs_rt s)))\<rparr>\<rparr>\<rparr>"

lemma reseal_fields [simp]:
  "sub_ID (reseal f b) = sub_ID b" "sub_TenantID (reseal f b) = sub_TenantID b" "sub_AccountID (reseal f b) = sub_AccountID b"
  "sub_CreatedAt (reseal f b) = sub_CreatedAt b"
  by (simp_all add: reseal_def)

lemma sub_json_reseal [simp]: "sub_json L (scanSubscription (reseal f b)) False = sub_json L (scanSubscription b) False"
  by (simp add: sub_json_def toResponse_def scanSubscription_def reseal_def)

lemma find_map_keep: "(\<And>x. P (g x) = P x) \<Longrightarrow> find P (map g xs) = map_option g (find P xs)"
  by (induction xs) auto

lemma filter_map_keep: "(\<And>x. P (g x) = P x) \<Longrightarrow> filter P (map g xs) = map g (filter P xs)"
  by (induction xs) auto

lemma insort_map_keep: "(\<And>x. k (g x) = k x) \<Longrightarrow> insort_key k (g x) (map g xs) = map g (insort_key k x xs)"
  by (induction xs) auto

lemma sort_map_keep: "(\<And>x. k (g x) = k x) \<Longrightarrow> sort_key k (map g xs) = map g (sort_key k xs)"
  by (induction xs) (simp_all add: insort_map_keep)

lemma resealed_store [simp]:
  "GetTokenByHash h (sv_store (rs_rt (resealed f s))) = GetTokenByHash h (sv_store (rs_rt s))"
  "GetTenantByID t (sv_store (rs_rt (resealed f s))) = GetTenantByID t (sv_store (rs_rt s))"
  "GetAccountByID t a (sv_store (rs_rt (resealed f s))) = GetAccountByID t a (sv_store (rs_rt s))"
  by (simp_all add: resealed_def GetTokenByHash_def GetTenantByID_def GetAccountByID_def query_row_def)

lemma auth_resealed: "auth L r (resealed f s) = map_sum id (\<lambda>(a, t, s1). (a, t, resealed f s1)) (auth L r s)"
proof -
  have "(resealed f s)\<lparr>rs_touches := rs_touches (resealed f s) @ ts\<rparr> = resealed f (s\<lparr>rs_touches := rs_touches s @ ts\<rparr>)" for ts
    by (simp add: resealed_def)
  then show ?thesis by (simp add: auth_def Let_def split: option.split sum.split)
qed

lemma Get_sub_resealed: "Get_sub K t a i (sv_store (rs_rt (resealed f s))) =
    (case lib_uuid_Parse K i of
       None \<Rightarrow> Inl SubBadRequest
     | Some j \<Rightarrow> if st_down (sv_store (rs_rt s)) then Inl SubNotFound
         else case find (\<lambda>q. sub_TenantID q = ten_ID t \<and> sub_ID q = j) (st_subs (sv_store (rs_rt s))) of
           None \<Rightarrow> Inl SubNotFound
         | Some q \<Rightarrow> if sub_AccountID q \<noteq> acc_ID a then Inl SubNotOwner else Inr (scanSubscription (reseal f q)))"
  by (simp add: Get_sub_def GetSubscriptionByID_def query_row_def resealed_def find_map_keep scanSubscription_def
      split: option.split)

lemma resealed_id: "resealed sub_Secret s = s"
  by (simp add: resealed_def reseal_def map_idI)

lemma handleGet_resealed:
  "snd (handleGetSubscription L a t i (resealed f s)) = snd (handleGetSubscription L a t i s)"
proof -
  have "snd (handleGetSubscription L a t i (resealed f s)) = snd (handleGetSubscription L a t i (resealed sub_Secret s))"
    unfolding handleGetSubscription_def Get_sub_resealed by (simp split: option.split)
  then show ?thesis by (simp add: resealed_id)
qed

lemma List_sub_resealed: "List_sub t a (sv_store (rs_rt (resealed f s))) =
    (if st_down (sv_store (rs_rt s)) then Inl SubInternal
     else Inr (map (\<lambda>q. scanSubscription (reseal f q)) (sort_key sub_CreatedAt
       (filter (\<lambda>q. sub_TenantID q = ten_ID t \<and> sub_AccountID q = acc_ID a) (st_subs (sv_store (rs_rt s)))))))"
  by (simp add: List_sub_def ListSubscriptionsByAccount_def query_rows_def resealed_def filter_map_keep sort_map_keep)

lemma handleList_resealed:
  "snd (handleListSubscriptions L a t (resealed f s)) = snd (handleListSubscriptions L a t s)"
proof -
  have "snd (handleListSubscriptions L a t (resealed f s)) = snd (handleListSubscriptions L a t (resealed sub_Secret s))"
    unfolding handleListSubscriptions_def List_sub_resealed by (simp add: comp_def)
  then show ?thesis by (simp add: resealed_id)
qed

section \<open>The realtime counterpart of a request\<close>

text \<open>The frame that asks a realtime connection for what a control request asks for.\<close>

fun rest_frame :: "route \<Rightarrow> bytes \<Rightarrow> Frame option" where
  "rest_frame RCreate b = map_option (\<lambda>q. FSubscriptionCreate \<lparr>sc_ID = '''', sc_ChannelName = cq_ChannelName q,
     sc_ChannelID = cq_ChannelID q, sc_URL = cq_URL q, sc_Match = cq_Match q, sc_Events = cq_Events q,
     sc_ContextLines = cq_ContextLines q, sc_DebounceMs = cq_DebounceMs q, sc_CooldownMs = cq_CooldownMs q,
     sc_Budget = cq_Budget q\<rparr>) (dec_createRequest b)"
| "rest_frame (RUpdate i) b = map_option (\<lambda>q. FSubscriptionUpdate \<lparr>su_ID = '''', su_SubscriptionID = i, su_URL = uq_URL q,
     su_Match = uq_Match q, su_Events = uq_Events q, su_ContextLines = uq_ContextLines q, su_DebounceMs = uq_DebounceMs q,
     su_CooldownMs = uq_CooldownMs q, su_Budget = uq_Budget q, su_Disabled = uq_Disabled q\<rparr>) (dec_updateRequest b)"
| "rest_frame (RDelete i) b = Some (FSubscriptionDelete \<lparr>sd_ID = '''', sd_SubscriptionID = i\<rparr>)"
| "rest_frame (RGet i) b = Some (FSubscriptionGet \<lparr>sg_ID = '''', sg_SubscriptionID = i\<rparr>)"
| "rest_frame RList b = Some (FSubscriptionList \<lparr>sl_ID = ''''\<rparr>)"
| "rest_frame _ b = None"

lemma sub_world_send [simp]: "sub_world (sendFrame E i f rt) = sub_world rt" "sub_world (sendError E i a b c rt) = sub_world rt"
  "sub_world (sendSubopsError E c' e q rt) = sub_world rt"
  by (simp_all add: sub_world_def sendError_def sendSubopsError_def)

lemma requireBot_caller:
  assumes "auth L r s = Inr (acc, tenant, s1)" and "cn_tenantID c = ten_ID tenant" and "cn_accountID c = acc_ID acc"
  shows "requireBot E c q (rs_rt s) = Inr (tenant, acc)"
  using auth_Inr [OF assms(1)] assms(2,3) by (simp add: requireBot_def bot_caller_def)

lemma same_effect:
  assumes "auth L r s = Inr (acc, tenant, s1)" and "cn_authed c"
    and "cn_tenantID c = ten_ID tenant" and "cn_accountID c = acc_ID acc"
    and "routes r = Inr h" and "rest_frame h (rq_Body r) = Some f" and "serve L r s = Some (s', resp)"
  shows "rest_world s' = sub_world (dispatch (rl_env L) c f (rs_rt s))"
proof -
  have rt: "rs_rt s1 = rs_rt s" using auth_Inr [OF assms(1)] by simp
  note caller = requireBot_caller [OF assms(1,3,4)]
  show ?thesis
  proof (cases h)
    case RCreate
    with assms rt caller show ?thesis
      by (auto simp: serve_def authed_def dispatch_def handleCreateSubscription_def handleSubscriptionCreate_def
          split: prod.split sum.split prod.split_asm sum.split_asm)
  next
    case (RUpdate i)
    with assms rt caller show ?thesis
      by (auto simp: serve_def authed_def dispatch_def handleUpdateSubscription_def handleSubscriptionUpdate_def
          split: prod.split sum.split prod.split_asm sum.split_asm)
  next
    case (RDelete i)
    with assms rt caller show ?thesis
      by (auto simp: serve_def authed_def dispatch_def handleDeleteSubscription_def handleSubscriptionDelete_def
          split: prod.split option.split prod.split_asm option.split_asm)
  next
    case (RGet i)
    with assms rt caller show ?thesis
      by (auto simp: serve_def authed_def dispatch_def handleGetSubscription_def handleSubscriptionGet_def
          split: sum.split sum.split_asm)
  next
    case RList
    with assms rt caller show ?thesis
      by (auto simp: serve_def authed_def dispatch_def handleListSubscriptions_def handleSubscriptionList_def
          split: sum.split sum.split_asm)
  qed (use assms in auto)
qed

lemma same_json: "sub_json L sub b = enc_SubscriptionInfo (e_codec (rl_env L)) (subInfo (rl_env L) sub b)"
  by (simp add: sub_json_def enc_subscriptionResponse_def enc_SubscriptionInfo_def toResponse_def subInfo_def)

end
