(* ===== verification/Rest_Safety.thy ===== *)
theory Rest_Safety
  imports Rest_Laws
begin

text \<open>The properties of the control plane, with a small server on which each of them is exercised.\<close>

section \<open>A sample server\<close>

text \<open>
  The chat server with a token of the bot, a subscription of the bot, one of the human, and a Splunk integration on
  the private channel.
\<close>

definition rest_sub :: Subscription where
  "rest_sub = \<lparr>sub_ID = 60, sub_TenantID = 1, sub_AccountID = 21, sub_ChannelID = 3, sub_URL = ''https://bot'', sub_Secret = ''k'',
     sub_MatchJSON = ''{}'', sub_Events = [''message''], sub_ContextLines = 0, sub_DebounceMs = 0, sub_CooldownMs = 0,
     sub_BudgetJSON = ''{}'', sub_DisabledAt = 0, sub_CreatedAt = 0\<rparr>"

definition rest_store :: store where
  "rest_store = chat_store\<lparr>
     st_tokens := [\<lparr>tok_ID = 41, tok_TenantID = 1, tok_AccountID = 21, tok_Hash = ''bt'', tok_Label = ''ci'', tok_CreatedAt = 0,
        tok_LastUsedAt = 0, tok_RevokedAt = 0\<rparr>],
     st_subs := [rest_sub, rest_sub\<lparr>sub_ID := 61, sub_AccountID := 20\<rparr>],
     st_integs := [\<lparr>int_ID = 70, int_TenantID = 1, int_ChannelID = 3, int_AccountID = 20, int_Adapter = ''splunk'',
        int_TokenHash = ''it'', int_SettingsJSON = '''', int_DisabledAt = 0, int_CreatedAt = 0\<rparr>]\<rparr>"

definition rest_env :: env where
  "rest_env = chat_env\<lparr>e_sub := \<lparr>lib_uuid_Parse = (\<lambda>s. if s = ''mine'' then Some 60 else if s = ''theirs'' then Some 61
     else if s = ''int'' then Some 70 else None), lib_url_Parse = (\<lambda>_. None), lib_regexp = (\<lambda>_. None)\<rparr>\<rparr>"

definition sample_rest_lib :: rest_lib where
  "sample_rest_lib = \<lparr>rl_env = rest_env, rl_adapter = sample_adapter_lib, rl_jsonErr = (\<lambda>_. ''''), rl_uuidErr = (\<lambda>_. ''''), rl_readErr = '''',
     rl_adapterErr = (\<lambda>_. '''')\<rparr>"

definition rest_server :: RestServer where
  "rest_server = \<lparr>rs_healthy = True, rs_publisher = True, rs_touches = [], rs_adapters = init_registry,
     rs_rt = chat_start\<lparr>sv_store := rest_store\<rparr>\<rparr>"

definition rest_request :: "string \<Rightarrow> string list \<Rightarrow> string \<Rightarrow> bytes \<Rightarrow> Request" where
  "rest_request m path tok body = \<lparr>rq_Method = m, rq_Path = path, rq_Header = [(''Authorization'', [''Bearer '' @ tok])],
     rq_Body = body, rq_BodyErr = False, rq_ContentLength = int (length body)\<rparr>"

definition rest_bot :: Account where
  "rest_bot = \<lparr>acc_ID = 21, acc_TenantID = 1, acc_Username = ''bot'', acc_DisplayName = ''Bot'', acc_Type = AccountBot,
     acc_PasswordHash = [], acc_PasswordSalt = [], acc_PasswordParams = '''', acc_RecoveryEmail = '''', acc_CreatedAt = unix_epoch\<rparr>"

lemmas rest_eval = rest_store_def chat_store_eval rest_env_def chat_env_def sample_rest_lib_def rest_server_def rest_request_def
  rest_bot_def chat_start_def

lemma rest_auth: "auth sample_rest_lib (rest_request m path ''bt'' body) rest_server =
    Inr (rest_bot, login_tenant, rest_server\<lparr>rs_touches := [41]\<rparr>)"
  by (simp add: auth_def bearer_def header_Get_def HasPrefix_def TrimPrefix_def TrimSpace_def is_space_def
      GetTokenByHash_def scanToken_def scan_nullable_def AccountBot_def AccountHuman_def rest_eval Let_def)

lemma rest_delete_mine: "serve sample_rest_lib (rest_request ''DELETE'' [''v1'', ''subscriptions'', ''mine''] ''bt'' []) rest_server =
    Some (put_rest (rest_store\<lparr>st_subs := [rest_sub\<lparr>sub_ID := 61, sub_AccountID := 20\<rparr>]\<rparr>,
       map_option (Remove_sub 60) (sv_webhooks chat_start)) (rest_server\<lparr>rs_touches := [41]\<rparr>), writeHeader 204)"
proof -
  have "routes (rest_request ''DELETE'' [''v1'', ''subscriptions'', ''mine''] ''bt'' []) = Inr (RDelete ''mine'')"
    by (simp add: routes_def rest_request_def)
  moreover have "Delete_sub (e_sub (rl_env sample_rest_lib)) login_tenant rest_bot ''mine'' (rest_world (rest_server\<lparr>rs_touches := [41]\<rparr>))
      = ((rest_store\<lparr>st_subs := [rest_sub\<lparr>sub_ID := 61, sub_AccountID := 20\<rparr>]\<rparr>, map_option (Remove_sub 60) (sv_webhooks chat_start)), None)"
    by (simp add: Delete_sub_def Get_sub_def GetSubscriptionByID_def DeleteSubscription_def sub_world_def rest_sub_def
        scanSubscription_def rest_eval Let_def)
  ultimately show ?thesis
    by (simp add: serve_def authed_def rest_auth handleDeleteSubscription_def)
qed


section \<open>Properties\<close>

text \<open>
  Property C9. Whoever gets more than an error out of the subscription endpoints, or changes anything through them,
  presented the text of a token that is stored unrevoked, for a bot account of the token's own tenant, and that tenant
  is not suspended.
\<close>

theorem rest_requires_live_bot_token:
  assumes "serve L r s = Some (s', resp)" and "control r" and "routes r \<noteq> Inr RHealthz"
    and "rp_Status resp < 400 \<or> rs_rt s' \<noteq> rs_rt s"
  shows "\<exists>acc tenant. bot_caller L r (sv_store (rs_rt s)) acc tenant"
  using assms(1,2)
proof (cases rule: control_cases)
  case (caller acc tenant s1)
  then show ?thesis using auth_Inr [OF caller(1)] by blast
qed (use assms(3,4) in auto)

theorem rest_requires_live_bot_token_witness:
  "\<exists>acc tenant. bot_caller sample_rest_lib (rest_request ''DELETE'' [''v1'', ''subscriptions'', ''mine''] ''bt'' []) rest_store acc tenant"
proof -
  have "sv_store (rs_rt rest_server) = rest_store" by (simp add: rest_server_def)
  then show ?thesis
    using rest_requires_live_bot_token [OF rest_delete_mine] by (simp add: control_def routes_def rest_request_def)
qed

text \<open>A handler changes the server behind it, and nothing else of the control plane.\<close>

lemma handlers_keep_rest:
  "fst (handleCreateSubscription L a t r s) = s\<lparr>rs_rt := rs_rt (fst (handleCreateSubscription L a t r s))\<rparr>"
  "fst (handleListSubscriptions L a t s) = s\<lparr>rs_rt := rs_rt (fst (handleListSubscriptions L a t s))\<rparr>"
  "fst (handleGetSubscription L a t i s) = s\<lparr>rs_rt := rs_rt (fst (handleGetSubscription L a t i s))\<rparr>"
  "fst (handleUpdateSubscription L a t i r s) = s\<lparr>rs_rt := rs_rt (fst (handleUpdateSubscription L a t i r s))\<rparr>"
  "fst (handleDeleteSubscription L a t i s) = s\<lparr>rs_rt := rs_rt (fst (handleDeleteSubscription L a t i s))\<rparr>"
  by (auto simp: handleCreateSubscription_def handleListSubscriptions_def handleGetSubscription_def handleUpdateSubscription_def
      handleDeleteSubscription_def put_rest_def Let_def split: option.split sum.split prod.split)

lemma serve_keeps_rest:
  assumes "serve L r s = Some (s', resp)" and "control r"
  shows "s' = s\<lparr>rs_rt := rs_rt s'\<rparr> \<or> (\<exists>a t s1. auth L r s = Inr (a, t, s1) \<and> s' = s1\<lparr>rs_rt := rs_rt s'\<rparr>)"
proof -
  have authed: ?thesis if "authed L r s h = Some (s', resp)" and "\<And>a t s1. fst (h a t s1) = s1\<lparr>rs_rt := rs_rt (fst (h a t s1))\<rparr>" for h
    using that(1) that(2) [THEN sym] by (auto simp: authed_def split: sum.splits) (metis fst_conv)+
  show ?thesis
  proof (cases "routes r")
    case (Inr h)
    then show ?thesis using assms authed handlers_keep_rest by (cases h) (auto simp: serve_def control_def)
  qed (use assms(1) in \<open>simp add: serve_def\<close>)
qed

lemma auth_touches:
  assumes "auth L r s = Inr (acc, tenant, s1)"
  obtains plaintext tok where "bearer r = Some plaintext" "GetTokenByHash (e_sha256 (rl_env L) plaintext) (sv_store (rs_rt s)) = Inr tok"
    "s1 = s\<lparr>rs_touches := rs_touches s @ [tok_ID tok]\<rparr>"
  using assms by (auto simp: auth_def Let_def split: option.split_asm if_split_asm sum.split_asm)

text \<open>
  Property C33. An error response means that nothing happened but a note of the token's use. For every request on every route, a
  status of 400 or more leaves the store, the webhook manager, the channels and the connections exactly as they were while
  the request is handled. If the caller was authenticated, the goroutine that the middleware started remains: when it runs (shown with no
  other one pending) it changes nothing at all, or the time of last use of the very token the request carried, and nothing else.
\<close>

theorem rest_errors_touch_token_only:
  assumes "serve L r s = Some (s', resp)" and "400 \<le> rp_Status resp"
  shows "rs_rt s' = rs_rt s \<and> (s' = s \<or> (\<exists>plaintext tok. bearer r = Some plaintext \<and>
     GetTokenByHash (e_sha256 (rl_env L) plaintext) (sv_store (rs_rt s)) = Inr tok \<and>
     s' = s\<lparr>rs_touches := rs_touches s @ [tok_ID tok]\<rparr> \<and>
     (\<forall>now. rs_touches s = [] \<longrightarrow> rest_touch now s' = s \<or>
        rest_touch now s' = s\<lparr>rs_rt := (rs_rt s)\<lparr>sv_store := (sv_store (rs_rt s))\<lparr>st_tokens :=
          map (\<lambda>t. if tok_ID t = tok_ID tok then t\<lparr>tok_LastUsedAt := UnixMicro now\<rparr> else t) (st_tokens (sv_store (rs_rt s)))\<rparr>\<rparr>\<rparr>)))"
proof -
  have rt: "rs_rt s' = rs_rt s"
  proof (cases "control r")
    case True
    with assms(1) show ?thesis
    proof (cases rule: control_cases)
      case (caller acc tenant s1)
      then show ?thesis using auth_Inr [OF caller(1)] assms(2) by (auto simp: outcome_def)
    qed auto
  next
    case False
    then obtain i where "handleInbound L i r s = Some (s', resp)"
      using assms(1) by (auto simp: control_def serve_def)
    then show ?thesis by (cases rule: handleInbound_cases) (use assms(2) in auto)
  qed
  have touch: "rest_touch now (s\<lparr>rs_touches := [i]\<rparr>) = s \<or>
      rest_touch now (s\<lparr>rs_touches := [i]\<rparr>) = s\<lparr>rs_rt := (rs_rt s)\<lparr>sv_store := (sv_store (rs_rt s))\<lparr>st_tokens :=
          map (\<lambda>t. if tok_ID t = i then t\<lparr>tok_LastUsedAt := UnixMicro now\<rparr> else t) (st_tokens (sv_store (rs_rt s)))\<rparr>\<rparr>\<rparr>"
    if "rs_touches s = []" for now i
    using that by (cases s) (simp add: rest_touch_def TouchTokenLastUsed_def)
  consider "s' = s" | a t s1 where "auth L r s = Inr (a, t, s1)" "s' = s1\<lparr>rs_rt := rs_rt s\<rparr>"
  proof (cases "control r")
    case True
    then show thesis using serve_keeps_rest [OF assms(1)] rt that by (cases s) auto
  next
    case False
    then obtain i where "handleInbound L i r s = Some (s', resp)"
      using assms(1) by (auto simp: control_def serve_def)
    then show thesis using that by (cases rule: handleInbound_cases) (use assms(2) in auto)
  qed
  then show ?thesis
  proof cases
    case (2 a t s1)
    obtain plaintext tok where tok: "bearer r = Some plaintext" "GetTokenByHash (e_sha256 (rl_env L) plaintext) (sv_store (rs_rt s)) = Inr tok"
      "s1 = s\<lparr>rs_touches := rs_touches s @ [tok_ID tok]\<rparr>"
      by (rule auth_touches [OF 2(1)])
    then have "s' = s\<lparr>rs_touches := rs_touches s @ [tok_ID tok]\<rparr>" using 2(2) by simp
    then show ?thesis using tok(1,2) touch [of _ "tok_ID tok"] by auto
  qed (use rt in simp)
qed

lemma rest_get_theirs: "serve sample_rest_lib (rest_request ''DELETE'' [''v1'', ''subscriptions'', ''theirs''] ''bt'' []) rest_server =
    Some (rest_server\<lparr>rs_touches := [41]\<rparr>, writeSubopsError sample_rest_lib SubNotOwner)"
proof -
  have "routes (rest_request ''DELETE'' [''v1'', ''subscriptions'', ''theirs''] ''bt'' []) = Inr (RDelete ''theirs'')"
    by (simp add: routes_def rest_request_def)
  moreover have "Delete_sub (e_sub (rl_env sample_rest_lib)) login_tenant rest_bot ''theirs'' (rest_world (rest_server\<lparr>rs_touches := [41]\<rparr>))
      = (rest_world (rest_server\<lparr>rs_touches := [41]\<rparr>), Some SubNotOwner)"
    by (simp add: Delete_sub_def Get_sub_def GetSubscriptionByID_def sub_world_def rest_sub_def scanSubscription_def rest_eval)
  ultimately show ?thesis
    by (simp add: serve_def authed_def rest_auth handleDeleteSubscription_def put_rest_def)
qed

theorem rest_errors_touch_token_only_witness:
  "\<exists>s' resp. serve sample_rest_lib (rest_request ''DELETE'' [''v1'', ''subscriptions'', ''theirs''] ''bt'' []) rest_server = Some (s', resp)
     \<and> rs_rt s' = rs_rt rest_server \<and> rs_touches s' = [41]
     \<and> (\<exists>tok. GetTokenByHash (e_sha256 (rl_env sample_rest_lib) ''bt'') (sv_store (rs_rt rest_server)) = Inr tok \<and> tok_ID tok = 41)"
proof -
  have b: "bearer (rest_request ''DELETE'' p ''bt'' []) = Some ''bt''" for p by code_simp
  have "400 \<le> rp_Status (writeSubopsError sample_rest_lib SubNotOwner)" by (simp add: writeSubopsError_def writeError_def)
  from rest_errors_touch_token_only [OF rest_get_theirs this] show ?thesis
    using rest_get_theirs b by (auto simp: rest_server_def)
qed

text \<open>
  Property C18. A bot reaches only its own subscriptions through the control plane: a stored subscription that is not
  the authenticated caller's, be it of another tenant or of another account of the same tenant, keeps its row and its
  live state in the webhook manager whatever the request is.
\<close>

theorem rest_ownership:
  assumes "world_ok (rest_world s)" and "serve L r s = Some (s', resp)" and "control r"
    and "row \<in> set (st_subs (sv_store (rs_rt s)))"
    and "\<And>acc tenant s1. auth L r s = Inr (acc, tenant, s1) \<Longrightarrow>
           \<not> (ten_ID tenant = sub_TenantID row \<and> acc_ID acc = sub_AccountID row)"
  shows "row \<in> set (st_subs (sv_store (rs_rt s'))) \<and> cached_in (rest_world s') (sub_ID row) = cached_in (rest_world s) (sub_ID row)"
  using assms(2,3)
proof (cases rule: control_cases)
  case (caller acc tenant s1)
  have rt: "rs_rt s1 = rs_rt s" using auth_Inr [OF caller(1)] by simp
  have row: "row \<in> set (st_subs (fst (rest_world s)))" using assms(4) by (simp add: sub_world_def)
  from caller(2) consider "rs_rt s' = rs_rt s"
    | c where "rs_rt s' = put_world (exec_sub (e_sub (rl_env L)) (tenant, acc, c) (rest_world s)) (rs_rt s)"
    by (auto simp: outcome_def rt)
  then show ?thesis
  proof cases
    case (2 c)
    then show ?thesis
      using exec_sub_foreign [OF assms(1) row assms(5) [OF caller(1)], of "e_sub (rl_env L)" c]
      by (simp add: put_world_def sub_world_def)
  qed (use assms(4) in simp)
qed (use assms(4) in simp_all)

theorem rest_ownership_witness:
  "rest_sub\<lparr>sub_ID := 61, sub_AccountID := 20\<rparr> \<in> set (st_subs (sv_store (rs_rt
     (fst (the (serve sample_rest_lib (rest_request ''DELETE'' [''v1'', ''subscriptions'', ''mine''] ''bt'' []) rest_server))))))"
proof -
  have "store_ok rest_store"
    by (simp add: store_ok_def table_ok_def rest_store_def chat_store_def login_store_def Migrate_def rest_sub_def)
  moreover have "opt_ok (sv_webhooks chat_start)"
    using mgr_inv_New by (simp add: chat_start_def opt_ok_def mgr_inv_def)
  ultimately have ok: "world_ok (rest_world rest_server)" by (simp add: world_ok_def sub_world_def rest_server_def)
  have c: "control (rest_request ''DELETE'' [''v1'', ''subscriptions'', ''mine''] ''bt'' [])"
    by (simp add: control_def routes_def rest_request_def)
  have row: "rest_sub\<lparr>sub_ID := 61, sub_AccountID := 20\<rparr> \<in> set (st_subs (sv_store (rs_rt rest_server)))"
    by (simp add: rest_server_def rest_store_def)
  have "\<not> (ten_ID tenant = sub_TenantID (rest_sub\<lparr>sub_ID := 61, sub_AccountID := 20\<rparr>) \<and>
      acc_ID acc = sub_AccountID (rest_sub\<lparr>sub_ID := 61, sub_AccountID := 20\<rparr>))"
    if "auth sample_rest_lib (rest_request ''DELETE'' [''v1'', ''subscriptions'', ''mine''] ''bt'' []) rest_server = Inr (acc, tenant, s1)"
    for acc tenant s1 using that by (auto simp: rest_auth rest_bot_def)
  from rest_ownership [OF ok rest_delete_mine c row this] show ?thesis
    unfolding rest_delete_mine by simp
qed

text \<open>
  Property C32. Reading never discloses a webhook secret: the answer to a GET or HEAD request is the same whatever the
  secrets of the stored subscriptions are.
\<close>

theorem rest_reads_hide_secrets:
  assumes "rq_Method r \<in> {''GET'', ''HEAD''}"
  shows "map_option snd (serve L r (resealed f s)) = map_option snd (serve L r s)"
proof (cases "routes r")
  case (Inr h)
  then have "h \<in> {RHealthz, RList} \<or> (\<exists>i. h = RGet i)"
    using assms by (cases "rq_Path r" rule: patterns.cases) (auto simp: routes_def Let_def split: if_split_asm)
  moreover have "handleHealthz (resealed f s) = handleHealthz s" by (simp add: handleHealthz_def resealed_def)
  ultimately show ?thesis
    using Inr handleGet_resealed [of L] handleList_resealed [of L]
    by (auto simp: serve_def authed_def auth_resealed split: sum.split)
qed (simp add: serve_def)

theorem rest_reads_hide_secrets_witness:
  "map_option snd (serve sample_rest_lib (rest_request ''GET'' [''v1'', ''subscriptions''] ''bt'' []) (resealed (\<lambda>_. ''other'') rest_server))
   = map_option snd (serve sample_rest_lib (rest_request ''GET'' [''v1'', ''subscriptions''] ''bt'' []) rest_server)"
  by (rule rest_reads_hide_secrets) (simp add: rest_request_def)

text \<open>
  Property C19. The HTTP and the realtime protocol are two doors to the same subscriptions: for the same bot, a control
  request and the frame that asks for the same thing change the store and the webhook manager in exactly the same way,
  and both show a subscription as the same JSON members.
\<close>

theorem rest_agrees_with_realtime:
  assumes "auth L r s = Inr (acc, tenant, s1)" and "cn_authed c"
    and "cn_tenantID c = ten_ID tenant" and "cn_accountID c = acc_ID acc"
    and "routes r = Inr h" and "rest_frame h (rq_Body r) = Some f" and "serve L r s = Some (s', resp)"
  shows "rest_world s' = sub_world (dispatch (rl_env L) c f (rs_rt s)) \<and>
         sub_json L sub b = enc_SubscriptionInfo (e_codec (rl_env L)) (subInfo (rl_env L) sub b)"
  using same_effect [OF assms] same_json by blast

theorem rest_agrees_with_realtime_witness:
  "st_subs (sv_store (dispatch rest_env ((newConn 9)\<lparr>cn_authed := True, cn_tenantID := 1, cn_accountID := 21\<rparr>)
     (FSubscriptionDelete \<lparr>sd_ID = '''', sd_SubscriptionID = ''mine''\<rparr>) (rs_rt rest_server)))
   = [rest_sub\<lparr>sub_ID := 61, sub_AccountID := 20\<rparr>]"
proof -
  let ?r = "rest_request ''DELETE'' [''v1'', ''subscriptions'', ''mine''] ''bt'' []"
  have "routes ?r = Inr (RDelete ''mine'')" by (simp add: routes_def rest_request_def)
  moreover have "rl_env sample_rest_lib = rest_env" by (simp add: sample_rest_lib_def)
  ultimately have "rest_world (put_rest (rest_store\<lparr>st_subs := [rest_sub\<lparr>sub_ID := 61, sub_AccountID := 20\<rparr>]\<rparr>,
       map_option (Remove_sub 60) (sv_webhooks chat_start)) (rest_server\<lparr>rs_touches := [41]\<rparr>)) =
     sub_world (dispatch rest_env ((newConn 9)\<lparr>cn_authed := True, cn_tenantID := 1, cn_accountID := 21\<rparr>)
       (FSubscriptionDelete \<lparr>sd_ID = '''', sd_SubscriptionID = ''mine''\<rparr>) (rs_rt rest_server))"
    using rest_agrees_with_realtime [OF rest_auth _ _ _ _ _ rest_delete_mine,
        of "(newConn 9)\<lparr>cn_authed := True, cn_tenantID := 1, cn_accountID := 21\<rparr>" "RDelete ''mine''"
           "FSubscriptionDelete \<lparr>sd_ID = '''', sd_SubscriptionID = ''mine''\<rparr>"]
    by (simp add: login_tenant_def rest_bot_def del: put_rest_fields)
  then have "fst (sub_world (dispatch rest_env ((newConn 9)\<lparr>cn_authed := True, cn_tenantID := 1, cn_accountID := 21\<rparr>)
       (FSubscriptionDelete \<lparr>sd_ID = '''', sd_SubscriptionID = ''mine''\<rparr>) (rs_rt rest_server))) =
     rest_store\<lparr>st_subs := [rest_sub\<lparr>sub_ID := 61, sub_AccountID := 20\<rparr>]\<rparr>"
    by (metis fst_conv put_rest_fields)
  then show ?thesis by (simp add: sub_world_def)
qed


text \<open>
  Property C10. An inbound event reaches only the channel its integration is bound to: a request is answered below 400
  exactly by publishing, and then it carried the token of a stored, enabled integration whose id is in the path, whose
  tenant is not suspended, with a body of at most 64 KiB; the one effect is \<^verbatim>\<open>PublishInbound\<close> of a well-formed event on
  that integration's tenant, channel and account, and no connection of another tenant is touched. Every other answer
  leaves the server as it was.
\<close>

theorem inbound_goes_to_bound_channel:
  assumes "serve L r s = Some (s', resp)" and "routes r = Inr (RInbound i)" and "rs_adapters s = init_registry"
    and "server_ok (rs_rt s)"
  shows "if 400 \<le> rp_Status resp then s' = s
    else \<exists>plaintext row tenant ev. bearer r = Some plaintext \<and> row \<in> set (st_integs (sv_store (rs_rt s))) \<and>
      int_TokenHash row = e_sha256 (rl_env L) plaintext \<and> int_DisabledAt row = 0 \<and>
      lib_uuid_Parse (e_sub (rl_env L)) i = Some (int_ID row) \<and>
      GetTenantByID (int_TenantID row) (sv_store (rs_rt s)) = Inr tenant \<and> ten_Status tenant \<noteq> TenantSuspended \<and>
      length (rq_Body r) \<le> MaxInboundBodyBytes \<and> event_ok (int_Adapter row) (rq_Body r) ev \<and>
      PublishInbound (rl_env L) (int_TenantID row) (int_ChannelID row) (int_AccountID row) ev (rs_rt s) = (None, rs_rt s') \<and>
      (\<forall>j d. sv_conns (rs_rt s) j = Some d \<longrightarrow> cn_tenantID d \<noteq> int_TenantID row \<longrightarrow> sv_conns (rs_rt s') j = Some d)"
proof -
  have "handleInbound L i r s = Some (s', resp)" using assms(1,2) by (simp add: serve_def)
  then show ?thesis
  proof (cases rule: handleInbound_cases)
    case (accepted integ a ev rt)
    have conf: "sv_conns rt j = Some d"
      if "sv_conns (rs_rt s) j = Some d" "cn_tenantID d \<noteq> int_TenantID integ" for j d
      using PublishInbound_confined [OF assms(4) that, of "rl_env L" "int_ChannelID integ" "int_AccountID integ" ev] accepted(5) by simp
    have ok: "event_ok (int_Adapter integ) (rq_Body r) ev"
      using inbound_adapter.outcome [OF registered_adapter [OF accepted(3) [unfolded assms(3)]] accepted(4)] by auto
    obtain plaintext row tenant where "bearer r = Some plaintext" "row \<in> set (st_integs (sv_store (rs_rt s)))"
      "int_TokenHash row = e_sha256 (rl_env L) plaintext" "int_DisabledAt row = 0" "integ = scanIntegration row"
      "lib_uuid_Parse (e_sub (rl_env L)) i = Some (int_ID row)"
      "GetTenantByID (int_TenantID row) (sv_store (rs_rt s)) = Inr tenant" "ten_Status tenant \<noteq> TenantSuspended"
      using inbound_auth_Inr [OF accepted(1)] by blast
    with accepted(2,5-7) conf ok show ?thesis
      by (simp add: scanIntegration_def) blast
  qed simp
qed

definition inbound_request :: Request where
  "inbound_request = rest_request ''POST'' [''v1'', ''inbound'', ''int''] ''it'' sample_alert"

lemma inbound_published: "\<exists>rt. PublishInbound rest_env 1 3 20 (sample_event 0) (rs_rt rest_server) = (None, rt)"
proof -
  let ?m = "FMsg \<lparr>mg_ID = '''', mg_Channel = ''ops'', mg_To = '''', mg_From = ''u'', mg_FromRole = '''', mg_TS = 0,
    mg_Body = FormatEventBody (sample_event 0)\<rparr>"
  have "\<not> isl (EncodeBytes (e_codec rest_env) '''' ?m)" by code_simp
  then obtain b where b: "EncodeBytes (e_codec rest_env) '''' ?m = Inr b" by (cases "EncodeBytes (e_codec rest_env) '''' ?m") auto
  obtain ch where ch: "GetChannelByID 1 3 (sv_store (rs_rt rest_server)) = Inr ch" "chn_Name ch = ''ops''"
    by (simp add: rest_eval)
  have u: "e_uuid_String rest_env x = ''u''" "e_now rest_env n = 0" "IsZero (ie_OccurredAt (sample_event 0))" for x n
    by (simp_all add: rest_env_def chat_env_def sample_event_def IsZero_def)
  have "fst (PublishInbound rest_env 1 3 20 (sample_event 0) (rs_rt rest_server)) = None"
    by (simp add: PublishInbound_def ch u b Let_def case_prod_beta del: split_paired_Ex)
  then show ?thesis by (metis prod.collapse)
qed

lemma inbound_accepted: "\<exists>s'. serve sample_rest_lib inbound_request rest_server = Some (s', writeHeader 202)"
proof -
  have rt: "routes inbound_request = Inr (RInbound ''int'')" by (simp add: routes_def inbound_request_def rest_request_def)
  obtain integ where integ: "inbound_auth sample_rest_lib ''int'' inbound_request rest_server = Inr integ"
    "int_Adapter integ = ''splunk''" "int_SettingsJSON integ = ''''" "int_TenantID integ = 1" "int_ChannelID integ = 3" "int_AccountID integ = 20"
    by (simp add: inbound_auth_def inbound_request_def bearer_def header_Get_def HasPrefix_def TrimPrefix_def TrimSpace_def is_space_def
      GetIntegrationByTokenHash_def scanIntegration_def scan_nullable_def rest_eval Let_def)
  have "length sample_alert \<le> MaxInboundBodyBytes" by code_simp
  then have body: "inbound_body sample_rest_lib inbound_request = Inr sample_alert"
    by (simp add: inbound_body_def inbound_request_def rest_request_def MaxInboundBodyBytes_def Let_def)
  have lk: "Lookup ''splunk'' init_registry = Inr Splunk"
    by (simp add: init_registry_def Lookup_Register Splunk_def Splunk_Name_def)
  obtain rt' where "PublishInbound rest_env 1 3 20 (sample_event 0) (rs_rt rest_server) = (None, rt')" using inbound_published by blast
  moreover have "rl_env sample_rest_lib = rest_env" "rl_adapter sample_rest_lib = sample_adapter_lib" "e_now rest_env 2 = 0"
    "rs_publisher rest_server" "rs_adapters rest_server = init_registry"
    by (simp_all add: sample_rest_lib_def rest_env_def chat_env_def rest_server_def)
  ultimately show ?thesis using rt integ body lk sample_normalized by (simp add: serve_def handleInbound_def)
qed

theorem inbound_goes_to_bound_channel_witness:
  "\<exists>row ev s'. row \<in> set (st_integs rest_store) \<and> event_ok (int_Adapter row) sample_alert ev \<and>
     PublishInbound rest_env (int_TenantID row) (int_ChannelID row) (int_AccountID row) ev (rs_rt rest_server) = (None, s')"
proof -
  obtain s' where s': "serve sample_rest_lib inbound_request rest_server = Some (s', writeHeader 202)" using inbound_accepted by blast
  have "routes inbound_request = Inr (RInbound ''int'')" by (simp add: routes_def inbound_request_def rest_request_def)
  moreover have "rs_adapters rest_server = init_registry" "sv_store (rs_rt rest_server) = rest_store" "rl_env sample_rest_lib = rest_env"
    "rq_Body inbound_request = sample_alert"
    by (simp_all add: rest_server_def sample_rest_lib_def inbound_request_def rest_request_def)
  moreover have "server_ok (rs_rt rest_server)"
    using server_ok_same [OF server_reachable_ok [OF chat_open_reachable]]
    by (simp add: rest_server_def chat_start_def server_ok_def reg_ok_NewRegistry hist_ok_def newHistoryWriter_def members_of_def Get_flat
      flat_NewRegistry)
  ultimately show ?thesis using inbound_goes_to_bound_channel [OF s', of "''int''"] by auto
qed



end
