(* ===== verification/Ha.thy ===== *)
theory Ha
  imports Prelude
begin

text \<open>
  Leader election (\<^verbatim>\<open>internal/ha/\<close>): the local elector and the Postgres one, which holds an advisory lock
  over a connection of its own. A context is a cell of a heap; cancelling one cancels its descendants with the same
  cause. Of Postgres the model has the sessions that are alive and the one session that holds the lock, with the
  number of times it took it (advisory locks are re-entrant). A \<^verbatim>\<open>*sql.Conn\<close> is a handle on a session that no
  other open handle has; closing it gives the session back to its pool and does not end it. The key of the lock is
  fixed.
\<close>

section \<open>Contexts\<close>

datatype cause = Canceled | ErrLockLost

record goctx =
  cx_ancestors :: "nat list"
  cx_err :: "cause option"

type_synonym contexts = "goctx list"

definition ctx_done :: "contexts \<Rightarrow> nat \<Rightarrow> bool" where
  "ctx_done H c \<longleftrightarrow> cx_err (H ! c) \<noteq> None"

text \<open>\<^verbatim>\<open>context.WithCancel\<close> and \<^verbatim>\<open>WithCancelCause\<close>: the new context is the next cell, born cancelled under a cancelled parent.\<close>

definition WithCancel :: "nat \<Rightarrow> contexts \<Rightarrow> contexts" where
  "WithCancel parent H = H @ [\<lparr>cx_ancestors = parent # cx_ancestors (H ! parent), cx_err = cx_err (H ! parent)\<rparr>]"

definition cancel_one :: "cause \<Rightarrow> nat \<Rightarrow> nat \<Rightarrow> goctx \<Rightarrow> goctx" where
  "cancel_one e c i x = (if cx_err x = None \<and> (i = c \<or> c \<in> set (cx_ancestors x)) then x\<lparr>cx_err := Some e\<rparr> else x)"

definition cancel_ctx :: "cause \<Rightarrow> nat \<Rightarrow> contexts \<Rightarrow> contexts" where
  "cancel_ctx e c H = map (\<lambda>(i, x). cancel_one e c i x) (zip [0..<length H] H)"

lemma length_contexts [simp]: "length (WithCancel p H) = Suc (length H)" "length (cancel_ctx e c H) = length H"
  by (simp_all add: WithCancel_def cancel_ctx_def)

lemma nth_cancel: "i < length H \<Longrightarrow> cancel_ctx e c H ! i = cancel_one e c i (H ! i)"
  by (simp add: cancel_ctx_def)

lemma done_cancel: "i < length H \<Longrightarrow> ctx_done (cancel_ctx e c H) i \<longleftrightarrow> ctx_done H i \<or> i = c \<or> c \<in> set (cx_ancestors (H ! i))"
  by (auto simp: ctx_done_def nth_cancel cancel_one_def)

lemma done_cancel_mono: "i < length H \<Longrightarrow> ctx_done H i \<Longrightarrow> ctx_done (cancel_ctx e c H) i"
  by (simp add: done_cancel)

lemma done_cancel_self: "c < length H \<Longrightarrow> ctx_done (cancel_ctx e c H) c"
  by (simp add: done_cancel)

lemma done_WithCancel:
  "i < length H \<Longrightarrow> ctx_done (WithCancel p H) i = ctx_done H i" "ctx_done (WithCancel p H) (length H) = ctx_done H p"
  by (simp_all add: WithCancel_def ctx_done_def nth_append)

lemma cancel_idem: "cancel_ctx e c (cancel_ctx e' c H) = cancel_ctx e' c H"
  by (intro nth_equalityI) (auto simp: nth_cancel cancel_one_def)

section \<open>The local elector\<close>

text \<open>\<open>lc_cancel\<close> is the cancel function: the contexts it cancels, or nil.\<close>

record Local =
  lc_cancel :: "nat list option"

definition NewLocal :: Local where
  "NewLocal = \<lparr>lc_cancel = None\<rparr>"

definition Local_Acquire :: "nat \<Rightarrow> Local \<times> contexts \<Rightarrow> (Local \<times> contexts) \<times> nat" where
  "Local_Acquire parent = (\<lambda>(l, H).
     case lc_cancel l of
       Some old \<Rightarrow> ((l\<lparr>lc_cancel := Some (old @ [length H])\<rparr>, WithCancel parent H), length H)
     | None \<Rightarrow> ((l\<lparr>lc_cancel := Some [length H]\<rparr>, WithCancel parent H), length H))"

definition Local_Release :: "Local \<times> contexts \<Rightarrow> Local \<times> contexts" where
  "Local_Release = (\<lambda>(l, H).
     case lc_cancel l of
       Some cs \<Rightarrow> (l\<lparr>lc_cancel := None\<rparr>, fold (cancel_ctx Canceled) cs H)
     | None \<Rightarrow> (l, H))"

section \<open>Postgres sessions and the advisory lock\<close>

record handle =
  hd_session :: nat
  hd_closed :: bool

record Elector =
  el_held :: "nat option"
  el_cancel :: "nat option"

text \<open>
  All processes together: \<open>hs_acq\<close> are the calls of \<^verbatim>\<open>Acquire\<close> that poll (process, parent context, handle) and
  \<open>hs_beats\<close> the heartbeat goroutines (process, parent context, leader context, handle).
\<close>

record ha_state =
  hs_ctx :: contexts
  hs_live :: "nat list"
  hs_owner :: "(nat \<times> nat) option"
  hs_handles :: "handle list"
  hs_el :: "nat \<Rightarrow> Elector"
  hs_acq :: "(nat \<times> nat \<times> nat) list"
  hs_beats :: "(nat \<times> nat \<times> nat \<times> nat) list"

definition NewPostgres :: Elector where
  "NewPostgres = \<lparr>el_held = None, el_cancel = None\<rparr>"

definition session_of :: "ha_state \<Rightarrow> nat \<Rightarrow> nat" where
  "session_of s h = hd_session (hs_handles s ! h)"

definition alive :: "ha_state \<Rightarrow> nat \<Rightarrow> bool" where
  "alive s h \<longleftrightarrow> \<not> hd_closed (hs_handles s ! h) \<and> session_of s h \<in> set (hs_live s)"

text \<open>\<^verbatim>\<open>pg_try_advisory_lock\<close>, \<^verbatim>\<open>pg_advisory_unlock\<close> and the end of a session.\<close>

definition try_advisory_lock :: "nat \<Rightarrow> (nat \<times> nat) option \<Rightarrow> (nat \<times> nat) option \<times> bool" where
  "try_advisory_lock q own = (case own of
       None \<Rightarrow> (Some (q, 1), True)
     | Some (o', n) \<Rightarrow> if o' = q then (Some (q, n + 1), True) else (own, False))"

definition advisory_unlock :: "nat \<Rightarrow> (nat \<times> nat) option \<Rightarrow> (nat \<times> nat) option" where
  "advisory_unlock q own = (case own of
       None \<Rightarrow> None
     | Some (o', n) \<Rightarrow> if o' = q then (if n \<le> 1 then None else Some (q, n - 1)) else own)"

definition end_session :: "nat \<Rightarrow> ha_state \<Rightarrow> ha_state" where
  "end_session q s = s\<lparr>hs_live := removeAll q (hs_live s),
     hs_owner := (case hs_owner s of Some (o', n) \<Rightarrow> if o' = q then None else Some (o', n) | None \<Rightarrow> None)\<rparr>"

definition close_handle :: "nat \<Rightarrow> ha_state \<Rightarrow> ha_state" where
  "close_handle h s = s\<lparr>hs_handles := (hs_handles s)[h := (hs_handles s ! h)\<lparr>hd_closed := True\<rparr>]\<rparr>"

section \<open>The Postgres elector\<close>

text \<open>\<^verbatim>\<open>Acquire\<close> up to its loop: a handle on the session \<open>q\<close> that the connection function returned.\<close>

definition Acquire_connect :: "nat \<Rightarrow> nat \<Rightarrow> nat \<Rightarrow> ha_state \<Rightarrow> ha_state" where
  "Acquire_connect i parent q s = s\<lparr>hs_live := List.insert q (hs_live s), hs_handles := hs_handles s @ [\<lparr>hd_session = q, hd_closed = False\<rparr>],
     hs_acq := (i, parent, length (hs_handles s)) # hs_acq s\<rparr>"

text \<open>The exits of the loop with an error: the parent is done or the query failed.\<close>

definition Acquire_fail :: "nat \<Rightarrow> nat \<Rightarrow> nat \<Rightarrow> ha_state \<Rightarrow> ha_state" where
  "Acquire_fail i parent h s = (close_handle h s)\<lparr>hs_acq := remove1 (i, parent, h) (hs_acq s)\<rparr>"

text \<open>One poll: the lock is taken, the leader context made and the heartbeat started, or nothing changes.\<close>

definition Acquire_poll :: "nat \<Rightarrow> nat \<Rightarrow> nat \<Rightarrow> ha_state \<Rightarrow> ha_state" where
  "Acquire_poll i parent h s =
     (let (own, got) = try_advisory_lock (session_of s h) (hs_owner s);
          c = length (hs_ctx s)
      in if \<not> got then s
         else s\<lparr>hs_owner := own, hs_ctx := WithCancel parent (hs_ctx s),
                hs_el := (hs_el s)(i := \<lparr>el_held = Some h, el_cancel = Some c\<rparr>),
                hs_acq := remove1 (i, parent, h) (hs_acq s), hs_beats := (i, parent, c, h) # hs_beats s\<rparr>)"

text \<open>\<^verbatim>\<open>Release\<close>; the unlock query reaches the session when \<open>query_ok\<close> and the handle is usable.\<close>

definition Release :: "bool \<Rightarrow> nat \<Rightarrow> ha_state \<Rightarrow> ha_state" where
  "Release query_ok i s =
     (let e = hs_el s i;
          s1 = s\<lparr>hs_el := (hs_el s)(i := \<lparr>el_held = None, el_cancel = None\<rparr>),
                 hs_ctx := (case el_cancel e of Some c \<Rightarrow> cancel_ctx ErrLockLost c (hs_ctx s) | None \<Rightarrow> hs_ctx s)\<rparr>
      in case el_held e of
           None \<Rightarrow> s1
         | Some h \<Rightarrow> close_handle h
             (if query_ok \<and> alive s h then s1\<lparr>hs_owner := advisory_unlock (session_of s h) (hs_owner s)\<rparr> else s1))"

definition beat_stop :: "nat \<times> nat \<times> nat \<times> nat \<Rightarrow> ha_state \<Rightarrow> ha_state" where
  "beat_stop b s = s\<lparr>hs_beats := remove1 b (hs_beats s)\<rparr>"

text \<open>The failed ping: the elector's current context is cancelled and the heartbeat ends; the handle stays open.\<close>

definition beat_fail :: "nat \<times> nat \<times> nat \<times> nat \<Rightarrow> ha_state \<Rightarrow> ha_state" where
  "beat_fail b s = beat_stop b (case el_cancel (hs_el s (fst b)) of
       Some c \<Rightarrow> s\<lparr>hs_ctx := cancel_ctx ErrLockLost c (hs_ctx s)\<rparr> | None \<Rightarrow> s)"

definition ha_init :: ha_state where
  "ha_init = \<lparr>hs_ctx = [], hs_live = [], hs_owner = None, hs_handles = [], hs_el = (\<lambda>_. NewPostgres), hs_acq = [], hs_beats = []\<rparr>"

definition in_use :: "ha_state \<Rightarrow> nat \<Rightarrow> bool" where
  "in_use s q \<longleftrightarrow> (\<exists>x \<in> set (hs_handles s). hd_session x = q \<and> \<not> hd_closed x)"

text \<open>
  The steps of all processes and of Postgres. The two ready cases of the heartbeat's select when its parent is
  cancelled, \<open>beat_led\<close> and \<open>beat_parent\<close>, are taken at random.
\<close>

inductive ha_step :: "ha_state \<Rightarrow> ha_state \<Rightarrow> bool" where
  root: "ha_step s (s\<lparr>hs_ctx := hs_ctx s @ [\<lparr>cx_ancestors = [], cx_err = None\<rparr>]\<rparr>)"
| cancel: "c < length (hs_ctx s) \<Longrightarrow> cx_ancestors (hs_ctx s ! c) = [] \<Longrightarrow> ha_step s (s\<lparr>hs_ctx := cancel_ctx Canceled c (hs_ctx s)\<rparr>)"
| connect: "parent < length (hs_ctx s) \<Longrightarrow> \<not> in_use s q \<Longrightarrow> ha_step s (Acquire_connect i parent q s)"
| gave_up: "(i, parent, h) \<in> set (hs_acq s) \<Longrightarrow> ha_step s (Acquire_fail i parent h s)"
| poll: "(i, parent, h) \<in> set (hs_acq s) \<Longrightarrow> \<not> ctx_done (hs_ctx s) parent \<Longrightarrow> alive s h \<Longrightarrow> ha_step s (Acquire_poll i parent h s)"
| beat_led: "b = (i, parent, c, h) \<Longrightarrow> b \<in> set (hs_beats s) \<Longrightarrow> ctx_done (hs_ctx s) c \<Longrightarrow> ha_step s (beat_stop b s)"
| beat_parent: "b = (i, parent, c, h) \<Longrightarrow> b \<in> set (hs_beats s) \<Longrightarrow> ctx_done (hs_ctx s) parent \<Longrightarrow> ha_step s (beat_stop b (Release ok i s))"
| beat_ping: "b \<in> set (hs_beats s) \<Longrightarrow> ha_step s (beat_fail b s)"
| release: "ha_step s (Release ok i s)"
| ended: "ha_step s (end_session q s)"

inductive ha_reachable :: "ha_state \<Rightarrow> bool" where
  start: "ha_reachable ha_init"
| run: "ha_reachable s \<Longrightarrow> ha_step s s' \<Longrightarrow> ha_reachable s'"

end
