(* ===== verification/Ha_Safety.thy ===== *)
theory Ha_Safety
  imports Ha
begin

text \<open>
  What leader election guarantees: the contract of an elector, interpreted on both implementations; the invariant
  of all processes with the lock server; that at most one process has a live lease; how long a process may believe
  in a lease that it has lost.
\<close>

section \<open>The invariant\<close>

definition open_handle :: "ha_state \<Rightarrow> nat \<Rightarrow> bool" where
  "open_handle s h \<longleftrightarrow> h < length (hs_handles s) \<and> \<not> hd_closed (hs_handles s ! h)"

definition polling :: "ha_state \<Rightarrow> nat set" where
  "polling s = (\<lambda>(i, p, h). h) ` set (hs_acq s)"

text \<open>Handles: open ones have sessions of their own, and each belongs to one poll or one elector.\<close>

definition handles_ok :: "ha_state \<Rightarrow> bool" where
  "handles_ok s \<longleftrightarrow>
     (\<forall>h h'. open_handle s h \<longrightarrow> open_handle s h' \<longrightarrow> session_of s h = session_of s h' \<longrightarrow> h = h') \<and>
     (\<forall>h \<in> polling s. open_handle s h) \<and> distinct (map (\<lambda>(i, p, h). h) (hs_acq s)) \<and>
     (\<forall>i h. el_held (hs_el s i) = Some h \<longrightarrow> open_handle s h \<and> h \<notin> polling s) \<and>
     (\<forall>i j h. el_held (hs_el s i) = Some h \<longrightarrow> el_held (hs_el s j) = Some h \<longrightarrow> i = j)"

text \<open>The lease: an elector whose session is alive is the owner of the lock.\<close>

definition lease_ok :: "ha_state \<Rightarrow> bool" where
  "lease_ok s \<longleftrightarrow> (\<forall>i h. el_held (hs_el s i) = Some h \<longrightarrow> session_of s h \<in> set (hs_live s) \<longrightarrow>
     (\<exists>n. hs_owner s = Some (session_of s h, n)))"

text \<open>The watch: a leader context that is not cancelled has a heartbeat on the elector's handle.\<close>

definition watch_ok :: "ha_state \<Rightarrow> bool" where
  "watch_ok s \<longleftrightarrow> (\<forall>i c. el_cancel (hs_el s i) = Some c \<longrightarrow> c < length (hs_ctx s) \<and>
     (\<exists>h. el_held (hs_el s i) = Some h \<and> (\<not> ctx_done (hs_ctx s) c \<longrightarrow> (\<exists>p. (i, p, c, h) \<in> set (hs_beats s)))))"

definition ha_ok :: "ha_state \<Rightarrow> bool" where
  "ha_ok s \<longleftrightarrow> handles_ok s \<and> lease_ok s \<and> watch_ok s"

lemma pollingI: "(i, p, h) \<in> set (hs_acq s) \<Longrightarrow> h \<in> polling s"
  by (force simp: polling_def)

lemma handles_okD:
  assumes "handles_ok s"
  shows "open_handle s h \<Longrightarrow> open_handle s h' \<Longrightarrow> session_of s h = session_of s h' \<Longrightarrow> h = h'"
    and "(i, p, h) \<in> set (hs_acq s) \<Longrightarrow> open_handle s h"
    and "el_held (hs_el s i) = Some h \<Longrightarrow> open_handle s h"
    and "el_held (hs_el s i) = Some h \<Longrightarrow> (j, p, h) \<notin> set (hs_acq s)"
    and "el_held (hs_el s i) = Some h \<Longrightarrow> el_held (hs_el s j) = Some h \<Longrightarrow> i = j"
    and "distinct (map (\<lambda>(i, p, h). h) (hs_acq s))"
  using assms pollingI [of _ _ h s] unfolding handles_ok_def by blast+

lemma lease_okD: "lease_ok s \<Longrightarrow> el_held (hs_el s i) = Some h \<Longrightarrow> session_of s h \<in> set (hs_live s) \<Longrightarrow>
    \<exists>n. hs_owner s = Some (session_of s h, n)"
  by (auto simp: lease_ok_def)

lemma watch_okD: "watch_ok s \<Longrightarrow> el_cancel (hs_el s i) = Some c \<Longrightarrow> c < length (hs_ctx s) \<and>
     (\<exists>h. el_held (hs_el s i) = Some h \<and> (\<not> ctx_done (hs_ctx s) c \<longrightarrow> (\<exists>p. (i, p, c, h) \<in> set (hs_beats s))))"
  by (auto simp: watch_ok_def)

section \<open>Every step keeps it\<close>

lemma ha_ok_init: "ha_ok ha_init"
  by (simp add: ha_ok_def handles_ok_def lease_ok_def watch_ok_def polling_def open_handle_def ha_init_def NewPostgres_def)

text \<open>Contexts only: cancelling may only finish them.\<close>

lemma ha_ok_contexts:
  assumes "ha_ok s" and "length (hs_ctx s) \<le> length H" and "\<And>c. c < length (hs_ctx s) \<Longrightarrow> ctx_done (hs_ctx s) c \<Longrightarrow> ctx_done H c"
  shows "ha_ok (s\<lparr>hs_ctx := H\<rparr>)"
proof -
  have "watch_ok (s\<lparr>hs_ctx := H\<rparr>)"
    using assms unfolding watch_ok_def ha_ok_def by simp (meson less_le_trans)
  then show ?thesis
    using assms(1) by (simp add: ha_ok_def handles_ok_def lease_ok_def open_handle_def polling_def session_of_def)
qed

lemma ha_ok_cancel: "ha_ok s \<Longrightarrow> ha_ok (s\<lparr>hs_ctx := cancel_ctx e c (hs_ctx s)\<rparr>)"
  by (rule ha_ok_contexts) (auto simp: done_cancel)

lemma ha_ok_connect:
  assumes "ha_ok s" and "\<not> in_use s q"
  shows "ha_ok (Acquire_connect i p q s)"
proof -
  let ?s = "Acquire_connect i p q s" and ?n = "length (hs_handles s)"
  have hs: "handles_ok s" and l: "lease_ok s" and w: "watch_ok s" using assms(1) by (auto simp: ha_ok_def)
  have old: "open_handle ?s h = open_handle s h" "session_of ?s h = session_of s h" if "h < ?n" for h
    using that by (auto simp: open_handle_def session_of_def Acquire_connect_def nth_append)
  have new: "open_handle ?s ?n" "session_of ?s ?n = q" by (auto simp: open_handle_def session_of_def Acquire_connect_def)
  have bound: "open_handle ?s h \<Longrightarrow> h < ?n \<or> h = ?n" for h by (auto simp: open_handle_def Acquire_connect_def)
  have lt: "open_handle s h \<Longrightarrow> h < ?n" for h by (simp add: open_handle_def)
  have fresh: "open_handle s h \<Longrightarrow> session_of s h \<noteq> q" for h
    using assms(2) nth_mem by (fastforce simp: in_use_def open_handle_def session_of_def)
  have el: "hs_el ?s = hs_el s" "hs_acq ?s = (i, p, ?n) # hs_acq s" "hs_owner ?s = hs_owner s" "hs_ctx ?s = hs_ctx s"
    "hs_beats ?s = hs_beats s" "set (hs_live ?s) = insert q (set (hs_live s))"
    by (simp_all add: Acquire_connect_def)
  have pol: "polling ?s = insert ?n (polling s)" by (simp add: polling_def el)
  have below: "k < ?n \<and> open_handle s k" if "k \<in> polling s" for k
    using that hs lt by (auto simp: handles_ok_def)
  have sep: "h = h'" if "open_handle ?s h" "open_handle ?s h'" "session_of ?s h = session_of ?s h'" for h h'
    using bound [OF that(1)] bound [OF that(2)] that(3) old new(2) fresh handles_okD(1) [OF hs, of h h'] that(1,2) by metis
  have held: "open_handle ?s h \<and> h \<notin> polling ?s" if "el_held (hs_el s j) = Some h" for j h
    using that hs lt [of h] old(1) [of h] unfolding handles_ok_def pol by blast
  have "?n \<notin> set (map (\<lambda>(i, p, h). h) (hs_acq s))" using below by (force simp: polling_def)
  then have dis: "distinct (map (\<lambda>(i, p, h). h) (hs_acq ?s))" using handles_okD(6) [OF hs] by (simp add: el)
  have "handles_ok ?s"
    unfolding handles_ok_def
    using sep dis held below old(1) new(1) handles_okD(5) [OF hs] by (auto simp: pol el(1))
  moreover have "lease_ok ?s"
    unfolding lease_ok_def el using lease_okD [OF l] handles_okD(3) [OF hs] lt old fresh by fastforce
  moreover have "watch_ok ?s" using w by (simp add: watch_ok_def el)
  ultimately show ?thesis by (simp add: ha_ok_def)
qed


lemma close_handle_simps [simp]:
  "hs_el (close_handle h s) = hs_el s" "hs_acq (close_handle h s) = hs_acq s" "hs_owner (close_handle h s) = hs_owner s"
  "hs_ctx (close_handle h s) = hs_ctx s" "hs_beats (close_handle h s) = hs_beats s" "hs_live (close_handle h s) = hs_live s"
  by (simp_all add: close_handle_def)

lemma nth_update: "xs[h := y] ! k = (if h = k \<and> k < length xs then y else xs ! k)"
  by (induction xs arbitrary: h k) (auto simp: nth_Cons split: nat.split)

lemma open_close: "open_handle (close_handle h s) k \<longleftrightarrow> open_handle s k \<and> k \<noteq> h"
  by (auto simp: open_handle_def close_handle_def nth_update)

lemma session_close [simp]: "session_of (close_handle h s) k = session_of s k"
  by (simp add: session_of_def close_handle_def nth_update)

lemma acq_handle_unique:
  assumes "distinct (map (\<lambda>(i, p, h). h) acq)" and "(i, p, h) \<in> set acq"
  shows "(j, q, h) \<notin> set (remove1 (i, p, h) acq)" and "distinct (map (\<lambda>(i, p, h). h) (remove1 (i, p, h) acq))"
proof -
  have d: "distinct acq" "inj_on (\<lambda>(i, p, h). h) (set acq)" using assms(1) by (auto simp: distinct_map)
  then have set: "set (remove1 (i, p, h) acq) = set acq - {(i, p, h)}" by simp
  show "(j, q, h) \<notin> set (remove1 (i, p, h) acq)"
    using inj_onD [OF d(2), of "(j, q, h)" "(i, p, h)"] assms(2) by (auto simp: set)
  show "distinct (map (\<lambda>(i, p, h). h) (remove1 (i, p, h) acq))"
    using d inj_on_subset [OF d(2), of "set acq - {(i, p, h)}"] by (auto simp: distinct_map distinct_remove1)
qed

lemma ha_ok_fail:
  assumes "ha_ok s" and "(i, p, h) \<in> set (hs_acq s)"
  shows "ha_ok (Acquire_fail i p h s)"
proof -
  let ?s = "Acquire_fail i p h s"
  have hs: "handles_ok s" and l: "lease_ok s" and w: "watch_ok s" using assms(1) by (auto simp: ha_ok_def)
  have opn: "open_handle ?s k \<longleftrightarrow> open_handle s k \<and> k \<noteq> h" and ses: "session_of ?s k = session_of s k" for k
    using open_close [of h s k] session_close [of h s k] by (auto simp: Acquire_fail_def open_handle_def session_of_def)
  have el: "hs_el ?s = hs_el s" "hs_acq ?s = remove1 (i, p, h) (hs_acq s)" "hs_owner ?s = hs_owner s" "hs_ctx ?s = hs_ctx s"
    "hs_beats ?s = hs_beats s" "hs_live ?s = hs_live s" by (simp_all add: Acquire_fail_def)
  have pol: "k \<noteq> h \<and> k \<in> polling s" if "k \<in> polling ?s" for k
  proof -
    obtain j q where "(j, q, k) \<in> set (remove1 (i, p, h) (hs_acq s))" using \<open>k \<in> polling ?s\<close> by (auto simp: polling_def el)
    then show ?thesis
      using acq_handle_unique(1) [OF handles_okD(6) [OF hs] assms(2)] pollingI [of j q k s]
        set_remove1_subset [of "(i, p, h)" "hs_acq s"] by blast
  qed
  have held: "k \<noteq> h" if "el_held (hs_el s j) = Some k" for j k
    using handles_okD(4) [OF hs that] assms(2) by blast
  have dis: "distinct (map (\<lambda>(i, p, h). h) (hs_acq ?s))"
    using acq_handle_unique(2) [OF handles_okD(6) [OF hs] assms(2)] by (simp add: el)
  have "handles_ok ?s"
    unfolding handles_ok_def opn ses el(1)
    using handles_okD(1) [OF hs] handles_okD(5) [OF hs] hs pol held dis unfolding handles_ok_def by (intro conjI) blast+
  moreover have "lease_ok ?s" using l by (simp add: lease_ok_def el ses)
  moreover have "watch_ok ?s" using w by (simp add: watch_ok_def el)
  ultimately show ?thesis by (simp add: ha_ok_def)
qed


lemma try_lock_got:
  assumes "try_advisory_lock q own = (own', True)"
  shows "(\<exists>n. own' = Some (q, n)) \<and> (own = None \<or> (\<exists>n. own = Some (q, n)))"
  using assms by (auto simp: try_advisory_lock_def split: option.split_asm if_split_asm)

lemma ha_ok_poll:
  assumes "ha_ok s" and "(i, p, h) \<in> set (hs_acq s)" and "alive s h"
  shows "ha_ok (Acquire_poll i p h s)"
proof (cases "snd (try_advisory_lock (session_of s h) (hs_owner s))")
  case False
  then show ?thesis using assms(1) by (simp add: Acquire_poll_def case_prod_beta Let_def)
next
  case True
  let ?s = "Acquire_poll i p h s" and ?c = "length (hs_ctx s)"
  obtain own where own: "try_advisory_lock (session_of s h) (hs_owner s) = (own, True)"
    using True by (metis prod.collapse)
  have hs: "handles_ok s" and l: "lease_ok s" and w: "watch_ok s" using assms(1) by (auto simp: ha_ok_def)
  have el: "hs_el ?s = (hs_el s)(i := \<lparr>el_held = Some h, el_cancel = Some ?c\<rparr>)" "hs_acq ?s = remove1 (i, p, h) (hs_acq s)"
    "hs_owner ?s = own" "hs_ctx ?s = WithCancel p (hs_ctx s)" "hs_beats ?s = (i, p, ?c, h) # hs_beats s"
    "hs_live ?s = hs_live s" "hs_handles ?s = hs_handles s"
    by (simp_all add: Acquire_poll_def own Let_def)
  have opn: "open_handle ?s k = open_handle s k" and ses: "session_of ?s k = session_of s k" for k
    by (simp_all add: open_handle_def session_of_def el)
  have free: "h \<notin> polling ?s"
    using acq_handle_unique(1) [OF handles_okD(6) [OF hs] assms(2)] by (auto simp: polling_def el)
  have sub: "polling ?s \<subseteq> polling s"
    unfolding polling_def el by (intro image_mono set_remove1_subset)
  have other: "k \<noteq> h \<and> open_handle s k \<and> k \<notin> polling s" if "el_held (hs_el s j) = Some k" for j k
    using that handles_okD(4) [OF hs that] assms(2) hs unfolding handles_ok_def by blast
  have "handles_ok ?s"
    unfolding handles_ok_def opn ses
    using hs free sub other handles_okD(2) [OF hs assms(2)] acq_handle_unique(2) [OF handles_okD(6) [OF hs] assms(2)]
    by (auto simp: el handles_ok_def)
  moreover have "lease_ok ?s"
    unfolding lease_ok_def ses el
  proof (intro allI impI)
    fix j k assume held: "el_held (((hs_el s)(i := \<lparr>el_held = Some h, el_cancel = Some ?c\<rparr>)) j) = Some k"
      and live: "session_of s k \<in> set (hs_live s)"
    show "\<exists>n. own = Some (session_of s k, n)"
    proof (cases "j = i")
      case True
      with held try_lock_got [OF own] show ?thesis by simp
    next
      case False
      with held have k: "el_held (hs_el s j) = Some k" by simp
      from lease_okD [OF l k live] try_lock_got [OF own] have "session_of s k = session_of s h" by auto
      with handles_okD(1) [OF hs] other [OF k] handles_okD(2) [OF hs assms(2)] show ?thesis by blast
    qed
  qed
  moreover have "watch_ok ?s"
    using w unfolding watch_ok_def el
    by (auto simp: done_WithCancel less_Suc_eq split: if_split_asm)
  ultimately show ?thesis by (simp add: ha_ok_def)
qed

lemma ha_ok_stop:
  assumes "ha_ok s"
    and "\<And>c. el_cancel (hs_el s (fst b)) = Some c \<Longrightarrow> fst (snd (snd b)) = c \<Longrightarrow> ctx_done (hs_ctx s) c"
  shows "ha_ok (beat_stop b s)"
proof -
  have el: "hs_el (beat_stop b s) = hs_el s" "hs_ctx (beat_stop b s) = hs_ctx s" "hs_beats (beat_stop b s) = remove1 b (hs_beats s)"
    by (simp_all add: beat_stop_def)
  have "(i, p, c, h) \<in> set (remove1 b (hs_beats s))"
    if "el_cancel (hs_el s i) = Some c" "\<not> ctx_done (hs_ctx s) c" "(i, p, c, h) \<in> set (hs_beats s)" for i p c h
  proof -
    have "(i, p, c, h) \<noteq> b" using that(1,2) assms(2) [of c] by auto
    with that(3) show ?thesis by simp
  qed
  then have "watch_ok (beat_stop b s)"
    using assms(1) unfolding watch_ok_def ha_ok_def el by meson
  then show ?thesis using assms(1)
    by (simp add: ha_ok_def handles_ok_def lease_ok_def open_handle_def polling_def session_of_def beat_stop_def)
qed

lemma ha_ok_beat_fail: "ha_ok s \<Longrightarrow> ha_ok (beat_fail b s)"
proof (cases "el_cancel (hs_el s (fst b))")
  case None
  assume "ha_ok s"
  with None show ?thesis unfolding beat_fail_def by (intro ha_ok_stop) auto
next
  case (Some c)
  assume ok: "ha_ok s"
  have "c < length (hs_ctx s)" using watch_okD [OF _ Some] ok by (auto simp: ha_ok_def)
  with Some ok show ?thesis
    unfolding beat_fail_def by (intro ha_ok_stop) (auto simp: done_cancel_self intro!: ha_ok_cancel)
qed

lemma ha_ok_end: "ha_ok s \<Longrightarrow> ha_ok (end_session q s)"
proof -
  assume ok: "ha_ok s"
  have "lease_ok (end_session q s)"
    using ok unfolding ha_ok_def lease_ok_def
    by (auto simp: end_session_def session_of_def split: option.split if_split)
  then show ?thesis using ok
    by (simp add: ha_ok_def handles_ok_def watch_ok_def open_handle_def polling_def session_of_def end_session_def)
qed

lemma unlock_other: "q \<noteq> q' \<Longrightarrow> own = Some (q', n) \<Longrightarrow> advisory_unlock q own = own"
  by (simp add: advisory_unlock_def)

lemma ha_ok_release:
  assumes "ha_ok s"
  shows "ha_ok (Release ok i s)"
proof -
  let ?s = "Release ok i s"
  have hs: "handles_ok s" and l: "lease_ok s" and w: "watch_ok s" using assms by (auto simp: ha_ok_def)
  have el: "hs_el ?s = (hs_el s)(i := \<lparr>el_held = None, el_cancel = None\<rparr>)" "hs_acq ?s = hs_acq s" "hs_beats ?s = hs_beats s"
    "hs_live ?s = hs_live s"
    and ctx: "hs_ctx ?s = (case el_cancel (hs_el s i) of Some c \<Rightarrow> cancel_ctx ErrLockLost c (hs_ctx s) | None \<Rightarrow> hs_ctx s)"
    by (simp_all add: Release_def Let_def split: option.split)
  have hnd: "hs_handles ?s = (case el_held (hs_el s i) of None \<Rightarrow> hs_handles s | Some h \<Rightarrow> hs_handles (close_handle h s))"
    by (simp add: Release_def Let_def close_handle_def split: option.split)
  have opn: "open_handle ?s k \<longleftrightarrow> open_handle s k \<and> el_held (hs_el s i) \<noteq> Some k" and ses: "session_of ?s k = session_of s k" for k
    using open_close [of _ s k] session_close [of _ s k] by (auto simp: open_handle_def session_of_def hnd split: option.split)
  have pol: "polling ?s = polling s" by (simp add: polling_def el)
  have "handles_ok ?s"
    using hs unfolding handles_ok_def opn ses pol el by (auto split: if_split_asm)
  moreover have "lease_ok ?s"
    unfolding lease_ok_def ses el
  proof (intro allI impI)
    fix j k assume held: "el_held (((hs_el s)(i := \<lparr>el_held = None, el_cancel = None\<rparr>)) j) = Some k"
      and live: "session_of s k \<in> set (hs_live s)"
    then have j: "j \<noteq> i" and k: "el_held (hs_el s j) = Some k" by (auto split: if_split_asm)
    from lease_okD [OF l k live] obtain n where own: "hs_owner s = Some (session_of s k, n)" by blast
    have "session_of s h \<noteq> session_of s k" if "el_held (hs_el s i) = Some h" for h
      using handles_okD(1) [OF hs handles_okD(3) [OF hs that] handles_okD(3) [OF hs k]] handles_okD(5) [OF hs that] k j by blast
    then show "\<exists>n. hs_owner ?s = Some (session_of s k, n)"
      using own unlock_other [of _ "session_of s k" "hs_owner s" n] by (auto simp: Release_def Let_def split: option.split)
  qed
  moreover have "watch_ok ?s"
    unfolding watch_ok_def el
  proof (intro allI impI)
    fix j c assume "el_cancel (((hs_el s)(i := \<lparr>el_held = None, el_cancel = None\<rparr>)) j) = Some c"
    then have j: "j \<noteq> i" and c: "el_cancel (hs_el s j) = Some c" by (auto split: if_split_asm)
    have "c < length (hs_ctx s) \<Longrightarrow> ctx_done (hs_ctx s) c \<Longrightarrow> ctx_done (hs_ctx ?s) c" "length (hs_ctx ?s) = length (hs_ctx s)"
      by (auto simp: ctx done_cancel split: option.split)
    with watch_okD [OF w c] j show "c < length (hs_ctx ?s) \<and>
        (\<exists>h. el_held (((hs_el s)(i := \<lparr>el_held = None, el_cancel = None\<rparr>)) j) = Some h \<and>
          (\<not> ctx_done (hs_ctx ?s) c \<longrightarrow> (\<exists>p. (j, p, c, h) \<in> set (hs_beats s))))"
      by auto
  qed
  ultimately show ?thesis by (simp add: ha_ok_def)
qed

lemma release_clears [simp]: "hs_el (Release ok i s) i = \<lparr>el_held = None, el_cancel = None\<rparr>"
  by (simp add: Release_def Let_def split: option.split)

lemma ha_step_ok: "ha_step s s' \<Longrightarrow> ha_ok s \<Longrightarrow> ha_ok s'"
proof (induction rule: ha_step.induct)
  case (root s)
  then show ?case by (intro ha_ok_contexts) (auto simp: ctx_done_def nth_append)
next
  case (beat_led b i parent c h s)
  then show ?case by (intro ha_ok_stop) auto
next
  case (beat_parent b i parent c h s ok)
  then show ?case by (intro ha_ok_stop ha_ok_release) auto
qed (auto intro: ha_ok_cancel ha_ok_connect ha_ok_fail ha_ok_poll ha_ok_beat_fail ha_ok_release ha_ok_end)

lemma ha_reachable_ok: "ha_reachable s \<Longrightarrow> ha_ok s"
  by (induction rule: ha_reachable.induct) (auto intro: ha_ok_init ha_step_ok)


section \<open>The contract of an elector\<close>

text \<open>
  \<open>handed s\<close> are the leader contexts the elector can still cancel. Releasing cancels them all, revives nothing, and
  leaves nothing to release.
\<close>

locale elector =
  fixes valid :: "'s \<Rightarrow> bool" and handed :: "'s \<Rightarrow> nat set" and ctxs :: "'s \<Rightarrow> contexts" and release :: "'s \<Rightarrow> 's"
  assumes release_done: "valid s \<Longrightarrow> c \<in> handed s \<Longrightarrow> ctx_done (ctxs (release s)) c"
    and release_keeps: "valid s \<Longrightarrow> c < length (ctxs s) \<Longrightarrow> ctx_done (ctxs s) c \<Longrightarrow> ctx_done (ctxs (release s)) c"
    and release_empty: "handed (release s) = {}"
    and release_again: "release (release s) = release s"
begin

lemma release_many: "(release ^^ Suc n) s = release s"
  by (induction n) (simp_all add: release_again)

lemma released:
  assumes "valid s" and "c \<in> handed s"
  shows "ctx_done (ctxs ((release ^^ Suc n) s)) c \<and> handed ((release ^^ Suc n) s) = {}"
  unfolding release_many using release_done [OF assms] release_empty by simp

end

lemma done_fold_cancel:
  "i < length H \<Longrightarrow> ctx_done (fold (cancel_ctx e) cs H) i \<longleftrightarrow> ctx_done H i \<or> (\<exists>c \<in> set cs. i = c \<or> c \<in> set (cx_ancestors (H ! i)))"
proof (induction cs arbitrary: H)
  case (Cons c cs)
  have "cx_ancestors (cancel_ctx e c H ! i) = cx_ancestors (H ! i)" using Cons.prems by (simp add: nth_cancel cancel_one_def)
  with Cons show ?case by (auto simp: done_cancel)
qed simp

definition local_ok :: "Local \<times> contexts \<Rightarrow> bool" where
  "local_ok lh \<longleftrightarrow> (\<forall>c \<in> set (case_option [] id (lc_cancel (fst lh))). c < length (snd lh))"

interpretation local: elector local_ok "\<lambda>lh. set (case_option [] id (lc_cancel (fst lh)))" snd Local_Release
  by unfold_locales (auto simp: Local_Release_def local_ok_def done_fold_cancel split: option.split_asm option.split prod.split)

interpretation pg: elector ha_ok "\<lambda>s. set_option (el_cancel (hs_el s i))" hs_ctx "Release ok i"
proof
  fix s :: ha_state and c
  assume "ha_ok s" and "c \<in> set_option (el_cancel (hs_el s i))"
  then show "ctx_done (hs_ctx (Release ok i s)) c"
    using watch_okD [of s i c] by (auto simp: ha_ok_def Release_def Let_def done_cancel_self split: option.split)
next
  fix s :: ha_state and c
  assume "c < length (hs_ctx s)" and "ctx_done (hs_ctx s) c"
  then show "ctx_done (hs_ctx (Release ok i s)) c"
    by (auto simp: Release_def Let_def done_cancel_mono split: option.split)
next
  fix s :: ha_state
  show "set_option (el_cancel (hs_el (Release ok i s) i)) = {}" by simp
  show "Release ok i (Release ok i s) = Release ok i s"
    by (subst (1) Release_def) (simp add: Let_def fun_upd_idem)
qed

section \<open>Properties\<close>

definition led :: "ha_state \<Rightarrow> nat \<Rightarrow> bool" where
  "led s i \<longleftrightarrow> (\<exists>c. el_cancel (hs_el s i) = Some c \<and> \<not> ctx_done (hs_ctx s) c)"

text \<open>
  Property C14. At most one lease is alive: whatever the processes, the network and Postgres do, no two processes
  ever hold connections to the lock that are both alive.
\<close>

theorem leases_exclusive:
  assumes "ha_reachable s" and "i \<noteq> j" and "el_held (hs_el s i) = Some h" and "el_held (hs_el s j) = Some k"
  shows "\<not> (alive s h \<and> alive s k)"
proof
  assume both: "alive s h \<and> alive s k"
  have hs: "handles_ok s" and l: "lease_ok s" using ha_reachable_ok [OF assms(1)] by (auto simp: ha_ok_def)
  from lease_okD [OF l assms(3)] lease_okD [OF l assms(4)] both have "session_of s h = session_of s k"
    by (auto simp: alive_def)
  then have "h = k" using handles_okD(1) [OF hs handles_okD(3) [OF hs assms(3)] handles_okD(3) [OF hs assms(4)]] by simp
  then show False using handles_okD(5) [OF hs assms(3)] assms(2,4) by blast
qed

text \<open>A run: process 0 leads, its session ends, process 1 takes over.\<close>

definition takeover :: ha_state where
  "takeover = Acquire_poll 1 0 1 (Acquire_connect 1 0 1 (end_session 0 (Acquire_poll 0 0 0 (Acquire_connect 0 0 0
     (ha_init\<lparr>hs_ctx := [\<lparr>cx_ancestors = [], cx_err = None\<rparr>]\<rparr>)))))"

lemmas ha_eval = Acquire_connect_def Acquire_poll_def end_session_def try_advisory_lock_def session_of_def alive_def in_use_def
  ctx_done_def WithCancel_def ha_init_def NewPostgres_def Let_def beat_stop_def cancel_ctx_def cancel_one_def

lemma takeover_reachable: "ha_reachable takeover"
proof -
  have "ha_reachable (ha_init\<lparr>hs_ctx := hs_ctx ha_init @ [\<lparr>cx_ancestors = [], cx_err = None\<rparr>]\<rparr>)"
    by (intro ha_reachable.run [OF ha_reachable.start] ha_step.root)
  then have "ha_reachable (ha_init\<lparr>hs_ctx := [\<lparr>cx_ancestors = [], cx_err = None\<rparr>]\<rparr>)" by (simp add: ha_init_def)
  then have "ha_reachable (Acquire_connect 0 0 0 (ha_init\<lparr>hs_ctx := [\<lparr>cx_ancestors = [], cx_err = None\<rparr>]\<rparr>))"
    by (rule ha_reachable.run [OF _ ha_step.connect]) (simp_all add: ha_eval)
  then have "ha_reachable (Acquire_poll 0 0 0 (Acquire_connect 0 0 0 (ha_init\<lparr>hs_ctx := [\<lparr>cx_ancestors = [], cx_err = None\<rparr>]\<rparr>)))"
    by (rule ha_reachable.run [OF _ ha_step.poll]) (simp_all add: ha_eval)
  then have "ha_reachable (end_session 0 (Acquire_poll 0 0 0 (Acquire_connect 0 0 0 (ha_init\<lparr>hs_ctx := [\<lparr>cx_ancestors = [], cx_err = None\<rparr>]\<rparr>))))"
    by (rule ha_reachable.run [OF _ ha_step.ended])
  then have "ha_reachable (Acquire_connect 1 0 1 (end_session 0 (Acquire_poll 0 0 0 (Acquire_connect 0 0 0 (ha_init\<lparr>hs_ctx := [\<lparr>cx_ancestors = [], cx_err = None\<rparr>]\<rparr>)))))"
    by (rule ha_reachable.run [OF _ ha_step.connect]) (simp_all add: ha_eval)
  then show ?thesis
    unfolding takeover_def by (rule ha_reachable.run [OF _ ha_step.poll]) (simp_all add: ha_eval)
qed

theorem leases_exclusive_witness:
  "el_held (hs_el takeover 0) = Some 0 \<and> el_held (hs_el takeover 1) = Some 1 \<and> \<not> (alive takeover 0 \<and> alive takeover 1)"
proof -
  have "el_held (hs_el takeover 0) = Some 0" and "el_held (hs_el takeover 1) = Some 1" by (simp_all add: takeover_def ha_eval)
  with leases_exclusive [OF takeover_reachable, of 0 1] show ?thesis by simp
qed

text \<open>
  Property C39. A process that has lost its lease finds out at its next heartbeat: as long as a leader context is not
  cancelled there is a heartbeat goroutine of that process on the very connection that carries the lease, and a ping
  that fails there cancels the context, with the cause \<^verbatim>\<open>ErrLockLost\<close>.
\<close>

theorem lost_lease_is_noticed:
  assumes "ha_reachable s" and "el_cancel (hs_el s i) = Some c" and "\<not> ctx_done (hs_ctx s) c"
  shows "\<exists>h p. el_held (hs_el s i) = Some h \<and> (i, p, c, h) \<in> set (hs_beats s) \<and>
    cx_err (hs_ctx (beat_fail (i, p, c, h) s) ! c) = Some ErrLockLost"
proof -
  have w: "watch_ok s" using ha_reachable_ok [OF assms(1)] by (simp add: ha_ok_def)
  from watch_okD [OF w assms(2)] assms(3) obtain h p where "c < length (hs_ctx s)" "el_held (hs_el s i) = Some h" "(i, p, c, h) \<in> set (hs_beats s)"
    by blast
  with assms(2,3) show ?thesis
    by (intro exI [of _ h] exI [of _ p]) (auto simp: beat_fail_def beat_stop_def nth_cancel cancel_one_def ctx_done_def)
qed

theorem lost_lease_is_noticed_witness:
  "\<exists>h p. el_held (hs_el takeover 0) = Some h \<and> \<not> alive takeover h \<and> (0, p, 1, h) \<in> set (hs_beats takeover)"
proof -
  have c: "el_cancel (hs_el takeover 0) = Some 1" "\<not> ctx_done (hs_ctx takeover) 1" by (simp_all add: takeover_def ha_eval)
  have "el_held (hs_el takeover 0) = Some 0" "\<not> alive takeover 0" by (simp_all add: takeover_def ha_eval)
  with lost_lease_is_noticed [OF takeover_reachable c] show ?thesis by auto
qed

text \<open>
  Until that heartbeat two processes can both believe that they lead: there is a run in which the leader
  contexts of two processes are alive at the same time, so that a live context does not mean, as the interface says,
  that this process is the leader.
\<close>

theorem two_leaders_possible: "\<exists>s. ha_reachable s \<and> led s 0 \<and> led s 1"
proof -
  have "led takeover 0" "led takeover 1" by (simp_all add: led_def takeover_def ha_eval)
  with takeover_reachable show ?thesis by blast
qed


text \<open>
  A clean hand-over: when a process that holds a live lease, taken once, releases it and the unlock query
  reaches Postgres, its leader context is cancelled at once, releasing again changes nothing more, the lock is free,
  and whoever polls next over a live connection becomes the leader with a live context.
\<close>

theorem release_hands_over:
  assumes "ha_reachable s" and "el_held (hs_el s i) = Some h" and "el_cancel (hs_el s i) = Some c" and "alive s h"
    and "hs_owner s = Some (session_of s h, 1)"
    and "(j, p, k) \<in> set (hs_acq s)" and "alive s k" and "\<not> ctx_done (hs_ctx (Release True i s)) p"
  shows "ctx_done (hs_ctx (Release True i s)) c \<and> Release True i (Release True i s) = Release True i s \<and>
    hs_owner (Release True i s) = None \<and>
    el_held (hs_el (Acquire_poll j p k (Release True i s)) j) = Some k \<and> led (Acquire_poll j p k (Release True i s)) j"
proof -
  have ok: "ha_ok s" by (rule ha_reachable_ok [OF assms(1)])
  have "hs_owner (Release True i s) = None"
    using assms(2,4,5) by (simp add: Release_def Let_def advisory_unlock_def)
  moreover from this have "el_held (hs_el (Acquire_poll j p k (Release True i s)) j) = Some k"
    "el_cancel (hs_el (Acquire_poll j p k (Release True i s)) j) = Some (length (hs_ctx (Release True i s)))"
    "hs_ctx (Acquire_poll j p k (Release True i s)) = WithCancel p (hs_ctx (Release True i s))"
    by (simp_all add: Acquire_poll_def try_advisory_lock_def Let_def)
  moreover have "ctx_done (hs_ctx (Release True i s)) c" using pg.release_done [OF ok, of c i True] assms(3) by simp
  ultimately show ?thesis
    using pg.release_again assms(8) by (auto simp: led_def done_WithCancel)
qed

text \<open>Process 0 leads with a context of its own while process 1, under another one, polls.\<close>

definition standby :: ha_state where
  "standby = Acquire_connect 1 1 1 (Acquire_poll 0 0 0 (Acquire_connect 0 0 0
     (ha_init\<lparr>hs_ctx := [\<lparr>cx_ancestors = [], cx_err = None\<rparr>, \<lparr>cx_ancestors = [], cx_err = None\<rparr>]\<rparr>)))"

lemma standby_reachable: "ha_reachable standby"
proof -
  let ?r = "\<lparr>cx_ancestors = [], cx_err = None\<rparr>"
  have "ha_reachable (ha_init\<lparr>hs_ctx := hs_ctx ha_init @ [?r]\<rparr>)"
    by (intro ha_reachable.run [OF ha_reachable.start] ha_step.root)
  then have "ha_reachable ((ha_init\<lparr>hs_ctx := hs_ctx ha_init @ [?r]\<rparr>)\<lparr>hs_ctx := hs_ctx (ha_init\<lparr>hs_ctx := hs_ctx ha_init @ [?r]\<rparr>) @ [?r]\<rparr>)"
    by (rule ha_reachable.run [OF _ ha_step.root])
  then have "ha_reachable (ha_init\<lparr>hs_ctx := [?r, ?r]\<rparr>)" by (simp add: ha_init_def)
  then have "ha_reachable (Acquire_connect 0 0 0 (ha_init\<lparr>hs_ctx := [?r, ?r]\<rparr>))"
    by (rule ha_reachable.run [OF _ ha_step.connect]) (simp_all add: ha_eval)
  then have "ha_reachable (Acquire_poll 0 0 0 (Acquire_connect 0 0 0 (ha_init\<lparr>hs_ctx := [?r, ?r]\<rparr>)))"
    by (rule ha_reachable.run [OF _ ha_step.poll]) (simp_all add: ha_eval)
  then show ?thesis
    unfolding standby_def by (rule ha_reachable.run [OF _ ha_step.connect]) (simp_all add: ha_eval)
qed

theorem release_hands_over_witness:
  "led (Acquire_poll 1 1 1 (Release True 0 standby)) 1 \<and> ctx_done (hs_ctx (Release True 0 standby)) 2"
proof -
  have "\<not> ctx_done (hs_ctx (Release True 0 standby)) 1"
    by (simp add: standby_def Release_def close_handle_def ha_eval)
  moreover have "el_held (hs_el standby 0) = Some 0" "el_cancel (hs_el standby 0) = Some 2" "alive standby 0"
    "hs_owner standby = Some (session_of standby 0, 1)" "(1, 1, 1) \<in> set (hs_acq standby)" "alive standby 1"
    by (simp_all add: standby_def ha_eval)
  ultimately show ?thesis using release_hands_over [OF standby_reachable, of 0 0 2 1 1 1] by blast
qed

text \<open>
  Cancelling the parent context need not give the lock up: both of the heartbeat's cases are ready then,
  and in the run that takes the leader's case the goroutine ends without \<^verbatim>\<open>Release\<close>, so that the session keeps the
  lock and a standby with a live connection polls in vain.
\<close>

theorem shutdown_may_keep_lock:
  "\<exists>s. ha_reachable s \<and> ctx_done (hs_ctx s) 0 \<and> hs_beats s = [] \<and> hs_owner s = Some (0, 1) \<and> alive s 0 \<and>
       (1, 1, 1) \<in> set (hs_acq s) \<and> alive s 1 \<and> Acquire_poll 1 1 1 s = s"
proof -
  let ?s = "standby\<lparr>hs_ctx := cancel_ctx Canceled 0 (hs_ctx standby)\<rparr>" and ?b = "(0, 0, 2, 0)"
  have "ha_reachable ?s"
    by (rule ha_reachable.run [OF standby_reachable ha_step.cancel]) (simp_all add: standby_def ha_eval)
  then have "ha_reachable (beat_stop ?b ?s)"
    by (rule ha_reachable.run [OF _ ha_step.beat_led [of _ 0 0 2 0]]) (simp_all add: standby_def ha_eval)
  moreover have "ctx_done (hs_ctx (beat_stop ?b ?s)) 0 \<and> hs_beats (beat_stop ?b ?s) = [] \<and> hs_owner (beat_stop ?b ?s) = Some (0, 1) \<and>
      alive (beat_stop ?b ?s) 0 \<and> (1, 1, 1) \<in> set (hs_acq (beat_stop ?b ?s)) \<and> alive (beat_stop ?b ?s) 1 \<and>
      Acquire_poll 1 1 1 (beat_stop ?b ?s) = beat_stop ?b ?s"
    by (simp add: standby_def ha_eval)
  ultimately show ?thesis by blast
qed

text \<open>
  The single-instance elector keeps the contract of the interface: a context it hands out is alive exactly
  when its parent is, and one \<^verbatim>\<open>Release\<close>, or any number of them, cancels every context it has handed out.
\<close>

theorem local_elector_contract:
  assumes "local_ok (l, H)" and "parent < length H" and "Local_Acquire parent (l, H) = (lh, c)"
  shows "ctx_done (snd lh) c = ctx_done H parent \<and> local_ok lh \<and>
    (\<forall>d \<in> set (case_option [] id (lc_cancel (fst lh))). ctx_done (snd ((Local_Release ^^ Suc n) lh)) d) \<and>
    c \<in> set (case_option [] id (lc_cancel (fst lh)))"
proof -
  have lh: "local_ok lh" "c \<in> set (case_option [] id (lc_cancel (fst lh)))" "ctx_done (snd lh) c = ctx_done H parent"
    using assms by (auto simp: Local_Acquire_def local_ok_def done_WithCancel split: option.split_asm)
  have "ctx_done (snd ((Local_Release ^^ Suc n) lh)) d" if "d \<in> set (case_option [] id (lc_cancel (fst lh)))" for d
    using local.released [OF lh(1) that] by (rule conjunct1)
  with lh show ?thesis by (simp del: funpow.simps)
qed

theorem local_elector_contract_witness:
  "ctx_done (snd ((Local_Release ^^ Suc 1) (fst (Local_Acquire 0 (NewLocal, [\<lparr>cx_ancestors = [], cx_err = None\<rparr>]))))) 1"
proof -
  let ?H = "[\<lparr>cx_ancestors = [], cx_err = None\<rparr>]"
  have ok: "local_ok (NewLocal, ?H)" by (simp add: local_ok_def NewLocal_def)
  have eq: "Local_Acquire 0 (NewLocal, ?H) = (fst (Local_Acquire 0 (NewLocal, ?H)), 1)"
    by (simp add: Local_Acquire_def NewLocal_def)
  have "(0::nat) < length ?H" by simp
  from local_elector_contract [OF ok this eq, of 1] show ?thesis by blast
qed

end
