(* ===== verification/Flags.thy ===== *)
theory Flags
  imports Prelude
begin

text \<open>
  Go's \<^verbatim>\<open>flag\<close> package as the two commands use it: a flag set with \<^verbatim>\<open>ExitOnError\<close>, string and boolean flags.
\<close>

section \<open>The flag package\<close>

text \<open>\<open>FlagExit\<close> is the exit of \<^verbatim>\<open>flag.ExitOnError\<close>; otherwise the flags set, last one first in effect, and the arguments left.\<close>

datatype flag_result = FlagExit nat | Flags "(string \<times> string) list" "string list"

definition ParseBool :: "string \<Rightarrow> bool option" where
  "ParseBool s =
     (if s \<in> {''1'', ''t'', ''T'', ''TRUE'', ''true'', ''True''} then Some True
      else if s \<in> {''0'', ''f'', ''F'', ''FALSE'', ''false'', ''False''} then Some False
      else None)"

text \<open>Name and value of an argument without its dashes; the value is split off at the first \<^verbatim>\<open>=\<close> after the first byte.\<close>

definition flag_split :: "string \<Rightarrow> string \<times> string option" where
  "flag_split name = (case IndexByte (drop 1 name) CHR ''='' of
       None \<Rightarrow> (name, None)
     | Some i \<Rightarrow> (take (Suc i) name, Some (drop (i + 2) name)))"

definition bool_text :: "bool \<Rightarrow> string" where
  "bool_text b = (if b then ''true'' else ''false'')"

text \<open>\<open>formal\<close> has the flags of the set and whether each is boolean.\<close>

function (sequential) flag_Parse :: "(string \<times> bool) list \<Rightarrow> (string \<times> string) list \<Rightarrow> string list \<Rightarrow> flag_result" where
  "flag_Parse formal vals [] = Flags vals []"
| "flag_Parse formal vals (s # args) =
     (if length s < 2 \<or> hd s \<noteq> CHR ''-'' then Flags vals (s # args)
      else if s = ''--'' then Flags vals args
      else
        let body = (if s ! 1 = CHR ''-'' then drop 2 s else drop 1 s);
            (name, value) = flag_split body
        in if body = [] \<or> hd body = CHR ''-'' \<or> hd body = CHR ''='' then FlagExit 2
           else (case map_of formal name of
               None \<Rightarrow> if name = ''help'' \<or> name = ''h'' then FlagExit 0 else FlagExit 2
             | Some True \<Rightarrow>
                 (case value of
                    None \<Rightarrow> flag_Parse formal (AList.update name ''true'' vals) args
                  | Some v \<Rightarrow> (case ParseBool v of
                        None \<Rightarrow> FlagExit 2
                      | Some b \<Rightarrow> flag_Parse formal (AList.update name (bool_text b) vals) args))
             | Some False \<Rightarrow>
                 (case value of
                    Some v \<Rightarrow> flag_Parse formal (AList.update name v vals) args
                  | None \<Rightarrow> (case args of
                        [] \<Rightarrow> FlagExit 2
                      | v # args' \<Rightarrow> flag_Parse formal (AList.update name v vals) args'))))"
  by pat_completeness auto
termination
  by (relation "measure (\<lambda>(f, v, args). length args)") auto

declare flag_Parse.simps [simp del]

definition flag_str :: "(string \<times> string) list \<Rightarrow> string \<Rightarrow> string \<Rightarrow> string" where
  "flag_str vals name dflt = (case map_of vals name of None \<Rightarrow> dflt | Some v \<Rightarrow> v)"

definition flag_bool :: "(string \<times> string) list \<Rightarrow> string \<Rightarrow> bool" where
  "flag_bool vals name \<longleftrightarrow> map_of vals name = Some ''true''"

end
