(* ===== verification/Admin.thy ===== *)
theory Admin
  imports Rest_Laws Flags
begin

text \<open>
  The server command (\<^verbatim>\<open>cmd/prmd/main.go\<close>) with the storage opener (\<^verbatim>\<open>internal/storage/open\<close>) and
  the Postgres stub (\<^verbatim>\<open>internal/storage/postgres\<close>): the administration subcommands, and how
  \<^verbatim>\<open>serve\<close> wires the components together. A subcommand gets its arguments and the disk and returns the disk,
  its exit code and its standard output; what goes to standard error (usage texts, logs) is left out.

  The disk has a database per SQLite path; \<^verbatim>\<open>:memory:\<close> is a fresh one every time. What comes from outside is
  the record \<open>admin_env\<close>: the UUID package, the clock, randomness, hashing, and whether a database can be opened, a
  certificate loaded or written.
\<close>

section \<open>Storage\<close>

datatype backend = SqliteDB string | PostgresDB
datatype open_error = ErrScheme
datatype postgres_error = ErrNotImplemented

definition open_Store :: "string \<Rightarrow> open_error + backend" where
  "open_Store url =
     (if url = '''' then Inr (SqliteDB '':memory:'')
      else if HasPrefix url ''sqlite:'' then Inr (SqliteDB (TrimPrefix url ''sqlite:''))
      else if HasPrefix url ''postgres://'' \<or> HasPrefix url ''postgresql://'' then Inr PostgresDB
      else Inl ErrScheme)"

text \<open>Every method of the Postgres store, \<^verbatim>\<open>Migrate\<close> among them.\<close>

definition postgres_method :: "postgres_error + 'a" where
  "postgres_method = Inl ErrNotImplemented"

type_synonym disk = "string \<Rightarrow> store option"

record admin_env =
  ad_sqliteOpen :: "string \<Rightarrow> bool"
  ad_uuid_Parse :: "string \<Rightarrow> uuid option"
  ad_uuid_String :: "uuid \<Rightarrow> string"
  ad_sha256 :: "string \<Rightarrow> bytes"
  ad_b64raw :: "bytes \<Rightarrow> string"
  ad_now :: gotime
  ad_newV7 :: "uuid option"
  ad_rand :: "bytes option"
  ad_argon :: idkey
  ad_num :: "bytes \<Rightarrow> bytes option"
  ad_aclFails :: bool
  ad_quote :: "string \<Rightarrow> string"
  ad_devCert :: "string \<Rightarrow> string \<Rightarrow> bytes list option"
  ad_loadCert :: "string \<Rightarrow> string \<Rightarrow> bytes list option"

definition read_db :: "string \<Rightarrow> disk \<Rightarrow> store" where
  "read_db p d = (if p = '':memory:'' then Migrate else case d p of None \<Rightarrow> Migrate | Some st \<Rightarrow> st)"

definition write_db :: "string \<Rightarrow> store \<Rightarrow> disk \<Rightarrow> disk" where
  "write_db p st d = (if p = '':memory:'' then d else d(p \<mapsto> st))"

text \<open>The path and the migrated database, or \<open>None\<close> on an error.\<close>

definition bringUpStorage :: "admin_env \<Rightarrow> string \<Rightarrow> disk \<Rightarrow> (string \<times> store) option" where
  "bringUpStorage E url d =
     (case open_Store url of
        Inl _ \<Rightarrow> None
      | Inr PostgresDB \<Rightarrow> (case postgres_method of Inl ErrNotImplemented \<Rightarrow> None | Inr r \<Rightarrow> Some r)
      | Inr (SqliteDB p) \<Rightarrow> if ad_sqliteOpen E p then Some (p, read_db p d) else None)"

type_synonym outcome = "nat \<times> bytes"

definition with_store :: "admin_env \<Rightarrow> (string \<times> string) list \<Rightarrow> disk \<Rightarrow> (store \<Rightarrow> store \<times> outcome) \<Rightarrow> disk \<times> outcome" where
  "with_store E vals d f =
     (case bringUpStorage E (flag_str vals ''storage'' ''sqlite:./prm.db'') d of
        None \<Rightarrow> (d, 1, [])
      | Some (p, st) \<Rightarrow> let (st', out) = f st in (write_db p st' d, out))"

section \<open>Printing\<close>

definition line :: "bytes \<Rightarrow> bytes" where
  "line s = s @ [CHR 0x0A]"

definition pad :: "nat \<Rightarrow> string \<Rightarrow> bytes" where
  "pad n s = s @ replicate (n - length (runes s)) CHR '' ''"

section \<open>Tenants and accounts\<close>

abbreviation storage_flag :: "string \<times> bool" where
  "storage_flag \<equiv> (''storage'', False)"

definition cmdCreateTenant :: "admin_env \<Rightarrow> string list \<Rightarrow> disk \<Rightarrow> disk \<times> outcome" where
  "cmdCreateTenant E args d =
     (case flag_Parse [(''display-name'', False), storage_flag] [] args of
        FlagExit n \<Rightarrow> (d, n, [])
      | Flags fl [slug] \<Rightarrow>
          let dn = flag_str fl ''display-name'' '''';
              display = (if dn = '''' then slug else dn)
          in with_store E fl d (\<lambda>st.
               case CreateTenant (ad_now E) (ad_newV7 E) \<lparr>ten_ID = uuid_Nil, ten_Slug = slug, ten_DisplayName = display,
                   ten_Settings = [], ten_Status = '''', ten_CreatedAt = 0\<rparr> st of
                 Inl _ \<Rightarrow> (st, 1, [])
               | Inr (st', t) \<Rightarrow> (st', 0, line ''Created tenant'' @ line (''  ID:    '' @ ad_uuid_String E (ten_ID t)) @
                   line (''  Slug:  '' @ ten_Slug t) @ line (''  Name:  '' @ ten_DisplayName t)))
      | Flags _ _ \<Rightarrow> (d, 2, []))"

definition cmdCreateAccount :: "admin_env \<Rightarrow> string list \<Rightarrow> disk \<Rightarrow> disk \<times> outcome" where
  "cmdCreateAccount E args d =
     (case flag_Parse [(''password'', False), (''bot'', True), (''display-name'', False), storage_flag] [] args of
        FlagExit n \<Rightarrow> (d, n, [])
      | Flags fl [tenantSlug, username] \<Rightarrow>
          let password = flag_str fl ''password'' '''';
              dn = flag_str fl ''display-name'' '''';
              display = (if dn = '''' then username else dn);
              accountType = (if flag_bool fl ''bot'' then AccountBot else AccountHuman)
          in if password = '''' then (d, 2, [])
             else with_store E fl d (\<lambda>st.
               case GetTenantBySlug tenantSlug st of
                 Inl _ \<Rightarrow> (st, 1, [])
               | Inr ten \<Rightarrow>
                   case HashPassword (ad_argon E) (ad_rand E) password of
                     None \<Rightarrow> (st, 1, [])
                   | Some (hash, salt, params) \<Rightarrow>
                       case CreateAccount (ad_now E) (ad_newV7 E) (ten_ID ten) \<lparr>acc_ID = uuid_Nil, acc_TenantID = uuid_Nil,
                           acc_Username = username, acc_DisplayName = display, acc_Type = accountType, acc_PasswordHash = hash,
                           acc_PasswordSalt = salt, acc_PasswordParams = params, acc_RecoveryEmail = '''', acc_CreatedAt = 0\<rparr> st of
                         Inl _ \<Rightarrow> (st, 1, [])
                       | Inr (st', acc) \<Rightarrow> (st', 0, line ''Created account'' @ line (''  ID:       '' @ ad_uuid_String E (acc_ID acc)) @
                           line (''  Tenant:   '' @ ten_Slug ten @ '' ('' @ ad_uuid_String E (ten_ID ten) @ '')'') @
                           line (''  Username: '' @ acc_Username acc) @ line (''  Display:  '' @ acc_DisplayName acc) @
                           line (''  Type:     '' @ acc_Type acc)))
      | Flags _ _ \<Rightarrow> (d, 2, []))"

definition cmdListTenants :: "admin_env \<Rightarrow> string list \<Rightarrow> disk \<Rightarrow> disk \<times> outcome" where
  "cmdListTenants E args d =
     (case flag_Parse [storage_flag] [] args of
        FlagExit n \<Rightarrow> (d, n, [])
      | Flags fl _ \<Rightarrow> with_store E fl d (\<lambda>st.
          case ListTenants st of
            Inl _ \<Rightarrow> (st, 1, [])
          | Inr [] \<Rightarrow> (st, 0, line ''(no tenants)'')
          | Inr list \<Rightarrow> (st, 0, line (pad 36 ''ID'' @ ''  '' @ pad 16 ''SLUG'' @ ''  '' @ pad 8 ''STATUS'' @ ''  '' @ ''DISPLAY NAME'') @
              concat (map (\<lambda>t. line (pad 36 (ad_uuid_String E (ten_ID t)) @ ''  '' @ pad 16 (ten_Slug t) @ ''  '' @
                pad 8 (ten_Status t) @ ''  '' @ ten_DisplayName t)) list))))"

text \<open>Writing a certificate is not part of the disk of databases.\<close>

definition cmdGenerateCert :: "admin_env \<Rightarrow> string list \<Rightarrow> disk \<Rightarrow> disk \<times> outcome" where
  "cmdGenerateCert E args d =
     (case flag_Parse [(''out-dir'', False)] [] args of
        FlagExit n \<Rightarrow> (d, n, [])
      | Flags fl [host] \<Rightarrow>
          let outDir = flag_str fl ''out-dir'' ''./certs''
          in if ad_devCert E host outDir = None then (d, 1, [])
             else (d, 0, line (''Wrote self-signed cert + key for '' @ ad_quote E host @ '' to '' @ outDir) @
               line ''  NOTE: dev-only; do not use in production.'')
      | Flags _ _ \<Rightarrow> (d, 2, []))"


section \<open>Channels and access lists\<close>

text \<open>
  The channel and its owner's entry are two writes; \<open>ad_aclFails\<close> says that the second one fails although the
  first one went through.
\<close>

definition cmdCreateChannel :: "admin_env \<Rightarrow> string list \<Rightarrow> disk \<Rightarrow> disk \<times> outcome" where
  "cmdCreateChannel E args d =
     (case flag_Parse [(''public'', True), storage_flag] [] args of
        FlagExit n \<Rightarrow> (d, n, [])
      | Flags fl [tenantSlug, channelName, ownerUsername] \<Rightarrow>
          let vis = (if flag_bool fl ''public'' then ChannelPublic else ChannelPrivate)
          in with_store E fl d (\<lambda>st.
               case GetTenantBySlug tenantSlug st of
                 Inl _ \<Rightarrow> (st, 1, [])
               | Inr ten \<Rightarrow>
                   case GetAccountByUsername (ten_ID ten) ownerUsername st of
                     Inl _ \<Rightarrow> (st, 1, [])
                   | Inr owner \<Rightarrow>
                       case CreateChannel (ad_now E) (ad_newV7 E) (ten_ID ten) \<lparr>chn_ID = uuid_Nil, chn_TenantID = uuid_Nil,
                           chn_Name = channelName, chn_OwnerID = acc_ID owner, chn_Visibility = vis, chn_CreatedAt = 0\<rparr> st of
                         Inl _ \<Rightarrow> (st, 1, [])
                       | Inr (st1, ch) \<Rightarrow>
                           case SetChannelACL (ad_now E) (ten_ID ten) (chn_ID ch) (acc_ID owner) RoleOwner (acc_ID owner)
                               (st1\<lparr>st_down := st_down st1 \<or> ad_aclFails E\<rparr>) of
                             Inl _ \<Rightarrow> (st1, 1, [])
                           | Inr st2 \<Rightarrow> (st2, 0, line ''Created channel'' @ line (''  ID:         '' @ ad_uuid_String E (chn_ID ch)) @
                               line (''  Tenant:     '' @ ten_Slug ten @ '' ('' @ ad_uuid_String E (ten_ID ten) @ '')'') @
                               line (''  Name:       '' @ chn_Name ch) @
                               line (''  Owner:      '' @ acc_Username owner @ '' ('' @ ad_uuid_String E (acc_ID owner) @ '')'') @
                               line (''  Visibility: '' @ chn_Visibility ch)))
      | Flags _ _ \<Rightarrow> (d, 2, []))"

definition cmdGrant :: "admin_env \<Rightarrow> string list \<Rightarrow> disk \<Rightarrow> disk \<times> outcome" where
  "cmdGrant E args d =
     (case flag_Parse [storage_flag] [] args of
        FlagExit n \<Rightarrow> (d, n, [])
      | Flags fl [tenantSlug, channelName, username, role] \<Rightarrow>
          if role \<notin> {RoleOwner, RoleAdmin, RoleMember, RoleBanned, RoleChannelOp} then (d, 2, [])
          else with_store E fl d (\<lambda>st.
            case GetTenantBySlug tenantSlug st of
              Inl _ \<Rightarrow> (st, 1, [])
            | Inr ten \<Rightarrow>
                case GetChannelByName (ten_ID ten) channelName st of
                  Inl _ \<Rightarrow> (st, 1, [])
                | Inr ch \<Rightarrow>
                    case GetAccountByUsername (ten_ID ten) username st of
                      Inl _ \<Rightarrow> (st, 1, [])
                    | Inr acc \<Rightarrow>
                        case SetChannelACL (ad_now E) (ten_ID ten) (chn_ID ch) (acc_ID acc) role (chn_OwnerID ch) st of
                          Inl _ \<Rightarrow> (st, 1, [])
                        | Inr st' \<Rightarrow> (st', 0, line (''Granted '' @ role @ '' on #'' @ chn_Name ch @ '' in '' @ ten_Slug ten @ '' to '' @ acc_Username acc)))
      | Flags _ _ \<Rightarrow> (d, 2, []))"

definition cmdRevoke :: "admin_env \<Rightarrow> string list \<Rightarrow> disk \<Rightarrow> disk \<times> outcome" where
  "cmdRevoke E args d =
     (case flag_Parse [storage_flag] [] args of
        FlagExit n \<Rightarrow> (d, n, [])
      | Flags fl [tenantSlug, channelName, username] \<Rightarrow> with_store E fl d (\<lambda>st.
          case GetTenantBySlug tenantSlug st of
            Inl _ \<Rightarrow> (st, 1, [])
          | Inr ten \<Rightarrow>
              case GetChannelByName (ten_ID ten) channelName st of
                Inl _ \<Rightarrow> (st, 1, [])
              | Inr ch \<Rightarrow>
                  case GetAccountByUsername (ten_ID ten) username st of
                    Inl _ \<Rightarrow> (st, 1, [])
                  | Inr acc \<Rightarrow>
                      case RemoveChannelACL (ten_ID ten) (chn_ID ch) (acc_ID acc) st of
                        Inl _ \<Rightarrow> (st, 1, [])
                      | Inr st' \<Rightarrow> (st', 0, line (''Revoked ACL for '' @ acc_Username acc @ '' on #'' @ chn_Name ch @ '' in '' @ ten_Slug ten)))
      | Flags _ _ \<Rightarrow> (d, 2, []))"

definition cmdListChannels :: "admin_env \<Rightarrow> string list \<Rightarrow> disk \<Rightarrow> disk \<times> outcome" where
  "cmdListChannels E args d =
     (case flag_Parse [storage_flag] [] args of
        FlagExit n \<Rightarrow> (d, n, [])
      | Flags fl [tenantSlug] \<Rightarrow> with_store E fl d (\<lambda>st.
          case GetTenantBySlug tenantSlug st of
            Inl _ \<Rightarrow> (st, 1, [])
          | Inr ten \<Rightarrow>
              case ListChannels (ten_ID ten) st of
                Inl _ \<Rightarrow> (st, 1, [])
              | Inr [] \<Rightarrow> (st, 0, line (''(no channels in '' @ ten_Slug ten @ '')''))
              | Inr list \<Rightarrow> (st, 0, line (pad 36 ''ID'' @ ''  '' @ pad 16 ''NAME'' @ ''  '' @ pad 9 ''VIS'' @ ''  '' @ ''OWNER'') @
                  concat (map (\<lambda>ch. line (pad 36 (ad_uuid_String E (chn_ID ch)) @ ''  '' @ pad 16 (chn_Name ch) @ ''  '' @
                    pad 9 (chn_Visibility ch) @ ''  '' @ ad_uuid_String E (chn_OwnerID ch))) list)))
      | Flags _ _ \<Rightarrow> (d, 2, []))"

section \<open>Tokens\<close>

definition cmdIssueToken :: "admin_env \<Rightarrow> string list \<Rightarrow> disk \<Rightarrow> disk \<times> outcome" where
  "cmdIssueToken E args d =
     (case flag_Parse [(''label'', False), storage_flag] [] args of
        FlagExit n \<Rightarrow> (d, n, [])
      | Flags fl [tenantSlug, username] \<Rightarrow>
          let label = flag_str fl ''label'' ''''
          in with_store E fl d (\<lambda>st.
            case GetTenantBySlug tenantSlug st of
              Inl _ \<Rightarrow> (st, 1, [])
            | Inr ten \<Rightarrow>
                case GetAccountByUsername (ten_ID ten) username st of
                  Inl _ \<Rightarrow> (st, 1, [])
                | Inr acct \<Rightarrow>
                    if acc_Type acct \<noteq> AccountBot then (st, 1, [])
                    else case IssueToken (ad_b64raw E) (ad_sha256 E) (ad_rand E) (ad_now E) (ad_newV7 E) (ten_ID ten) (acc_ID acct) label st of
                      Inl _ \<Rightarrow> (st, 1, [])
                    | Inr (st', plaintext, tok) \<Rightarrow> (st', 0, line ''Issued token (shown ONCE -- save it now)'' @
                        line (''  Token ID:    '' @ ad_uuid_String E (tok_ID tok)) @
                        line (''  Account:     '' @ acc_Username acct @ '' ('' @ ad_uuid_String E (acc_ID acct) @ '')'') @
                        line (''  Tenant:      '' @ ten_Slug ten @ '' ('' @ ad_uuid_String E (ten_ID ten) @ '')'') @
                        (if label \<noteq> '''' then line (''  Label:       '' @ label) else []) @
                        line (''  TOKEN:       '' @ plaintext)))
      | Flags _ _ \<Rightarrow> (d, 2, []))"

definition cmdRevokeToken :: "admin_env \<Rightarrow> string list \<Rightarrow> disk \<Rightarrow> disk \<times> outcome" where
  "cmdRevokeToken E args d =
     (case flag_Parse [storage_flag] [] args of
        FlagExit n \<Rightarrow> (d, n, [])
      | Flags fl [tenantSlug, tokenIDStr] \<Rightarrow>
          (case ad_uuid_Parse E tokenIDStr of
             None \<Rightarrow> (d, 2, [])
           | Some tokenID \<Rightarrow> with_store E fl d (\<lambda>st.
               case GetTenantBySlug tenantSlug st of
                 Inl _ \<Rightarrow> (st, 1, [])
               | Inr ten \<Rightarrow>
                   case RevokeToken (ad_now E) (ten_ID ten) tokenID st of
                     Inl _ \<Rightarrow> (st, 1, [])
                   | Inr st' \<Rightarrow> (st', 0, line (''Revoked token '' @ ad_uuid_String E tokenID @ '' in '' @ ten_Slug ten))))
      | Flags _ _ \<Rightarrow> (d, 2, []))"

section \<open>Integrations\<close>

definition settings_ok :: "admin_env \<Rightarrow> string \<Rightarrow> bool" where
  "settings_ok E settings \<longleftrightarrow>
     settings = '''' \<or> Option.bind (top_members settings) (\<lambda>ms. to_any (ad_num E) (JObj ms)) \<noteq> None"

definition cmdCreateIntegration :: "admin_env \<Rightarrow> string list \<Rightarrow> disk \<Rightarrow> disk \<times> outcome" where
  "cmdCreateIntegration E args d =
     (case flag_Parse [(''settings'', False), storage_flag] [] args of
        FlagExit n \<Rightarrow> (d, n, [])
      | Flags fl [tenantSlug, channelName, username, adapter] \<Rightarrow>
          let settings = flag_str fl ''settings'' '''';
              settingsJSON = (if settings \<noteq> '''' then settings else ''{}'')
          in if \<not> settings_ok E settings then (d, 2, [])
             else with_store E fl d (\<lambda>st.
               case GetTenantBySlug tenantSlug st of
                 Inl _ \<Rightarrow> (st, 1, [])
               | Inr ten \<Rightarrow>
                   case GetChannelByName (ten_ID ten) channelName st of
                     Inl _ \<Rightarrow> (st, 1, [])
                   | Inr ch \<Rightarrow>
                       case GetAccountByUsername (ten_ID ten) username st of
                         Inl _ \<Rightarrow> (st, 1, [])
                       | Inr owner \<Rightarrow>
                           case ad_rand E of
                             None \<Rightarrow> (st, 1, [])
                           | Some tokenBytes \<Rightarrow>
                               let plaintext = ad_b64raw E tokenBytes
                               in case CreateIntegration (ad_now E) (ad_newV7 E) (ten_ID ten) \<lparr>int_ID = uuid_Nil, int_TenantID = uuid_Nil,
                                   int_ChannelID = chn_ID ch, int_AccountID = acc_ID owner, int_Adapter = adapter,
                                   int_TokenHash = ad_sha256 E plaintext, int_SettingsJSON = settingsJSON, int_DisabledAt = 0, int_CreatedAt = 0\<rparr> st of
                                 Inl _ \<Rightarrow> (st, 1, [])
                               | Inr (st', integ) \<Rightarrow> (st', 0, line ''Created integration (token shown ONCE -- save it now)'' @
                                   line (''  ID:       '' @ ad_uuid_String E (int_ID integ)) @
                                   line (''  Tenant:   '' @ ten_Slug ten @ '' ('' @ ad_uuid_String E (ten_ID ten) @ '')'') @
                                   line (''  Channel:  #'' @ chn_Name ch @ '' ('' @ ad_uuid_String E (chn_ID ch) @ '')'') @
                                   line (''  Adapter:  '' @ int_Adapter integ) @
                                   line (''  POST URL: /v1/inbound/'' @ ad_uuid_String E (int_ID integ)) @
                                   line (''  TOKEN:    '' @ plaintext)))
      | Flags _ _ \<Rightarrow> (d, 2, []))"

definition cmdListIntegrations :: "admin_env \<Rightarrow> string list \<Rightarrow> disk \<Rightarrow> disk \<times> outcome" where
  "cmdListIntegrations E args d =
     (case flag_Parse [storage_flag] [] args of
        FlagExit n \<Rightarrow> (d, n, [])
      | Flags fl [tenantSlug] \<Rightarrow> with_store E fl d (\<lambda>st.
          case GetTenantBySlug tenantSlug st of
            Inl _ \<Rightarrow> (st, 1, [])
          | Inr ten \<Rightarrow>
              case ListIntegrationsByTenant (ten_ID ten) st of
                Inl _ \<Rightarrow> (st, 1, [])
              | Inr [] \<Rightarrow> (st, 0, line (''(no integrations in '' @ ten_Slug ten @ '')''))
              | Inr list \<Rightarrow> (st, 0, line (pad 36 ''ID'' @ ''  '' @ pad 10 ''ADAPTER'' @ ''  '' @ pad 36 ''CHANNEL_ID'' @ ''  '' @ ''STATUS'') @
                  concat (map (\<lambda>i. line (pad 36 (ad_uuid_String E (int_ID i)) @ ''  '' @ pad 10 (int_Adapter i) @ ''  '' @
                    pad 36 (ad_uuid_String E (int_ChannelID i)) @ ''  '' @ (if IsZero (int_DisabledAt i) then ''active'' else ''disabled''))) list)))
      | Flags _ _ \<Rightarrow> (d, 2, []))"

definition cmdRevokeIntegration :: "admin_env \<Rightarrow> string list \<Rightarrow> disk \<Rightarrow> disk \<times> outcome" where
  "cmdRevokeIntegration E args d =
     (case flag_Parse [storage_flag] [] args of
        FlagExit n \<Rightarrow> (d, n, [])
      | Flags fl [tenantSlug, integIDStr] \<Rightarrow>
          (case ad_uuid_Parse E integIDStr of
             None \<Rightarrow> (d, 2, [])
           | Some integID \<Rightarrow> with_store E fl d (\<lambda>st.
               case GetTenantBySlug tenantSlug st of
                 Inl _ \<Rightarrow> (st, 1, [])
               | Inr ten \<Rightarrow>
                   case GetIntegrationByID (ten_ID ten) integID st of
                     Inl _ \<Rightarrow> (st, 1, [])
                   | Inr integ \<Rightarrow>
                       let out = line (''Revoked integration '' @ ad_uuid_String E integID @ '' in '' @ ten_Slug ten @ '' (token no longer accepted)'')
                       in if \<not> IsZero (int_DisabledAt integ) then (st, 0, out)
                          else case UpdateIntegration (ten_ID ten) (integ\<lparr>int_DisabledAt := ad_now E\<rparr>) st of
                            Inl _ \<Rightarrow> (st, 1, [])
                          | Inr st' \<Rightarrow> (st', 0, out)))
      | Flags _ _ \<Rightarrow> (d, 2, []))"

section \<open>The command line\<close>

definition version :: string where "version = ''0.1.0-slice1''"

text \<open>The administration commands; an unknown one is a usage error. The text of \<open>usage\<close> is an argument.\<close>

definition admin_cmd :: "string \<Rightarrow> (admin_env \<Rightarrow> string list \<Rightarrow> disk \<Rightarrow> disk \<times> outcome) option" where
  "admin_cmd name = map_of
     [(''create-tenant'', cmdCreateTenant), (''create-account'', cmdCreateAccount), (''create-channel'', cmdCreateChannel),
      (''grant'', cmdGrant), (''revoke'', cmdRevoke), (''issue-token'', cmdIssueToken), (''revoke-token'', cmdRevokeToken),
      (''generate-cert'', cmdGenerateCert), (''list-tenants'', cmdListTenants), (''list-channels'', cmdListChannels),
      (''create-integration'', cmdCreateIntegration), (''list-integrations'', cmdListIntegrations),
      (''revoke-integration'', cmdRevokeIntegration)] name"

text \<open>\<^verbatim>\<open>loadTLS\<close>: the certificates of the configuration, or \<open>None\<close> on an error.\<close>

definition loadTLS :: "admin_env \<Rightarrow> bool \<Rightarrow> string \<Rightarrow> string \<Rightarrow> bytes list option" where
  "loadTLS E dev certFile keyFile =
     (if dev then ad_devCert E ''localhost'' ''''
      else if certFile = '''' \<or> keyFile = '''' then None
      else ad_loadCert E certFile keyFile)"

text \<open>
  \<^verbatim>\<open>serve\<close> up to the listening servers: an exit code, or the realtime server and, unless the flag is empty, the
  control plane on the same store and manager.
\<close>

definition cmdServe :: "admin_env \<Rightarrow> subops_lib \<Rightarrow> string list \<Rightarrow> disk \<Rightarrow> nat + Server \<times> RestServer option" where
  "cmdServe E K args d =
     (case flag_Parse [(''addr'', False), (''rest-addr'', False), storage_flag, (''dev'', True), (''cert'', False), (''key'', False)] [] args of
        FlagExit n \<Rightarrow> Inl n
      | Flags fl _ \<Rightarrow>
          case bringUpStorage E (flag_str fl ''storage'' ''sqlite:./prm.db'') d of
            None \<Rightarrow> Inl 1
          | Some (p, st) \<Rightarrow>
              case loadTLS E (flag_bool fl ''dev'') (flag_str fl ''cert'' '''') (flag_str fl ''key'' '''') of
                None \<Rightarrow> Inl 1
              | Some certs \<Rightarrow>
                  case ListTenants st of
                    Inl _ \<Rightarrow> Inl 1
                  | Inr tens \<Rightarrow>
                      case Reload (lib_uuid_Parse K) (lib_regexp K) st tens
                          (NewManager \<lparr>cf_Workers = 0, cf_QueueDepth = 0, cf_HTTPTimeout = 0, cf_MaxRetries = 0, cf_AutoDisable4xx = 0\<rparr>) of
                        (_, Some _) \<Rightarrow> Inl 1
                      | (mgr, None) \<Rightarrow>
                          case newServer \<lparr>scf_Addr = flag_str fl ''addr'' '':6697'', scf_Certificates = Some certs, scf_Store = Some st,
                              scf_Name = ''prmd'', scf_Version = version, scf_WebhookMgr = Some mgr\<rparr> of
                            Inl _ \<Rightarrow> Inl 1
                          | Inr srv \<Rightarrow>
                              let restAddr = flag_str fl ''rest-addr'' '':8443''
                              in if restAddr = '''' then Inr (srv, None)
                                 else (case New_rest init_registry \<lparr>rc_Addr = restAddr, rc_Certificates = Some certs, rc_Store = Some srv, rc_publisher = True\<rparr> of
                                     Inl _ \<Rightarrow> Inl 1
                                   | Inr rest \<Rightarrow> Inr (srv, Some rest)))"

datatype prmd_run = Exits disk nat bytes | Serving Server "RestServer option"

definition main_prmd :: "admin_env \<Rightarrow> subops_lib \<Rightarrow> bytes \<Rightarrow> string list \<Rightarrow> disk \<Rightarrow> prmd_run" where
  "main_prmd E K usage args d =
     (case args of
        [] \<Rightarrow> Exits d 2 []
      | cmd # rest \<Rightarrow>
          if cmd = ''serve'' then (case cmdServe E K rest d of Inl n \<Rightarrow> Exits d n [] | Inr (srv, r) \<Rightarrow> Serving srv r)
          else if cmd = ''admin'' then
            (case rest of
               [] \<Rightarrow> Exits d 2 []
             | sub # args' \<Rightarrow>
                 (case admin_cmd sub of
                    None \<Rightarrow> Exits d 2 []
                  | Some f \<Rightarrow> (case f E args' d of (d', n, out) \<Rightarrow> Exits d' n out)))
          else if cmd \<in> {''-h'', ''--help'', ''help''} then Exits d 0 usage
          else if cmd \<in> {''-v'', ''--version'', ''version''} then Exits d 0 (line (''prmd '' @ version))
          else Exits d 2 [])"

end
