(* ===== verification/Serve_Start.thy ===== *)
theory Serve_Start
  imports Admin
begin

text \<open>
  What \<^verbatim>\<open>prmd serve\<close> starts with: how \<^verbatim>\<open>Manager.Reload\<close> rebuilds the cache of subscriptions and pauses from
  the database, and that the realtime server, the control plane and the store begin in a state in which the
  theorems about them apply.
\<close>

section \<open>What Reload visits\<close>

text \<open>A row that \<^verbatim>\<open>Reload\<close> reads: enabled, on a channel that exists in its tenant.\<close>

definition loadable :: "store \<Rightarrow> Subscription \<Rightarrow> bool" where
  "loadable st row \<longleftrightarrow> row \<in> set (st_subs st) \<and> sub_DisabledAt row = 0 \<and>
     (\<exists>c \<in> set (st_channels st). chn_TenantID c = sub_TenantID row \<and> chn_ID c = sub_ChannelID row)"

lemma set_insort_by_name [simp]: "set (insort_by_name c cs) = insert c (set cs)"
  by (induction cs) auto

lemma set_fold_insort: "set (foldr insort_by_name cs []) = set cs"
  by (induction cs) auto

lemma ListChannels_set:
  "ListChannels t st = Inr chs \<Longrightarrow> set chs = scanChannel ` {c \<in> set (st_channels st). chn_TenantID c = t}"
  by (auto simp: ListChannels_def set_fold_insort split: if_splits)

lemma ListSubscriptionsByChannel_set:
  "ListSubscriptionsByChannel t k st = Inr subs \<Longrightarrow>
     set subs = scanSubscription ` {r \<in> set (st_subs st). sub_TenantID r = t \<and> sub_ChannelID r = k \<and> sub_DisabledAt r = 0}"
  by (auto simp: ListSubscriptionsByChannel_def query_rows_def split: if_splits)

lemma ListChannelBotPauses_set:
  "ListChannelBotPauses t st = Inr ps \<Longrightarrow> set ps = scanPause ` {p \<in> set (st_pauses st). pau_TenantID p = t}"
  by (auto simp: ListChannelBotPauses_def query_rows_def split: if_splits)

lemma ListTenants_set: "ListTenants st = Inr ts \<Longrightarrow> set ts = scanTenant ` set (st_tenants st)"
  by (auto simp: ListTenants_def query_rows_def split: if_splits)

section \<open>What the cache holds afterwards\<close>

text \<open>Every cached subscription is the compiled form of a row that \<^verbatim>\<open>Reload\<close> reads, and every pause a row.\<close>

definition faithful :: "subops_lib \<Rightarrow> store \<Rightarrow> Manager \<Rightarrow> bool" where
  "faithful K st m \<longleftrightarrow>
     (\<forall>i r. map_of (mg_subs m) i = Some r \<longrightarrow> r < length (mg_heap m) \<and>
        (\<exists>row. loadable st row \<and> sub_ID row = i \<and>
           compileSubscription (lib_uuid_Parse K) (lib_regexp K) (scanSubscription row) = Inr (mg_heap m ! r))) \<and>
     (\<forall>k b. b \<in> set (set_of (mg_pauses m) k) \<longrightarrow> (\<exists>p \<in> set (st_pauses st). pau_ChannelID p = k \<and> pau_BotAccountID p = b))"

text \<open>The manager after a step knows at least what it knew before.\<close>

definition grows :: "Manager \<Rightarrow> Manager \<Rightarrow> bool" where
  "grows m m' \<longleftrightarrow> dom (map_of (mg_subs m)) \<subseteq> dom (map_of (mg_subs m')) \<and>
     (\<forall>k. set (set_of (mg_pauses m) k) \<subseteq> set (set_of (mg_pauses m') k))"

lemma grows_refl [simp]: "grows m m"
  by (simp add: grows_def)

lemma grows_trans: "grows a b \<Longrightarrow> grows b c \<Longrightarrow> grows a c"
  unfolding grows_def by blast

lemma install_fields [simp]:
  "mg_pauses (install live m) = mg_pauses m" "mg_heap (install live m) = mg_heap m @ [live]"
  "map_of (mg_subs (install live m)) = (map_of (mg_subs m))(ws_ID live \<mapsto> length (mg_heap m))"
  by (simp_all add: install_def indexByChannel_def update_conv')

lemma grows_install: "grows m (install live m)"
  by (auto simp: grows_def)

lemma grows_pause: "grows m (setPausedLocked k b True m)"
  by (auto simp: grows_def setPausedLocked_def)

lemma faithful_install:
  assumes "faithful K st m" and "loadable st row"
    and "compileSubscription (lib_uuid_Parse K) (lib_regexp K) (scanSubscription row) = Inr live"
  shows "faithful K st (install live m)"
proof -
  have "ws_ID live = sub_ID row" using compile_ids [OF assms(3)] by (simp add: scanSubscription_def)
  with assms show ?thesis by (auto simp: faithful_def nth_append intro: less_SucI)
qed

lemma faithful_pause:
  "faithful K st m \<Longrightarrow> p \<in> set (st_pauses st) \<Longrightarrow> pau_ChannelID p = k \<Longrightarrow> pau_BotAccountID p = b \<Longrightarrow>
     faithful K st (setPausedLocked k b True m)"
  by (auto simp: faithful_def setPausedLocked_def split: if_splits)

text \<open>The three loops.\<close>

lemma reload_subs_effect:
  assumes "\<forall>sub \<in> set subs. \<exists>row. loadable st row \<and> sub = scanSubscription row" and "faithful K st m"
  defines "m' \<equiv> reload_subs (lib_uuid_Parse K) (lib_regexp K) subs m"
  shows "faithful K st m' \<and> grows m m' \<and>
     (\<forall>sub \<in> set subs. \<not> isl (compileSubscription (lib_uuid_Parse K) (lib_regexp K) sub) \<longrightarrow> sub_ID sub \<in> dom (map_of (mg_subs m')))"
  using assms(1,2) unfolding m'_def
proof (induction subs arbitrary: m)
  case (Cons sub subs)
  show ?case
  proof (cases "compileSubscription (lib_uuid_Parse K) (lib_regexp K) sub")
    case (Inr live)
    have ok: "faithful K st (install live m)" using Cons.prems faithful_install Inr by fastforce
    have here: "sub_ID sub \<in> dom (map_of (mg_subs (install live m)))" using compile_ids [OF Inr] by simp
    have "\<forall>sub \<in> set subs. \<exists>row. loadable st row \<and> sub = scanSubscription row" using Cons.prems(1) by simp
    from Cons.IH [OF this ok] here grows_install [of m live] show ?thesis
      by (auto simp: Inr grows_def)
  qed (use Cons in auto)
qed simp

lemma reload_channels_effect:
  assumes "reload_channels (lib_uuid_Parse K) (lib_regexp K) st t chs m = (m', None)" and "faithful K st m"
    and "\<forall>ch \<in> set chs. \<exists>c \<in> set (st_channels st). chn_TenantID c = t \<and> chn_ID c = chn_ID ch"
  shows "faithful K st m' \<and> grows m m' \<and>
     (\<forall>row. loadable st row \<longrightarrow> sub_TenantID row = t \<longrightarrow> sub_ChannelID row \<in> chn_ID ` set chs \<longrightarrow>
        \<not> isl (compileSubscription (lib_uuid_Parse K) (lib_regexp K) (scanSubscription row)) \<longrightarrow> sub_ID row \<in> dom (map_of (mg_subs m')))"
  using assms
proof (induction chs arbitrary: m)
  case (Cons ch chs)
  from Cons.prems(1) obtain subs where subs: "ListSubscriptionsByChannel t (chn_ID ch) st = Inr subs"
    and rest: "reload_channels (lib_uuid_Parse K) (lib_regexp K) st t chs
                 (reload_subs (lib_uuid_Parse K) (lib_regexp K) subs m) = (m', None)"
    by (auto split: sum.splits)
  let ?m1 = "reload_subs (lib_uuid_Parse K) (lib_regexp K) subs m"
  note set = ListSubscriptionsByChannel_set [OF subs]
  have "\<forall>sub \<in> set subs. \<exists>row. loadable st row \<and> sub = scanSubscription row"
    using Cons.prems(3) set by (fastforce simp: loadable_def)
  from reload_subs_effect [OF this Cons.prems(2)] have m1: "faithful K st ?m1" "grows m ?m1"
    and here: "\<And>sub. sub \<in> set subs \<Longrightarrow> \<not> isl (compileSubscription (lib_uuid_Parse K) (lib_regexp K) sub) \<Longrightarrow>
      sub_ID sub \<in> dom (map_of (mg_subs ?m1))"
    by auto
  from Cons.IH [OF rest m1(1)] Cons.prems(3) have IH: "faithful K st m'" "grows ?m1 m'"
    and there: "\<And>row. loadable st row \<Longrightarrow> sub_TenantID row = t \<Longrightarrow> sub_ChannelID row \<in> chn_ID ` set chs \<Longrightarrow>
      \<not> isl (compileSubscription (lib_uuid_Parse K) (lib_regexp K) (scanSubscription row)) \<Longrightarrow> sub_ID row \<in> dom (map_of (mg_subs m'))"
    by auto
  have "sub_ID row \<in> dom (map_of (mg_subs m'))"
    if row: "loadable st row" "sub_TenantID row = t" "sub_ChannelID row = chn_ID ch"
      "\<not> isl (compileSubscription (lib_uuid_Parse K) (lib_regexp K) (scanSubscription row))" for row
  proof -
    have "scanSubscription row \<in> set subs" using row by (auto simp: set loadable_def)
    from here [OF this row(4)] IH(2) show ?thesis by (auto simp: grows_def scanSubscription_def)
  qed
  with there IH grows_trans [OF m1(2) IH(2)] show ?case by auto
qed simp

lemma reload_pauses_effect:
  assumes "\<forall>p \<in> set ps. \<exists>q \<in> set (st_pauses st). pau_ChannelID q = pau_ChannelID p \<and> pau_BotAccountID q = pau_BotAccountID p"
    and "faithful K st m"
  defines "m' \<equiv> fold (\<lambda>p. setPausedLocked (pau_ChannelID p) (pau_BotAccountID p) True) ps m"
  shows "faithful K st m' \<and> grows m m' \<and> (\<forall>p \<in> set ps. pau_BotAccountID p \<in> set (set_of (mg_pauses m') (pau_ChannelID p)))"
  using assms(1,2) unfolding m'_def
proof (induction ps arbitrary: m)
  case (Cons p ps)
  let ?m1 = "setPausedLocked (pau_ChannelID p) (pau_BotAccountID p) True m"
  have ok: "faithful K st ?m1" using Cons.prems faithful_pause by fastforce
  have here: "pau_BotAccountID p \<in> set (set_of (mg_pauses ?m1) (pau_ChannelID p))" by (simp add: setPausedLocked_def)
  have "\<forall>p \<in> set ps. \<exists>q \<in> set (st_pauses st). pau_ChannelID q = pau_ChannelID p \<and> pau_BotAccountID q = pau_BotAccountID p"
    using Cons.prems(1) by simp
  note IH = Cons.IH [OF this ok]
  then have "grows m (fold (\<lambda>p. setPausedLocked (pau_ChannelID p) (pau_BotAccountID p) True) ps ?m1)"
    using grows_trans [OF grows_pause] by blast
  with IH here show ?case unfolding grows_def by (simp only: list.set fold_simps) blast
qed simp

lemma reload_tenants_effect:
  assumes "reload_tenants (lib_uuid_Parse K) (lib_regexp K) st ts m = (m', None)" and "faithful K st m"
  shows "faithful K st m' \<and> grows m m' \<and>
     (\<forall>row. loadable st row \<longrightarrow> sub_TenantID row \<in> ten_ID ` set ts \<longrightarrow>
        \<not> isl (compileSubscription (lib_uuid_Parse K) (lib_regexp K) (scanSubscription row)) \<longrightarrow> sub_ID row \<in> dom (map_of (mg_subs m'))) \<and>
     (\<forall>p \<in> set (st_pauses st). pau_TenantID p \<in> ten_ID ` set ts \<longrightarrow> pau_BotAccountID p \<in> set (set_of (mg_pauses m') (pau_ChannelID p)))"
  using assms
proof (induction ts arbitrary: m)
  case (Cons t ts)
  from Cons.prems(1) obtain chs m1 ps where chs: "ListChannels (ten_ID t) st = Inr chs"
    and r1: "reload_channels (lib_uuid_Parse K) (lib_regexp K) st (ten_ID t) chs m = (m1, None)"
    and ps: "ListChannelBotPauses (ten_ID t) st = Inr ps"
    and r2: "reload_tenants (lib_uuid_Parse K) (lib_regexp K) st ts
               (fold (\<lambda>p. setPausedLocked (pau_ChannelID p) (pau_BotAccountID p) True) ps m1) = (m', None)"
    by (auto split: sum.splits prod.splits option.splits)
  let ?m2 = "fold (\<lambda>p. setPausedLocked (pau_ChannelID p) (pau_BotAccountID p) True) ps m1"
  note chs_set = ListChannels_set [OF chs] and ps_set = ListChannelBotPauses_set [OF ps]
  have "\<forall>ch \<in> set chs. \<exists>c \<in> set (st_channels st). chn_TenantID c = ten_ID t \<and> chn_ID c = chn_ID ch"
    by (auto simp: chs_set scanChannel_def)
  note m1 = reload_channels_effect [OF r1 Cons.prems(2) this]
  have "\<forall>p \<in> set ps. \<exists>q \<in> set (st_pauses st). pau_ChannelID q = pau_ChannelID p \<and> pau_BotAccountID q = pau_BotAccountID p"
    by (auto simp: ps_set scanPause_def)
  note m2 = reload_pauses_effect [OF this conjunct1 [OF m1]]
  note m3 = Cons.IH [OF r2 conjunct1 [OF m2]]
  have g12: "grows m m1" and g23: "grows m1 ?m2" using m1 m2 by simp_all
  have g: "grows ?m2 m'" using m3 by simp
  have g1: "grows m1 m'" by (rule grows_trans [OF g23 g])
  have g0: "grows m m'" by (rule grows_trans [OF g12 g1])
  have "sub_ID row \<in> dom (map_of (mg_subs m'))"
    if "loadable st row" "sub_TenantID row = ten_ID t"
      "\<not> isl (compileSubscription (lib_uuid_Parse K) (lib_regexp K) (scanSubscription row))" for row
  proof -
    have "sub_ChannelID row \<in> chn_ID ` set chs"
      using that by (force simp: loadable_def chs_set scanChannel_def)
    with m1 that have "sub_ID row \<in> dom (map_of (mg_subs m1))" by blast
    with g1 show ?thesis by (auto simp: grows_def)
  qed
  moreover have "pau_BotAccountID p \<in> set (set_of (mg_pauses m') (pau_ChannelID p))"
    if "p \<in> set (st_pauses st)" "pau_TenantID p = ten_ID t" for p
  proof -
    have "scanPause p \<in> set ps" using that by (simp add: ps_set)
    with m2 have "pau_BotAccountID (scanPause p) \<in> set (set_of (mg_pauses ?m2) (pau_ChannelID (scanPause p)))" by blast
    with g show ?thesis by (auto simp: grows_def scanPause_def)
  qed
  ultimately show ?case using m3 g0 by auto
qed simp

text \<open>A reload that goes through leaves exactly what the database says.\<close>

lemma Reload_exact:
  fixes K :: subops_lib
  assumes ok: "store_ok st" and "ListTenants st = Inr ts"
    and "Reload (lib_uuid_Parse K) (lib_regexp K) st ts m = (m', None)"
  shows "cached m' i = Some live \<longleftrightarrow> (\<exists>row. loadable st row \<and> sub_ID row = i \<and>
           compileSubscription (lib_uuid_Parse K) (lib_regexp K) (scanSubscription row) = Inr live)"
    and "IsBotPaused k b m' \<longleftrightarrow> (\<exists>p \<in> set (st_pauses st). pau_ChannelID p = k \<and> pau_BotAccountID p = b)"
proof -
  have "faithful K st (m\<lparr>mg_subs := [], mg_byChannel := [], mg_pauses := []\<rparr>)" by (simp add: faithful_def set_of_def)
  note eff = reload_tenants_effect [OF assms(3) [unfolded Reload_def] this]
  have ids: "ten_ID ` set ts = ten_ID ` set (st_tenants st)"
    using ListTenants_set [OF assms(2)] by (simp add: image_image scanTenant_def)
  have own: "sub_TenantID row \<in> ten_ID ` set ts" if "loadable st row" for row
    using store_ok_subD [OF ok] that by (auto simp: ids loadable_def table_ok_def)
  have owns: "pau_TenantID p \<in> ten_ID ` set ts" if "p \<in> set (st_pauses st)" for p
    using ok that by (auto simp: ids store_ok_def table_ok_def)
  have fwd: "\<exists>row. loadable st row \<and> sub_ID row = i \<and>
      compileSubscription (lib_uuid_Parse K) (lib_regexp K) (scanSubscription row) = Inr x" if "cached m' i = Some x" for x
    using that conjunct1 [OF eff] by (auto simp: cached_def faithful_def split: option.splits)
  moreover have "cached m' i = Some live" if row: "loadable st row" "sub_ID row = i"
    "compileSubscription (lib_uuid_Parse K) (lib_regexp K) (scanSubscription row) = Inr live" for row
  proof -
    have "sub_ID row \<in> dom (map_of (mg_subs m'))" using eff own [OF row(1)] row by auto
    then obtain x where x: "cached m' i = Some x" by (auto simp: cached_def row(2))
    from fwd [OF this] obtain row' where row': "loadable st row'" "sub_ID row' = i"
      "compileSubscription (lib_uuid_Parse K) (lib_regexp K) (scanSubscription row') = Inr x" by blast
    then have "row' = row" using row_unique [OF ok] row by (auto simp: loadable_def)
    with row row' x show ?thesis by simp
  qed
  ultimately show "cached m' i = Some live \<longleftrightarrow> (\<exists>row. loadable st row \<and> sub_ID row = i \<and>
           compileSubscription (lib_uuid_Parse K) (lib_regexp K) (scanSubscription row) = Inr live)" by blast
  show "IsBotPaused k b m' \<longleftrightarrow> (\<exists>p \<in> set (st_pauses st). pau_ChannelID p = k \<and> pau_BotAccountID p = b)"
    using eff owns unfolding IsBotPaused_set faithful_def by blast
qed

section \<open>Starting the server\<close>

lemma bringUpStorage_Some: "bringUpStorage E url d = Some (p, st) \<Longrightarrow> st = read_db p d"
  by (auto simp: bringUpStorage_def postgres_method_def split: sum.splits backend.splits if_splits)

lemma mgr_ok_New: "mgr_ok (NewManager cf)"
  using mgr_inv_New by (simp add: mgr_inv_def)

text \<open>The steps of \<^verbatim>\<open>serve\<close> that succeeded.\<close>

lemma cmdServe_Inr:
  assumes "cmdServe E K args d = Inr (srv, rest)"
  obtains p tens mgr cfg where
    "sv_store srv = read_db p d" "ListTenants (sv_store srv) = Inr tens" "sv_webhooks srv = Some mgr"
    "Reload (lib_uuid_Parse K) (lib_regexp K) (sv_store srv) tens
       (NewManager \<lparr>cf_Workers = 0, cf_QueueDepth = 0, cf_HTTPTimeout = 0, cf_MaxRetries = 0, cf_AutoDisable4xx = 0\<rparr>) = (mgr, None)"
    "newServer cfg = Inr srv"
    "\<And>rs. rest = Some rs \<Longrightarrow> rs = \<lparr>rs_healthy = False, rs_publisher = True, rs_touches = [], rs_adapters = init_registry, rs_rt = srv\<rparr>"
proof -
  from assms obtain fl p st certs tens mgr where steps:
    "bringUpStorage E (flag_str fl ''storage'' ''sqlite:./prm.db'') d = Some (p, st)" "ListTenants st = Inr tens"
    "Reload (lib_uuid_Parse K) (lib_regexp K) st tens
       (NewManager \<lparr>cf_Workers = 0, cf_QueueDepth = 0, cf_HTTPTimeout = 0, cf_MaxRetries = 0, cf_AutoDisable4xx = 0\<rparr>) = (mgr, None)"
    "newServer \<lparr>scf_Addr = flag_str fl ''addr'' '':6697'', scf_Certificates = Some certs, scf_Store = Some st,
       scf_Name = ''prmd'', scf_Version = version, scf_WebhookMgr = Some mgr\<rparr> = Inr srv"
    and rest: "rest = None \<or> (\<exists>rs. rest = Some rs \<and> New_rest init_registry
       \<lparr>rc_Addr = flag_str fl ''rest-addr'' '':8443'', rc_Certificates = Some certs, rc_Store = Some srv, rc_publisher = True\<rparr> = Inr rs)"
    by (auto simp: cmdServe_def Let_def split: flag_result.splits option.splits prod.splits sum.splits if_splits)
  from steps(4) have srv: "sv_store srv = st" "sv_webhooks srv = Some mgr"
    by (auto simp: newServer_def split: if_splits option.splits)
  from rest have rs: "rs = \<lparr>rs_healthy = False, rs_publisher = True, rs_touches = [], rs_adapters = init_registry, rs_rt = srv\<rparr>"
    if "rest = Some rs" for rs using that by (auto simp: New_rest_def split: if_splits)
  show thesis
    by (rule that [of p tens mgr, OF _ _ _ _ steps(4) rs]) (use bringUpStorage_Some [OF steps(1)] steps(2,3) in \<open>simp_all add: srv\<close>)
qed

section \<open>Properties\<close>

text \<open>
  Property C8. A restart restores the program from its database. When \<^verbatim>\<open>prmd serve\<close> comes up on databases that only
  the program's own statements have written, the realtime server starts in a reachable state of its state machine on
  one of these databases; the webhook manager caches exactly the enabled subscriptions of existing channels that
  compile, each in its compiled form, and pauses exactly the bots with a stored pause; the store and the manager meet
  the invariant of the subscription operations; and the control plane, if any, shares them and is not yet healthy.
\<close>

theorem serve_restores_state:
  assumes "main_prmd E K usage args d = Serving srv rest" and "\<And>q. store_reachable (read_db q d)"
  shows "(\<exists>q. sv_store srv = read_db q d) \<and> reachable srv \<and> world_ok (sub_world srv) \<and>
    (\<exists>mgr. sv_webhooks srv = Some mgr \<and>
       (\<forall>i live. cached mgr i = Some live \<longleftrightarrow> (\<exists>row. loadable (sv_store srv) row \<and> sub_ID row = i \<and>
          compileSubscription (lib_uuid_Parse K) (lib_regexp K) (scanSubscription row) = Inr live)) \<and>
       (\<forall>k b. IsBotPaused k b mgr \<longleftrightarrow> (\<exists>p \<in> set (st_pauses (sv_store srv)). pau_ChannelID p = k \<and> pau_BotAccountID p = b))) \<and>
    (\<forall>rs. rest = Some rs \<longrightarrow> rs_rt rs = srv \<and> rs_adapters rs = init_registry \<and> \<not> rs_healthy rs)"
proof -
  obtain args' where "cmdServe E K args' d = Inr (srv, rest)"
    using assms(1) by (auto simp: main_prmd_def split: list.splits sum.splits if_splits option.splits prod.splits)
  then obtain p tens mgr cfg where serve: "sv_store srv = read_db p d" "ListTenants (sv_store srv) = Inr tens" "sv_webhooks srv = Some mgr"
    "Reload (lib_uuid_Parse K) (lib_regexp K) (sv_store srv) tens
       (NewManager \<lparr>cf_Workers = 0, cf_QueueDepth = 0, cf_HTTPTimeout = 0, cf_MaxRetries = 0, cf_AutoDisable4xx = 0\<rparr>) = (mgr, None)"
    "newServer cfg = Inr srv"
    and rest: "\<And>rs. rest = Some rs \<Longrightarrow> rs = \<lparr>rs_healthy = False, rs_publisher = True, rs_touches = [], rs_adapters = init_registry, rs_rt = srv\<rparr>"
    by (rule cmdServe_Inr) blast
  have ok: "store_ok (sv_store srv)" using reachable_ok assms(2) serve(1) by metis
  have "mgr_ok mgr" using mgr_ok_Reload [OF ok mgr_ok_New] serve(4) by (metis fst_conv)
  then have "world_ok (sub_world srv)" using ok serve(3) by (simp add: world_ok_def opt_ok_def sub_world_def)
  then show ?thesis
    using serve reachable.started [OF serve(5)] Reload_exact [OF ok serve(2,4)] rest by auto
qed

text \<open>A server with its defaults in development mode, on an empty disk.\<close>

definition sample_admin :: admin_env where
  "sample_admin = \<lparr>ad_sqliteOpen = (\<lambda>_. True), ad_uuid_Parse = (\<lambda>s. if s = ''id40'' then Some 40 else None),
     ad_uuid_String = (\<lambda>_. ''id''), ad_sha256 = (\<lambda>p. ''H'' @ p), ad_b64raw = (\<lambda>b. b), ad_now = unix_epoch + 1000000, ad_newV7 = Some 40,
     ad_rand = Some ''raw'', ad_argon = (\<lambda>_ _ _ _ _ _. ''k''), ad_num = Some, ad_aclFails = False, ad_quote = (\<lambda>s. s),
     ad_devCert = (\<lambda>_ _. Some [''cert'']), ad_loadCert = (\<lambda>_ _. None)\<rparr>"

definition sample_subops :: subops_lib where
  "sample_subops = \<lparr>lib_uuid_Parse = (\<lambda>_. None), lib_url_Parse = (\<lambda>_. None), lib_regexp = (\<lambda>_. None)\<rparr>"

lemma read_empty [simp]: "read_db q Map.empty = Migrate"
  by (simp add: read_db_def)

lemma serve_empty: "\<exists>srv rest. main_prmd sample_admin sample_subops [] [''serve'', ''-dev''] Map.empty = Serving srv (Some rest)"
  by (simp add: main_prmd_def cmdServe_def flag_Parse.simps flag_split_def flag_str_def flag_bool_def bringUpStorage_def
      open_Store_def HasPrefix_def TrimPrefix_def sample_admin_def sample_subops_def loadTLS_def ListTenants_def query_rows_def Migrate_def
      Reload_def newServer_def New_rest_def Let_def)

theorem serve_restores_state_witness:
  "\<exists>srv rest. main_prmd sample_admin sample_subops [] [''serve'', ''-dev''] Map.empty = Serving srv (Some rest) \<and>
     reachable srv \<and> rs_rt rest = srv"
proof -
  obtain srv rest where run: "main_prmd sample_admin sample_subops [] [''serve'', ''-dev''] Map.empty = Serving srv (Some rest)"
    using serve_empty by blast
  then show ?thesis using serve_restores_state [OF run] by (simp add: store_reachable.empty)
qed

end
