(* ===== verification/Admin_Safety.thy ===== *)
theory Admin_Safety
  imports Serve_Start
begin

text \<open>
  What the administration commands guarantee: the contract every command meets (the locale \<open>admin_command\<close>), and
  that the credentials they print work on the control plane until they are revoked.
\<close>

section \<open>Statements of a command\<close>

lemma reach_ops:
  "store_reachable st \<Longrightarrow> CreateTenant now nv t st = Inr (st', t') \<Longrightarrow> store_reachable st'"
  "store_reachable st \<Longrightarrow> CreateAccount now nv T a st = Inr (st', a') \<Longrightarrow> store_reachable st'"
  "store_reachable st \<Longrightarrow> CreateChannel now nv T c st = Inr (st', c') \<Longrightarrow> store_reachable st'"
  "store_reachable st \<Longrightarrow> SetChannelACL now T k A role by st = Inr st2 \<Longrightarrow> store_reachable st2"
  "store_reachable st \<Longrightarrow> RemoveChannelACL T k A st = Inr st2 \<Longrightarrow> store_reachable st2"
  "store_reachable st \<Longrightarrow> CreateToken now nv T A h l st = Inr (st', tok) \<Longrightarrow> store_reachable st'"
  "store_reachable st \<Longrightarrow> RevokeToken now T i st = Inr st2 \<Longrightarrow> store_reachable st2"
  "store_reachable st \<Longrightarrow> CreateIntegration now nv T g st = Inr (st', g') \<Longrightarrow> store_reachable st'"
  "store_reachable st \<Longrightarrow> UpdateIntegration T g st = Inr st2 \<Longrightarrow> store_reachable st2"
  using store_reachable.exec [of st "CmdCreateTenant now nv t"] store_reachable.exec [of st "CmdCreateAccount now nv T a"]
    store_reachable.exec [of st "CmdCreateChannel now nv T c"] store_reachable.exec [of st "CmdSetChannelACL now T k A role by"]
    store_reachable.exec [of st "CmdRemoveChannelACL T k A"] store_reachable.exec [of st "CmdCreateToken now nv T A h l"]
    store_reachable.exec [of st "CmdRevokeToken now T i"] store_reachable.exec [of st "CmdCreateIntegration now nv T g"]
    store_reachable.exec [of st "CmdUpdateIntegration T g"]
  by (simp_all add: after_def after_fst_def)

lemma reach_IssueToken:
  "store_reachable st \<Longrightarrow> IssueToken b64 sha r now nv T A l st = Inr (st', p, tok) \<Longrightarrow> store_reachable st'"
  by (auto simp: IssueToken_def Let_def intro: reach_ops split: option.splits sum.splits)

section \<open>The contract of a command\<close>

text \<open>
  What a command does with the database it opened: it runs statements on it; if it fails it prints nothing and has changed
  nothing, or has left what \<open>half\<close> allows.
\<close>

definition lawful :: "(admin_env \<Rightarrow> store \<Rightarrow> store \<Rightarrow> bool) \<Rightarrow> admin_env \<Rightarrow> store \<Rightarrow> store \<times> outcome \<Rightarrow> bool" where
  "lawful half E st r \<longleftrightarrow> (store_reachable st \<longrightarrow> store_reachable (fst r)) \<and>
     (fst (snd r) \<noteq> 0 \<longrightarrow> snd (snd r) = [] \<and> (fst r = st \<or> half E st (fst r)))"

definition nothing :: "admin_env \<Rightarrow> store \<Rightarrow> store \<Rightarrow> bool" where
  "nothing E st st' \<longleftrightarrow> False"

text \<open>
  \<^verbatim>\<open>create-channel\<close> runs two statements outside a transaction: a failure of the second (the store fails in between, or the
  channel got a nil id) leaves the channel's row, and only that.
\<close>

definition orphan :: "admin_env \<Rightarrow> store \<Rightarrow> store \<Rightarrow> bool" where
  "orphan E st st' \<longleftrightarrow> (ad_aclFails E \<or> ad_newV7 E = Some uuid_Nil) \<and> (\<exists>row. st' = st\<lparr>st_channels := st_channels st @ [row]\<rparr>)"

lemma lawful_fail [simp]: "lawful half E st (st, n, [])"
  by (simp add: lawful_def)

lemma lawful_ok: "(store_reachable st \<Longrightarrow> store_reachable st') \<Longrightarrow> lawful half E st (st', 0, out)"
  by (simp add: lawful_def)

lemma lawful_read [simp]: "lawful half E st (st, 0, out)"
  by (rule lawful_ok)

definition shaped :: "(admin_env \<Rightarrow> store \<Rightarrow> store \<Rightarrow> bool) \<Rightarrow> admin_env \<Rightarrow> disk \<Rightarrow> disk \<times> outcome \<Rightarrow> bool" where
  "shaped half E d r \<longleftrightarrow> (\<exists>n out. r = (d, n, out) \<and> (n = 0 \<or> out = [])) \<or>
     (\<exists>fl f. r = with_store E fl d f \<and> (\<forall>st. lawful half E st (f st)))"

lemma shaped_exit [simp]: "shaped half E d (d, n, [])" "shaped half E d (d, 0, out)"
  by (simp_all add: shaped_def)

lemma shaped_store: "(\<And>st. lawful half E st (f st)) \<Longrightarrow> shaped half E d (with_store E fl d f)"
  unfolding shaped_def by blast

lemma with_store_cases:
  assumes "with_store E fl d f = (d', n, out)"
  obtains (closed) "d' = d" "n = 1" "out = []" | (opened) p st' where "d' = write_db p st' d" "f (read_db p d) = (st', n, out)"
    "bringUpStorage E (flag_str fl ''storage'' ''sqlite:./prm.db'') d = Some (p, read_db p d)"
proof (cases "bringUpStorage E (flag_str fl ''storage'' ''sqlite:./prm.db'') d")
  case (Some a)
  obtain p st where a: "a = (p, st)" by fastforce
  obtain st' o' where f: "f st = (st', o')" by (cases "f st")
  have "st = read_db p d" using Some a bringUpStorage_Some by simp
  moreover have "d' = write_db p st' d" "o' = (n, out)" using assms Some a f by (simp_all add: with_store_def)
  ultimately show thesis using opened [of p st'] f Some a by simp
qed (use assms closed in \<open>simp add: with_store_def\<close>)

lemma read_write: "read_db q (write_db p st d) = (if q = p \<and> p \<noteq> '':memory:'' then st else read_db q d)"
  by (simp add: read_db_def write_db_def)

locale admin_command =
  fixes cmd :: "admin_env \<Rightarrow> string list \<Rightarrow> disk \<Rightarrow> disk \<times> outcome"
    and half :: "admin_env \<Rightarrow> store \<Rightarrow> store \<Rightarrow> bool"
  assumes shape: "shaped half E d (cmd E args d)"
begin

lemma effect:
  assumes "cmd E args d = (d', n, out)"
  obtains (same) "d' = d" "n = 0 \<or> out = []"
  | (wrote) p st' where "d' = write_db p st' d" "lawful half E (read_db p d) (st', n, out)"
proof -
  from shape [of E d args, unfolded assms] consider "d' = d" "n = 0 \<or> out = []"
    | fl f where "(d', n, out) = with_store E fl d f" "\<And>st. lawful half E st (f st)"
    by (auto simp: shaped_def)
  then show thesis
  proof cases
    case 2
    from 2(1) [symmetric] show thesis
    proof (cases rule: with_store_cases)
      case (opened p st')
      then show thesis using wrote [of p st'] 2(2) [of "read_db p d"] by simp
    qed (use same in simp)
  qed (use same in blast)
qed

lemma keeps_reachable:
  assumes "cmd E args d = (d', n, out)" and "\<And>q. store_reachable (read_db q d)"
  shows "store_reachable (read_db q d')"
  using assms(1)
proof (cases rule: effect)
  case (wrote p st')
  then show ?thesis using assms(2) by (auto simp: read_write lawful_def)
qed (use assms(2) in simp)

lemma failure_is_silent:
  assumes "cmd E args d = (d', n, out)" and "n \<noteq> 0"
  shows "out = [] \<and> ((\<forall>q. read_db q d' = read_db q d) \<or>
     (\<exists>p. half E (read_db p d) (read_db p d') \<and> (\<forall>q. q \<noteq> p \<longrightarrow> read_db q d' = read_db q d)))"
  using assms(1)
proof (cases rule: effect)
  case (wrote p st')
  then show ?thesis using assms(2) by (cases "p = '':memory:''") (auto simp: read_write lawful_def)
qed (use assms(2) in simp)

lemma one_database:
  assumes "cmd E args d = (d', n, out)"
  shows "\<exists>p. \<forall>q. q \<noteq> p \<longrightarrow> read_db q d' = read_db q d"
  using assms by (cases rule: effect) (auto simp: read_write)

end

section \<open>Every command meets it\<close>

lemmas command_splits = flag_result.split list.split sum.split option.split prod.split

interpretation create_tenant: admin_command cmdCreateTenant nothing
  by unfold_locales (auto simp: cmdCreateTenant_def Let_def intro!: shaped_store lawful_ok intro: reach_ops split: command_splits)

interpretation create_account: admin_command cmdCreateAccount nothing
  by unfold_locales (auto simp: cmdCreateAccount_def Let_def intro!: shaped_store lawful_ok intro: reach_ops split: command_splits)

interpretation list_tenants: admin_command cmdListTenants nothing
  by unfold_locales (auto simp: cmdListTenants_def intro!: shaped_store split: command_splits)

interpretation generate_cert: admin_command cmdGenerateCert nothing
  by unfold_locales (auto simp: cmdGenerateCert_def Let_def split: command_splits)

interpretation grant: admin_command cmdGrant nothing
  by unfold_locales (auto simp: cmdGrant_def intro!: shaped_store lawful_ok intro: reach_ops split: command_splits)

interpretation revoke: admin_command cmdRevoke nothing
  by unfold_locales (auto simp: cmdRevoke_def intro!: shaped_store lawful_ok intro: reach_ops split: command_splits)

interpretation list_channels_cmd: admin_command cmdListChannels nothing
  by unfold_locales (auto simp: cmdListChannels_def intro!: shaped_store split: command_splits)

interpretation issue_token: admin_command cmdIssueToken nothing
  by unfold_locales (auto simp: cmdIssueToken_def Let_def intro!: shaped_store lawful_ok intro: reach_IssueToken split: command_splits)

interpretation revoke_token: admin_command cmdRevokeToken nothing
  by unfold_locales (auto simp: cmdRevokeToken_def intro!: shaped_store lawful_ok intro: reach_ops split: command_splits)

interpretation create_integration: admin_command cmdCreateIntegration nothing
  by unfold_locales (auto simp: cmdCreateIntegration_def Let_def intro!: shaped_store lawful_ok intro: reach_ops split: command_splits)

interpretation list_integrations: admin_command cmdListIntegrations nothing
  by unfold_locales (auto simp: cmdListIntegrations_def intro!: shaped_store split: command_splits)

interpretation revoke_integration: admin_command cmdRevokeIntegration nothing
  by unfold_locales (auto simp: cmdRevokeIntegration_def Let_def intro!: shaped_store lawful_ok intro: reach_ops split: command_splits)

text \<open>The owner's entry of a channel that has just been created can be written.\<close>

lemma owner_acl_ok:
  assumes "CreateChannel now nv T c0 st = Inr (st1, ch)" and "nv \<noteq> Some uuid_Nil" and "chn_ID c0 = uuid_Nil" and "role \<noteq> ''''"
  shows "\<exists>st2. SetChannelACL now' T (chn_ID ch) (chn_OwnerID c0) role by st1 = Inr st2"
  using assms by (auto simp: CreateChannel_def SetChannelACL_def exec_insert_def or_new_def Let_def
      split: option.splits sum.splits if_splits)

lemma CreateChannel_row: "CreateChannel now nv T c0 st = Inr (st1, ch) \<Longrightarrow> \<exists>row. st1 = st\<lparr>st_channels := st_channels st @ [row]\<rparr>"
  by (auto simp: CreateChannel_def Let_def split: option.splits sum.splits if_splits)

lemma reach_acl_fails:
  assumes "store_reachable st1" and "SetChannelACL now T k A role by (st1\<lparr>st_down := st_down st1 \<or> b\<rparr>) = Inr st2"
  shows "store_reachable st2"
  by (rule reach_ops(4) [OF store_reachable.outage [OF assms(1)] assms(2)])

lemma create_channel_lawful:
  assumes "CreateChannel (ad_now E) (ad_newV7 E) T \<lparr>chn_ID = uuid_Nil, chn_TenantID = uuid_Nil, chn_Name = n, chn_OwnerID = A,
      chn_Visibility = v, chn_CreatedAt = 0\<rparr> st = Inr (st1, ch)"
  defines "acl \<equiv> SetChannelACL (ad_now E) T (chn_ID ch) A RoleOwner A (st1\<lparr>st_down := st_down st1 \<or> ad_aclFails E\<rparr>)"
  shows "acl = Inl e \<Longrightarrow> lawful orphan E st (st1, n1, [])" and "acl = Inr st2 \<Longrightarrow> lawful orphan E st (st2, 0, out)"
proof -
  have ok: "\<exists>st2. acl = Inr st2" if "\<not> ad_aclFails E" "ad_newV7 E \<noteq> Some uuid_Nil"
  proof -
    have "st1\<lparr>st_down := st_down st1\<rparr> = st1" by simp
    then show ?thesis
      using owner_acl_ok [OF assms(1), of RoleOwner] that by (simp add: RoleOwner_def acl_def)
  qed
  have reach: "store_reachable st1" if "store_reachable st" by (rule reach_ops(3) [OF that assms(1)])
  show "lawful orphan E st (st1, n1, [])" if "acl = Inl e"
  proof -
    have "orphan E st st1" using ok that CreateChannel_row [OF assms(1)] by (auto simp: orphan_def)
    then show ?thesis using reach by (simp add: lawful_def)
  qed
  show "lawful orphan E st (st2, 0, out)" if "acl = Inr st2"
    using reach reach_acl_fails that unfolding acl_def by (blast intro: lawful_ok)
qed

interpretation create_channel: admin_command cmdCreateChannel orphan
  by unfold_locales (auto simp: cmdCreateChannel_def Let_def intro!: shaped_store create_channel_lawful split: command_splits)

text \<open>The table of commands as a whole.\<close>

lemmas commands = create_tenant.admin_command_axioms create_account.admin_command_axioms list_tenants.admin_command_axioms
  generate_cert.admin_command_axioms grant.admin_command_axioms revoke.admin_command_axioms list_channels_cmd.admin_command_axioms
  issue_token.admin_command_axioms revoke_token.admin_command_axioms create_integration.admin_command_axioms
  list_integrations.admin_command_axioms revoke_integration.admin_command_axioms create_channel.admin_command_axioms

definition half_of :: "string \<Rightarrow> admin_env \<Rightarrow> store \<Rightarrow> store \<Rightarrow> bool" where
  "half_of name = (if name = ''create-channel'' then orphan else nothing)"

lemma admin_cmd_command: "admin_cmd name = Some f \<Longrightarrow> admin_command f (half_of name)"
  by (auto simp: admin_cmd_def half_of_def commands split: if_splits)

lemma main_prmd_Exits:
  assumes "main_prmd E K usage args d = Exits d' n out"
  obtains (command) name f args' where "args = ''admin'' # name # args'" "admin_command f (half_of name)" "f E args' d = (d', n, out)"
  | (quiet) "d' = d" "n = 0 \<or> out = []"
proof -
  from assms consider "d' = d" "n = 0 \<or> out = []"
    | name f args' where "args = ''admin'' # name # args'" "admin_cmd name = Some f" "f E args' d = (d', n, out)"
    by (auto simp: main_prmd_def split: list.splits sum.splits if_splits option.splits prod.splits)
  then show thesis using that admin_cmd_command by cases blast+
qed

section \<open>Properties\<close>

text \<open>
  Property C37. A command that fails has done nothing, with one exception. Whenever a run of \<^verbatim>\<open>prmd\<close> ends with a non-zero status before
  any server listens, standard output is empty, and every database on the disk reads as before; or the run was
  \<^verbatim>\<open>create-channel\<close>, its second statement failed after the first one went through (the store failed in between, or the fresh
  channel id was nil), and then the database it opened has exactly one more channel row, with no owner's entry beside
  it, while every other database reads as before.
\<close>

theorem failed_command_effect:
  assumes "main_prmd E K usage args d = Exits d' n out" and "n \<noteq> 0"
  shows "out = [] \<and> ((\<forall>q. read_db q d' = read_db q d) \<or>
     (\<exists>rest p row. args = ''admin'' # ''create-channel'' # rest \<and> (ad_aclFails E \<or> ad_newV7 E = Some uuid_Nil) \<and>
        read_db p d' = (read_db p d)\<lparr>st_channels := st_channels (read_db p d) @ [row]\<rparr> \<and>
        (\<forall>q. q \<noteq> p \<longrightarrow> read_db q d' = read_db q d)))"
  using assms(1)
proof (cases rule: main_prmd_Exits)
  case (command name f args')
  note silent = admin_command.failure_is_silent [OF command(2,3) assms(2)]
  show ?thesis
  proof (cases "\<forall>q. read_db q d' = read_db q d")
    case False
    with silent obtain p where p: "half_of name E (read_db p d) (read_db p d')" "\<forall>q. q \<noteq> p \<longrightarrow> read_db q d' = read_db q d" by blast
    then have "name = ''create-channel''" "orphan E (read_db p d) (read_db p d')"
      by (auto simp: half_of_def nothing_def split: if_splits)
    with p(2) silent command(1) show ?thesis unfolding orphan_def by blast
  qed (use silent in blast)
qed (use assms(2) in simp)

theorem failed_command_effect_witness:
  "\<exists>d'. main_prmd sample_admin sample_subops [] [''admin'', ''revoke-token'', ''acme'', ''id40''] Map.empty = Exits d' 1 [] \<and>
     read_db ''./prm.db'' d' = Migrate"
proof -
  have "\<exists>d'. main_prmd sample_admin sample_subops [] [''admin'', ''revoke-token'', ''acme'', ''id40''] Map.empty = Exits d' 1 []"
    by (simp add: main_prmd_def admin_cmd_def cmdRevokeToken_def with_store_def flag_Parse.simps flag_str_def bringUpStorage_def
        open_Store_def HasPrefix_def TrimPrefix_def sample_admin_def GetTenantBySlug_def query_row_def Migrate_def Let_def)
  then show ?thesis
    using failed_command_effect [of sample_admin sample_subops "[]" "[''admin'', ''revoke-token'', ''acme'', ''id40'']" Map.empty _ 1 "[]"] by fastforce
qed

text \<open>
  The commands keep the databases: if every database on the disk was written by the program's statements
  only, so is every one after any run of \<^verbatim>\<open>prmd\<close> that exits, which gives the schema's invariant for each of them; and
  a run touches at most one database.
\<close>

theorem commands_keep_databases:
  assumes "main_prmd E K usage args d = Exits d' n out" and "\<And>q. store_reachable (read_db q d)"
  shows "(\<forall>q. store_reachable (read_db q d') \<and> store_ok (read_db q d')) \<and> (\<exists>p. \<forall>q. q \<noteq> p \<longrightarrow> read_db q d' = read_db q d)"
  using assms(1)
proof (cases rule: main_prmd_Exits)
  case (command name f args')
  then show ?thesis using admin_command.keeps_reachable [OF _ _ assms(2)] admin_command.one_database reachable_ok by metis
qed (use assms(2) reachable_ok in auto)

lemma created_tenant:
  "\<exists>d' out. main_prmd sample_admin sample_subops [] [''admin'', ''create-tenant'', ''acme''] Map.empty = Exits d' 0 out \<and>
     st_tenants (read_db ''./prm.db'' d') \<noteq> []"
  by (simp add: main_prmd_def admin_cmd_def cmdCreateTenant_def with_store_def flag_Parse.simps flag_str_def bringUpStorage_def
      open_Store_def HasPrefix_def TrimPrefix_def sample_admin_def CreateTenant_def or_new_def Migrate_def read_write Let_def)

theorem commands_keep_databases_witness:
  "\<exists>d' out. main_prmd sample_admin sample_subops [] [''admin'', ''create-tenant'', ''acme''] Map.empty = Exits d' 0 out \<and>
     st_tenants (read_db ''./prm.db'' d') \<noteq> [] \<and> store_ok (read_db ''./prm.db'' d')"
proof -
  obtain d' out where run: "main_prmd sample_admin sample_subops [] [''admin'', ''create-tenant'', ''acme''] Map.empty = Exits d' 0 out"
    and new: "st_tenants (read_db ''./prm.db'' d') \<noteq> []"
    using created_tenant by blast
  show ?thesis using commands_keep_databases [OF run] run new by (simp add: store_reachable.empty)
qed

end
