(* ===== verification/Store_Life.thy ===== *)
theory Store_Life
  imports Store_Integrity
begin

text \<open>
  What outlives the statements of the store (\<^verbatim>\<open>internal/storage/sqlite/sqlite.go\<close>): tenants and accounts are only ever added; a
  token stays valid until a statement revokes it; an integration keeps its state until a statement updates or deletes it.
\<close>

lemma exec_cmd_down [simp]: "st_down (exec_cmd c s) = st_down s"
  by (cases c) (auto simp: cmd_defs after_defs split: cmd_splits)

lemma run_cmds_down [simp]: "st_down (run_cmds cs s) = st_down s"
  unfolding run_cmds_def by (induction cs arbitrary: s) simp_all

text \<open>Tables that only grow.\<close>

lemma exec_cmd_tenants: "\<exists>new. st_tenants (exec_cmd c s) = st_tenants s @ new"
  by (cases c) (auto simp: cmd_defs after_defs split: cmd_splits)

lemma exec_cmd_accounts: "\<exists>new. st_accounts (exec_cmd c s) = st_accounts s @ new"
  by (cases c) (auto simp: cmd_defs after_defs split: cmd_splits)

lemma run_cmds_tenants: "\<exists>new. st_tenants (run_cmds cs s) = st_tenants s @ new"
proof (induction cs arbitrary: s)
  case (Cons c cs)
  obtain a b where "st_tenants (exec_cmd c s) = st_tenants s @ a" "st_tenants (run_cmds cs (exec_cmd c s)) = st_tenants (exec_cmd c s) @ b"
    using exec_cmd_tenants Cons by metis
  then show ?case by (simp add: run_cmds_def)
qed (simp add: run_cmds_def)

lemma run_cmds_accounts: "\<exists>new. st_accounts (run_cmds cs s) = st_accounts s @ new"
proof (induction cs arbitrary: s)
  case (Cons c cs)
  obtain a b where "st_accounts (exec_cmd c s) = st_accounts s @ a" "st_accounts (run_cmds cs (exec_cmd c s)) = st_accounts (exec_cmd c s) @ b"
    using exec_cmd_accounts Cons by metis
  then show ?case by (simp add: run_cmds_def)
qed (simp add: run_cmds_def)

lemma find_append_Some: "find P xs = Some r \<Longrightarrow> find P (xs @ ys) = Some r"
  by (induction xs) auto

lemma query_row_grows:
  "query_row s P scan xs = Inr a \<Longrightarrow> st_down s' = st_down s \<Longrightarrow> query_row s' P scan (xs @ ys) = Inr a"
  by (auto simp: query_row_def find_append_Some split: if_splits option.splits)

lemma names_persist:
  shows "GetTenantBySlug slug s = Inr ten \<Longrightarrow> GetTenantBySlug slug (run_cmds cs s) = Inr ten"
    and "GetTenantByID T s = Inr ten \<Longrightarrow> GetTenantByID T (run_cmds cs s) = Inr ten"
    and "GetAccountByID T A s = Inr acc \<Longrightarrow> GetAccountByID T A (run_cmds cs s) = Inr acc"
proof -
  obtain x y where g: "st_tenants (run_cmds cs s) = st_tenants s @ x" "st_accounts (run_cmds cs s) = st_accounts s @ y"
    using run_cmds_tenants run_cmds_accounts by metis
  show "GetTenantBySlug slug s = Inr ten \<Longrightarrow> GetTenantBySlug slug (run_cmds cs s) = Inr ten"
    "GetTenantByID T s = Inr ten \<Longrightarrow> GetTenantByID T (run_cmds cs s) = Inr ten"
    "GetAccountByID T A s = Inr acc \<Longrightarrow> GetAccountByID T A (run_cmds cs s) = Inr acc"
    unfolding GetTenantBySlug_def GetTenantByID_def GetAccountByID_def g by (simp_all add: query_row_grows)
qed

section \<open>A token until it is revoked\<close>

lemma find_map_same:
  assumes "find P xs = Some r" and "\<And>x. \<not> P x \<Longrightarrow> \<not> P (f x)" and "P (f r)"
  shows "find P (map f xs) = Some (f r)"
  using assms(1) by (induction xs) (use assms(2,3) in \<open>auto split: if_splits\<close>)

definition token_live :: "bytes \<Rightarrow> uuid \<Rightarrow> uuid \<Rightarrow> uuid \<Rightarrow> store \<Rightarrow> bool" where
  "token_live h i T A s \<longleftrightarrow> (\<exists>r. find (\<lambda>r. tok_Hash r = h \<and> tok_RevokedAt r = 0) (st_tokens s) = Some r \<and>
     tok_ID r = i \<and> tok_TenantID r = T \<and> tok_AccountID r = A)"

lemma token_live_same: "token_live h i T A s \<Longrightarrow> st_tokens s' = st_tokens s @ new \<Longrightarrow> token_live h i T A s'"
  by (auto simp: token_live_def find_append_Some)

lemma token_live_map:
  assumes "token_live h i T A s" and "\<And>x. tok_Hash (f x) = tok_Hash x" "\<And>x. tok_RevokedAt x \<noteq> 0 \<Longrightarrow> tok_RevokedAt (f x) \<noteq> 0"
    and "\<And>x. tok_ID (f x) = tok_ID x \<and> tok_TenantID (f x) = tok_TenantID x \<and> tok_AccountID (f x) = tok_AccountID x"
    and "\<And>x. tok_ID x = i \<Longrightarrow> tok_TenantID x = T \<Longrightarrow> tok_RevokedAt (f x) = tok_RevokedAt x"
  shows "token_live h i T A (s\<lparr>st_tokens := map f (st_tokens s)\<rparr>)"
proof -
  obtain r where r: "find (\<lambda>r. tok_Hash r = h \<and> tok_RevokedAt r = 0) (st_tokens s) = Some r"
    "tok_ID r = i" "tok_TenantID r = T" "tok_AccountID r = A"
    using assms(1) by (auto simp: token_live_def)
  then have "tok_Hash r = h" "tok_RevokedAt r = 0" by (auto simp: find_Some_iff)
  then have "find (\<lambda>r. tok_Hash r = h \<and> tok_RevokedAt r = 0) (map f (st_tokens s)) = Some (f r)"
    using assms(2,3,5) r by (intro find_map_same) auto
  with r assms(4) show ?thesis by (simp add: token_live_def)
qed

text \<open>A statement maps the rows it finds: identities stay, a revoked token stays revoked, and only a revocation revokes.\<close>

definition token_map :: "store_cmd \<Rightarrow> (Token \<Rightarrow> Token) \<Rightarrow> bool" where
  "token_map c f \<longleftrightarrow> (\<forall>r. tok_ID (f r) = tok_ID r \<and> tok_Hash (f r) = tok_Hash r \<and> tok_TenantID (f r) = tok_TenantID r \<and>
     tok_AccountID (f r) = tok_AccountID r \<and> (tok_RevokedAt r \<noteq> 0 \<longrightarrow> tok_RevokedAt (f r) \<noteq> 0) \<and>
     ((\<forall>now. c \<noteq> CmdRevokeToken now (tok_TenantID r) (tok_ID r)) \<longrightarrow> tok_RevokedAt (f r) = tok_RevokedAt r))"

lemma exec_cmd_tokens: "\<exists>f new. st_tokens (exec_cmd c s) = map f (st_tokens s) @ new \<and> token_map c f"
proof -
  have id: ?thesis if "st_tokens (exec_cmd c s) = st_tokens s @ new" for new
    using that by (intro exI [of _ id] exI [of _ new]) (simp add: token_map_def)
  have mapped: ?thesis if "token_map c f" "st_tokens (exec_cmd c s) = map f (st_tokens s) \<or> st_tokens (exec_cmd c s) = st_tokens s" for f
    using that(2)
  proof
    assume "st_tokens (exec_cmd c s) = map f (st_tokens s)"
    with that(1) show ?thesis by (intro exI [of _ f] exI [of _ "[]"]) simp
  qed (intro id [of "[]"], simp)
  show ?thesis
  proof (cases c)
    case (CmdRevokeToken now T' i')
    let ?f = "\<lambda>r. if tok_TenantID r = T' \<and> tok_ID r = i' \<and> tok_RevokedAt r = 0 then r\<lparr>tok_RevokedAt := UnixMicro now\<rparr> else r"
    have "token_map c ?f" by (auto simp: token_map_def CmdRevokeToken)
    moreover have "st_tokens (exec_cmd c s) = map ?f (st_tokens s) \<or> st_tokens (exec_cmd c s) = st_tokens s"
      by (auto simp: CmdRevokeToken RevokeToken_def after_def Let_def)
    ultimately show ?thesis by (rule mapped)
  next
    case (CmdTouchTokenLastUsed now i')
    let ?f = "\<lambda>r. if tok_ID r = i' then r\<lparr>tok_LastUsedAt := UnixMicro now\<rparr> else r"
    have "token_map c ?f" by (auto simp: token_map_def)
    moreover have "st_tokens (exec_cmd c s) = map ?f (st_tokens s) \<or> st_tokens (exec_cmd c s) = st_tokens s"
      by (auto simp: CmdTouchTokenLastUsed TouchTokenLastUsed_def after_def)
    ultimately show ?thesis by (rule mapped)
  next
    case (CmdCreateToken now nv T' A' h' l)
    then have "\<exists>new. st_tokens (exec_cmd c s) = st_tokens s @ new"
      by (auto simp: CreateToken_def after_defs split: cmd_splits)
    then show ?thesis using id by blast
  qed (rule id [of "[]"]; auto simp: cmd_defs after_defs split: cmd_splits)+
qed

lemma token_live_exec:
  assumes "token_live h i T A s" and "\<And>now. c \<noteq> CmdRevokeToken now T i"
  shows "token_live h i T A (exec_cmd c s)"
proof -
  obtain f new where f: "st_tokens (exec_cmd c s) = map f (st_tokens s) @ new" "token_map c f" using exec_cmd_tokens by blast
  have "token_live h i T A (s\<lparr>st_tokens := map f (st_tokens s)\<rparr>)"
    by (rule token_live_map [OF assms(1)]) (use f(2) assms(2) in \<open>auto simp: token_map_def\<close>)
  then show ?thesis by (rule token_live_same) (simp add: f(1))
qed

lemma token_live_run:
  "token_live h i T A s \<Longrightarrow> (\<And>now. CmdRevokeToken now T i \<notin> set cs) \<Longrightarrow> token_live h i T A (run_cmds cs s)"
proof (induction cs arbitrary: s)
  case (Cons c cs)
  have "token_live h i T A (exec_cmd c s)" using Cons.prems by (intro token_live_exec) auto
  from Cons.IH [OF this] Cons.prems(2) show ?case by (simp add: run_cmds_def)
qed (simp add: run_cmds_def)

lemma token_live_lookup:
  assumes "token_live h i T A s" and "\<not> st_down s"
  obtains tok where "GetTokenByHash h s = Inr tok" "tok_ID tok = i" "tok_TenantID tok = T" "tok_AccountID tok = A"
proof -
  obtain r where r: "find (\<lambda>r. tok_Hash r = h \<and> tok_RevokedAt r = 0) (st_tokens s) = Some r"
    "tok_ID r = i" "tok_TenantID r = T" "tok_AccountID r = A"
    using assms(1) by (auto simp: token_live_def)
  show thesis
    by (rule that [of "scanToken r"]) (use r assms(2) in \<open>simp_all add: GetTokenByHash_def query_row_def scanToken_def\<close>)
qed

lemma token_live_found:
  "GetTokenByHash h s = Inr t \<Longrightarrow> token_live h (tok_ID t) (tok_TenantID t) (tok_AccountID t) s \<and> \<not> st_down s"
  by (auto simp: token_live_def GetTokenByHash_def query_row_def scanToken_def split: if_splits option.splits)

text \<open>No statement removes the row of a token, nor changes its hash.\<close>

definition token_kept :: "bytes \<Rightarrow> uuid \<Rightarrow> store \<Rightarrow> bool" where
  "token_kept h i s \<longleftrightarrow> (\<exists>r \<in> set (st_tokens s). tok_ID r = i \<and> tok_Hash r = h)"

lemma token_kept_run: "token_kept h i s \<Longrightarrow> token_kept h i (run_cmds cs s)"
proof (induction cs arbitrary: s)
  case (Cons c cs)
  obtain f new where "st_tokens (exec_cmd c s) = map f (st_tokens s) @ new" "token_map c f" using exec_cmd_tokens by blast
  then have "token_kept h i (exec_cmd c s)" using Cons.prems by (auto simp: token_kept_def token_map_def)
  from Cons.IH [OF this] show ?case by (simp add: run_cmds_def)
qed (simp add: run_cmds_def)

section \<open>An integration until it is updated or deleted\<close>

definition spares :: "uuid \<Rightarrow> uuid \<Rightarrow> store_cmd \<Rightarrow> bool" where
  "spares T i c \<longleftrightarrow> (\<forall>g. c = CmdUpdateIntegration T g \<longrightarrow> int_ID g \<noteq> i) \<and> c \<noteq> CmdDeleteIntegration T i"

text \<open>Apart from the order of the others, the row stays what it is.\<close>

lemma integ_exec:
  assumes "row \<in> set (st_integs s)" and "spares (int_TenantID row) (int_ID row) c"
  shows "row \<in> set (st_integs (exec_cmd c s))"
  using assms by (cases c) (auto simp: spares_def cmd_defs after_defs image_iff split: cmd_splits)

lemma integ_run:
  "row \<in> set (st_integs s) \<Longrightarrow> list_all (spares (int_TenantID row) (int_ID row)) cs \<Longrightarrow> row \<in> set (st_integs (run_cmds cs s))"
proof (induction cs arbitrary: s)
  case (Cons c cs)
  then have "row \<in> set (st_integs (exec_cmd c s))" by (intro integ_exec) simp_all
  from Cons.IH [OF this] Cons.prems(2) show ?case by (simp add: run_cmds_def)
qed (simp add: run_cmds_def)

lemma integ_row_unique:
  assumes "store_ok s" and "a \<in> set (st_integs s)" "b \<in> set (st_integs s)" and "int_TokenHash a = int_TokenHash b \<or> int_ID a = int_ID b"
  shows "a = b"
  using assms table_ok_key_inj [of _ int_TokenHash int_TenantID "st_integs s" a b] table_ok_key_inj [of _ int_ID int_TenantID "st_integs s" a b]
  by (auto simp: store_ok_def)

text \<open>What the row of an integration makes of a request with its token.\<close>

lemma integ_lookup:
  assumes "store_ok s" and "\<not> st_down s" and "row \<in> set (st_integs s)"
  shows "GetIntegrationByTokenHash (int_TokenHash row) s = (if int_DisabledAt row = 0 then Inr (scanIntegration row) else Inl ErrNotFound)"
proof (cases "int_DisabledAt row = 0")
  case True
  have "find (\<lambda>r. int_TokenHash r = int_TokenHash row \<and> int_DisabledAt r = 0) (st_integs s) \<noteq> None"
    using True assms(3) by (auto simp: find_None_iff)
  then obtain r where r: "find (\<lambda>r. int_TokenHash r = int_TokenHash row \<and> int_DisabledAt r = 0) (st_integs s) = Some r" by blast
  then have "r \<in> set (st_integs s)" "int_TokenHash r = int_TokenHash row" by (auto simp: find_Some_iff)
  then have "r = row" using integ_row_unique [OF assms(1) _ assms(3)] by blast
  with r True assms(2) show ?thesis by (simp add: GetIntegrationByTokenHash_def query_row_def)
next
  case False
  then have "find (\<lambda>r. int_TokenHash r = int_TokenHash row \<and> int_DisabledAt r = 0) (st_integs s) = None"
    using integ_row_unique [OF assms(1) _ assms(3)] by (auto simp: find_None_iff)
  with False assms(2) show ?thesis by (simp add: GetIntegrationByTokenHash_def query_row_def)
qed

end
