(* ===== verification/Credentials.thy ===== *)
theory Credentials
  imports Admin_Safety Store_Life
begin

text \<open>
  From the command line to the servers: the bot tokens, integration tokens and channel roles that the administration
  commands hand out take effect on the control plane and the realtime server, and their revocation takes them back.
\<close>

section \<open>Rows that were just written\<close>

lemma CreateIntegration_live:
  assumes "CreateIntegration now newV7 T g0 st = Inr (st', g)" and "int_DisabledAt g0 = 0"
  shows "GetIntegrationByTokenHash (int_TokenHash g0) st' = Inr (scanIntegration (int_row g))"
    and "int_row g \<in> set (st_integs st')" "st' = st\<lparr>st_integs := st_integs st'\<rparr>"
    and "int_TenantID g = T" "int_ChannelID g = int_ChannelID g0" "int_Adapter g = int_Adapter g0" "int_DisabledAt g = 0"
    and "int_TokenHash g = int_TokenHash g0"
proof -
  have st': "st' = st\<lparr>st_integs := st_integs st @ [int_row g]\<rparr>" and up: "\<not> st_down st"
    and fresh: "\<forall>r \<in> set (st_integs st). int_TokenHash r \<noteq> int_TokenHash g0"
    and g: "int_TokenHash (int_row g) = int_TokenHash g0" "int_DisabledAt (int_row g) = 0"
      "int_TenantID g = T" "int_ChannelID g = int_ChannelID g0" "int_Adapter g = int_Adapter g0" "int_DisabledAt g = 0"
      "int_TokenHash g = int_TokenHash g0"
    using assms by (auto simp: CreateIntegration_def exec_insert_def Let_def int_row_def nullable_micro_def IsZero_def
        split: option.splits sum.splits if_splits)
  show "int_row g \<in> set (st_integs st')" "st' = st\<lparr>st_integs := st_integs st'\<rparr>" by (simp_all add: st')
  show "int_TenantID g = T" "int_ChannelID g = int_ChannelID g0" "int_Adapter g = int_Adapter g0" "int_DisabledAt g = 0"
    "int_TokenHash g = int_TokenHash g0" by (fact g)+
  have "find (\<lambda>r. int_TokenHash r = int_TokenHash g0 \<and> int_DisabledAt r = 0) (st_integs st @ [int_row g]) = Some (int_row g)"
    using fresh g by (intro find_snoc) auto
  then show "GetIntegrationByTokenHash (int_TokenHash g0) st' = Inr (scanIntegration (int_row g))"
    using up by (simp add: GetIntegrationByTokenHash_def query_row_Inr st')
qed

text \<open>Writing other tables does not change whom a name or an id stands for.\<close>

lemma lookups_frame:
  "GetTenantBySlug slug (st\<lparr>st_tokens := x\<rparr>) = GetTenantBySlug slug st"
  "GetTenantBySlug slug (st\<lparr>st_integs := y\<rparr>) = GetTenantBySlug slug st"
  "GetTenantBySlug slug (st\<lparr>st_acl := z\<rparr>) = GetTenantBySlug slug st"
  "GetAccountByUsername T u (st\<lparr>st_tokens := x\<rparr>) = GetAccountByUsername T u st"
  "GetAccountByUsername T u (st\<lparr>st_acl := z\<rparr>) = GetAccountByUsername T u st"
  "GetChannelByName T n (st\<lparr>st_integs := y\<rparr>) = GetChannelByName T n st"
  "GetChannelByName T n (st\<lparr>st_acl := z\<rparr>) = GetChannelByName T n st"
  by (simp_all add: GetTenantBySlug_def GetAccountByUsername_def GetChannelByName_def query_row_def)

section \<open>Command lines\<close>

definition positional :: "string \<Rightarrow> bool" where
  "positional a \<longleftrightarrow> length a < 2 \<or> hd a \<noteq> CHR ''-''"

text \<open>The command line of a subcommand on the SQLite database at \<open>p\<close>.\<close>

definition sqlite_url :: "string \<Rightarrow> string" where
  "sqlite_url p = ''sqlite:'' @ p"

abbreviation on_db :: "string \<Rightarrow> string list \<Rightarrow> string list" where
  "on_db p args \<equiv> ''-storage'' # sqlite_url p # args"

lemma flag_Parse_positional: "positional a \<Longrightarrow> flag_Parse formal vals (a # args) = Flags vals (a # args)"
  by (auto simp: positional_def flag_Parse.simps)

lemma flag_Parse_on_db:
  assumes "map_of formal ''storage'' = Some False" and "positional a"
  shows "flag_Parse formal [] (on_db p (a # args)) = Flags [(''storage'', sqlite_url p)] (a # args)"
proof -
  have "flag_Parse formal [] (on_db p (a # args)) = flag_Parse formal [(''storage'', sqlite_url p)] (a # args)"
    using assms(1) by (simp add: flag_Parse.simps(2) [of formal "[]" "''-storage''"] flag_split_def)
  then show ?thesis using assms(2) by (simp add: flag_Parse_positional)
qed

lemma with_store_on_db:
  assumes "with_store E [(''storage'', sqlite_url p)] d f = (d', 0, out)" and "p \<noteq> '':memory:''"
  shows "f (read_db p d) = (read_db p d', 0, out)"
  using assms(1)
proof (cases rule: with_store_cases)
  case (opened q st')
  then have "q = p" by (auto simp: bringUpStorage_def sqlite_url_def flag_str_def open_Store_def HasPrefix_def TrimPrefix_def split: if_splits)
  with opened assms(2) show ?thesis by (simp add: read_write)
qed simp

section \<open>What a command did\<close>

lemma cmdIssueToken_on_db:
  assumes "cmdIssueToken E (on_db p [slug, user]) d = (d', 0, out)" and "positional slug" and "p \<noteq> '':memory:''"
  obtains ten acc plaintext tok mid where "GetTenantBySlug slug (read_db p d) = Inr ten"
    "GetAccountByUsername (ten_ID ten) user (read_db p d) = Inr acc" "acc_Type acc = AccountBot"
    "IssueToken (ad_b64raw E) (ad_sha256 E) (ad_rand E) (ad_now E) (ad_newV7 E) (ten_ID ten) (acc_ID acc) '''' (read_db p d)
       = Inr (read_db p d', plaintext, tok)"
    "out = line ''Issued token (shown ONCE -- save it now)'' @ line (''  Token ID:    '' @ ad_uuid_String E (tok_ID tok)) @ mid @
       line (''  TOKEN:       '' @ plaintext)"
proof -
  have "flag_Parse [(''label'', False), storage_flag] [] (on_db p [slug, user]) = Flags [(''storage'', sqlite_url p)] [slug, user]"
    by (rule flag_Parse_on_db) (simp_all add: assms(2))
  note run = assms(1) [unfolded cmdIssueToken_def this flag_result.case list.case Let_def]
  show thesis using with_store_on_db [OF run assms(3)] that
    by (auto simp: flag_str_def split: sum.splits if_splits)
qed

lemma cmdRevokeToken_on_db:
  assumes "cmdRevokeToken E (on_db p [slug, text]) d = (d', 0, out)" and "positional slug" and "p \<noteq> '':memory:''"
    and "ad_uuid_Parse E text = Some i" and "GetTenantBySlug slug (read_db p d) = Inr ten"
  shows "RevokeToken (ad_now E) (ten_ID ten) i (read_db p d) = Inr (read_db p d')"
proof -
  have "flag_Parse [storage_flag] [] (on_db p [slug, text]) = Flags [(''storage'', sqlite_url p)] [slug, text]"
    by (rule flag_Parse_on_db) (simp_all add: assms(2))
  note run = assms(1) [unfolded cmdRevokeToken_def this flag_result.case list.case assms(4) option.case]
  show ?thesis using with_store_on_db [OF run assms(3)] assms(5) by (auto split: sum.splits)
qed

lemma cmdCreateIntegration_on_db:
  assumes "cmdCreateIntegration E (on_db p [slug, chan, user, adapter]) d = (d', 0, out)" and "positional slug" and "p \<noteq> '':memory:''"
    and "ad_rand E = Some raw"
  obtains ten ch owner g mid where "GetTenantBySlug slug (read_db p d) = Inr ten"
    "GetChannelByName (ten_ID ten) chan (read_db p d) = Inr ch" "GetAccountByUsername (ten_ID ten) user (read_db p d) = Inr owner"
    "CreateIntegration (ad_now E) (ad_newV7 E) (ten_ID ten) \<lparr>int_ID = uuid_Nil, int_TenantID = uuid_Nil,
       int_ChannelID = chn_ID ch, int_AccountID = acc_ID owner, int_Adapter = adapter,
       int_TokenHash = ad_sha256 E (ad_b64raw E raw), int_SettingsJSON = ''{}'', int_DisabledAt = 0, int_CreatedAt = 0\<rparr> (read_db p d)
     = Inr (read_db p d', g)"
    "out = line ''Created integration (token shown ONCE -- save it now)'' @ line (''  ID:       '' @ ad_uuid_String E (int_ID g)) @ mid @
       line (''  TOKEN:    '' @ ad_b64raw E raw)"
proof -
  have parse: "flag_Parse [(''settings'', False), storage_flag] [] (on_db p [slug, chan, user, adapter]) =
      Flags [(''storage'', sqlite_url p)] [slug, chan, user, adapter]"
    by (rule flag_Parse_on_db) (simp_all add: assms(2))
  have settings: "flag_str [(''storage'', sqlite_url p)] ''settings'' '''' = ''''" "settings_ok E '''' = True"
    by (simp_all add: flag_str_def settings_ok_def)
  note run = assms(1) [unfolded cmdCreateIntegration_def parse flag_result.case list.case Let_def settings
      not_True_eq_False if_False assms(4) option.case]
  show thesis using with_store_on_db [OF run assms(3)] that by (auto split: sum.splits)
qed

lemma cmdRevokeIntegration_on_db:
  assumes "cmdRevokeIntegration E (on_db p [slug, text]) d = (d', 0, out)" and "positional slug" and "p \<noteq> '':memory:''"
    and "ad_uuid_Parse E text = Some i" and "GetTenantBySlug slug (read_db p d) = Inr ten"
  obtains g where "GetIntegrationByID (ten_ID ten) i (read_db p d) = Inr g"
    "(\<not> IsZero (int_DisabledAt g) \<and> read_db p d' = read_db p d) \<or>
     UpdateIntegration (ten_ID ten) (g\<lparr>int_DisabledAt := ad_now E\<rparr>) (read_db p d) = Inr (read_db p d')"
proof -
  have "flag_Parse [storage_flag] [] (on_db p [slug, text]) = Flags [(''storage'', sqlite_url p)] [slug, text]"
    by (rule flag_Parse_on_db) (simp_all add: assms(2))
  note run = assms(1) [unfolded cmdRevokeIntegration_def this flag_result.case list.case assms(4) option.case Let_def]
  show thesis using with_store_on_db [OF run assms(3)] assms(5) that by (auto split: sum.splits if_splits)
qed

text \<open>Disabling an integration marks its row.\<close>

lemma UpdateIntegration_disables:
  assumes "UpdateIntegration T h st = Inr st'" and "row \<in> set (st_integs st)" and "int_TenantID row = T" and "int_ID row = int_ID h"
    and "nullable_micro (int_DisabledAt h) \<noteq> 0"
  shows "\<exists>new \<in> set (st_integs st'). int_ID new = int_ID row \<and> int_TenantID new = T \<and> int_TokenHash new = int_TokenHash row \<and>
      int_DisabledAt new \<noteq> 0 \<and> \<not> st_down st'"
proof -
  define f where "f = (\<lambda>r :: Integration. if int_TenantID r = T \<and> int_ID r = int_ID h
     then r\<lparr>int_ChannelID := int_ChannelID h, int_AccountID := int_AccountID h, int_Adapter := int_Adapter h,
        int_SettingsJSON := or_default (int_SettingsJSON h), int_DisabledAt := nullable_micro (int_DisabledAt h)\<rparr> else r)"
  have st': "st' = st\<lparr>st_integs := map f (st_integs st)\<rparr>" and up: "\<not> st_down st"
    using assms(1) by (auto simp: UpdateIntegration_def Let_def f_def split: if_splits)
  show ?thesis
    by (rule bexI [of _ "f row"]) (use assms(2-5) up in \<open>simp_all add: st' f_def\<close>)
qed

lemma cmdGrant_on_db:
  assumes "cmdGrant E (on_db p [slug, chan, user, role]) d = (d', 0, out)" and "positional slug" and "p \<noteq> '':memory:''"
  obtains ten ch acc where "GetTenantBySlug slug (read_db p d) = Inr ten" "GetChannelByName (ten_ID ten) chan (read_db p d) = Inr ch"
    "GetAccountByUsername (ten_ID ten) user (read_db p d) = Inr acc"
    "role \<in> {RoleOwner, RoleAdmin, RoleMember, RoleBanned, RoleChannelOp}"
    "SetChannelACL (ad_now E) (ten_ID ten) (chn_ID ch) (acc_ID acc) role (chn_OwnerID ch) (read_db p d) = Inr (read_db p d')"
proof -
  have parse: "flag_Parse [storage_flag] [] (on_db p [slug, chan, user, role]) = Flags [(''storage'', sqlite_url p)] [slug, chan, user, role]"
    by (rule flag_Parse_on_db) (simp_all add: assms(2))
  have role: "role \<in> {RoleOwner, RoleAdmin, RoleMember, RoleBanned, RoleChannelOp}"
    using assms(1) by (simp add: cmdGrant_def parse split: if_splits)
  then have "(role \<notin> {RoleOwner, RoleAdmin, RoleMember, RoleBanned, RoleChannelOp}) = False" by simp
  note run = assms(1) [unfolded cmdGrant_def parse flag_result.case list.case this if_False]
  show thesis using with_store_on_db [OF run assms(3)] that role by (auto split: sum.splits)
qed

lemma cmdRevoke_on_db:
  assumes "cmdRevoke E (on_db p [slug, chan, user]) d = (d', 0, out)" and "positional slug" and "p \<noteq> '':memory:''"
    and "GetTenantBySlug slug (read_db p d) = Inr ten" and "GetChannelByName (ten_ID ten) chan (read_db p d) = Inr ch"
    and "GetAccountByUsername (ten_ID ten) user (read_db p d) = Inr acc"
  shows "RemoveChannelACL (ten_ID ten) (chn_ID ch) (acc_ID acc) (read_db p d) = Inr (read_db p d')"
proof -
  have "flag_Parse [storage_flag] [] (on_db p [slug, chan, user]) = Flags [(''storage'', sqlite_url p)] [slug, chan, user]"
    by (rule flag_Parse_on_db) (simp_all add: assms(2))
  note run = assms(1) [unfolded cmdRevoke_def this flag_result.case list.case]
  show ?thesis using with_store_on_db [OF run assms(3)] assms(4-6) by (auto split: sum.splits)
qed

text \<open>Setting and removing an entry of an access list.\<close>

lemma find_upsert_same: "\<exists>r \<in> set xs. key r = k \<Longrightarrow> (\<And>x. key (g x) = key x) \<Longrightarrow>
    \<exists>r. key r = k \<and> find (\<lambda>x. key x = k) (map (\<lambda>x. if key x = k then g x else x) xs) = Some (g r)"
  by (induction xs) auto

lemma find_upsert_other: "k' \<noteq> k \<Longrightarrow> (\<And>x. key (g x) = key x) \<Longrightarrow>
    find (\<lambda>x. key x = k') (map (\<lambda>x. if key x = k then g x else x) xs) = find (\<lambda>x. key x = k') xs"
  by (induction xs) auto

lemma find_snoc_other: "key y \<noteq> k \<Longrightarrow> find (\<lambda>x. key x = k) (xs @ [y]) = find (\<lambda>x. key x = k) xs"
  by (induction xs) auto

lemma find_filter_key: "find (\<lambda>x. key x = k') (filter (\<lambda>x. \<not> key x = k) xs) = (if k' = k then None else find (\<lambda>x. key x = k') xs)"
  by (induction xs) auto

lemma GetChannelACL_key: "GetChannelACL T k A st = query_row st (\<lambda>r. acl_key r = (T, k, A)) scanChannelACL (st_acl st)"
  by (simp add: GetChannelACL_def acl_key_def)

lemma SetChannelACL_lookup:
  assumes "SetChannelACL now T k A role by st = Inr st'"
  shows "\<exists>e. GetChannelACL T k A st' = Inr e \<and> acl_Role e = role"
    and "(T', k', A') \<noteq> (T, k, A) \<Longrightarrow> GetChannelACL T' k' A' st' = GetChannelACL T' k' A' st"
    and "st' = st\<lparr>st_acl := st_acl st'\<rparr>" and "\<not> st_down st'"
proof -
  let ?g = "\<lambda>r. r\<lparr>acl_Role := role, acl_GrantedAt := UnixMicro now, acl_GrantedBy := by\<rparr>"
  let ?new = "\<lparr>acl_TenantID = T, acl_ChannelID = k, acl_AccountID = A, acl_Role = role, acl_GrantedAt = UnixMicro now, acl_GrantedBy = by\<rparr>"
  have key: "acl_key (?g x) = acl_key x" for x :: ChannelACLEntry by (simp add: acl_key_def)
  have up: "\<not> st_down st" and st': "st' = st\<lparr>st_acl := (if \<exists>r \<in> set (st_acl st). acl_key r = (T, k, A)
      then map (\<lambda>r. if acl_key r = (T, k, A) then ?g r else r) (st_acl st) else st_acl st @ [?new])\<rparr>"
    using assms by (auto simp: SetChannelACL_def Let_def split: if_splits)
  show "\<not> st_down st'" "st' = st\<lparr>st_acl := st_acl st'\<rparr>" using up by (simp_all add: st')
  have new: "acl_key ?new = (T, k, A)" by (simp add: acl_key_def)
  have "\<exists>r. find (\<lambda>r. acl_key r = (T, k, A)) (st_acl st') = Some r \<and> acl_Role r = role"
  proof (cases "\<exists>r \<in> set (st_acl st). acl_key r = (T, k, A)")
    case True
    then obtain r where "find (\<lambda>r. acl_key r = (T, k, A)) (st_acl st') = Some (?g r)"
      using find_upsert_same [of "st_acl st" acl_key "(T, k, A)" ?g, OF True key] by (auto simp: st')
    then show ?thesis by simp
  next
    case False
    then have "find (\<lambda>r. acl_key r = (T, k, A)) (st_acl st') = Some ?new"
      using find_snoc [of "st_acl st" "\<lambda>r. acl_key r = (T, k, A)" ?new] new by (simp add: st')
    then show ?thesis by simp
  qed
  then show "\<exists>e. GetChannelACL T k A st' = Inr e \<and> acl_Role e = role"
    using up by (auto simp: GetChannelACL_key query_row_def scanChannelACL_def) (simp add: st')
  show "GetChannelACL T' k' A' st' = GetChannelACL T' k' A' st" if "(T', k', A') \<noteq> (T, k, A)"
    using that find_upsert_other [OF that, of acl_key ?g "st_acl st", OF key] find_snoc_other [of acl_key ?new "(T', k', A')" "st_acl st"] new
    by (auto simp: GetChannelACL_key query_row_def st')
qed

lemma RemoveChannelACL_lookup:
  assumes "RemoveChannelACL T k A st = Inr st'"
  shows "GetChannelACL T k A st' = Inl ErrNotFound"
  using assms by (auto simp: RemoveChannelACL_def GetChannelACL_key query_row_def find_filter_key split: if_splits)

text \<open>After a revocation on the command line, no later statement brings the credential back.\<close>

lemma cmdRevokeToken_dead:
  assumes "cmdRevokeToken E (on_db p [slug, ids]) d = (d', 0, out)" and "positional slug" and "p \<noteq> '':memory:''"
    and "ad_uuid_Parse E ids = Some i" and "UnixMicro (ad_now E) \<noteq> 0"
    and "GetTenantBySlug slug (read_db p d) = Inr ten" and "store_ok (read_db p d)" and "token_kept h i (read_db p d)"
  shows "isl (GetTokenByHash h (run_cmds cs (read_db p d')))"
proof -
  have gone: "RevokeToken (ad_now E) (ten_ID ten) i (read_db p d) = Inr (read_db p d')"
    by (rule cmdRevokeToken_on_db [OF assms(1-4,6)])
  obtain row where "row \<in> set (st_tokens (read_db p d))" "tok_ID row = i" "tok_Hash row = h"
    using assms(8) by (auto simp: token_kept_def)
  from RevokeToken_dead [OF assms(7) gone assms(5) this]
  have "hash_dead h (run_cmds cs (read_db p d'))" by (rule hash_dead_run)
  then show ?thesis
    using hash_dead_lookup by (cases "st_down (run_cmds cs (read_db p d'))") (auto simp: GetTokenByHash_def query_row_def)
qed

lemma cmdRevokeIntegration_dead:
  assumes "cmdRevokeIntegration E (on_db p [slug, ids]) d = (d', 0, out)" and "positional slug" and "p \<noteq> '':memory:''"
    and "ad_uuid_Parse E ids = Some (int_ID row)" and "nullable_micro (ad_now E) \<noteq> 0"
    and "GetTenantBySlug slug (read_db p d) = Inr ten" and "store_reachable (read_db p d)"
    and "row \<in> set (st_integs (read_db p d))" and "int_TenantID row = ten_ID ten" and "int_DisabledAt row = 0"
    and "list_all (spares (ten_ID ten) (int_ID row)) cs"
  shows "isl (GetIntegrationByTokenHash (int_TokenHash row) (run_cmds cs (read_db p d')))"
proof -
  obtain h where h: "GetIntegrationByID (ten_ID ten) (int_ID row) (read_db p d) = Inr h"
    and upd: "(\<not> IsZero (int_DisabledAt h) \<and> read_db p d' = read_db p d) \<or>
      UpdateIntegration (ten_ID ten) (h\<lparr>int_DisabledAt := ad_now E\<rparr>) (read_db p d) = Inr (read_db p d')"
    by (rule cmdRevokeIntegration_on_db [OF assms(1-4,6)])
  obtain q where q: "q \<in> set (st_integs (read_db p d))" "int_ID q = int_ID row" "h = scanIntegration q"
    using h by (auto simp: GetIntegrationByID_def query_row_Inr dest: find_SomeD)
  then have "h = scanIntegration row" using integ_row_unique [OF reachable_ok [OF assms(7)] _ assms(8), of q] by simp
  then have hid: "int_ID h = int_ID row" and on: "IsZero (int_DisabledAt h)" using assms(10)
    by (simp_all add: scanIntegration_def scan_nullable_def IsZero_def)
  with upd have u: "UpdateIntegration (ten_ID ten) (h\<lparr>int_DisabledAt := ad_now E\<rparr>) (read_db p d) = Inr (read_db p d')" by simp
  obtain new where new: "new \<in> set (st_integs (read_db p d'))" "int_ID new = int_ID row" "int_TenantID new = ten_ID ten"
      "int_TokenHash new = int_TokenHash row" "int_DisabledAt new \<noteq> 0" "\<not> st_down (read_db p d')"
    using UpdateIntegration_disables [OF u assms(8)] hid assms(9,5) by auto
  have reach: "store_reachable (run_cmds cs (read_db p d'))" by (rule run_cmds_reachable [OF reach_ops(9) [OF assms(7) u]])
  have "new \<in> set (st_integs (run_cmds cs (read_db p d')))" by (rule integ_run [OF new(1)]) (simp add: new(2,3) assms(11))
  from integ_lookup [OF reachable_ok [OF reach] _ this] new(4-6) show ?thesis by simp
qed

section \<open>Properties\<close>

text \<open>
  Property C20. The life of a bot token, from the command line to the control plane. When \<^verbatim>\<open>issue-token\<close> exits with
  status 0 it has printed the token and its id. From then on, whatever statements run on the database (uses of the token, other
  tokens and their revocation, new accounts and tenants, and so on) but the revocation of this token, a request that carries
  the printed text authenticates as that bot of that tenant on any control plane over the database, unless the tenant was
  already suspended. Whenever \<^verbatim>\<open>revoke-token\<close> then exits with status 0 for the printed id, the same request gets status 401,
  whatever statements run later.
\<close>

theorem token_from_issue_to_revoke:
  assumes "cmdIssueToken E (on_db p [slug, user]) d = (d1, 0, out)" and "positional slug" and "p \<noteq> '':memory:''"
    and "store_reachable (read_db p d)" and "e_sha256 (rl_env L) = ad_sha256 E" and "ad_rand E = Some raw" and "ad_b64raw E raw \<noteq> ''''"
    and "bearer r = Some (ad_b64raw E raw)"
  shows "\<exists>ten acc i mid. GetTenantBySlug slug (read_db p d) = Inr ten \<and> GetAccountByUsername (ten_ID ten) user (read_db p d) = Inr acc \<and>
      out = line ''Issued token (shown ONCE -- save it now)'' @ line (''  Token ID:    '' @ ad_uuid_String E i) @ mid @
        line (''  TOKEN:       '' @ ad_b64raw E raw) \<and>
      (\<forall>cs s1. ten_Status ten \<noteq> TenantSuspended \<longrightarrow> (\<forall>now. CmdRevokeToken now (ten_ID ten) i \<notin> set cs) \<longrightarrow>
         sv_store (rs_rt s1) = run_cmds cs (read_db p d1) \<longrightarrow>
         auth L r s1 = Inr (acc, ten, s1\<lparr>rs_touches := rs_touches s1 @ [i]\<rparr>)) \<and>
      (\<forall>cs dn E2 d2 out2 cs2 s2. read_db p dn = run_cmds cs (read_db p d1) \<longrightarrow>
         cmdRevokeToken E2 (on_db p [slug, ad_uuid_String E i]) dn = (d2, 0, out2) \<longrightarrow>
         ad_uuid_Parse E2 (ad_uuid_String E i) = Some i \<longrightarrow> UnixMicro (ad_now E2) \<noteq> 0 \<longrightarrow>
         sv_store (rs_rt s2) = run_cmds cs2 (read_db p d2) \<longrightarrow>
         auth L r s2 = Inl (writeError 401 ''invalid_token'' ''token is unknown, revoked, or malformed''))"
proof -
  obtain ten acc plaintext tok mid where ten: "GetTenantBySlug slug (read_db p d) = Inr ten"
    and acc: "GetAccountByUsername (ten_ID ten) user (read_db p d) = Inr acc" and botacc: "acc_Type acc = AccountBot"
    and issue: "IssueToken (ad_b64raw E) (ad_sha256 E) (ad_rand E) (ad_now E) (ad_newV7 E) (ten_ID ten) (acc_ID acc) '''' (read_db p d)
       = Inr (read_db p d1, plaintext, tok)"
    and out: "out = line ''Issued token (shown ONCE -- save it now)'' @ line (''  Token ID:    '' @ ad_uuid_String E (tok_ID tok)) @ mid @
       line (''  TOKEN:       '' @ plaintext)"
    by (rule cmdIssueToken_on_db [OF assms(1-3)])
  let ?h = "ad_sha256 E plaintext" and ?i = "tok_ID tok"
  note live = IssueToken_live [OF issue]
  have plain: "plaintext = ad_b64raw E raw" using live(5) assms(6) by simp
  have reach: "store_reachable (read_db p d1)" by (rule reach_IssueToken [OF assms(4) issue])
  have ten1: "GetTenantBySlug slug (read_db p d1) = Inr ten" and acc1: "GetAccountByUsername (ten_ID ten) user (read_db p d1) = Inr acc"
    using ten acc live(8) lookups_frame(1,4) by metis+
  note ids = tenant_by_id [OF reachable_ok [OF reach] ten1] account_unique [OF reachable_ok [OF reach] acc1]
  have alive: "token_live ?h ?i (ten_ID ten) (acc_ID acc) (read_db p d1)" and up: "\<not> st_down (read_db p d1)"
    using token_live_found [OF live(1)] live(2,3) by simp_all
  have "auth L r s1 = Inr (acc, ten, s1\<lparr>rs_touches := rs_touches s1 @ [?i]\<rparr>)"
    if use: "ten_Status ten \<noteq> TenantSuspended" "\<forall>now. CmdRevokeToken now (ten_ID ten) ?i \<notin> set cs" "sv_store (rs_rt s1) = run_cmds cs (read_db p d1)"
    for cs s1
  proof -
    obtain t where "GetTokenByHash ?h (run_cmds cs (read_db p d1)) = Inr t" "tok_ID t = ?i" "tok_TenantID t = ten_ID ten" "tok_AccountID t = acc_ID acc"
      using token_live_lookup [OF token_live_run [OF alive, of cs]] use(2) up by auto
    then show ?thesis
      using use(1,3) names_persist(2) [OF ids(1), of cs] names_persist(3) [OF ids(2), of cs] botacc assms(5,7,8) plain by (simp add: auth_def)
  qed
  moreover have "auth L r s2 = Inl (writeError 401 ''invalid_token'' ''token is unknown, revoked, or malformed'')"
    if rev: "read_db p dn = run_cmds cs (read_db p d1)" "cmdRevokeToken E2 (on_db p [slug, ad_uuid_String E ?i]) dn = (d2, 0, out2)"
      "ad_uuid_Parse E2 (ad_uuid_String E ?i) = Some ?i" "UnixMicro (ad_now E2) \<noteq> 0"
      "sv_store (rs_rt s2) = run_cmds cs2 (read_db p d2)" for cs dn E2 d2 out2 cs2 s2
  proof -
    have tenn: "GetTenantBySlug slug (read_db p dn) = Inr ten" unfolding rev(1) by (rule names_persist(1) [OF ten1])
    have "token_kept ?h ?i (read_db p d1)" using live(7) unfolding token_kept_def by (intro bexI [OF _ live(6)]) simp
    then have kept: "token_kept ?h ?i (read_db p dn)" unfolding rev(1) by (rule token_kept_run)
    have ok: "store_ok (read_db p dn)" unfolding rev(1) by (rule reachable_ok [OF run_cmds_reachable [OF reach]])
    from cmdRevokeToken_dead [OF rev(2) assms(2,3) rev(3,4) tenn ok kept, of cs2]
    show ?thesis using rev(5) assms(5,7,8) plain by (auto simp: auth_def isl_def)
  qed
  ultimately show ?thesis using ten acc out plain by blast
qed

text \<open>A database with a tenant and a bot, a control plane library that hashes as the commands do, and the commands run on it.\<close>

definition cred_disk :: disk where
  "cred_disk = [''a.db'' \<mapsto> issue_store]"

definition cred_lib :: rest_lib where
  "cred_lib = \<lparr>rl_env = chat_env\<lparr>e_sha256 := ad_sha256 sample_admin, e_sub := \<lparr>lib_uuid_Parse = (\<lambda>s. if s = ''id'' then Some 40 else None),
       lib_url_Parse = (\<lambda>_. None), lib_regexp = (\<lambda>_. None)\<rparr>\<rparr>,
     rl_adapter = sample_adapter_lib, rl_jsonErr = (\<lambda>_. ''''), rl_uuidErr = (\<lambda>_. ''''), rl_readErr = '''', rl_adapterErr = (\<lambda>_. '''')\<rparr>"

definition cred_request :: Request where
  "cred_request = \<lparr>rq_Method = ''GET'', rq_Path = [''v1'', ''subscriptions''], rq_Header = [(''Authorization'', [''Bearer raw''])],
     rq_Body = [], rq_BodyErr = False, rq_ContentLength = 0\<rparr>"

definition cred_server :: "store \<Rightarrow> RestServer" where
  "cred_server st = \<lparr>rs_healthy = True, rs_publisher = True, rs_touches = [], rs_adapters = init_registry, rs_rt = chat_start\<lparr>sv_store := st\<rparr>\<rparr>"

lemma cred_bearer: "bearer cred_request = Some ''raw''"
  by (simp add: bearer_def cred_request_def header_Get_def HasPrefix_def TrimPrefix_def TrimSpace_def is_space_def)

lemma cred_server_store [simp]: "sv_store (rs_rt (cred_server st)) = st"
  by (simp add: cred_server_def)

lemma read_cred: "read_db ''a.db'' cred_disk = issue_store" "store_reachable (read_db ''a.db'' cred_disk)"
  using issue_store_reachable by (simp_all add: read_db_def cred_disk_def)

lemma issue_store_eval:
  "GetTenantBySlug ''acme'' issue_store = Inr login_tenant" "GetAccountByUsername 1 ''bot'' issue_store = Inr bot_account"
  by (simp_all add: issue_eval)

lemma bring_up_cred: "bringUpStorage sample_admin (sqlite_url ''a.db'') d = Some (''a.db'', read_db ''a.db'' d)"
  by (simp add: bringUpStorage_def open_Store_def sqlite_url_def HasPrefix_def TrimPrefix_def sample_admin_def)

lemma cred_issued: "\<exists>d1 out. cmdIssueToken sample_admin (on_db ''a.db'' [''acme'', ''bot'']) cred_disk = (d1, 0, out)"
proof -
  have "\<exists>st' tok. IssueToken (ad_b64raw sample_admin) (ad_sha256 sample_admin) (ad_rand sample_admin) (ad_now sample_admin) (ad_newV7 sample_admin)
      1 20 '''' issue_store = Inr (st', ''raw'', tok)"
    by (simp add: IssueToken_def sample_admin_def issue_eval)
  moreover have "flag_Parse [(''label'', False), storage_flag] [] (on_db ''a.db'' [''acme'', ''bot'']) =
      Flags [(''storage'', sqlite_url ''a.db'')] [''acme'', ''bot'']"
    by (rule flag_Parse_on_db) (simp_all add: positional_def)
  moreover have "ten_ID login_tenant = 1" "acc_ID bot_account = 20" "acc_Type bot_account = AccountBot"
    by (simp_all add: login_tenant_def bot_account_def)
  ultimately show ?thesis
    by (auto simp: cmdIssueToken_def with_store_def flag_str_def bring_up_cred read_cred(1) issue_store_eval)
qed

text \<open>The token works after it has been used once and another token has been issued and revoked.\<close>

theorem token_from_issue_to_revoke_witness:
  "\<exists>d1 out i s'. cmdIssueToken sample_admin (on_db ''a.db'' [''acme'', ''bot'']) cred_disk = (d1, 0, out) \<and>
     auth cred_lib cred_request (cred_server (run_cmds [CmdTouchTokenLastUsed 5 i, CmdCreateToken 6 (Some (i + 1)) 1 20 ''h'' '''', CmdRevokeToken 7 1 (i + 1)]
       (read_db ''a.db'' d1))) = Inr (bot_account, login_tenant, s')"
proof -
  obtain d1 out where run: "cmdIssueToken sample_admin (on_db ''a.db'' [''acme'', ''bot'']) cred_disk = (d1, 0, out)"
    using cred_issued by blast
  have env: "e_sha256 (rl_env cred_lib) = ad_sha256 sample_admin" "ad_rand sample_admin = Some ''raw''" "ad_b64raw sample_admin ''raw'' = ''raw''"
    by (simp_all add: cred_lib_def sample_admin_def)
  have ids: "ten_ID login_tenant = 1" "ten_Status login_tenant \<noteq> TenantSuspended"
    by (simp_all add: login_tenant_def TenantActive_def TenantSuspended_def)
  obtain ten acc i where "GetTenantBySlug ''acme'' issue_store = Inr ten" "GetAccountByUsername (ten_ID ten) ''bot'' issue_store = Inr acc"
    and "\<And>cs. ten_Status ten \<noteq> TenantSuspended \<Longrightarrow> \<forall>now. CmdRevokeToken now (ten_ID ten) i \<notin> set cs \<Longrightarrow>
      \<exists>s'. auth cred_lib cred_request (cred_server (run_cmds cs (read_db ''a.db'' d1))) = Inr (acc, ten, s')"
    using token_from_issue_to_revoke [OF run _ _ read_cred(2) env(1,2), unfolded env(3) read_cred(1), of cred_request] cred_bearer
    by (auto simp: positional_def) (metis cred_server_store)
  then have "\<And>cs. \<forall>now. CmdRevokeToken now 1 i \<notin> set cs \<Longrightarrow>
      \<exists>s'. auth cred_lib cred_request (cred_server (run_cmds cs (read_db ''a.db'' d1))) = Inr (bot_account, login_tenant, s')"
    using issue_store_eval ids by auto
  from this [of "[CmdTouchTokenLastUsed 5 i, CmdCreateToken 6 (Some (i + 1)) 1 20 ''h'' '''', CmdRevokeToken 7 1 (i + 1)]"] run show ?thesis by auto
qed

text \<open>
  Property C36. The life of an integration, from the command line to the inbound route. When \<^verbatim>\<open>create-integration\<close> exits with status 0 it
  has printed a token and an id. From then on, whatever statements run on the database but an update or a deletion of this
  integration, a request with that token on \<^verbatim>\<open>/v1/inbound/\<close> followed by the id is accepted for an integration on the named
  channel with the named adapter, unless the tenant was already suspended; the token is of no use on the path of another id. Whenever
  \<^verbatim>\<open>revoke-integration\<close> then exits with status 0 for the printed id, the same request gets status 401, again whatever statements run
  later but an update or a deletion of this integration.
\<close>

theorem integration_from_create_to_revoke:
  assumes "cmdCreateIntegration E (on_db p [slug, chan, user, adapter]) d = (d1, 0, out)" and "positional slug" and "p \<noteq> '':memory:''"
    and "store_reachable (read_db p d)" and "e_sha256 (rl_env L) = ad_sha256 E" and "ad_rand E = Some raw" and "ad_b64raw E raw \<noteq> ''''"
    and "bearer r = Some (ad_b64raw E raw)"
    and "\<And>i. lib_uuid_Parse (e_sub (rl_env L)) (ad_uuid_String E i) = Some i"
  shows "\<exists>ten ch i mid. GetTenantBySlug slug (read_db p d) = Inr ten \<and> GetChannelByName (ten_ID ten) chan (read_db p d) = Inr ch \<and>
      out = line ''Created integration (token shown ONCE -- save it now)'' @ line (''  ID:       '' @ ad_uuid_String E i) @ mid @
        line (''  TOKEN:    '' @ ad_b64raw E raw) \<and>
      (\<forall>cs s1. ten_Status ten \<noteq> TenantSuspended \<longrightarrow> list_all (spares (ten_ID ten) i) cs \<longrightarrow>
         sv_store (rs_rt s1) = run_cmds cs (read_db p d1) \<longrightarrow>
         (\<exists>g. inbound_auth L (ad_uuid_String E i) r s1 = Inr g \<and>
            int_ID g = i \<and> int_TenantID g = ten_ID ten \<and> int_ChannelID g = chn_ID ch \<and> int_Adapter g = adapter) \<and>
         (\<forall>j. j \<noteq> i \<longrightarrow> inbound_auth L (ad_uuid_String E j) r s1 = Inl (writeError 401 ''invalid_token'' ''token does not match path id''))) \<and>
      (\<forall>cs dn E2 d2 out2 cs2 s2. list_all (spares (ten_ID ten) i) cs \<longrightarrow> read_db p dn = run_cmds cs (read_db p d1) \<longrightarrow>
         cmdRevokeIntegration E2 (on_db p [slug, ad_uuid_String E i]) dn = (d2, 0, out2) \<longrightarrow>
         ad_uuid_Parse E2 (ad_uuid_String E i) = Some i \<longrightarrow> nullable_micro (ad_now E2) \<noteq> 0 \<longrightarrow>
         list_all (spares (ten_ID ten) i) cs2 \<longrightarrow> sv_store (rs_rt s2) = run_cmds cs2 (read_db p d2) \<longrightarrow>
         inbound_auth L (ad_uuid_String E i) r s2 = Inl (writeError 401 ''invalid_token'' ''unknown / revoked / disabled integration token''))"
proof -
  obtain ten ch owner g mid where ten: "GetTenantBySlug slug (read_db p d) = Inr ten"
    and ch: "GetChannelByName (ten_ID ten) chan (read_db p d) = Inr ch"
    and owner: "GetAccountByUsername (ten_ID ten) user (read_db p d) = Inr owner"
    and create: "CreateIntegration (ad_now E) (ad_newV7 E) (ten_ID ten) \<lparr>int_ID = uuid_Nil, int_TenantID = uuid_Nil,
       int_ChannelID = chn_ID ch, int_AccountID = acc_ID owner, int_Adapter = adapter,
       int_TokenHash = ad_sha256 E (ad_b64raw E raw), int_SettingsJSON = ''{}'', int_DisabledAt = 0, int_CreatedAt = 0\<rparr> (read_db p d)
       = Inr (read_db p d1, g)"
    and out: "out = line ''Created integration (token shown ONCE -- save it now)'' @ line (''  ID:       '' @ ad_uuid_String E (int_ID g)) @ mid @
       line (''  TOKEN:    '' @ ad_b64raw E raw)"
    by (rule cmdCreateIntegration_on_db [OF assms(1-3,6)])
  note live = CreateIntegration_live [OF create, simplified]
  let ?row = "int_row g" and ?i = "int_ID g"
  have reach: "store_reachable (read_db p d1)" by (rule reach_ops(8) [OF assms(4) create])
  have ten1: "GetTenantBySlug slug (read_db p d1) = Inr ten" using ten live(3) lookups_frame(2) by metis
  note id1 = tenant_by_id [OF reachable_ok [OF reach] ten1]
  have up: "\<not> st_down (read_db p d1)" using id1 by (auto simp: GetTenantByID_def query_row_def)
  have row: "int_TenantID ?row = ten_ID ten" "int_ID ?row = ?i" "int_TokenHash ?row = ad_sha256 E (ad_b64raw E raw)" "int_DisabledAt ?row = 0"
    using live(4-8) by (simp_all add: int_row_def nullable_micro_def IsZero_def)
  have kept: "?row \<in> set (st_integs (run_cmds cs (read_db p d1)))" if "list_all (spares (ten_ID ten) ?i) cs" for cs
    by (rule integ_run [OF live(2)]) (simp add: that row(1,2))
  have ok: "store_ok (run_cmds cs (read_db p d1))" for cs by (rule reachable_ok [OF run_cmds_reachable [OF reach]])
  have hash: "GetIntegrationByTokenHash (ad_sha256 E (ad_b64raw E raw)) (run_cmds cs (read_db p d1)) = Inr (scanIntegration ?row)"
    if "list_all (spares (ten_ID ten) ?i) cs" for cs
    using integ_lookup [OF ok _ kept [OF that]] up row(3,4) by simp
  have scan: "int_ID (scanIntegration ?row) = ?i" "int_TenantID (scanIntegration ?row) = ten_ID ten"
    "int_ChannelID (scanIntegration ?row) = chn_ID ch" "int_Adapter (scanIntegration ?row) = adapter"
    using live(4-8) by (simp_all add: scanIntegration_def int_row_def)
  have accepted: "inbound_auth L (ad_uuid_String E ?i) r s1 = Inr (scanIntegration ?row) \<and>
      (\<forall>j. j \<noteq> ?i \<longrightarrow> inbound_auth L (ad_uuid_String E j) r s1 = Inl (writeError 401 ''invalid_token'' ''token does not match path id''))"
    if "ten_Status ten \<noteq> TenantSuspended" "list_all (spares (ten_ID ten) ?i) cs" "sv_store (rs_rt s1) = run_cmds cs (read_db p d1)" for cs s1
    using that(1,3) hash [OF that(2)] names_persist(2) [OF id1, of cs] assms(5,7-9) scan by (auto simp: inbound_auth_def)
  have revoked: "inbound_auth L (ad_uuid_String E ?i) r s2
      = Inl (writeError 401 ''invalid_token'' ''unknown / revoked / disabled integration token'')"
    if cs: "list_all (spares (ten_ID ten) ?i) cs" "read_db p dn = run_cmds cs (read_db p d1)"
      and rev: "cmdRevokeIntegration E2 (on_db p [slug, ad_uuid_String E ?i]) dn = (d2, 0, out2)"
        "ad_uuid_Parse E2 (ad_uuid_String E ?i) = Some ?i" "nullable_micro (ad_now E2) \<noteq> 0"
      and cs2: "list_all (spares (ten_ID ten) ?i) cs2" "sv_store (rs_rt s2) = run_cmds cs2 (read_db p d2)" for cs dn E2 d2 out2 cs2 s2
  proof -
    have reachn: "store_reachable (read_db p dn)" unfolding cs(2) by (rule run_cmds_reachable [OF reach])
    have tenn: "GetTenantBySlug slug (read_db p dn) = Inr ten" unfolding cs(2) by (rule names_persist(1) [OF ten1])
    have kept_n: "?row \<in> set (st_integs (read_db p dn))" unfolding cs(2) by (rule kept [OF cs(1)])
    have "isl (GetIntegrationByTokenHash (int_TokenHash ?row) (run_cmds cs2 (read_db p d2)))"
      by (rule cmdRevokeIntegration_dead [OF rev(1) assms(2,3) _ rev(3) tenn reachn kept_n row(1,4)]) (use rev(2) cs2(1) row(2) in simp_all)
    then show ?thesis using cs2(2) assms(5,7-9) row(3) by (auto simp: inbound_auth_def isl_def)
  qed
  show ?thesis
    by (intro exI [of _ ten] exI [of _ ch] exI [of _ ?i] exI [of _ mid] conjI allI impI) (use ten ch out accepted scan revoked in blast)+
qed

text \<open>The same database with a private channel, and a UUID syntax that reads back what it writes.\<close>

definition chan_store :: store where
  "chan_store = exec_cmd (CmdCreateChannel unix_epoch (Some 3) 1 \<lparr>chn_ID = 0, chn_TenantID = 0, chn_Name = ''ops'', chn_OwnerID = 20,
     chn_Visibility = ChannelPrivate, chn_CreatedAt = 0\<rparr>) issue_store"

definition chan_disk :: disk where
  "chan_disk = [''a.db'' \<mapsto> chan_store]"

definition chan_admin :: admin_env where
  "chan_admin = sample_admin\<lparr>ad_uuid_String := (\<lambda>i. replicate (unat i) CHR ''x'')\<rparr>"

definition chan_lib :: rest_lib where
  "chan_lib = cred_lib\<lparr>rl_env := (rl_env cred_lib)\<lparr>e_sub := \<lparr>lib_uuid_Parse = (\<lambda>s. Some (of_nat (length s))), lib_url_Parse = (\<lambda>_. None),
     lib_regexp = (\<lambda>_. None)\<rparr>\<rparr>\<rparr>"

lemma read_chan: "read_db ''a.db'' chan_disk = chan_store" "store_reachable (read_db ''a.db'' chan_disk)"
proof -
  show read: "read_db ''a.db'' chan_disk = chan_store" by (simp add: read_db_def chan_disk_def)
  show "store_reachable (read_db ''a.db'' chan_disk)"
    unfolding read chan_store_def by (rule store_reachable.exec [OF issue_store_reachable])
qed

definition chan_row :: ChannelRow where
  "chan_row = \<lparr>chn_ID = 3, chn_TenantID = 1, chn_Name = ''ops'', chn_OwnerID = 20, chn_Visibility = ChannelPrivate, chn_CreatedAt = unix_epoch\<rparr>"

lemma chan_store_lookups:
  "GetTenantBySlug ''acme'' chan_store = Inr login_tenant" "GetAccountByUsername 1 ''bot'' chan_store = Inr bot_account"
  "GetChannelByName 1 ''ops'' chan_store = Inr chan_row" "st_down chan_store = False" "st_integs chan_store = []" "st_acl chan_store = []"
  "ten_ID ` set (st_tenants chan_store) = {1}"
  by (simp_all add: chan_store_def issue_eval GetChannelByName_def scanChannel_def chan_row_def ChannelPrivate_def)

lemma bring_up_chan: "bringUpStorage chan_admin (sqlite_url ''a.db'') d = Some (''a.db'', read_db ''a.db'' d)"
  by (simp add: bringUpStorage_def open_Store_def sqlite_url_def HasPrefix_def TrimPrefix_def chan_admin_def sample_admin_def)

lemma chan_created: "\<exists>d1 out. cmdCreateIntegration chan_admin (on_db ''a.db'' [''acme'', ''ops'', ''bot'', ''splunk'']) chan_disk = (d1, 0, out)"
proof -
  have parse: "flag_Parse [(''settings'', False), storage_flag] [] (on_db ''a.db'' [''acme'', ''ops'', ''bot'', ''splunk'']) =
      Flags [(''storage'', sqlite_url ''a.db'')] [''acme'', ''ops'', ''bot'', ''splunk'']"
    by (rule flag_Parse_on_db) (simp_all add: positional_def)
  have ids: "ten_ID login_tenant = 1" "acc_ID bot_account = 20" by (simp_all add: login_tenant_def bot_account_def)
  have tens: "1 \<in> ten_ID ` set (st_tenants chan_store)" by (simp add: chan_store_lookups)
  have outside: "ad_rand chan_admin = Some ''raw''" "ad_b64raw chan_admin ''raw'' = ''raw''" "ad_sha256 chan_admin ''raw'' = ''Hraw''"
    "ad_newV7 chan_admin = Some 40" by (simp_all add: chan_admin_def sample_admin_def)
  obtain st' g where "CreateIntegration (ad_now chan_admin) (Some 40) 1 \<lparr>int_ID = uuid_Nil, int_TenantID = uuid_Nil,
      int_ChannelID = chn_ID chan_row, int_AccountID = 20, int_Adapter = ''splunk'', int_TokenHash = ''Hraw'', int_SettingsJSON = ''{}'',
      int_DisabledAt = 0, int_CreatedAt = 0\<rparr> chan_store = Inr (st', g)"
    using tens by (simp add: CreateIntegration_def exec_insert_def or_new_def chan_store_lookups chan_row_def Let_def)
  then show ?thesis
    by (simp add: cmdCreateIntegration_def parse with_store_def flag_str_def settings_ok_def bring_up_chan read_chan(1) chan_store_lookups ids outside)
qed

theorem integration_from_create_to_revoke_witness:
  "\<exists>d1 out i g. cmdCreateIntegration chan_admin (on_db ''a.db'' [''acme'', ''ops'', ''bot'', ''splunk'']) chan_disk = (d1, 0, out) \<and>
     inbound_auth chan_lib (ad_uuid_String chan_admin i) cred_request
       (cred_server (run_cmds [CmdPurgeMessages 5 1, CmdDeleteIntegration 2 i] (read_db ''a.db'' d1))) = Inr g \<and> int_ChannelID g = 3"
proof -
  obtain d1 out where run: "cmdCreateIntegration chan_admin (on_db ''a.db'' [''acme'', ''ops'', ''bot'', ''splunk'']) chan_disk = (d1, 0, out)"
    using chan_created by blast
  have "e_sha256 (rl_env chan_lib) = ad_sha256 chan_admin" "ad_rand chan_admin = Some ''raw''" "ad_b64raw chan_admin ''raw'' = ''raw''"
    "lib_uuid_Parse (e_sub (rl_env chan_lib)) (ad_uuid_String chan_admin i) = Some i" for i
    by (simp_all add: chan_lib_def cred_lib_def chan_admin_def sample_admin_def)
  note env = this
  have ids: "ten_ID login_tenant = 1" "ten_Status login_tenant \<noteq> TenantSuspended" "chn_ID chan_row = 3"
    by (simp_all add: login_tenant_def TenantActive_def TenantSuspended_def chan_row_def)
  obtain ten ch i where "GetTenantBySlug ''acme'' chan_store = Inr ten" "GetChannelByName (ten_ID ten) ''ops'' chan_store = Inr ch"
    and acc: "\<And>cs. ten_Status ten \<noteq> TenantSuspended \<Longrightarrow> list_all (spares (ten_ID ten) i) cs \<Longrightarrow> \<exists>g. inbound_auth chan_lib (ad_uuid_String chan_admin i)
      cred_request (cred_server (run_cmds cs (read_db ''a.db'' d1))) = Inr g \<and> int_ChannelID g = chn_ID ch"
    using integration_from_create_to_revoke [OF run _ _ read_chan(2) env(1,2) _ _ env(4), unfolded env(3) read_chan(1), of cred_request] cred_bearer
    by (auto simp: positional_def) (metis cred_server_store)
  then have "\<And>cs. list_all (spares 1 i) cs \<Longrightarrow> \<exists>g. inbound_auth chan_lib (ad_uuid_String chan_admin i)
      cred_request (cred_server (run_cmds cs (read_db ''a.db'' d1))) = Inr g \<and> int_ChannelID g = 3"
    using chan_store_lookups ids by auto
  from this [of "[CmdPurgeMessages 5 1, CmdDeleteIntegration 2 i]"] run show ?thesis by (auto simp: spares_def)
qed

text \<open>
  Property C35. The roles that the command line hands out decide who may join. After \<^verbatim>\<open>grant\<close> exits with status 0, the
  realtime server's check admits the account to a private channel exactly when the role granted is not the ban; every
  other entry of every access list is as before; and after \<^verbatim>\<open>revoke\<close> the account is not admitted.
\<close>

theorem grants_decide_join:
  assumes "cmdGrant E (on_db p [slug, chan, user, role]) d = (d1, 0, out)" and "positional slug" and "p \<noteq> '':memory:''"
  shows "\<exists>ten ch acc. GetTenantBySlug slug (read_db p d1) = Inr ten \<and> GetChannelByName (ten_ID ten) chan (read_db p d1) = Inr ch \<and>
      GetAccountByUsername (ten_ID ten) user (read_db p d1) = Inr acc \<and>
      (chn_Visibility ch = ChannelPrivate \<longrightarrow> (fst (canJoin (ten_ID ten) ch (acc_ID acc) (read_db p d1)) \<longleftrightarrow> role \<noteq> RoleBanned)) \<and>
      (\<forall>T k A. (T, k, A) \<noteq> (ten_ID ten, chn_ID ch, acc_ID acc) \<longrightarrow> GetChannelACL T k A (read_db p d1) = GetChannelACL T k A (read_db p d)) \<and>
      (\<forall>E2 d2 out2. cmdRevoke E2 (on_db p [slug, chan, user]) d1 = (d2, 0, out2) \<longrightarrow> chn_Visibility ch = ChannelPrivate \<longrightarrow>
         canJoin (ten_ID ten) ch (acc_ID acc) (read_db p d2) = (False, ''not_in_acl''))"
proof -
  obtain ten ch acc where ten: "GetTenantBySlug slug (read_db p d) = Inr ten"
    and ch: "GetChannelByName (ten_ID ten) chan (read_db p d) = Inr ch" and acc: "GetAccountByUsername (ten_ID ten) user (read_db p d) = Inr acc"
    and role: "role \<in> {RoleOwner, RoleAdmin, RoleMember, RoleBanned, RoleChannelOp}"
    and acl: "SetChannelACL (ad_now E) (ten_ID ten) (chn_ID ch) (acc_ID acc) role (chn_OwnerID ch) (read_db p d) = Inr (read_db p d1)"
    by (rule cmdGrant_on_db [OF assms])
  note look = SetChannelACL_lookup [OF acl]
  have named: "GetTenantBySlug slug (read_db p d1) = Inr ten" "GetChannelByName (ten_ID ten) chan (read_db p d1) = Inr ch"
    "GetAccountByUsername (ten_ID ten) user (read_db p d1) = Inr acc"
    using ten ch acc look(3) lookups_frame(3,5,7) by metis+
  have join: "fst (canJoin (ten_ID ten) ch (acc_ID acc) (read_db p d1)) \<longleftrightarrow> role \<noteq> RoleBanned" if "chn_Visibility ch = ChannelPrivate"
    using that look(1) role by (auto simp: canJoin_def CanJoin_def role_defs ChannelPrivate_def ChannelPublic_def)
  have gone: "canJoin (ten_ID ten) ch (acc_ID acc) (read_db p d2) = (False, ''not_in_acl'')"
    if "cmdRevoke E2 (on_db p [slug, chan, user]) d1 = (d2, 0, out2)" "chn_Visibility ch = ChannelPrivate" for E2 d2 out2
    using RemoveChannelACL_lookup [OF cmdRevoke_on_db [OF that(1) assms(2,3) named]] that(2)
    by (simp add: canJoin_def ChannelPrivate_def ChannelPublic_def)
  show ?thesis
    by (intro exI [of _ ten] exI [of _ ch] exI [of _ acc] conjI allI impI) (use named join look(2) gone in auto)
qed

lemma chan_granted: "\<exists>d1 out. cmdGrant chan_admin (on_db ''a.db'' [''acme'', ''ops'', ''bot'', ''member'']) chan_disk = (d1, 0, out)"
proof -
  have parse: "flag_Parse [storage_flag] [] (on_db ''a.db'' [''acme'', ''ops'', ''bot'', ''member'']) =
      Flags [(''storage'', sqlite_url ''a.db'')] [''acme'', ''ops'', ''bot'', ''member'']"
    by (rule flag_Parse_on_db) (simp_all add: positional_def)
  have ids: "ten_ID login_tenant = 1" "acc_ID bot_account = 20" by (simp_all add: login_tenant_def bot_account_def)
  have "1 \<in> ten_ID ` set (st_tenants chan_store)" by (simp add: chan_store_lookups)
  then obtain st' where "SetChannelACL (ad_now chan_admin) 1 (chn_ID chan_row) 20 ''member'' (chn_OwnerID chan_row) chan_store = Inr st'"
    by (simp add: SetChannelACL_def chan_store_lookups chan_row_def)
  then show ?thesis
    by (simp add: cmdGrant_def parse with_store_def flag_str_def bring_up_chan read_chan(1) chan_store_lookups ids role_defs)
qed

theorem grants_decide_join_witness:
  "\<exists>d1 out ch. cmdGrant chan_admin (on_db ''a.db'' [''acme'', ''ops'', ''bot'', ''member'']) chan_disk = (d1, 0, out) \<and>
     GetChannelByName 1 ''ops'' (read_db ''a.db'' d1) = Inr ch \<and>
     (chn_Visibility ch = ChannelPrivate \<longrightarrow> fst (canJoin 1 ch 20 (read_db ''a.db'' d1)))"
proof -
  obtain d1 out where run: "cmdGrant chan_admin (on_db ''a.db'' [''acme'', ''ops'', ''bot'', ''member'']) chan_disk = (d1, 0, out)"
    using chan_granted by blast
  obtain st2 where acl: "SetChannelACL (ad_now chan_admin) 1 3 20 ''member'' 20 chan_store = Inr st2" "read_db ''a.db'' d1 = st2"
    by (rule cmdGrant_on_db [OF run]) (auto simp: positional_def read_chan(1) chan_store_lookups login_tenant_def bot_account_def chan_row_def)
  have "GetTenantBySlug ''acme'' (read_db ''a.db'' d1) = Inr login_tenant" "GetAccountByUsername 1 ''bot'' (read_db ''a.db'' d1) = Inr bot_account"
    using SetChannelACL_lookup(3) [OF acl(1)] acl(2) chan_store_lookups lookups_frame(3,5) by metis+
  then show ?thesis using grants_decide_join [OF run] run
    by (auto simp: positional_def login_tenant_def bot_account_def role_defs)
qed

end
