(* ===== verification/Client.thy ===== *)
theory Client
  imports Codec Auth Flags
begin

text \<open>
  The terminal client (\<^verbatim>\<open>cmd/prm/main.go\<close>): the login handshake, the frames it reads and sends, and the event loop of
  its user interface with reconnection and the operator's roster.

  A connection is a value of the type \<open>'p\<close> with the operations of \<open>conn_lib\<close>: \<open>nt_write\<close> hands bytes over, \<open>nt_unread\<close>
  is what the decoder will read next, up to the end of the stream, and \<open>nt_consume\<close> takes away what it has read. The
  text field, the viewport and the styles of the Bubble Tea libraries are the arguments of \<open>tui_lib\<close>, with opaque states
  \<open>'i\<close> and \<open>'v\<close>. A \<^verbatim>\<open>tea.Cmd\<close> is a value of \<open>cmd\<close>; what it does when it runs is the corresponding definition.
\<close>

section \<open>Credentials\<close>

record credentials =
  cre_addr :: string
  cre_tenant :: string
  cre_username :: string
  cre_channel :: string
  cre_password :: string
  cre_token :: string
  cre_insecure :: bool
  cre_opMode :: bool

text \<open>\<^verbatim>\<open>net.SplitHostPort\<close>.\<close>

definition LastIndexByte :: "string \<Rightarrow> char \<Rightarrow> nat option" where
  "LastIndexByte s c = map_option (\<lambda>i. length s - 1 - i) (IndexByte (rev s) c)"

definition SplitHostPort :: "string \<Rightarrow> (string \<times> string) option" where
  "SplitHostPort hostport =
     (case LastIndexByte hostport CHR '':'' of
        None \<Rightarrow> None
      | Some i \<Rightarrow>
          let bounds =
            (if hostport ! 0 = CHR ''['' then
               (case IndexByte hostport CHR '']'' of
                  None \<Rightarrow> None
                | Some e \<Rightarrow> if e + 1 = i then Some (take (e - 1) (drop 1 hostport), 1, e + 1) else None)
             else if IndexByte (take i hostport) CHR '':'' \<noteq> None then None
             else Some (take i hostport, 0, 0))
          in case bounds of
               None \<Rightarrow> None
             | Some (host, j, k) \<Rightarrow>
                 if IndexByte (drop j hostport) CHR ''['' \<noteq> None then None
                 else if IndexByte (drop k hostport) CHR '']'' \<noteq> None then None
                 else Some (host, drop (i + 1) hostport))"

definition hostFromAddr :: "string \<Rightarrow> string" where
  "hostFromAddr addr = (case SplitHostPort addr of Some (h, _) \<Rightarrow> h | None \<Rightarrow> addr)"

record tlsConfig =
  tls_ServerName :: string
  tls_MinVersion :: nat
  tls_InsecureSkipVerify :: bool

definition VersionTLS12 :: nat where "VersionTLS12 = 0x0303"

definition tls_config :: "credentials \<Rightarrow> tlsConfig" where
  "tls_config c = \<lparr>tls_ServerName = hostFromAddr (cre_addr c), tls_MinVersion = VersionTLS12, tls_InsecureSkipVerify = cre_insecure c\<rparr>"

section \<open>The connection\<close>

record 'p conn_lib =
  nt_write :: "bytes \<Rightarrow> 'p \<Rightarrow> codec_error + 'p"
  nt_unread :: "'p \<Rightarrow> bytes"
  nt_consume :: "bytes \<Rightarrow> 'p \<Rightarrow> 'p"

record client_lib =
  cl_codec :: codec_lib
  cl_argon :: idkey
  cl_b64 :: "bytes \<Rightarrow> string"
  cl_b64dec :: "string \<Rightarrow> bytes option"

record 'p prmClient =
  pc_conn :: 'p
  pc_accountID :: string
  pc_closed :: bool

datatype client_error =
    EDial string
  | EWire codec_error
  | EUnexpected string
  | EAuthFailed string string
  | EBadSalt
  | EProof

definition send :: "'p conn_lib \<Rightarrow> client_lib \<Rightarrow> Frame \<Rightarrow> 'p prmClient \<Rightarrow> codec_error option \<times> 'p prmClient" where
  "send N K f c =
     (case Encode (nt_write N) (cl_codec K) '''' f (pc_conn c) of
        Inl e \<Rightarrow> (Some e, c)
      | Inr p \<Rightarrow> (None, c\<lparr>pc_conn := p\<rparr>))"

definition read_frame :: "'p conn_lib \<Rightarrow> client_lib \<Rightarrow> 'p prmClient \<Rightarrow> (codec_error + Frame) \<times> 'p prmClient" where
  "read_frame N K c =
     (let (r, rest) = Decode (cl_codec K) (nt_unread N (pc_conn c))
      in (r, c\<lparr>pc_conn := nt_consume N rest (pc_conn c)\<rparr>))"

definition expectType :: "'p conn_lib \<Rightarrow> client_lib \<Rightarrow> string \<Rightarrow> 'p prmClient \<Rightarrow> client_error option \<times> 'p prmClient" where
  "expectType N K want c =
     (case read_frame N K c of
        (Inl e, c') \<Rightarrow> (Some (EWire e), c')
      | (Inr f, c') \<Rightarrow> if FrameType f \<noteq> want then (Some (EUnexpected (FrameType f)), c') else (None, c'))"

definition expectAny :: "'p conn_lib \<Rightarrow> client_lib \<Rightarrow> string list \<Rightarrow> 'p prmClient \<Rightarrow> (client_error + Frame) \<times> 'p prmClient" where
  "expectAny N K want c =
     (case read_frame N K c of
        (Inl e, c') \<Rightarrow> (Inl (EWire e), c')
      | (Inr f, c') \<Rightarrow> if FrameType f \<in> set want then (Inr f, c') else (Inl (EUnexpected (FrameType f)), c'))"

definition close_client :: "'p prmClient \<Rightarrow> 'p prmClient" where
  "close_client c = c\<lparr>pc_closed := True\<rparr>"

section \<open>Login\<close>

text \<open>The last step: the server's verdict.\<close>

definition await_verdict :: "'p conn_lib \<Rightarrow> client_lib \<Rightarrow> 'p prmClient \<Rightarrow> (client_error + 'p prmClient)" where
  "await_verdict N K c =
     (case expectAny N K [''auth_ok'', ''auth_err''] c of
        (Inl e, _) \<Rightarrow> Inl e
      | (Inr (FAuthErr e), _) \<Rightarrow> Inl (EAuthFailed (ae_Reason e) (ae_Detail e))
      | (Inr (FAuthOK v), c') \<Rightarrow> Inr (c'\<lparr>pc_accountID := ao_AccountID v\<rparr>)
      | (Inr f, _) \<Rightarrow> Inl (EUnexpected (FrameType f)))"

text \<open>The password method: request, challenge, response.\<close>

definition password_steps :: "'p conn_lib \<Rightarrow> client_lib \<Rightarrow> credentials \<Rightarrow> 'p prmClient \<Rightarrow> (client_error + 'p prmClient)" where
  "password_steps N K creds c =
     (case send N K (FAuthRequest \<lparr>aq_ID = '''', aq_Method = AuthMethodPassword, aq_Tenant = cre_tenant creds,
           aq_Username = cre_username creds, aq_Token = ''''\<rparr>) c of
        (Some e, _) \<Rightarrow> Inl (EWire e)
      | (None, c1) \<Rightarrow>
          (case expectAny N K [''auth_challenge'', ''auth_err''] c1 of
             (Inl e, _) \<Rightarrow> Inl e
           | (Inr (FAuthErr e), _) \<Rightarrow> Inl (EAuthFailed (ae_Reason e) (ae_Detail e))
           | (Inr (FAuthChallenge chal), c2) \<Rightarrow>
               (case cl_b64dec K (ac_Salt chal) of
                  None \<Rightarrow> Inl EBadSalt
                | Some saltBytes \<Rightarrow>
                    (case ComputeClientProof (cl_argon K) (cre_password creds) saltBytes (ac_Params chal) of
                       None \<Rightarrow> Inl EProof
                     | Some proof \<Rightarrow>
                         (case send N K (FAuthResponse \<lparr>ar_ID = '''', ar_Proof = cl_b64 K proof\<rparr>) c2 of
                            (Some e, _) \<Rightarrow> Inl (EWire e)
                          | (None, c3) \<Rightarrow> Inr c3)))
           | (Inr f, _) \<Rightarrow> Inl (EUnexpected (FrameType f))))"

definition token_steps :: "'p conn_lib \<Rightarrow> client_lib \<Rightarrow> credentials \<Rightarrow> 'p prmClient \<Rightarrow> (client_error + 'p prmClient)" where
  "token_steps N K creds c =
     (case send N K (FAuthRequest \<lparr>aq_ID = '''', aq_Method = AuthMethodToken, aq_Tenant = '''', aq_Username = '''',
           aq_Token = cre_token creds\<rparr>) c of
        (Some e, _) \<Rightarrow> Inl (EWire e)
      | (None, c1) \<Rightarrow> Inr c1)"

text \<open>\<open>dialled\<close> is the outcome of \<^verbatim>\<open>tls.DialWithDialer\<close> on the address with \<open>tls_config\<close>.\<close>

definition dialAndAuth :: "'p conn_lib \<Rightarrow> client_lib \<Rightarrow> credentials \<Rightarrow> (string + 'p) \<Rightarrow> client_error + 'p prmClient" where
  "dialAndAuth N K creds dialled =
     (case dialled of
        Inl e \<Rightarrow> Inl (EDial e)
      | Inr p \<Rightarrow>
          let cli = \<lparr>pc_conn = p, pc_accountID = '''', pc_closed = False\<rparr>
          in case send N K (FHello \<lparr>hl_ID = '''', hl_ClientName = ''prm-tui'', hl_ClientVersion = ''0.1.0'', hl_CapVersion = ''0.1'',
                hl_Capabilities = []\<rparr>) cli of
               (Some e, _) \<Rightarrow> Inl (EWire e)
             | (None, c1) \<Rightarrow>
                 (case expectType N K ''welcome'' c1 of
                    (Some e, _) \<Rightarrow> Inl e
                  | (None, c2) \<Rightarrow>
                      (case (if cre_token creds \<noteq> '''' then token_steps N K creds c2 else password_steps N K creds c2) of
                         Inl e \<Rightarrow> Inl e
                       | Inr c3 \<Rightarrow> await_verdict N K c3)))"

section \<open>Encoding\<close>

lemma Encode_bytes: "Encode w L ty f p = (case EncodeBytes L ty f of Inl e \<Rightarrow> Inl e | Inr b \<Rightarrow> w b p)"
  by (simp add: Encode_def EncodeBytes_def split: sum.split)

lemma EncodeBytes_short: "case marshalWithType L ty f of Inl _ \<Rightarrow> False | Inr b \<Rightarrow> length b \<le> 200 \<Longrightarrow> \<not> isl (EncodeBytes L ty f)"
  by (auto simp: EncodeBytes_def MaxFrameSize_def split: sum.splits)

end
