(* ===== verification/Tui.thy ===== *)
theory Tui
  imports Client
begin

text \<open>
  The user interface of the terminal client: messages, commands, the state and its \<^verbatim>\<open>Update\<close>, the reconnection timer,
  the operator's roster and the screen (\<^verbatim>\<open>cmd/prm/main.go\<close> from \<^verbatim>\<open>pumpInto\<close> on).
\<close>

section \<open>Messages, commands, libraries\<close>

datatype key = KeyCtrlC | KeyEsc | KeyEnter | KeyOther string

text \<open>\<open>LibMsg\<close> stands for the messages only the libraries know.\<close>

datatype 'p tmsg =
    WindowSize int int
  | Key key
  | JoinedMsg
  | ChatMsg string string string gotime
  | MembersMsg "MemberInfo list"
  | MembersTick
  | ChanopOKMsg string string
  | PresenceMsg string string string
  | ServerErrorMsg string string
  | DisconnectMsg codec_error
  | ReconnectFailedMsg nat client_error int
  | ReconnectedMsg "'p prmClient"
  | LibMsg nat

text \<open>\<open>LibCmd\<close> stands for a command of the libraries; \<open>SendJoin\<close> is the command of \<^verbatim>\<open>Init\<close>, \<open>Rejoin\<close> the one after a reconnection, \<open>Sleep\<close> the roster's timer.\<close>

datatype cmd = Quit | SendJoin | Rejoin | Sleep int | Reconnect int nat | LibCmd nat

datatype style = systemStyle | selfStyle | otherStyle | tsStyle | errStyle | opStyle | rosterBox | rosterCursorSt | pausedStyle | botStyle

record ('p, 'i, 'v) tui_lib =
  tl_net :: "'p conn_lib"
  tl_client :: client_lib
  tl_newInput :: "string \<Rightarrow> nat \<Rightarrow> 'i"
  tl_Value :: "'i \<Rightarrow> string"
  tl_SetValue :: "string \<Rightarrow> 'i \<Rightarrow> 'i"
  tl_SetWidth :: "int \<Rightarrow> 'i \<Rightarrow> 'i"
  tl_UpdateInput :: "'p tmsg \<Rightarrow> 'i \<Rightarrow> 'i \<times> nat list"
  tl_InputView :: "'i \<Rightarrow> string"
  tl_newView :: "int \<Rightarrow> int \<Rightarrow> 'v"
  tl_Resize :: "int \<Rightarrow> int \<Rightarrow> 'v \<Rightarrow> 'v"
  tl_SetContent :: "string \<Rightarrow> 'v \<Rightarrow> 'v"
  tl_GotoBottom :: "'v \<Rightarrow> 'v"
  tl_UpdateView :: "'p tmsg \<Rightarrow> 'v \<Rightarrow> 'v \<times> nat list"
  tl_ViewView :: "'v \<Rightarrow> string"
  tl_Render :: "style \<Rightarrow> string \<Rightarrow> string"
  tl_Width :: "int \<Rightarrow> string \<Rightarrow> string"
  tl_JoinHorizontal :: "string \<Rightarrow> string \<Rightarrow> string"
  tl_clock :: "gotime \<Rightarrow> string"
  tl_wireErr :: "codec_error \<Rightarrow> string"
  tl_clientErr :: "client_error \<Rightarrow> string"
  tl_duration :: "int \<Rightarrow> string"

section \<open>State\<close>

record ('p, 'i, 'v) model =
  md_cli :: "'p prmClient"
  md_creds :: credentials
  md_myName :: string
  md_input :: 'i
  md_view :: 'v
  md_lines :: "string list"
  md_width :: int
  md_height :: int
  md_joined :: bool
  md_reconnecting :: bool
  md_reconnectN :: nat
  md_members :: "MemberInfo list"
  md_rosterCursor :: int

definition membersRefreshInterval :: int where "membersRefreshInterval = 5 * 1000000000"

definition newModel :: "('p, 'i, 'v) tui_lib \<Rightarrow> 'p prmClient \<Rightarrow> credentials \<Rightarrow> ('p, 'i, 'v) model" where
  "newModel T c creds = \<lparr>md_cli = c, md_creds = creds, md_myName = cre_username creds,
     md_input = tl_newInput T ''type a message and press Enter (or /quit)'' 4096, md_view = tl_newView T 80 20, md_lines = [],
     md_width = 0, md_height = 0, md_joined = False, md_reconnecting = False, md_reconnectN = 0, md_members = [], md_rosterCursor = 0\<rparr>"

text \<open>\<^verbatim>\<open>strings.Join\<close> with a newline.\<close>

fun join_lines :: "string list \<Rightarrow> string" where
  "join_lines [] = ''''"
| "join_lines [x] = x"
| "join_lines (x # y # ys) = x @ CHR 0x0A # join_lines (y # ys)"

definition appendLine :: "('p, 'i, 'v) tui_lib \<Rightarrow> string \<Rightarrow> ('p, 'i, 'v) model \<Rightarrow> ('p, 'i, 'v) model" where
  "appendLine T line m =
     (let ls = md_lines m @ [line];
          ls' = (if length ls > 2000 then drop (length ls - 2000) ls else ls)
      in m\<lparr>md_lines := ls', md_view := tl_GotoBottom T (tl_SetContent T (join_lines ls') (md_view m))\<rparr>)"

definition displayShort :: "string \<Rightarrow> string" where
  "displayShort i = (if length i > 8 then take 8 i else i)"

text \<open>A send whose error is dropped.\<close>

definition send_quiet :: "('p, 'i, 'v) tui_lib \<Rightarrow> Frame \<Rightarrow> ('p, 'i, 'v) model \<Rightarrow> ('p, 'i, 'v) model" where
  "send_quiet T f m = m\<lparr>md_cli := snd (send (tl_net T) (tl_client T) f (md_cli m))\<rparr>"

definition members_request :: "('p, 'i, 'v) model \<Rightarrow> Frame" where
  "members_request m = FMembersReq \<lparr>mq_ID = '''', mq_Channel = cre_channel (md_creds m)\<rparr>"

section \<open>Commands\<close>

definition Init :: "('p, 'i, 'v) model \<Rightarrow> cmd list" where
  "Init m = [SendJoin]"

text \<open>What \<^verbatim>\<open>SendJoin\<close> and \<^verbatim>\<open>Rejoin\<close> do when they run.\<close>

definition run_join :: "('p, 'i, 'v) tui_lib \<Rightarrow> ('p, 'i, 'v) model \<Rightarrow> ('p, 'i, 'v) model" where
  "run_join T m = send_quiet T (FJoin \<lparr>jn_ID = '''', jn_Channel = cre_channel (md_creds m)\<rparr>) m"

definition scheduleMembersTick :: "('p, 'i, 'v) model \<Rightarrow> cmd list" where
  "scheduleMembersTick m = (if \<not> cre_opMode (md_creds m) then [] else [Sleep membersRefreshInterval])"

text \<open>\<^verbatim>\<open>time.Second << attempt\<close> in 64 bits.\<close>

definition backoffFor :: "nat \<Rightarrow> int" where
  "backoffFor attempt =
     (let d = sint (push_bit attempt (1000000000 :: 64 word))
      in if d > 30 * 1000000000 \<or> d < 0 then 30 * 1000000000 else d)"

definition scheduleReconnect :: "int \<Rightarrow> ('p, 'i, 'v) model \<Rightarrow> cmd list" where
  "scheduleReconnect delay m = [Reconnect delay (md_reconnectN m)]"

text \<open>The message that \<^verbatim>\<open>Reconnect\<close> ends with, given the outcome of dialling after the delay.\<close>

definition run_reconnect :: "('p, 'i, 'v) tui_lib \<Rightarrow> credentials \<Rightarrow> nat \<Rightarrow> (string + 'p) \<Rightarrow> 'p tmsg" where
  "run_reconnect T creds attempt dialled =
     (case dialAndAuth (tl_net T) (tl_client T) creds dialled of
        Inl err \<Rightarrow> ReconnectFailedMsg attempt err (backoffFor attempt)
      | Inr cli \<Rightarrow> ReconnectedMsg cli)"

section \<open>Reading frames\<close>

text \<open>One turn of \<^verbatim>\<open>pumpInto\<close>: the client, the message pushed, and whether the loop goes on.\<close>

definition pump_step :: "'p conn_lib \<Rightarrow> client_lib \<Rightarrow> 'p prmClient \<Rightarrow> 'p prmClient \<times> 'p tmsg option \<times> bool" where
  "pump_step N K c =
     (case read_frame N K c of
        (Inl e, c') \<Rightarrow> (c', Some (DisconnectMsg e), False)
      | (Inr f, c') \<Rightarrow>
          (case f of
             FPing v \<Rightarrow> (snd (send N K (FPong \<lparr>po_ID = '''', po_Token = pi_Token v\<rparr>) c'), None, True)
           | FMsg v \<Rightarrow> (c', Some (ChatMsg (mg_From v) (mg_FromRole v) (mg_Body v) (mg_TS v)), True)
           | FPresence v \<Rightarrow> (c', Some (PresenceMsg (pr_Kind v) (pr_DisplayName v) (pr_AccountID v)), True)
           | FMembersOK v \<Rightarrow> (c', Some (MembersMsg (mk_Members v)), True)
           | FChanopOK v \<Rightarrow> (c', Some (ChanopOKMsg (co_Action v) (co_BotAccountID v)), True)
           | FError v \<Rightarrow> (c', Some (ServerErrorMsg (er_Reason v) (er_Detail v)), True)
           | _ \<Rightarrow> (c', None, True)))"

section \<open>Keys\<close>

definition togglePauseSelected :: "('p, 'i, 'v) tui_lib \<Rightarrow> ('p, 'i, 'v) model \<Rightarrow> ('p, 'i, 'v) model" where
  "togglePauseSelected T m =
     (if md_rosterCursor m < 0 \<or> md_rosterCursor m \<ge> int (length (md_members m)) then m
      else
        let mem = md_members m ! nat (md_rosterCursor m)
        in if mi_AccountType mem \<noteq> ''bot'' then appendLine T (tl_Render T errStyle ''op: selected row is not a bot'') m
           else if mi_Paused mem
           then send_quiet T (FChanopResumeBot \<lparr>cr_ID = '''', cr_Channel = cre_channel (md_creds m), cr_BotAccountID = mi_AccountID mem,
                  cr_Reason = ''resumed via TUI''\<rparr>) m
           else send_quiet T (FChanopPauseBot \<lparr>cp_ID = '''', cp_Channel = cre_channel (md_creds m), cp_BotAccountID = mi_AccountID mem,
                  cp_Reason = ''paused via TUI''\<rparr>) m)"

definition op_key :: "('p, 'i, 'v) tui_lib \<Rightarrow> string \<Rightarrow> ('p, 'i, 'v) model \<Rightarrow> ('p, 'i, 'v) model option" where
  "op_key T k m =
     (if k = ''p'' then Some (togglePauseSelected T m)
      else if k \<in> {''up'', ''k''} then
        Some (if md_rosterCursor m > 0 then m\<lparr>md_rosterCursor := md_rosterCursor m - 1\<rparr> else m)
      else if k \<in> {''down'', ''j''} then
        Some (if md_rosterCursor m < int (length (md_members m)) - 1 then m\<lparr>md_rosterCursor := md_rosterCursor m + 1\<rparr> else m)
      else if k = ''r'' then Some (send_quiet T (members_request m) m)
      else None)"

definition enter_key :: "('p, 'i, 'v) tui_lib \<Rightarrow> ('p, 'i, 'v) model \<Rightarrow> ('p, 'i, 'v) model \<times> bool" where
  "enter_key T m =
     (let text = TrimSpace (tl_Value T (md_input m));
          m1 = m\<lparr>md_input := tl_SetValue T '''' (md_input m)\<rparr>
      in if text = ''/quit'' \<or> text = ''/exit'' then (m1, True)
         else if text \<noteq> '''' then
           (case send (tl_net T) (tl_client T) (FMsg \<lparr>mg_ID = '''', mg_Channel = cre_channel (md_creds m), mg_To = '''', mg_From = '''',
               mg_FromRole = '''', mg_TS = 0, mg_Body = text\<rparr>) (md_cli m1) of
              (None, c) \<Rightarrow> (m1\<lparr>md_cli := c\<rparr>, False)
            | (Some e, c) \<Rightarrow> (appendLine T (tl_Render T errStyle (''send: '' @ tl_wireErr T e)) (m1\<lparr>md_cli := c\<rparr>), False))
         else (m1, False))"

section \<open>Update\<close>

definition chat_line :: "('p, 'i, 'v) tui_lib \<Rightarrow> string \<Rightarrow> string \<Rightarrow> string \<Rightarrow> gotime \<Rightarrow> ('p, 'i, 'v) model \<Rightarrow> string" where
  "chat_line T from fromRole body ts m =
     (let mine = (from = pc_accountID (md_cli m));
          name = (if mine then md_myName m else from);
          op = (fromRole = FromRoleChannelOp);
          style = (if op then opStyle else if mine then selfStyle else otherStyle);
          prefix = (if op then tl_Render T opStyle ''[op] '' else '''')
      in tl_Render T tsStyle (tl_clock T ts) @ '' '' @ prefix @ tl_Render T style (displayShort name) @ '': '' @ body)"

text \<open>The end of \<^verbatim>\<open>Update\<close>: the text field and the viewport see every message that did not return early.\<close>

definition after_switch :: "('p, 'i, 'v) tui_lib \<Rightarrow> 'p tmsg \<Rightarrow> cmd list \<Rightarrow> ('p, 'i, 'v) model \<Rightarrow> ('p, 'i, 'v) model \<times> cmd list" where
  "after_switch T msg cmds m =
     (let (i', c1) = tl_UpdateInput T msg (md_input m);
          (v', c2) = tl_UpdateView T msg (md_view m)
      in (m\<lparr>md_input := i', md_view := v'\<rparr>, cmds @ map LibCmd (c1 @ c2)))"

definition Update :: "('p, 'i, 'v) tui_lib \<Rightarrow> 'p tmsg \<Rightarrow> ('p, 'i, 'v) model \<Rightarrow> ('p, 'i, 'v) model \<times> cmd list" where
  "Update T msg m =
     (case msg of
        WindowSize w h \<Rightarrow> after_switch T msg [] (m\<lparr>md_width := w, md_height := h, md_input := tl_SetWidth T w (md_input m),
          md_view := tl_GotoBottom T (tl_SetContent T (join_lines (md_lines m)) (tl_Resize T w (h - 3) (md_view m)))\<rparr>)
      | Key KeyCtrlC \<Rightarrow> (m, [Quit])
      | Key KeyEsc \<Rightarrow> (m, [Quit])
      | Key KeyEnter \<Rightarrow> (let (m', quit) = enter_key T m in if quit then (m', [Quit]) else after_switch T msg [] m')
      | Key (KeyOther k) \<Rightarrow>
          (if cre_opMode (md_creds m) \<and> tl_Value T (md_input m) = '''' then
             (case op_key T k m of Some m' \<Rightarrow> (m', []) | None \<Rightarrow> after_switch T msg [] m)
           else after_switch T msg [] m)
      | JoinedMsg \<Rightarrow>
          let m1 = appendLine T (tl_Render T systemStyle (''** joined #'' @ cre_channel (md_creds m) @ '' **'')) (m\<lparr>md_joined := True\<rparr>)
          in if cre_opMode (md_creds m) then after_switch T msg (scheduleMembersTick m1) (send_quiet T (members_request m1) m1)
             else after_switch T msg [] m1
      | ChatMsg from fromRole body ts \<Rightarrow> after_switch T msg [] (appendLine T (chat_line T from fromRole body ts m) m)
      | MembersMsg ms \<Rightarrow>
          after_switch T msg [] (let m1 = m\<lparr>md_members := ms\<rparr>
            in if md_rosterCursor m1 \<ge> int (length ms) then m1\<lparr>md_rosterCursor := 0\<rparr> else m1)
      | MembersTick \<Rightarrow>
          if cre_opMode (md_creds m) then after_switch T msg (scheduleMembersTick m) (send_quiet T (members_request m) m)
          else after_switch T msg [] m
      | ChanopOKMsg _ _ \<Rightarrow> after_switch T msg [] (send_quiet T (members_request m) m)
      | PresenceMsg kind displayName accountID \<Rightarrow>
          let what = (if kind = PresencePart then ''left'' else ''joined'');
              who = (if displayName = '''' then displayShort accountID else displayName)
          in after_switch T msg [] (appendLine T (tl_Render T systemStyle (''** '' @ who @ '' '' @ what @ '' **'')) m)
      | ServerErrorMsg reason detail \<Rightarrow>
          after_switch T msg [] (appendLine T (tl_Render T errStyle (''server error: '' @ reason @ '' '' @ detail)) m)
      | DisconnectMsg e \<Rightarrow>
          if md_reconnecting m then after_switch T msg [] m
          else let m1 = appendLine T (tl_Render T errStyle (''disconnected: '' @ tl_wireErr T e @ '' (reconnecting...)''))
                          (m\<lparr>md_reconnecting := True, md_reconnectN := 1\<rparr>)
               in (m1, scheduleReconnect 0 m1)
      | ReconnectFailedMsg attempt err nextIn \<Rightarrow>
          let m1 = (appendLine T (tl_Render T errStyle (''reconnect attempt '' @ FormatInt (int attempt) @ '' failed: '' @
                     tl_clientErr T err @ '' -- retrying in '' @ tl_duration T nextIn)) m)\<lparr>md_reconnectN := attempt + 1\<rparr>
          in (m1, scheduleReconnect nextIn m1)
      | ReconnectedMsg cli \<Rightarrow>
          (appendLine T (tl_Render T systemStyle (''** reconnected; rejoining #'' @ cre_channel (md_creds m) @ '' **''))
             (m\<lparr>md_cli := cli, md_reconnecting := False, md_reconnectN := 0\<rparr>), [Rejoin])
      | LibMsg _ \<Rightarrow> after_switch T msg [] m)"

section \<open>The screen\<close>

definition roster_row :: "('p, 'i, 'v) tui_lib \<Rightarrow> ('p, 'i, 'v) model \<Rightarrow> nat \<Rightarrow> MemberInfo \<Rightarrow> string" where
  "roster_row T m i mem =
     (let name = (if mi_DisplayName mem = '''' then displayShort (mi_AccountID mem) else mi_DisplayName mem);
          row = (if mi_AccountType mem = ''bot''
                 then tl_Render T botStyle (''@'' @ name) @
                   (if mi_IsGhost mem then tl_Render T systemStyle '' (ghost)'' else '''') @
                   (if mi_Paused mem then '' '' @ tl_Render T pausedStyle ''[paused]'' else '''')
                 else name)
      in (if int i = md_rosterCursor m then tl_Render T rosterCursorSt row else row) @ [CHR 0x0A])"

definition renderRoster :: "('p, 'i, 'v) tui_lib \<Rightarrow> ('p, 'i, 'v) model \<Rightarrow> string" where
  "renderRoster T m =
     (if md_members m = [] then tl_Render T rosterBox (tl_Render T systemStyle ''(no members)'')
      else tl_Render T rosterBox (tl_Render T systemStyle (''members ('' @ FormatInt (int (length (md_members m))) @ '')'') @ [CHR 0x0A] @
        concat (map (\<lambda>(i, mem). roster_row T m i mem) (enumerate 0 (md_members m)))))"

definition joinLeftRight :: "('p, 'i, 'v) tui_lib \<Rightarrow> string \<Rightarrow> string \<Rightarrow> int \<Rightarrow> string" where
  "joinLeftRight T left right totalWidth =
     (let rightWidth = (if totalWidth > 0 \<and> 28 > totalWidth div 3 then totalWidth div 3 else 28)
      in tl_JoinHorizontal T (tl_Width T (totalWidth - rightWidth - 1) left) (tl_Width T rightWidth right))"

definition View :: "('p, 'i, 'v) tui_lib \<Rightarrow> ('p, 'i, 'v) model \<Rightarrow> string" where
  "View T m =
     (let connState = (if md_reconnecting m then tl_Render T errStyle ('' -- RECONNECTING (attempt '' @ FormatInt (int (md_reconnectN m)) @ '')'') else '''');
          statusHint = (if cre_opMode (md_creds m)
            then ''op mode: [p]ause/resume selected bot, [j/k] move cursor, [r]efresh, Ctrl-C to quit'' else ''Ctrl-C to quit'');
          status = tl_Render T systemStyle (''#'' @ cre_channel (md_creds m) @ '' -- '' @ md_myName m @ '' -- '' @ statusHint) @ connState;
          chatView = (if cre_opMode (md_creds m) then joinLeftRight T (tl_ViewView T (md_view m)) (renderRoster T m) (md_width m)
            else tl_ViewView T (md_view m))
      in chatView @ [CHR 0x0A] @ tl_InputView T (md_input m) @ [CHR 0x0A] @ status)"

section \<open>The command line\<close>

text \<open>
  \<^verbatim>\<open>main\<close> up to the start of the program: an exit status, or the connected model with its first command and the
  reader running. \<open>prmPassword\<close> is the environment variable, \<open>typed\<close> the outcome of reading the password.
\<close>

definition prm_credentials :: "string list \<Rightarrow> string \<Rightarrow> string option \<Rightarrow> nat + credentials" where
  "prm_credentials args prmPassword typed =
     (case flag_Parse [(''insecure'', True), (''token'', False), (''display-name'', False), (''op'', True)] [] args of
        FlagExit n \<Rightarrow> Inl n
      | Flags fl [addr, tenant, username, channel] \<Rightarrow>
          let creds = \<lparr>cre_addr = addr, cre_tenant = tenant, cre_username = username, cre_channel = channel, cre_password = '''',
                cre_token = flag_str fl ''token'' '''', cre_insecure = flag_bool fl ''insecure'', cre_opMode = flag_bool fl ''op''\<rparr>
          in if cre_token creds \<noteq> '''' then Inr creds
             else if prmPassword \<noteq> '''' then Inr (creds\<lparr>cre_password := prmPassword\<rparr>)
             else (case typed of None \<Rightarrow> Inl 1 | Some pw \<Rightarrow> Inr (creds\<lparr>cre_password := pw\<rparr>))
      | Flags _ _ \<Rightarrow> Inl 2)"

definition main_prm :: "('p, 'i, 'v) tui_lib \<Rightarrow> string list \<Rightarrow> string \<Rightarrow> string option \<Rightarrow> (string + 'p)
    \<Rightarrow> nat + ('p, 'i, 'v) model \<times> cmd list" where
  "main_prm T args prmPassword typed dialled =
     (case prm_credentials args prmPassword typed of
        Inl n \<Rightarrow> Inl n
      | Inr creds \<Rightarrow>
          (case dialAndAuth (tl_net T) (tl_client T) creds dialled of
             Inl _ \<Rightarrow> Inl 1
           | Inr cli \<Rightarrow> let m = newModel T cli creds in Inr (m, Init m)))"

section \<open>Running\<close>

text \<open>
  The running program: the model, the commands that have been started and not ended, the messages on their way to
  \<^verbatim>\<open>Update\<close>, and how many goroutines are in \<^verbatim>\<open>pumpInto\<close>. Commands run in goroutines of their own and messages arrive in any
  order. After \<open>Quit\<close> the program ends.
\<close>

record ('p, 'i, 'v) run =
  rn_model :: "('p, 'i, 'v) model"
  rn_pending :: "cmd list"
  rn_inbox :: "'p tmsg list"
  rn_readers :: nat

fun is_input :: "'p tmsg \<Rightarrow> bool" where
  "is_input (WindowSize _ _) = True"
| "is_input (Key _) = True"
| "is_input (LibMsg _) = True"
| "is_input _ = False"

fun is_reconnected :: "'p tmsg \<Rightarrow> bool" where
  "is_reconnected (ReconnectedMsg _) = True"
| "is_reconnected _ = False"

inductive tui_step :: "('p, 'i, 'v) tui_lib \<Rightarrow> ('p, 'i, 'v) run \<Rightarrow> ('p, 'i, 'v) run \<Rightarrow> bool" for T where
  input: "is_input msg \<Longrightarrow> tui_step T r (r\<lparr>rn_inbox := rn_inbox r @ [msg]\<rparr>)"
| update: "rn_inbox r = xs @ msg # ys \<Longrightarrow> Update T msg (rn_model r) = (m', cmds) \<Longrightarrow>
    tui_step T r (r\<lparr>rn_model := m', rn_pending := rn_pending r @ cmds, rn_inbox := xs @ ys,
      rn_readers := rn_readers r + (if is_reconnected msg then 1 else 0)\<rparr>)"
| reading: "rn_readers r > 0 \<Longrightarrow> pump_step (tl_net T) (tl_client T) (md_cli (rn_model r)) = (c', msg, goes_on) \<Longrightarrow>
    tui_step T r (r\<lparr>rn_model := (rn_model r)\<lparr>md_cli := c'\<rparr>, rn_inbox := rn_inbox r @ (case msg of None \<Rightarrow> [] | Some x \<Rightarrow> [x]),
      rn_readers := rn_readers r - (if goes_on then 0 else 1)\<rparr>)"
| join: "rn_pending r = xs @ SendJoin # ys \<Longrightarrow>
    tui_step T r (r\<lparr>rn_model := run_join T (rn_model r), rn_pending := xs @ ys, rn_inbox := rn_inbox r @ [JoinedMsg]\<rparr>)"
| rejoin: "rn_pending r = xs @ Rejoin # ys \<Longrightarrow> tui_step T r (r\<lparr>rn_model := run_join T (rn_model r), rn_pending := xs @ ys\<rparr>)"
| tick: "rn_pending r = xs @ Sleep d # ys \<Longrightarrow> tui_step T r (r\<lparr>rn_pending := xs @ ys, rn_inbox := rn_inbox r @ [MembersTick]\<rparr>)"
| reconnect: "rn_pending r = xs @ Reconnect d n # ys \<Longrightarrow>
    tui_step T r (r\<lparr>rn_pending := xs @ ys, rn_inbox := rn_inbox r @ [run_reconnect T (md_creds (rn_model r)) n dialled]\<rparr>)"
| library: "rn_pending r = xs @ LibCmd k # ys \<Longrightarrow> tui_step T r (r\<lparr>rn_pending := xs @ ys\<rparr>)"
| network: "tui_step T r (r\<lparr>rn_model := (rn_model r)\<lparr>md_cli := (md_cli (rn_model r))\<lparr>pc_conn := p\<rparr>\<rparr>\<rparr>)"

inductive tui_reachable :: "('p, 'i, 'v) tui_lib \<Rightarrow> ('p, 'i, 'v) run \<Rightarrow> bool" for T where
  started: "main_prm T args prmPassword typed dialled = Inr (m, cmds) \<Longrightarrow>
    tui_reachable T \<lparr>rn_model = m, rn_pending = cmds, rn_inbox = [], rn_readers = 1\<rparr>"
| stepped: "tui_reachable T r \<Longrightarrow> tui_step T r r' \<Longrightarrow> tui_reachable T r'"

end
