(* ===== verification/Tui_Safety.thy ===== *)
theory Tui_Safety
  imports Tui Codec_Wire
begin

text \<open>The properties of the terminal client's event loop: one link to the server, reconnection delays, a roster cursor in range.\<close>

section \<open>The invariant\<close>

fun is_disconnect :: "'p tmsg \<Rightarrow> bool" where
  "is_disconnect (DisconnectMsg _) = True"
| "is_disconnect _ = False"

fun is_result :: "'p tmsg \<Rightarrow> bool" where
  "is_result (ReconnectFailedMsg _ _ _) = True"
| "is_result (ReconnectedMsg _) = True"
| "is_result _ = False"

fun is_reconnect :: "cmd \<Rightarrow> bool" where
  "is_reconnect (Reconnect _ _) = True"
| "is_reconnect _ = False"

definition count :: "('a \<Rightarrow> bool) \<Rightarrow> 'a list \<Rightarrow> nat" where
  "count P xs = length (filter P xs)"

lemma count_simps [simp]: "count P [] = 0" "count P (x # xs) = (if P x then 1 else 0) + count P xs" "count P (xs @ ys) = count P xs + count P ys"
  by (simp_all add: count_def)

lemma count_LibCmd [simp]: "count is_reconnect (map LibCmd ks) = 0"
  by (induction ks) simp_all

text \<open>Who holds the link: a reader, a notice that it broke; or an attempt to reconnect, its result.\<close>

definition broken :: "('p, 'i, 'v) run \<Rightarrow> nat" where
  "broken r = count is_reconnect (rn_pending r) + count is_result (rn_inbox r)"

definition intact :: "('p, 'i, 'v) run \<Rightarrow> nat" where
  "intact r = rn_readers r + count is_disconnect (rn_inbox r)"

text \<open>The delay before attempt \<open>n\<close>.\<close>

definition delay_of :: "nat \<Rightarrow> int" where
  "delay_of n = (if n \<le> 1 then 0 else backoffFor (n - 1))"

definition timely :: "cmd \<Rightarrow> bool" where
  "timely c = (case c of Reconnect d n \<Rightarrow> n \<ge> 1 \<and> d = delay_of n | _ \<Rightarrow> True)"

definition timely_msg :: "'p tmsg \<Rightarrow> bool" where
  "timely_msg m = (case m of ReconnectFailedMsg n _ d \<Rightarrow> n \<ge> 1 \<and> d = backoffFor n | _ \<Rightarrow> True)"

definition screen_ok :: "('p, 'i, 'v) model \<Rightarrow> bool" where
  "screen_ok m \<longleftrightarrow> length (md_lines m) \<le> 2000 \<and> 0 \<le> md_rosterCursor m \<and>
     (md_rosterCursor m = 0 \<or> md_rosterCursor m < int (length (md_members m)))"

definition run_ok :: "('p, 'i, 'v) run \<Rightarrow> bool" where
  "run_ok r \<longleftrightarrow> intact r + broken r = 1 \<and> (md_reconnecting (rn_model r) \<longleftrightarrow> broken r = 1) \<and>
     (\<forall>c \<in> set (rn_pending r). timely c) \<and> (\<forall>m \<in> set (rn_inbox r). timely_msg m) \<and> screen_ok (rn_model r)"

section \<open>What the operations keep\<close>

lemma appendLine_fields [simp]:
  "md_reconnecting (appendLine T l m) = md_reconnecting m" "md_reconnectN (appendLine T l m) = md_reconnectN m"
  "md_members (appendLine T l m) = md_members m" "md_rosterCursor (appendLine T l m) = md_rosterCursor m"
  "md_creds (appendLine T l m) = md_creds m" "md_cli (appendLine T l m) = md_cli m" "length (md_lines (appendLine T l m)) \<le> 2000"
  by (simp_all add: appendLine_def Let_def)

lemma send_quiet_fields [simp]:
  "md_reconnecting (send_quiet T f m) = md_reconnecting m" "md_lines (send_quiet T f m) = md_lines m"
  "md_members (send_quiet T f m) = md_members m" "md_rosterCursor (send_quiet T f m) = md_rosterCursor m"
  "md_creds (send_quiet T f m) = md_creds m"
  by (simp_all add: send_quiet_def)

lemma screen_ok_append [simp]: "screen_ok m \<Longrightarrow> screen_ok (appendLine T l m)"
  by (simp add: screen_ok_def)

lemma screen_ok_quiet [simp]: "screen_ok (send_quiet T f m) = screen_ok m"
  by (simp add: screen_ok_def)

lemma screen_ok_irrelevant [simp]:
  "screen_ok (m\<lparr>md_cli := c\<rparr>) = screen_ok m" "screen_ok (m\<lparr>md_input := i\<rparr>) = screen_ok m" "screen_ok (m\<lparr>md_view := v\<rparr>) = screen_ok m"
  "screen_ok (m\<lparr>md_joined := j\<rparr>) = screen_ok m" "screen_ok (m\<lparr>md_reconnecting := b\<rparr>) = screen_ok m"
  "screen_ok (m\<lparr>md_reconnectN := n\<rparr>) = screen_ok m" "screen_ok (m\<lparr>md_width := w\<rparr>) = screen_ok m"
  "screen_ok (m\<lparr>md_height := h\<rparr>) = screen_ok m"
  by (simp_all add: screen_ok_def)

lemma screen_ok_join [simp]: "screen_ok (run_join T m) = screen_ok m" "md_reconnecting (run_join T m) = md_reconnecting m"
  by (simp_all add: run_join_def)

text \<open>What the tail of \<^verbatim>\<open>Update\<close> adds.\<close>

definition harmless :: "('p, 'i, 'v) model \<Rightarrow> ('p, 'i, 'v) model \<times> cmd list \<Rightarrow> bool" where
  "harmless m r \<longleftrightarrow> md_reconnecting (fst r) = md_reconnecting m \<and> (screen_ok m \<longrightarrow> screen_ok (fst r)) \<and> count is_reconnect (snd r) = 0"

lemma harmless_quit [simp]: "harmless m (m, [Quit])" "harmless m (m, [])"
  by (simp_all add: harmless_def)

lemma harmless_tail:
  "md_reconnecting m' = md_reconnecting m \<Longrightarrow> (screen_ok m \<Longrightarrow> screen_ok m') \<Longrightarrow> count is_reconnect cmds = 0 \<Longrightarrow>
     harmless m (after_switch T msg cmds m')"
  by (simp add: harmless_def after_switch_def Let_def split_beta)

lemma harmless_enter:
  "enter_key T m = (m', quit) \<Longrightarrow> md_reconnecting m' = md_reconnecting m \<and> (screen_ok m \<longrightarrow> screen_ok m')"
  by (auto simp: enter_key_def Let_def split: if_splits prod.splits option.splits)

lemma harmless_toggle: "md_reconnecting (togglePauseSelected T m) = md_reconnecting m \<and> (screen_ok m \<longrightarrow> screen_ok (togglePauseSelected T m))"
  by (simp add: togglePauseSelected_def Let_def)

lemma screen_ok_up: "screen_ok m \<Longrightarrow> md_rosterCursor m > 0 \<Longrightarrow> screen_ok (m\<lparr>md_rosterCursor := md_rosterCursor m - 1\<rparr>)"
  by (auto simp: screen_ok_def)

lemma screen_ok_down: "screen_ok m \<Longrightarrow> md_rosterCursor m < int (length (md_members m)) - 1 \<Longrightarrow>
    screen_ok (m\<lparr>md_rosterCursor := md_rosterCursor m + 1\<rparr>)"
  by (auto simp: screen_ok_def)

lemma harmless_op_key: "op_key T k m = Some m' \<Longrightarrow> md_reconnecting m' = md_reconnecting m \<and> (screen_ok m \<longrightarrow> screen_ok m')"
proof -
  assume some: "op_key T k m = Some m'"
  have "m' \<in> {m, togglePauseSelected T m, send_quiet T (members_request m) m} \<or>
      md_rosterCursor m > 0 \<and> m' = m\<lparr>md_rosterCursor := md_rosterCursor m - 1\<rparr> \<or>
      md_rosterCursor m < int (length (md_members m)) - 1 \<and> m' = m\<lparr>md_rosterCursor := md_rosterCursor m + 1\<rparr>"
    using some by (simp add: op_key_def split: if_split_asm)
  then show ?thesis
    by (elim disjE conjE insertE emptyE) (simp_all add: harmless_toggle screen_ok_up screen_ok_down)
qed

lemma count_tick [simp]: "count is_reconnect (scheduleMembersTick m) = 0"
  by (simp add: scheduleMembersTick_def)

lemma Update_harmless:
  assumes "\<not> is_disconnect msg" and "\<not> is_result msg"
  shows "harmless m (Update T msg m)"
proof (cases msg)
  case (Key k)
  show ?thesis
  proof (cases k)
    case KeyEnter
    obtain m' quit where e: "enter_key T m = (m', quit)" by fastforce
    then show ?thesis using harmless_enter [OF e] harmless_tail [of m' m "[]" T msg]
      by (auto simp: Update_def Key KeyEnter harmless_def)
  next
    case (KeyOther s)
    then show ?thesis using harmless_op_key [of T s m] harmless_tail [of m m "[]" T msg]
      by (auto simp: Update_def Key harmless_def split: option.splits)
  qed (simp_all add: Update_def Key)
qed (use assms in \<open>auto simp: Update_def Let_def screen_ok_def intro!: harmless_tail\<close>)

text \<open>The messages that move the link.\<close>

lemma Update_disconnect:
  assumes "Update T (DisconnectMsg e) m = (m', cmds)" and "screen_ok m"
  shows "screen_ok m'" and "md_reconnecting m'" and "count is_reconnect cmds = (if md_reconnecting m then 0 else 1)"
    and "\<forall>c \<in> set cmds. timely c"
  using assms
  by (auto simp: Update_def after_switch_def scheduleReconnect_def timely_def delay_of_def Let_def split_beta split: if_splits)

lemma Update_failed:
  assumes "Update T (ReconnectFailedMsg n e d) m = (m', cmds)" and "screen_ok m"
  shows "screen_ok m'" and "md_reconnecting m' = md_reconnecting m" and "cmds = [Reconnect d (n + 1)]"
  using assms by (auto simp: Update_def scheduleReconnect_def Let_def)

lemma Update_reconnected:
  assumes "Update T (ReconnectedMsg c) m = (m', cmds)" and "screen_ok m"
  shows "screen_ok m'" and "\<not> md_reconnecting m'" and "cmds = [Rejoin]"
  using assms by (auto simp: Update_def)

lemma timely_other: "count is_reconnect cmds = 0 \<Longrightarrow> \<forall>c \<in> set cmds. timely c"
  by (induction cmds) (auto simp: timely_def split: cmd.splits if_splits)

lemma pump_messages:
  assumes "pump_step N K c = (c', msg, goes_on)"
  shows "(msg = None \<or> (\<exists>x. msg = Some x \<and> \<not> is_disconnect x \<and> \<not> is_result x \<and> timely_msg x)) \<and> goes_on \<or>
    (\<exists>e. msg = Some (DisconnectMsg e)) \<and> \<not> goes_on"
  using assms by (auto simp: pump_step_def timely_msg_def split: prod.splits sum.splits Frame.splits)

lemma reconnect_message: "is_result (run_reconnect T creds n dialled) \<and> \<not> is_disconnect (run_reconnect T creds n dialled) \<and>
    (n \<ge> 1 \<longrightarrow> timely_msg (run_reconnect T creds n dialled))"
  by (simp add: run_reconnect_def timely_msg_def split: sum.split)

section \<open>Every step keeps it\<close>

lemma run_ok_update:
  assumes "run_ok r" and "rn_inbox r = xs @ msg # ys" and "Update T msg (rn_model r) = (m', cmds)"
  shows "run_ok (r\<lparr>rn_model := m', rn_pending := rn_pending r @ cmds, rn_inbox := xs @ ys,
      rn_readers := rn_readers r + (if is_reconnected msg then 1 else 0)\<rparr>)"
proof (cases "is_disconnect msg \<or> is_result msg")
  case False
  then have "harmless (rn_model r) (m', cmds)" using Update_harmless [of msg "rn_model r" T] assms(3) by simp
  moreover have "\<not> is_reconnected msg" using False by (cases msg) auto
  ultimately show ?thesis using assms(1,2) False timely_other [of cmds]
    by (auto simp: run_ok_def harmless_def intact_def broken_def)
next
  case True
  have ok: "screen_ok (rn_model r)" using assms(1) by (simp add: run_ok_def)
  from True consider e where "msg = DisconnectMsg e" | n e d where "msg = ReconnectFailedMsg n e d" | c where "msg = ReconnectedMsg c"
    by (cases msg) auto
  then show ?thesis
  proof cases
    case (1 e)
    then show ?thesis using Update_disconnect [OF assms(3) [unfolded 1] ok] assms(1,2)
      by (auto simp: run_ok_def intact_def broken_def split: if_splits)
  next
    case (2 n e d)
    then have "timely_msg msg" using assms(1,2) by (auto simp: run_ok_def)
    then have "timely (Reconnect d (n + 1))" by (simp add: timely_def timely_msg_def delay_of_def 2)
    then show ?thesis using Update_failed [OF assms(3) [unfolded 2] ok] assms(1,2)
      by (auto simp: run_ok_def intact_def broken_def 2)
  next
    case (3 c)
    then show ?thesis using Update_reconnected [OF assms(3) [unfolded 3] ok] assms(1,2)
      by (auto simp: run_ok_def intact_def broken_def timely_def)
  qed
qed

lemma run_ok_reading:
  assumes "run_ok r" and "rn_readers r > 0" and "pump_step N K c = (c', msg, goes_on)"
  shows "run_ok (r\<lparr>rn_model := (rn_model r)\<lparr>md_cli := d\<rparr>, rn_inbox := rn_inbox r @ (case msg of None \<Rightarrow> [] | Some x \<Rightarrow> [x]),
      rn_readers := rn_readers r - (if goes_on then 0 else 1)\<rparr>)"
  using pump_messages [OF assms(3)] assms(1,2) by (auto simp: run_ok_def intact_def broken_def timely_msg_def split: option.splits)

lemma tui_step_ok: "tui_step T r r' \<Longrightarrow> run_ok r \<Longrightarrow> run_ok r'"
proof (induction rule: tui_step.induct)
  case (input msg r)
  then show ?case by (cases msg) (auto simp: run_ok_def intact_def broken_def timely_msg_def)
next
  case (update r xs msg ys m' cmds)
  then show ?case by (intro run_ok_update)
next
  case (reading r c' msg goes_on)
  then show ?case by (intro run_ok_reading)
next
  case (reconnect r xs d n ys dialled)
  then have "timely (Reconnect d n)" by (auto simp: run_ok_def)
  then have "n \<ge> 1" by (simp add: timely_def)
  with reconnect reconnect_message [of T "md_creds (rn_model r)" n dialled] show ?case
    by (auto simp: run_ok_def intact_def broken_def)
qed (auto simp: run_ok_def intact_def broken_def timely_msg_def)

lemma tui_reachable_ok: "tui_reachable T r \<Longrightarrow> run_ok r"
proof (induction rule: tui_reachable.induct)
  case (started args prmPassword typed dialled m cmds)
  then show ?case
    by (auto simp: main_prm_def newModel_def Init_def run_ok_def intact_def broken_def screen_ok_def timely_def Let_def split: sum.splits)
qed (rule tui_step_ok)

section \<open>The reconnection delays\<close>

lemma second_shifted: "push_bit (n + 55) (1000000000 :: 64 word) = 0"
proof -
  have "push_bit 55 (1000000000 :: 64 word) = 0" by simp
  then show ?thesis by (metis push_bit_push_bit push_bit_of_0)
qed

lemma backoffFor_late: "n \<ge> 55 \<Longrightarrow> backoffFor n = 0"
  using second_shifted [of "n - 55"] by (simp add: backoffFor_def)

lemma backoffFor_capped:
  assumes "5 \<le> n" and "n \<le> 54" shows "backoffFor n = 30 * 1000000000"
proof -
  have "\<forall>n \<in> set [5..<55]. backoffFor n = 30 * 1000000000" by code_simp
  moreover have "n \<in> set [5..<55]" using assms unfolding set_upt atLeastLessThan_iff by arith
  ultimately show ?thesis by blast
qed

lemma backoffFor_early:
  assumes "1 \<le> n" and "n \<le> 4" shows "backoffFor n = 2 ^ n * 1000000000"
proof -
  have "\<forall>n \<in> set [1..<5]. backoffFor n = 2 ^ n * 1000000000" by code_simp
  moreover have "n \<in> set [1..<5]" using assms unfolding set_upt atLeastLessThan_iff by arith
  ultimately show ?thesis by blast
qed

section \<open>A sample client\<close>

text \<open>A connection that has received the server's welcome and its acceptance, and nothing after them.\<close>

definition welcome_line :: bytes where
  "welcome_line = ''{\"type\":\"welcome\"}'' @ [CHR 0x0A]"

definition accept_line :: bytes where
  "accept_line = ''{\"type\":\"auth_ok\",\"account_id\":\"u1\"}'' @ [CHR 0x0A]"

definition sample_net :: "bytes conn_lib" where
  "sample_net = \<lparr>nt_write = (\<lambda>_ p. Inr p), nt_unread = (\<lambda>p. p), nt_consume = (\<lambda>rest _. rest)\<rparr>"

definition sample_client :: client_lib where
  "sample_client = \<lparr>cl_codec = \<lparr>fmt_time = (\<lambda>_. None), parse_time = (\<lambda>_. None), num64 = Some\<rparr>, cl_argon = (\<lambda>_ _ _ _ _ _. ''''),
     cl_b64 = id, cl_b64dec = Some\<rparr>"

definition sample_tui :: "(bytes, string, unit) tui_lib" where
  "sample_tui = \<lparr>tl_net = sample_net, tl_client = sample_client, tl_newInput = (\<lambda>_ _. ''''), tl_Value = id, tl_SetValue = (\<lambda>s _. s),
     tl_SetWidth = (\<lambda>_ i. i), tl_UpdateInput = (\<lambda>_ i. (i, [])), tl_InputView = id, tl_newView = (\<lambda>_ _. ()), tl_Resize = (\<lambda>_ _ v. v),
     tl_SetContent = (\<lambda>_ v. v), tl_GotoBottom = id, tl_UpdateView = (\<lambda>_ v. (v, [])), tl_ViewView = (\<lambda>_. ''''), tl_Render = (\<lambda>_ s. s),
     tl_Width = (\<lambda>_ s. s), tl_JoinHorizontal = (@), tl_clock = (\<lambda>_. ''''), tl_wireErr = (\<lambda>_. ''''), tl_clientErr = (\<lambda>_. ''''),
     tl_duration = (\<lambda>_. '''')\<rparr>"

definition sample_creds :: credentials where
  "sample_creds = \<lparr>cre_addr = ''host:1'', cre_tenant = ''acme'', cre_username = ''ann'', cre_channel = ''ops'', cre_password = '''',
     cre_token = ''t'', cre_insecure = False, cre_opMode = False\<rparr>"

lemma sample_hello: "\<not> isl (EncodeBytes (cl_codec sample_client) '''' (FHello \<lparr>hl_ID = '''', hl_ClientName = ''prm-tui'',
     hl_ClientVersion = ''0.1.0'', hl_CapVersion = ''0.1'', hl_Capabilities = []\<rparr>))"
  by (rule EncodeBytes_short) code_simp

lemma sample_request: "\<not> isl (EncodeBytes (cl_codec sample_client) '''' (FAuthRequest \<lparr>aq_ID = '''', aq_Method = AuthMethodToken,
     aq_Tenant = '''', aq_Username = '''', aq_Token = ''t''\<rparr>))"
  by (rule EncodeBytes_short) code_simp

lemma sample_welcome: "Decode (cl_codec sample_client) (welcome_line @ accept_line) =
    (Inr (FWelcome \<lparr>wl_ID = '''', wl_ServerName = '''', wl_ServerVersion = '''', wl_CapVersion = '''', wl_Capabilities = []\<rparr>), accept_line)"
proof -
  have "decode_line (cl_codec sample_client) ''{\"type\":\"welcome\"}'' =
      Inr (FWelcome \<lparr>wl_ID = '''', wl_ServerName = '''', wl_ServerVersion = '''', wl_CapVersion = '''', wl_Capabilities = []\<rparr>)"
    by code_simp
  then show ?thesis
    using Decode_line [of "''{\"type\":\"welcome\"}''" "cl_codec sample_client" accept_line] by (simp add: welcome_line_def MaxFrameSize_def)
qed

lemma sample_accept: "Decode (cl_codec sample_client) accept_line =
    (Inr (FAuthOK \<lparr>ao_ID = '''', ao_AccountID = ''u1'', ao_TenantID = '''', ao_AccountType = '''', ao_DisplayName = ''''\<rparr>), [])"
proof -
  have "decode_line (cl_codec sample_client) ''{\"type\":\"auth_ok\",\"account_id\":\"u1\"}'' =
      Inr (FAuthOK \<lparr>ao_ID = '''', ao_AccountID = ''u1'', ao_TenantID = '''', ao_AccountType = '''', ao_DisplayName = ''''\<rparr>)"
    by code_simp
  then show ?thesis
    using Decode_line [of "''{\"type\":\"auth_ok\",\"account_id\":\"u1\"}''" "cl_codec sample_client" "[]"]
    by (simp add: accept_line_def MaxFrameSize_def)
qed

lemma sample_login: "dialAndAuth sample_net sample_client sample_creds (Inr (welcome_line @ accept_line)) =
    Inr \<lparr>pc_conn = [], pc_accountID = ''u1'', pc_closed = False\<rparr>"
proof -
  have sends: "send sample_net sample_client f c = (None, c)" if "\<not> isl (EncodeBytes (cl_codec sample_client) '''' f)" for f and c :: "bytes prmClient"
    using that by (auto simp: send_def Encode_bytes sample_net_def isl_def split: sum.splits)
  have net: "nt_unread sample_net = (\<lambda>p. p)" "nt_consume sample_net = (\<lambda>rest _. rest)" by (simp_all add: sample_net_def)
  have tok: "cre_token sample_creds = ''t''" by (simp add: sample_creds_def)
  show ?thesis
    by (simp add: dialAndAuth_def sends [OF sample_hello] expectType_def read_frame_def net sample_welcome token_steps_def tok
        sends [OF sample_request] await_verdict_def expectAny_def sample_accept)
qed

definition sample_model :: "(bytes, string, unit) model" where
  "sample_model = newModel sample_tui \<lparr>pc_conn = [], pc_accountID = ''u1'', pc_closed = False\<rparr> sample_creds"

lemma sample_started: "main_prm sample_tui [''-token'', ''t'', ''host:1'', ''acme'', ''ann'', ''ops''] '''' None
    (Inr (welcome_line @ accept_line)) = Inr (sample_model, [SendJoin])"
proof -
  have "prm_credentials [''-token'', ''t'', ''host:1'', ''acme'', ''ann'', ''ops''] '''' None = Inr sample_creds"
    by (simp add: prm_credentials_def flag_Parse.simps flag_split_def flag_str_def flag_bool_def sample_creds_def Let_def)
  moreover have "tl_net sample_tui = sample_net" "tl_client sample_tui = sample_client" by (simp_all add: sample_tui_def)
  ultimately show ?thesis by (simp add: main_prm_def sample_login sample_model_def Init_def)
qed

text \<open>The run in which the connection ends and the client begins to reconnect.\<close>

definition sample_broken :: "(bytes, string, unit) run" where
  "sample_broken = \<lparr>rn_model = (fst (Update sample_tui (DisconnectMsg ErrEOF) sample_model)), rn_pending = [SendJoin, Reconnect 0 1],
     rn_inbox = [], rn_readers = 0\<rparr>"

lemma sample_broken_reachable: "tui_reachable sample_tui sample_broken"
proof -
  let ?r = "\<lparr>rn_model = sample_model, rn_pending = [SendJoin], rn_inbox = [], rn_readers = 1\<rparr>"
  have start: "tui_reachable sample_tui ?r" by (rule tui_reachable.started [OF sample_started])
  have eof: "Decode L [] = (Inl ErrEOF, [])" for L by (simp add: Decode.simps [of L "[]"] Scan_def)
  have conn: "pc_conn (md_cli sample_model) = []" by (simp add: sample_model_def newModel_def)
  have pump: "pump_step sample_net sample_client (md_cli sample_model) = (md_cli sample_model, Some (DisconnectMsg ErrEOF), False)"
    by (simp add: pump_step_def read_frame_def eof conn sample_net_def sample_model_def newModel_def)
  have lib: "tl_net sample_tui = sample_net" "tl_client sample_tui = sample_client" by (simp_all add: sample_tui_def)
  have "tui_step sample_tui ?r (?r\<lparr>rn_inbox := [DisconnectMsg ErrEOF], rn_readers := 0\<rparr>)"
    using tui_step.reading [of ?r sample_tui, unfolded lib, simplified, OF pump] by simp
  with start have second: "tui_reachable sample_tui (?r\<lparr>rn_inbox := [DisconnectMsg ErrEOF], rn_readers := 0\<rparr>)" by (rule tui_reachable.stepped)
  have "snd (Update sample_tui (DisconnectMsg ErrEOF) sample_model) = [Reconnect 0 1]"
    by (simp add: Update_def sample_model_def newModel_def scheduleReconnect_def Let_def)
  then have "Update sample_tui (DisconnectMsg ErrEOF) sample_model = (rn_model sample_broken, [Reconnect 0 1])"
    by (simp add: sample_broken_def prod_eq_iff)
  then have "tui_step sample_tui (?r\<lparr>rn_inbox := [DisconnectMsg ErrEOF], rn_readers := 0\<rparr>) sample_broken"
    using tui_step.update [of "?r\<lparr>rn_inbox := [DisconnectMsg ErrEOF], rn_readers := 0\<rparr>" "[]" "DisconnectMsg ErrEOF" "[]" sample_tui
        "rn_model sample_broken" "[Reconnect 0 1]"]
    by (simp add: sample_broken_def)
  with second show ?thesis by (rule tui_reachable.stepped)
qed

section \<open>Properties\<close>

text \<open>
  Property C13. The client holds exactly one link to the server, however frames, keys, timers and goroutines interleave: at
  every moment there is exactly one of a goroutine reading the connection, a notice that it broke on its way to
  \<^verbatim>\<open>Update\<close>, an attempt to reconnect, and the result of one; the state says reconnecting in the last two cases and
  only there. So a broken connection is always replaced, and never by two. The transcript holds at most 2000 lines and the
  roster's cursor stays on the roster.
\<close>

theorem one_link_to_the_server:
  assumes "tui_reachable T r"
  shows "rn_readers r + count is_disconnect (rn_inbox r) + count is_reconnect (rn_pending r) + count is_result (rn_inbox r) = 1 \<and>
    (md_reconnecting (rn_model r) \<longleftrightarrow> count is_reconnect (rn_pending r) + count is_result (rn_inbox r) = 1) \<and>
    length (md_lines (rn_model r)) \<le> 2000 \<and>
    0 \<le> md_rosterCursor (rn_model r) \<and> (md_rosterCursor (rn_model r) < int (length (md_members (rn_model r))) \<or> md_rosterCursor (rn_model r) = 0)"
  using tui_reachable_ok [OF assms] by (auto simp: run_ok_def intact_def broken_def screen_ok_def)

theorem one_link_to_the_server_witness:
  "md_reconnecting (rn_model sample_broken) \<and> length (md_lines (rn_model sample_broken)) \<le> 2000"
  using one_link_to_the_server [OF sample_broken_reachable] by (simp add: sample_broken_def)

text \<open>
  The delays between attempts to reconnect. The first attempt is immediate, the next four come after 2, 4, 8
  and 16 seconds, those up to the 55th after 30 seconds each; from the 56th on the shift has run out of its 64 bits and the
  client dials again without any delay.
\<close>

theorem reconnect_delays:
  assumes "tui_reachable T r" and "Reconnect d n \<in> set (rn_pending r)"
  shows "n \<ge> 1 \<and> (n = 1 \<longrightarrow> d = 0) \<and> (2 \<le> n \<and> n \<le> 5 \<longrightarrow> d = 2 ^ (n - 1) * 1000000000) \<and> (6 \<le> n \<and> n \<le> 55 \<longrightarrow> d = 30 * 1000000000) \<and>
    (n \<ge> 56 \<longrightarrow> d = 0)"
proof -
  have "timely (Reconnect d n)" using tui_reachable_ok [OF assms(1)] assms(2) by (auto simp: run_ok_def)
  then have d: "n \<ge> 1" "d = delay_of n" by (simp_all add: timely_def)
  show ?thesis
    using d backoffFor_early [of "n - 1"] backoffFor_capped [of "n - 1"] backoffFor_late [of "n - 1"]
    by (auto simp: delay_of_def)
qed

theorem reconnect_delays_witness: "\<exists>d. Reconnect d 1 \<in> set (rn_pending sample_broken) \<and> d = 0"
proof -
  have "Reconnect 0 1 \<in> set (rn_pending sample_broken)" by (simp add: sample_broken_def)
  then show ?thesis using reconnect_delays [OF sample_broken_reachable] by blast
qed

end
