(* ===== verification/Session.thy ===== *)
theory Session
  imports Client Server_Runs
begin

text \<open>
  The terminal client against the realtime server: the two models composed over one connection. What the client writes is
  decoded and dispatched by the server's read loop, what the server queues is written by its write loop, and the client
  decodes it. The login handshake of \<^verbatim>\<open>dialAndAuth\<close> then succeeds exactly with the password of the account.
\<close>

section \<open>The connection between the two\<close>

record link =
  lk_server :: Server
  lk_conn :: uuid
  lk_unread :: bytes

text \<open>The write loop on a queue of at most \<open>n\<close> entries.\<close>

fun flush :: "nat \<Rightarrow> Conn \<Rightarrow> bytes \<times> Conn" where
  "flush 0 c = ([], c)"
| "flush (Suc n) c =
     (case writeLoop_recv True c of
        ((None, _), c') \<Rightarrow> ([], c')
      | ((Some b, _), c') \<Rightarrow> let (out, c'') = flush n c' in (b @ out, c''))"

definition session_write :: "env \<Rightarrow> bytes \<Rightarrow> link \<Rightarrow> codec_error + link" where
  "session_write E b l =
     (case readStep E (lk_conn l) b (lk_server l) of
        None \<Rightarrow> Inl ErrWrite
      | Some (_, s) \<Rightarrow>
          (case sv_conns s (lk_conn l) of
             None \<Rightarrow> Inl ErrWrite
           | Some c \<Rightarrow> let (out, c') = flush (length (cn_out c)) c
                       in Inr \<lparr>lk_server = s\<lparr>sv_conns := (sv_conns s)(lk_conn l \<mapsto> c')\<rparr>, lk_conn = lk_conn l, lk_unread = lk_unread l @ out\<rparr>))"

definition session_net :: "env \<Rightarrow> link conn_lib" where
  "session_net E = \<lparr>nt_write = session_write E, nt_unread = lk_unread, nt_consume = (\<lambda>rest l. l\<lparr>lk_unread := rest\<rparr>)\<rparr>"

text \<open>The client hashes and codes as the server does.\<close>

definition same_codes :: "env \<Rightarrow> client_lib \<Rightarrow> bool" where
  "same_codes E K \<longleftrightarrow> cl_codec K = e_codec E \<and> cl_b64 K = e_b64 E \<and> cl_b64dec K = e_b64dec E \<and> (\<forall>b. e_b64dec E (e_b64 E b) = Some b) \<and>
     time_ok (e_codec E) \<and> num_ok (e_codec E)"

definition fits :: "env \<Rightarrow> Frame \<Rightarrow> bool" where
  "fits E f \<longleftrightarrow> flat_frame f \<and> (case EncodeBytes (e_codec E) '''' f of Inl _ \<Rightarrow> False | Inr b \<Rightarrow> length b \<le> MaxFrameSize)"

lemma fits_decodes:
  assumes "same_codes E K" and "fits E f"
  obtains b where "EncodeBytes (e_codec E) '''' f = Inr b" "\<And>rest. Decode (e_codec E) (b @ rest) = (Inr f, rest)"
proof -
  obtain b where b: "EncodeBytes (e_codec E) '''' f = Inr b" "length b \<le> MaxFrameSize" "flat_frame f"
    using assms(2) by (auto simp: fits_def split: sum.splits)
  have "time_ok (e_codec E)" "num_ok (e_codec E)" using assms(1) by (simp_all add: same_codes_def)
  from encoded_decodes [OF this b(3) _ b(1)] b(2) that [OF b(1)] show thesis by simp
qed

section \<open>One frame and its answer\<close>

definition idle :: "uuid \<Rightarrow> Server \<Rightarrow> Conn \<Rightarrow> bool" where
  "idle i s c \<longleftrightarrow> sv_conns s i = Some c \<and> cn_id c = i \<and> cn_out c = [] \<and> \<not> cn_closed c"

definition on_link :: "Server \<Rightarrow> uuid \<Rightarrow> link prmClient \<Rightarrow> link prmClient" where
  "on_link s i cli = cli\<lparr>pc_conn := \<lparr>lk_server = s, lk_conn = i, lk_unread = []\<rparr>\<rparr>"

lemma exchange:
  assumes "same_codes E K" and "fits E f" and "fits E g" and "idle i s c" and "idle i s1 c1"
    and "dispatch E c f s = sendFrame E i g s1"
  obtains cli1 where "send (session_net E) K f (on_link s i cli) = (None, cli1)"
    "read_frame (session_net E) K cli1 = (Inr g, on_link s1 i cli)"
proof -
  obtain b where b: "EncodeBytes (e_codec E) '''' f = Inr b" "\<And>rest. Decode (e_codec E) (b @ rest) = (Inr f, rest)"
    using fits_decodes [OF assms(1,2)] by blast
  obtain a where a: "EncodeBytes (e_codec E) '''' g = Inr a" "\<And>rest. Decode (e_codec E) (a @ rest) = (Inr g, rest)"
    using fits_decodes [OF assms(1,3)] by blast
  have codec: "cl_codec K = e_codec E" using assms(1) by (simp add: same_codes_def)
  have after: "dispatch E c f s = with_conn i (Enqueue a) s1" using assms(6) a(1) by (simp add: sendFrame_def enqueue_conn_def)
  have queue: "Enqueue a c1 = c1\<lparr>cn_out := [a]\<rparr>" using assms(5) by (simp add: Enqueue_def idle_def outboundQueueSize_def)
  have read: "readStep E i b s = Some ([], dispatch E c f s)"
    using b(2) [of "[]"] assms(4) by (simp add: readStep_def idle_def)
  have flushed: "flush 1 (c1\<lparr>cn_out := [a]\<rparr>) = (a, c1)" using assms(5) by (simp add: writeLoop_recv_def idle_def)
  have "session_write E b \<lparr>lk_server = s, lk_conn = i, lk_unread = []\<rparr> = Inr \<lparr>lk_server = s1, lk_conn = i, lk_unread = a\<rparr>"
    using assms(5) flushed by (simp add: session_write_def read after with_conn_def queue idle_def fun_upd_idem)
  moreover have "Encode (session_write E) (e_codec E) '''' f p = session_write E b p" for p
    using b(1) by (simp add: Encode_bytes)
  ultimately have "send (session_net E) K f (on_link s i cli) = (None, cli\<lparr>pc_conn := \<lparr>lk_server = s1, lk_conn = i, lk_unread = a\<rparr>\<rparr>)"
    by (simp add: send_def codec session_net_def on_link_def)
  moreover have "read_frame (session_net E) K (cli\<lparr>pc_conn := \<lparr>lk_server = s1, lk_conn = i, lk_unread = a\<rparr>\<rparr>) = (Inr g, on_link s1 i cli)"
    using a(2) [of "[]"] by (simp add: read_frame_def codec session_net_def on_link_def)
  ultimately show thesis by (rule that)
qed

section \<open>The handshake\<close>

abbreviation hello_frame :: Frame where
  "hello_frame \<equiv> FHello \<lparr>hl_ID = '''', hl_ClientName = ''prm-tui'', hl_ClientVersion = ''0.1.0'', hl_CapVersion = ''0.1'', hl_Capabilities = []\<rparr>"

abbreviation welcome_frame :: "Server \<Rightarrow> Frame" where
  "welcome_frame s \<equiv> FWelcome \<lparr>wl_ID = '''', wl_ServerName = sv_name s, wl_ServerVersion = sv_version s, wl_CapVersion = ''0.1'',
     wl_Capabilities = [''presence'', ''ping'']\<rparr>"

abbreviation request_frame :: "credentials \<Rightarrow> Frame" where
  "request_frame creds \<equiv> FAuthRequest \<lparr>aq_ID = '''', aq_Method = AuthMethodPassword, aq_Tenant = cre_tenant creds, aq_Username = cre_username creds,
     aq_Token = ''''\<rparr>"

abbreviation challenge_frame :: "env \<Rightarrow> bytes \<Rightarrow> Account \<Rightarrow> Frame" where
  "challenge_frame E nonce acc \<equiv> FAuthChallenge \<lparr>ac_ID = '''', ac_Salt = e_b64 E (acc_PasswordSalt acc), ac_Nonce = e_b64 E nonce,
     ac_Params = acc_PasswordParams acc\<rparr>"

abbreviation response_frame :: "env \<Rightarrow> bytes \<Rightarrow> Frame" where
  "response_frame E p \<equiv> FAuthResponse \<lparr>ar_ID = '''', ar_Proof = e_b64 E p\<rparr>"

abbreviation accepted_frame :: "env \<Rightarrow> Account \<Rightarrow> Tenant \<Rightarrow> Frame" where
  "accepted_frame E acc ten \<equiv> FAuthOK \<lparr>ao_ID = '''', ao_AccountID = e_uuid_String E (acc_ID acc), ao_TenantID = e_uuid_String E (ten_ID ten),
     ao_AccountType = acc_Type acc, ao_DisplayName = acc_DisplayName acc\<rparr>"

abbreviation refused_frame :: Frame where
  "refused_frame \<equiv> FAuthErr \<lparr>ae_ID = '''', ae_Reason = ''invalid_credentials'', ae_Detail = ''''\<rparr>"

text \<open>The frames that a login with the proof \<open>p\<close> may exchange.\<close>

definition login_frames :: "env \<Rightarrow> Server \<Rightarrow> credentials \<Rightarrow> bytes \<Rightarrow> Account \<Rightarrow> Tenant \<Rightarrow> bytes \<Rightarrow> Frame list" where
  "login_frames E s creds nonce acc ten p =
     [hello_frame, welcome_frame s, request_frame creds, challenge_frame E nonce acc, response_frame E p, accepted_frame E acc ten, refused_frame]"

definition pending_for :: "bytes \<Rightarrow> Account \<Rightarrow> Tenant \<Rightarrow> Challenge" where
  "pending_for nonce acc ten = \<lparr>cl_AccountID = acc_ID acc, cl_TenantID = ten_ID ten, cl_Nonce = nonce, cl_Salt = acc_PasswordSalt acc,
     cl_Params = acc_PasswordParams acc\<rparr>"

text \<open>What the server does with each of the client's frames.\<close>

lemma dispatch_hello: "cn_id c = i \<Longrightarrow> \<not> cn_authed c \<Longrightarrow> dispatch E c hello_frame s = sendFrame E i (welcome_frame s) s"
  by (simp add: dispatch_def handleHello_def)

lemma dispatch_request:
  assumes "cn_id c = i" and "\<not> cn_authed c" and "cre_tenant creds \<noteq> ''''" and "cre_username creds \<noteq> ''''"
    and "GetTenantBySlug (cre_tenant creds) (sv_store s) = Inr ten" and "ten_Status ten \<noteq> TenantSuspended"
    and "GetAccountByUsername (ten_ID ten) (cre_username creds) (sv_store s) = Inr acc" and "e_rand E = Some nonce"
  shows "dispatch E c (request_frame creds) s =
    sendFrame E i (challenge_frame E nonce acc) (with_conn i (\<lambda>c. c\<lparr>cn_pendingChal := Some (pending_for nonce acc ten)\<rparr>) s)"
  using assms by (simp add: dispatch_def handleAuthRequest_def handlePasswordAuthRequest_def BeginPasswordAuth_def pending_for_def)

lemma dispatch_response:
  assumes "cn_id c = i" and "\<not> cn_authed c" and "cn_pendingChal c = Some (pending_for nonce acc ten)" and "e_b64dec E (e_b64 E p) = Some p"
    and "GetAccountByID (ten_ID ten) (acc_ID acc) (sv_store s) = Inr acc" and "GetTenantByID (acc_TenantID acc) (sv_store s) = Inr ten"
  shows "dispatch E c (response_frame E p) s =
    (let s1 = with_conn i (\<lambda>c. c\<lparr>cn_pendingChal := None\<rparr>) s
     in if p = acc_PasswordHash acc
        then sendFrame E i (accepted_frame E acc ten) (with_conn i (\<lambda>c. c\<lparr>cn_tenantID := ten_ID ten, cn_accountID := acc_ID acc,
               cn_displayName := acc_DisplayName acc, cn_authed := True\<rparr>) s1)
        else sendFrame E i refused_frame s1)"
  using assms
  by (simp add: dispatch_def handleAuthResponse_def CompletePasswordAuth_def pending_for_def sendAuthErr_def authenticate_def Let_def)

lemma idle_with_conn: "idle i s c \<Longrightarrow> (\<And>c. cn_id (f c) = cn_id c) \<Longrightarrow> (\<And>c. cn_out (f c) = cn_out c) \<Longrightarrow> (\<And>c. cn_closed (f c) = cn_closed c) \<Longrightarrow>
    idle i (with_conn i f s) (f c)"
  by (simp add: idle_def with_conn_def)

section \<open>Properties\<close>

text \<open>The three changes that a login makes to the server's connection, and the verdict on a proof.\<close>

abbreviation challenged :: "bytes \<Rightarrow> Account \<Rightarrow> Tenant \<Rightarrow> Conn \<Rightarrow> Conn" where
  "challenged nonce acc ten c \<equiv> c\<lparr>cn_pendingChal := Some (pending_for nonce acc ten)\<rparr>"

abbreviation cleared :: "Conn \<Rightarrow> Conn" where
  "cleared c \<equiv> c\<lparr>cn_pendingChal := None\<rparr>"

abbreviation logged_in :: "Account \<Rightarrow> Tenant \<Rightarrow> Conn \<Rightarrow> Conn" where
  "logged_in acc ten c \<equiv> c\<lparr>cn_tenantID := ten_ID ten, cn_accountID := acc_ID acc, cn_displayName := acc_DisplayName acc, cn_authed := True\<rparr>"

lemma newConn_plain: "cn_id (newConn i) = i" "\<not> cn_authed (newConn i)"
  by (simp_all add: newConn_def)

lemma server_verdict:
  fixes i nonce
  assumes "store_ok (sv_store s)" and "GetTenantBySlug slug (sv_store s) = Inr ten"
    and acc: "GetAccountByUsername (ten_ID ten) user (sv_store s) = Inr acc" and "\<And>b. e_b64dec E (e_b64 E b) = Some b"
  defines "s1 \<equiv> with_conn i (challenged nonce acc ten) s"
  shows "dispatch E (challenged nonce acc ten (newConn i)) (response_frame E p) s1 =
    (if p = acc_PasswordHash acc then sendFrame E i (accepted_frame E acc ten) (with_conn i (logged_in acc ten) (with_conn i cleared s1))
     else sendFrame E i refused_frame (with_conn i cleared s1))"
proof -
  have "sv_store s1 = sv_store s" by (simp add: s1_def with_conn_def)
  moreover have "acc_TenantID acc = ten_ID ten" using GetAccountByUsername_Inr [OF acc] by simp
  ultimately show ?thesis
    using dispatch_response [of "challenged nonce acc ten (newConn i)" i nonce acc ten E p s1] newConn_plain [of i] assms(4)
      account_unique [OF assms(1) acc] tenant_by_id [OF assms(1,2)]
    by (simp add: Let_def)
qed

text \<open>The client's side: given what the connection delivers, the last frame decides.\<close>

lemma client_verdict:
  assumes "send N K hello_frame \<lparr>pc_conn = x, pc_accountID = '''', pc_closed = False\<rparr> = (None, h)" "read_frame N K h = (Inr (welcome_frame s), c1)"
    and "send N K (request_frame creds) c1 = (None, r)" "read_frame N K r = (Inr (challenge_frame E nonce acc), c2)"
    and "send N K (response_frame E p) c2 = (None, v)" "read_frame N K v = (Inr f, c3)"
    and "cre_token creds = ''''" and "cl_b64dec K (e_b64 E (acc_PasswordSalt acc)) = Some (acc_PasswordSalt acc)" and "cl_b64 K = e_b64 E"
    and "ComputeClientProof (cl_argon K) (cre_password creds) (acc_PasswordSalt acc) (acc_PasswordParams acc) = Some p"
  shows "f = accepted_frame E acc' ten \<Longrightarrow>
      dialAndAuth N K creds (Inr x) = Inr (c3\<lparr>pc_accountID := e_uuid_String E (acc_ID acc')\<rparr>)"
    and "f = refused_frame \<Longrightarrow> dialAndAuth N K creds (Inr x) = Inl (EAuthFailed ''invalid_credentials'' '''')"
  using assms by (simp_all add: dialAndAuth_def expectType_def expectAny_def password_steps_def await_verdict_def)

text \<open>
  Property C5. The client and the server agree on passwords. For a connection that has just been accepted, and credentials
  that name an account of a tenant that is not suspended, the client's \<^verbatim>\<open>dialAndAuth\<close> over that connection returns
  successfully exactly when the proof it computes from the password, the account's salt and its parameters is the stored hash; then the
  client knows its account id and the server's connection belongs to that account and tenant. With any other password the
  client reports the refusal and the server's connection stays unauthenticated.
\<close>

theorem client_login_correct:
  assumes codes: "same_codes E K" and idle: "idle i s (newConn i)" and ok: "store_ok (sv_store s)"
    and creds: "cre_token creds = ''''" "cre_tenant creds \<noteq> ''''" "cre_username creds \<noteq> ''''"
    and ten: "GetTenantBySlug (cre_tenant creds) (sv_store s) = Inr ten" "ten_Status ten \<noteq> TenantSuspended"
    and acc: "GetAccountByUsername (ten_ID ten) (cre_username creds) (sv_store s) = Inr acc" and rand: "e_rand E = Some nonce"
    and computed: "ComputeClientProof (cl_argon K) (cre_password creds) (acc_PasswordSalt acc) (acc_PasswordParams acc) = Some p"
    and fit: "\<And>f. f \<in> set (login_frames E s creds nonce acc ten p) \<Longrightarrow> fits E f"
  shows "dialAndAuth (session_net E) K creds (Inr \<lparr>lk_server = s, lk_conn = i, lk_unread = []\<rparr>) =
    (if p = acc_PasswordHash acc
     then Inr \<lparr>pc_conn = \<lparr>lk_server = s\<lparr>sv_conns := (sv_conns s)(i \<mapsto> (newConn i)\<lparr>cn_tenantID := ten_ID ten, cn_accountID := acc_ID acc,
                  cn_displayName := acc_DisplayName acc, cn_authed := True\<rparr>)\<rparr>, lk_conn = i, lk_unread = []\<rparr>,
                pc_accountID = e_uuid_String E (acc_ID acc), pc_closed = False\<rparr>
     else Inl (EAuthFailed ''invalid_credentials'' ''''))"
proof -
  let ?cli = "\<lparr>pc_conn = \<lparr>lk_server = s, lk_conn = i, lk_unread = []\<rparr>, pc_accountID = '''', pc_closed = False\<rparr>"
  let ?N = "session_net E" and ?n = "newConn i"
  have fits: "fits E hello_frame" "fits E (welcome_frame s)" "fits E (request_frame creds)" "fits E (challenge_frame E nonce acc)" "fits E (response_frame E p)"
    "fits E (accepted_frame E acc ten)" "fits E refused_frame"
    by (rule fit; simp add: login_frames_def)+
  have self: "on_link s i ?cli = ?cli" by (simp add: on_link_def)
  have b64: "cl_b64dec K (e_b64 E b) = Some b" "cl_b64 K = e_b64 E" "e_b64dec E (e_b64 E b) = Some b" for b
    using codes by (simp_all add: same_codes_def)
  define s1 where "s1 = with_conn i (challenged nonce acc ten) s"
  define s2 where "s2 = with_conn i cleared s1"
  define s3 where "s3 = with_conn i (logged_in acc ten) s2"
  have idle1: "idle i s1 (challenged nonce acc ten ?n)" unfolding s1_def by (rule idle_with_conn [OF idle]) simp_all
  have idle2: "idle i s2 (cleared (challenged nonce acc ten ?n))" unfolding s2_def by (rule idle_with_conn [OF idle1]) simp_all
  have idle3: "idle i s3 (logged_in acc ten (cleared (challenged nonce acc ten ?n)))" unfolding s3_def by (rule idle_with_conn [OF idle2]) simp_all
  note new = newConn_plain [of i]
  obtain h where hs: "send ?N K hello_frame (on_link s i ?cli) = (None, h)" "read_frame ?N K h = (Inr (welcome_frame s), on_link s i ?cli)"
    by (rule exchange [OF codes fits(1,2) idle idle dispatch_hello [OF new]])
  obtain r where rq: "send ?N K (request_frame creds) (on_link s i ?cli) = (None, r)" "read_frame ?N K r = (Inr (challenge_frame E nonce acc), on_link s1 i ?cli)"
    by (rule exchange [OF codes fits(3,4) idle idle1 dispatch_request [OF new creds(2,3) ten acc rand, folded s1_def]])
  note disp = server_verdict [OF ok ten(1) acc b64(3), where i = i and nonce = nonce and p = p, folded s1_def s2_def, folded s3_def]
  show ?thesis
  proof (cases "p = acc_PasswordHash acc")
    case True
    obtain v where "send ?N K (response_frame E p) (on_link s1 i ?cli) = (None, v)" "read_frame ?N K v = (Inr (accepted_frame E acc ten), on_link s3 i ?cli)"
      by (rule exchange [OF codes fits(5,6) idle1 idle3]) (use disp True in simp)
    from client_verdict(1) [OF hs [unfolded self] rq [unfolded self] this creds(1) b64(1,2) computed refl] show ?thesis
      using True idle by (simp add: on_link_def s3_def s2_def s1_def with_conn_def idle_def newConn_def)
  next
    case False
    obtain v where "send ?N K (response_frame E p) (on_link s1 i ?cli) = (None, v)" "read_frame ?N K v = (Inr refused_frame, on_link s2 i ?cli)"
      by (rule exchange [OF codes fits(5,7) idle1 idle2]) (use disp False in simp)
    from client_verdict(2) [OF hs [unfolded self] rq [unfolded self] this creds(1) b64(1,2) computed refl] show ?thesis using False by simp
  qed
qed

text \<open>A short frame fits.\<close>

lemma fits_short: "flat_frame f \<Longrightarrow> case marshalWithType (e_codec E) '''' f of Inl _ \<Rightarrow> False | Inr b \<Rightarrow> length b \<le> 200 \<Longrightarrow> fits E f"
  by (auto simp: fits_def EncodeBytes_def MaxFrameSize_def split: sum.splits)

definition session_client :: client_lib where
  "session_client = \<lparr>cl_codec = e_codec chat_env, cl_argon = (\<lambda>pw salt _ _ _ _. pw @ salt), cl_b64 = id, cl_b64dec = Some\<rparr>"

definition session_creds :: "string \<Rightarrow> credentials" where
  "session_creds pw = \<lparr>cre_addr = ''host:1'', cre_tenant = ''acme'', cre_username = ''ann'', cre_channel = ''ops'', cre_password = pw,
     cre_token = '''', cre_insecure = False, cre_opMode = False\<rparr>"

definition session_server :: Server where
  "session_server = accept 7 (chat_start\<lparr>sv_store := login_store\<rparr>)"

lemma session_hello: "case marshalWithType (e_codec chat_env) '''' (hello_frame) of Inl _ \<Rightarrow> False | Inr b \<Rightarrow> length b \<le> 200"
  by code_simp

lemma session_welcome: "case marshalWithType (e_codec chat_env) '''' (welcome_frame session_server) of Inl _ \<Rightarrow> False | Inr b \<Rightarrow> length b \<le> 200"
  by code_simp

lemma session_request: "case marshalWithType (e_codec chat_env) '''' (request_frame (session_creds ''pw'')) of Inl _ \<Rightarrow> False | Inr b \<Rightarrow> length b \<le> 200"
  by code_simp

lemma session_challenge: "case marshalWithType (e_codec chat_env) '''' (challenge_frame chat_env ''r'' login_account) of Inl _ \<Rightarrow> False | Inr b \<Rightarrow> length b \<le> 200"
  by code_simp

lemma session_response: "case marshalWithType (e_codec chat_env) '''' (response_frame chat_env ''pwsalt'') of Inl _ \<Rightarrow> False | Inr b \<Rightarrow> length b \<le> 200"
  by code_simp

lemma session_accept: "case marshalWithType (e_codec chat_env) '''' (accepted_frame chat_env login_account login_tenant) of Inl _ \<Rightarrow> False | Inr b \<Rightarrow> length b \<le> 200"
  by code_simp

lemma session_refuse: "case marshalWithType (e_codec chat_env) '''' (refused_frame) of Inl _ \<Rightarrow> False | Inr b \<Rightarrow> length b \<le> 200"
  by code_simp

theorem client_login_correct_witness:
  "\<exists>cli. dialAndAuth (session_net chat_env) session_client (session_creds ''pw'')
     (Inr \<lparr>lk_server = session_server, lk_conn = 7, lk_unread = []\<rparr>) = Inr cli \<and> pc_accountID cli = ''u''"
proof -
  have codes: "same_codes chat_env session_client"
    by (simp add: same_codes_def session_client_def chat_env_def time_ok_def num_ok_def)
  have idle: "idle 7 session_server (newConn 7)" by (simp add: session_server_def accept_def idle_def newConn_def)
  have store: "sv_store session_server = login_store" by (simp add: session_server_def accept_def)
  have ok: "store_ok (sv_store session_server)" by (simp add: store login_store_ok)
  have creds: "cre_token (session_creds ''pw'') = ''''" "cre_tenant (session_creds ''pw'') \<noteq> ''''" "cre_username (session_creds ''pw'') \<noteq> ''''"
    by (simp_all add: session_creds_def)
  have ten: "GetTenantBySlug (cre_tenant (session_creds ''pw'')) (sv_store session_server) = Inr login_tenant"
    and live: "ten_Status login_tenant \<noteq> TenantSuspended"
    and acc: "GetAccountByUsername (ten_ID login_tenant) (cre_username (session_creds ''pw'')) (sv_store session_server) = Inr login_account"
    by (simp_all add: store session_creds_def login_eval)
  have rand: "e_rand chat_env = Some ''r''" by (simp add: chat_env_def)
  have "cl_argon session_client = (\<lambda>pw salt _ _ _ _. pw @ salt)" by (simp add: session_client_def)
  then have proof_is: "ComputeClientProof (cl_argon session_client) (cre_password (session_creds ''pw'')) (acc_PasswordSalt login_account)
      (acc_PasswordParams login_account) = Some ''pwsalt''"
    by (simp add: ComputeClientProof_def parseParams_ParamsString login_account_def session_creds_def)
  have fit: "fits chat_env f" if "f \<in> set (login_frames chat_env session_server (session_creds ''pw'') ''r'' login_account login_tenant ''pwsalt'')" for f
    using that unfolding login_frames_def
    by (auto intro!: fits_short session_hello session_welcome session_request session_challenge session_response session_accept session_refuse)
  show ?thesis
    using client_login_correct [OF codes idle ok creds ten live acc rand proof_is fit]
    by (simp add: login_account_def) (simp add: chat_env_def)
qed

end
