(* ===== verification/Spec2Isabelle.thy ===== *)
theory Spec2Isabelle
  imports Store_History Channels Matcher Mention Payload Transport Webhook_Time Delivery Auth Server_Messages
    Rest_Safety Ha_Safety Credentials Tui_Safety Session
begin

text \<open>
  \<^bold>\<open>PRM: a multi-tenant chat server for people and bots.\<close>

  \<^bold>\<open>The program.\<close> Clients keep a TLS connection to \<^verbatim>\<open>internal/server\<close> and exchange JSON lines
  (\<^verbatim>\<open>internal/proto\<close>). A connection authenticates (\<^verbatim>\<open>internal/auth\<close>), joins channels kept in a sharded
  registry (\<^verbatim>\<open>internal/channels\<close>) and sends messages, which are fanned out to the members, kept in a ring per channel,
  written to the store by an asynchronous writer and offered to the webhook manager (\<^verbatim>\<open>internal/webhook\<close>). The manager
  matches them against the bots' subscriptions (\<^verbatim>\<open>internal/matcher\<close>, \<^verbatim>\<open>internal/mention\<close>), applies
  pauses, cooldowns, budgets and debouncing, and hands tasks to a worker pool that signs and delivers them over HTTP, AMQP
  or MQTT. Bots manage their subscriptions over the same connection (\<^verbatim>\<open>internal/subops\<close>). Everything durable is in a
  SQL store (\<^verbatim>\<open>internal/storage\<close>), with a time-to-live cache of tenants in front of it (\<^verbatim>\<open>internal/tenants\<close>).
  An HTTP control plane (\<^verbatim>\<open>internal/rest\<close>) offers the subscription operations to bots and takes in events of monitoring
  systems, which adapters (\<^verbatim>\<open>internal/inbound\<close>) normalize and the server republishes on a channel. The command
  \<^verbatim>\<open>prmd\<close> starts all of this on a database and administers it; \<^verbatim>\<open>prm\<close> is the terminal client.
  \<^verbatim>\<open>internal/ha\<close> elects a leader among several processes.

  \<^bold>\<open>The theories\<close>, each opening with what it holds:
  \<^item> \<open>Prelude\<close>: the model's basic types (a UUID is a 128-bit word, a byte string a list of characters, an instant an
    integer of nanoseconds), the parts of Go's standard library the code uses (number parsing, string operations), the
    collections \<open>go_simps\<close> and \<open>inv_intros\<close>, and laws of association lists, which stand for Go maps.
  \<^item> \<open>Bounded_Queue\<close>: the locale of a buffered channel with a non-blocking send. It is interpreted on the worker pool's
    queue, on a connection's outbound queue and on the history writer's input.
  \<^item> \<open>Storage\<close>, \<open>Sqlite\<close>: the rows and every method of the SQLite store, a table being the list of its rows.
    \<open>Store_Laws\<close> and \<open>Store_Integrity\<close> show that tenants are isolated, keys and references stay intact, the audit log
    only grows and a revoked token stays dead; \<open>Store_Life\<close> that tenants and accounts are only added and that tokens and
    integrations keep their state until a statement about them; \<open>Store_History\<close> is about the message log and paging through it.
  \<^item> \<open>Channels\<close>: channels, the history ring and the registry, refined to one flat map; the locale \<open>member\<close> is
    the contract of fan-out and is interpreted on the server's connections.
  \<^item> \<open>Json\<close>, \<open>Frames\<close>, \<open>Codec\<close>, \<open>Codec_Wire\<close>: JSON as \<^verbatim>\<open>encoding/json\<close> reads and writes it (the parser
    takes fuel, \<open>2 * length s + 2\<close> is proved enough), the frame structs, the line codec, and the round trip through it.
  \<^item> \<open>Matcher\<close>, \<open>Mention\<close>: match rules, with \<^verbatim>\<open>path.Match\<close> written out, and mentions.
  \<^item> \<open>Payload\<close>, \<open>Transport\<close>: the signed webhook payload, and the three transports with the messages they send, their
    connection caches and the locale \<open>transport\<close>, interpreted on each of them.
  \<^item> \<open>Webhook_Manager\<close>, \<open>Webhook_Gates\<close>, \<open>Webhook_Time\<close>, \<open>Webhook_Worker\<close>: the manager's cache and gates with timers as
    armed deadlines; its commands, the exact index and what a pause suppresses and records; one live subscription over arbitrary
    interleavings, its cooldown and its batches from the match to the worker; and delivery with retries.
  \<^item> \<open>Delivery\<close>: the worker over the transports as the subscriber sees it: every message that leaves can be verified;
    stopping the manager, and the keys of the connection pools.
  \<^item> \<open>Auth\<close>, \<open>Tenants\<close>, \<open>Subops\<close>: the password handshake and tokens, the tenant cache, and the subscription
    operations over store and manager.
  \<^item> \<open>Inbound\<close>, \<open>Server_Conn\<close>, \<open>Server_Handlers\<close>: the realtime server. \<open>Server_Conn\<close> has the state (connections, history
    writer, server) and the helpers; \<open>Server_Handlers\<close> one definition per handler, \<open>dispatch\<close>, the steps of the read, write
    and ping loops, and the republishing of inbound events.
  \<^item> \<open>Server_Safety\<close>: the server invariant and the contract \<open>acts\<close> of a step of an authenticated connection, which is
    closed under composition, and that every handler keeps it. \<open>Server_Runs\<close>: the transition relation of the server's goroutines, the
    invariant in every reachable state, tenant confinement, authentication and access to channels. \<open>Server_Messages\<close>: what
    messages, moderation, the history writer and the roster achieve.
  \<^item> \<open>Adapters\<close>, \<open>Adapter_Laws\<close>: the adapter registry and the five adapters, a result \<open>None\<close> being a run-time panic; what
    an adapter promises is the locale \<open>inbound_adapter\<close>, and \<open>total_adapter\<close> extends it for those that never panic; both are
    interpreted on the five adapters.
  \<^item> \<open>Rest\<close>, \<open>Rest_Laws\<close>, \<open>Rest_Safety\<close>: routing, authentication and every handler of the control plane over the
    realtime server's state; the effect of each handler; and what holds for every request: who may act, whose subscriptions
    change, where inbound events go, that errors change nothing but the last use of the token, that reads hide the secrets, and
    that the control plane agrees with the realtime verbs.
  \<^item> \<open>Ha\<close>, \<open>Ha_Safety\<close>: contexts, the local and the Postgres elector, the latter as a transition relation over processes,
    sessions and the advisory lock; exclusive leases, noticed losses, and the window in which two processes lead. The locale
    \<open>elector\<close> is interpreted on both electors.
  \<^item> \<open>Flags\<close>, \<open>Admin\<close>, \<open>Serve_Start\<close>, \<open>Admin_Safety\<close>, \<open>Credentials\<close>: Go's \<^verbatim>\<open>flag\<close> package, the commands of
    \<^verbatim>\<open>prmd\<close> on a disk of databases, the state in which \<^verbatim>\<open>serve\<close> comes up, the locale \<open>admin_command\<close> with an
    interpretation for each of the thirteen commands, and what tokens, integrations and roles made on the command line mean
    to the running server.
  \<^item> \<open>Client\<close>, \<open>Tui\<close>, \<open>Tui_Safety\<close>: the login and the terminal interface of \<^verbatim>\<open>prm\<close>, with its goroutines, timers and
    message queue as a transition relation; one link to the server at any time, and the delays between attempts to reconnect.
  \<^item> \<open>Session\<close>: client and server put together over a connection, and the login that results.

  \<^bold>\<open>How the model corresponds to the code.\<close> Definitions keep the names of the Go functions; a record field is the Go field with
  a short prefix. Errors are values of sum or option types, in the order in which the code tests them. What the code reads from
  outside (the clock, random bytes, fresh UUIDs) and third-party code (Argon2, HMAC, SHA-256, base64, regular
  expressions, URL and UUID parsing, time formatting, the brokers and the HTTP client) are arguments. Pointers that are shared are heaps: the
  manager's live subscriptions by index, the server's connections by id. A locked section, and the handling of one frame, is one step;
  a goroutine started in the background (the write of a token's last use after an authentication, by frame or by request) is a
  pending entry with a step of its own. Store failures are the flag \<open>st_down\<close> and
  the constraint errors of the statements. A request of the control plane is one step over the realtime server's state, which the
  two planes share. The libraries of the terminal (text input, viewport, styles) are a record of functions.

  \<^bold>\<open>Bounds and fuel.\<close> The queue bounds are the constants of the code. Loops over lists are structural; the decoder and the
  string scanner recurse on the remaining input; the delivery loop recurses on the attempts that are left. Shifts and indices
  that can overflow (retry delays, path indices of the generic adapter) are wrapped to 64 bits.

  \<^bold>\<open>Simplified.\<close> \<^verbatim>\<open>strings.TrimSpace\<close>, \<^verbatim>\<open>ToLower\<close> and \<^verbatim>\<open>EqualFold\<close> know ASCII only. Migrating a database that
  exists is the identity, an absent one reads as freshly migrated, and the rows read back are those the methods wrote, so no row fails to parse.
  The router's own 404 and 405 answers have no body, and its redirects of uncleaned paths are left out. The advisory lock of
  Postgres is the documented one (a session holds it until it unlocks it or ends), written out. A run of \<^verbatim>\<open>serve\<close> is followed up to
  the listening servers; how it exits afterwards is left out.

  \<^bold>\<open>Not modelled.\<close> Sockets, TLS, flush timing and logging, which do not change the state above; the interleaving of two handlers
  inside one frame or request; strings that are not valid UTF-8; the text of usage messages. The development certificate
  (\<^verbatim>\<open>internal/server/devcert.go\<close>) is key generation and X.509 encoding by the standard library, of which the server
  command only uses the outcome.
\<close>

end
